(* ===== verification/Prelude.thy ===== *)
theory Prelude
  imports Main
begin

text \<open>
  The shared layer of the development: the named collections the component proofs
  feed to the simplifier, the machine-size arithmetic of the source (\<open>usize\<close>
  counters with Rust's saturating operations), and the generic facts on lists that
  several components need.

  A Rust \<open>usize\<close>, \<open>u64\<close> or \<open>i64\<close> that counts or identifies something and never
  wraps in the source is a \<open>nat\<close> or an \<open>int\<close> here; \<open>saturating_sub\<close> is exactly
  subtraction on \<open>nat\<close>, and \<open>saturating_add\<close> is \<open>sat_add\<close>, which keeps the ceiling.
  A Rust \<open>String\<close> is the list of its UTF-8 bytes (a HOL \<open>string\<close>), so lengths and
  offsets are byte lengths and byte offsets, as in the source.
\<close>

section \<open>Collections\<close>

named_theorems nav_simps \<open>unfolding rules of the selection and scrolling operations\<close>
named_theorems inv_intros \<open>preservation lemmas: one per operation of a component\<close>

section \<open>Saturating arithmetic\<close>

definition usize_max :: nat where
  "usize_max = 18446744073709551615"

definition sat_add :: "nat \<Rightarrow> nat \<Rightarrow> nat" where
  "sat_add a b = min (a + b) usize_max"

lemma sat_add_min:
  "m \<le> usize_max \<Longrightarrow> min (sat_add a b) m = min (a + b) m"
  by (simp add: sat_add_def)

lemma sat_add_le: "sat_add a b \<le> a + b"
  by (simp add: sat_add_def)

section \<open>Results\<close>

text \<open>\<open>Result<T, E>\<close> of the source: \<open>Inl\<close> the error, \<open>Inr\<close> the value; \<open>?\<close> is \<open>bind_result\<close>.\<close>

fun bind_result :: "'e + 'a \<Rightarrow> ('a \<Rightarrow> 'e + 'b) \<Rightarrow> 'e + 'b" where
  "bind_result (Inl e) f = Inl e"
| "bind_result (Inr a) f = f a"

lemma bind_result_Inr [simp]:
  "bind_result r f = Inr b \<longleftrightarrow> (\<exists>a. r = Inr a \<and> f a = Inr b)"
  by (cases r) auto

lemma bind_result_Inl:
  "bind_result r f = Inl e \<longleftrightarrow> r = Inl e \<or> (\<exists>a. r = Inr a \<and> f a = Inl e)"
  by (cases r) auto

section \<open>Lists\<close>

text \<open>\<open>slice.get(i)\<close>: the element, or \<open>None\<close> out of range.\<close>

definition get_at :: "'a list \<Rightarrow> nat \<Rightarrow> 'a option" where
  "get_at xs i = (if i < length xs then Some (xs ! i) else None)"

lemma get_at_Some [simp]: "get_at xs i = Some x \<longleftrightarrow> i < length xs \<and> xs ! i = x"
  by (simp add: get_at_def)

lemma get_at_None [simp]: "get_at xs i = None \<longleftrightarrow> length xs \<le> i"
  by (simp add: get_at_def)

lemma get_at_lt: "i < length xs \<Longrightarrow> get_at xs i = Some (xs ! i)"
  by simp

text \<open>\<open>iter().position(p)\<close>: the index of the first element that satisfies \<open>p\<close>.\<close>

fun position :: "('a \<Rightarrow> bool) \<Rightarrow> 'a list \<Rightarrow> nat option" where
  "position p [] = None"
| "position p (x # xs) = (if p x then Some 0 else map_option Suc (position p xs))"

lemma position_Some:
  "position p xs = Some i \<Longrightarrow> i < length xs \<and> p (xs ! i) \<and> (\<forall>j<i. \<not> p (xs ! j))"
proof (induction xs arbitrary: i)
  case Nil
  then show ?case by simp
next
  case (Cons x xs)
  show ?case
  proof (cases "p x")
    case True
    with Cons.prems show ?thesis by auto
  next
    case False
    with Cons.prems obtain k where k: "position p xs = Some k" "i = Suc k" by auto
    from Cons.IH [OF k(1)] False k(2) show ?thesis
      by (auto simp: less_Suc_eq_0_disj)
  qed
qed

lemma position_None: "position p xs = None \<longleftrightarrow> (\<forall>x \<in> set xs. \<not> p x)"
  by (induction xs) auto

text \<open>\<open>if v.len() > cap { v.remove(0) }\<close>: drop the oldest entry of an over-full list.\<close>

definition trim_front :: "nat \<Rightarrow> 'a list \<Rightarrow> 'a list" where
  "trim_front cap xs = (if length xs > cap then tl xs else xs)"

lemma length_trim_front: "length xs \<le> Suc cap \<Longrightarrow> length (trim_front cap xs) \<le> cap"
  by (auto simp: trim_front_def)

lemma trim_front_id [simp]: "length xs \<le> cap \<Longrightarrow> trim_front cap xs = xs"
  by (simp add: trim_front_def)

text \<open>The last \<open>n\<close> elements, what a ring of capacity \<open>n\<close> keeps of a stream.\<close>

definition last_n :: "nat \<Rightarrow> 'a list \<Rightarrow> 'a list" where
  "last_n n xs = drop (length xs - n) xs"

lemma length_last_n [simp]: "length (last_n n xs) = min n (length xs)"
  by (simp add: last_n_def)

lemma set_last_n: "set (last_n n xs) \<subseteq> set xs"
  by (simp add: last_n_def set_drop_subset)

lemma last_n_id [simp]: "length xs \<le> n \<Longrightarrow> last_n n xs = xs"
  by (simp add: last_n_def)

lemma last_n_append: "last_n n (last_n n xs @ ys) = last_n n (xs @ ys)"
proof (cases "length xs \<le> n")
  case True
  then show ?thesis by simp
next
  case False
  then show ?thesis by (simp add: last_n_def add.commute)
qed

lemma sorted_wrt_last_n: "sorted_wrt P xs \<Longrightarrow> sorted_wrt P (last_n n xs)"
  by (simp add: last_n_def sorted_wrt_drop)

end
