(* ===== verification/App_Types.thy ===== *)
theory App_Types
  imports Prelude
begin

text \<open>
  The types of \<open>src/src/app/state/mod.rs\<close> the other components share: the five views
  and the cyclic order in which \<open>Tab\<close> walks them.
\<close>

section \<open>Views\<close>

datatype view_id = Overview | Bulletins | Browser | Events | Tracer

fun view_next :: "view_id \<Rightarrow> view_id" where
  "view_next Overview = Bulletins"
| "view_next Bulletins = Browser"
| "view_next Browser = Events"
| "view_next Events = Tracer"
| "view_next Tracer = Overview"

fun view_prev :: "view_id \<Rightarrow> view_id" where
  "view_prev Overview = Tracer"
| "view_prev Bulletins = Overview"
| "view_prev Browser = Bulletins"
| "view_prev Events = Browser"
| "view_prev Tracer = Events"

text \<open>The discriminant, \<open>view as u8\<close>.\<close>

fun view_index :: "view_id \<Rightarrow> nat" where
  "view_index Overview = 0"
| "view_index Bulletins = 1"
| "view_index Browser = 2"
| "view_index Events = 3"
| "view_index Tracer = 4"

lemma view_prev_next [simp]: "view_prev (view_next v) = v"
  by (cases v) simp_all

lemma view_next_prev [simp]: "view_next (view_prev v) = v"
  by (cases v) simp_all

lemma view_next_index: "view_index (view_next v) = (view_index v + 1) mod 5"
  by (cases v) simp_all

lemma view_index_inj: "view_index v = view_index w \<Longrightarrow> v = w"
  by (cases v; cases w) simp_all

instantiation view_id :: linorder
begin

definition less_eq_view_id :: "view_id \<Rightarrow> view_id \<Rightarrow> bool" where
  "less_eq_view_id v w \<longleftrightarrow> view_index v \<le> view_index w"

definition less_view_id :: "view_id \<Rightarrow> view_id \<Rightarrow> bool" where
  "less_view_id v w \<longleftrightarrow> view_index v < view_index w"

instance
  by standard (auto simp: less_eq_view_id_def less_view_id_def intro: view_index_inj)

end

end
