(* ===== verification/Tab_History.thy ===== *)
theory Tab_History
  imports App_Types
begin

text \<open>
  \<open>src/src/app/history.rs\<close>: the back/forward history of cross-link jumps, two stacks
  whose last element is the top. The library part proves that the two stacks together
  never hold more than \<open>MAX_HISTORY\<close> entries, so that the eviction inside
  \<open>pop_back\<close> and \<open>pop_forward\<close> is never reached from a fresh history.
\<close>

section \<open>State\<close>

definition max_history :: nat where
  "max_history = 20"

datatype selection_anchor = ComponentId string | RowIndex nat

record history_entry =
  he_tab :: view_id
  he_anchor :: "selection_anchor option"

record tab_history =
  th_back :: "history_entry list"
  th_forward :: "history_entry list"

definition history_default :: tab_history where
  "history_default = \<lparr>th_back = [], th_forward = []\<rparr>"

section \<open>Operations\<close>

definition history_push :: "history_entry \<Rightarrow> tab_history \<Rightarrow> tab_history" where
  "history_push entry h =
     h\<lparr>th_forward := [], th_back := trim_front max_history (th_back h @ [entry])\<rparr>"

definition pop_back :: "history_entry \<Rightarrow> tab_history \<Rightarrow> history_entry option \<times> tab_history" where
  "pop_back current h =
     (if th_back h = [] then (None, h)
      else (Some (last (th_back h)),
            h\<lparr>th_back := butlast (th_back h),
              th_forward := trim_front max_history (th_forward h @ [current])\<rparr>))"

definition pop_forward :: "history_entry \<Rightarrow> tab_history \<Rightarrow> history_entry option \<times> tab_history" where
  "pop_forward current h =
     (if th_forward h = [] then (None, h)
      else (Some (last (th_forward h)),
            h\<lparr>th_forward := butlast (th_forward h),
              th_back := trim_front max_history (th_back h @ [current])\<rparr>))"

definition can_go_back :: "tab_history \<Rightarrow> bool" where
  "can_go_back h \<longleftrightarrow> th_back h \<noteq> []"

definition can_go_forward :: "tab_history \<Rightarrow> bool" where
  "can_go_forward h \<longleftrightarrow> th_forward h \<noteq> []"

text \<open>The public interface as commands, and a session as a list of them.\<close>

datatype history_cmd =
  Push history_entry | PopBack history_entry | PopForward history_entry

fun history_step :: "tab_history \<Rightarrow> history_cmd \<Rightarrow> tab_history" where
  "history_step h (Push e) = history_push e h"
| "history_step h (PopBack c) = snd (pop_back c h)"
| "history_step h (PopForward c) = snd (pop_forward c h)"

definition history_run :: "tab_history \<Rightarrow> history_cmd list \<Rightarrow> tab_history" where
  "history_run = foldl history_step"

section \<open>The bound\<close>

definition history_inv :: "tab_history \<Rightarrow> bool" where
  "history_inv h \<longleftrightarrow> length (th_back h) + length (th_forward h) \<le> max_history"

lemma history_inv_default: "history_inv history_default"
  by (simp add: history_inv_def history_default_def)

lemma history_inv_push [inv_intros]: "history_inv h \<Longrightarrow> history_inv (history_push e h)"
  by (simp add: history_inv_def history_push_def length_trim_front)

lemma history_inv_pop_back [inv_intros]:
  "history_inv h \<Longrightarrow> history_inv (snd (pop_back c h))"
  by (cases "th_back h" rule: rev_cases) (auto simp: history_inv_def pop_back_def)

lemma history_inv_pop_forward [inv_intros]:
  "history_inv h \<Longrightarrow> history_inv (snd (pop_forward c h))"
  by (cases "th_forward h" rule: rev_cases) (auto simp: history_inv_def pop_forward_def)

lemma history_inv_step: "history_inv h \<Longrightarrow> history_inv (history_step h c)"
  by (cases c) (simp_all add: inv_intros)

lemma history_inv_run: "history_inv h \<Longrightarrow> history_inv (history_run h cs)"
  unfolding history_run_def
  by (induction cs arbitrary: h) (simp_all add: history_inv_step)

section \<open>Back and forward undo each other\<close>

lemma pop_back_forward:
  assumes "history_inv h" and "th_back h \<noteq> []"
  shows "pop_forward (last (th_back h)) (snd (pop_back c h)) = (Some c, h)"
proof -
  obtain bs b where b: "th_back h = bs @ [b]"
    using assms(2) by (cases "th_back h" rule: rev_cases) auto
  with assms(1) have "length (th_forward h @ [c]) \<le> max_history"
    and "length (bs @ [b]) \<le> max_history"
    by (simp_all add: history_inv_def)
  with b show ?thesis
    by (simp add: pop_back_def pop_forward_def)
qed

lemma pop_forward_back:
  assumes "history_inv h" and "th_forward h \<noteq> []"
  shows "pop_back (last (th_forward h)) (snd (pop_forward c h)) = (Some c, h)"
proof -
  obtain fs f where f: "th_forward h = fs @ [f]"
    using assms(2) by (cases "th_forward h" rule: rev_cases) auto
  with assms(1) have "length (th_back h @ [c]) \<le> max_history"
    and "length (fs @ [f]) \<le> max_history"
    by (simp_all add: history_inv_def)
  with f show ?thesis
    by (simp add: pop_back_def pop_forward_def)
qed

section \<open>Properties\<close>

text \<open>
  C36: after any session from a fresh history the two stacks together hold at most
  \<open>MAX_HISTORY\<close> (20) entries. In particular the eviction branches of \<open>pop_back\<close> and
  \<open>pop_forward\<close> never drop an entry.
\<close>

theorem history_bounded:
  "length (th_back (history_run history_default cs)) +
   length (th_forward (history_run history_default cs)) \<le> 20"
  using history_inv_run [OF history_inv_default, of cs]
  by (simp add: history_inv_def max_history_def)

text \<open>
  In every state a session can reach, going back and then forward (handing in the
  entry just shown) returns the entry one came from and restores the history exactly.
\<close>

theorem history_back_then_forward:
  assumes "can_go_back (history_run history_default cs)"
  shows "\<exists>e h'. pop_back current (history_run history_default cs) = (Some e, h') \<and>
           pop_forward e h' = (Some current, history_run history_default cs)"
proof -
  let ?h = "history_run history_default cs"
  have "history_inv ?h" by (rule history_inv_run [OF history_inv_default])
  then have "pop_forward (last (th_back ?h)) (snd (pop_back current ?h)) = (Some current, ?h)"
    using assms by (simp add: pop_back_forward can_go_back_def)
  moreover have "pop_back current ?h = (Some (last (th_back ?h)), snd (pop_back current ?h))"
    using assms by (simp add: pop_back_def can_go_back_def)
  ultimately show ?thesis by blast
qed

lemma history_back_then_forward_witness:
  "can_go_back (history_run history_default [Push \<lparr>he_tab = Bulletins, he_anchor = None\<rparr>]) \<and>
   (\<exists>e h'. pop_back \<lparr>he_tab = Browser, he_anchor = None\<rparr>
        (history_run history_default [Push \<lparr>he_tab = Bulletins, he_anchor = None\<rparr>]) = (Some e, h') \<and>
      pop_forward e h' = (Some \<lparr>he_tab = Browser, he_anchor = None\<rparr>,
        history_run history_default [Push \<lparr>he_tab = Bulletins, he_anchor = None\<rparr>]))"
proof -
  have h: "can_go_back (history_run history_default [Push \<lparr>he_tab = Bulletins, he_anchor = None\<rparr>])"
    by (simp add: can_go_back_def history_run_def history_push_def history_default_def
        max_history_def)
  show ?thesis
    using h history_back_then_forward [OF h, of "\<lparr>he_tab = Browser, he_anchor = None\<rparr>"] by blast
qed

end
