(* ===== verification/List_Navigation.thy ===== *)
theory List_Navigation
  imports Prelude
begin

text \<open>
  \<open>src/src/app/navigation.rs\<close>. The trait \<open>ListNavigation\<close> is a record of its four
  required methods, and each default method is a function of that record, so that the
  same code serves every implementor. The locale \<open>list_navigation\<close> is the contract an
  implementor owes the trait; the movement laws are proved once inside it. This theory
  also holds \<open>CursorRef\<close>, the implementor for a bare index, and the scroll window.
\<close>

section \<open>The trait\<close>

record 's list_nav =
  nav_len :: "'s \<Rightarrow> nat"
  nav_selected :: "'s \<Rightarrow> nat option"
  nav_set :: "nat option \<Rightarrow> 's \<Rightarrow> 's"
  nav_wraps :: bool

definition nav_move_up :: "'s list_nav \<Rightarrow> 's \<Rightarrow> 's" where
  "nav_move_up N s =
     (let len = nav_len N s in
      if len = 0 then s
      else case nav_selected N s of
        None \<Rightarrow> nav_set N (Some 0) s
      | Some current \<Rightarrow>
          if current = 0 then (if nav_wraps N then nav_set N (Some (len - 1)) s else s)
          else nav_set N (Some (current - 1)) s)"

definition nav_move_down :: "'s list_nav \<Rightarrow> 's \<Rightarrow> 's" where
  "nav_move_down N s =
     (let len = nav_len N s in
      if len = 0 then s
      else case nav_selected N s of
        None \<Rightarrow> nav_set N (Some 0) s
      | Some current \<Rightarrow>
          if current \<ge> len - 1 then (if nav_wraps N then nav_set N (Some 0) s else s)
          else nav_set N (Some (current + 1)) s)"

definition nav_page_up :: "'s list_nav \<Rightarrow> nat \<Rightarrow> 's \<Rightarrow> 's" where
  "nav_page_up N page_size s =
     (let len = nav_len N s in
      if len = 0 then s
      else case nav_selected N s of
        None \<Rightarrow> nav_set N (Some 0) s
      | Some current \<Rightarrow> nav_set N (Some (current - page_size)) s)"

definition nav_page_down :: "'s list_nav \<Rightarrow> nat \<Rightarrow> 's \<Rightarrow> 's" where
  "nav_page_down N page_size s =
     (let len = nav_len N s in
      if len = 0 then s
      else case nav_selected N s of
        None \<Rightarrow> nav_set N (Some 0) s
      | Some current \<Rightarrow> nav_set N (Some (min (sat_add current page_size) (len - 1))) s)"

definition nav_goto_first :: "'s list_nav \<Rightarrow> 's \<Rightarrow> 's" where
  "nav_goto_first N s = (if nav_len N s = 0 then s else nav_set N (Some 0) s)"

definition nav_goto_last :: "'s list_nav \<Rightarrow> 's \<Rightarrow> 's" where
  "nav_goto_last N s =
     (let len = nav_len N s in if len = 0 then s else nav_set N (Some (len - 1)) s)"

lemmas nav_defs = nav_move_up_def nav_move_down_def nav_page_up_def nav_page_down_def
  nav_goto_first_def nav_goto_last_def

text \<open>The methods as commands.\<close>

datatype nav_cmd = MoveUp | MoveDown | PageUp nat | PageDown nat | GotoFirst | GotoLast

fun nav_apply :: "'s list_nav \<Rightarrow> 's \<Rightarrow> nav_cmd \<Rightarrow> 's" where
  "nav_apply N s MoveUp = nav_move_up N s"
| "nav_apply N s MoveDown = nav_move_down N s"
| "nav_apply N s (PageUp k) = nav_page_up N k s"
| "nav_apply N s (PageDown k) = nav_page_down N k s"
| "nav_apply N s GotoFirst = nav_goto_first N s"
| "nav_apply N s GotoLast = nav_goto_last N s"

definition nav_run :: "'s list_nav \<Rightarrow> 's \<Rightarrow> nav_cmd list \<Rightarrow> 's" where
  "nav_run N = foldl (nav_apply N)"

section \<open>The abstract cursor\<close>

text \<open>
  What the trait promises, on a bare position in a list of \<open>n > 0\<close> rows: one step up or
  down is modular when the list wraps and clamped otherwise, a page always clamps.
\<close>

fun cursor_spec :: "bool \<Rightarrow> nat \<Rightarrow> nat \<Rightarrow> nav_cmd \<Rightarrow> nat" where
  "cursor_spec wraps n i MoveUp = (if wraps then (i + n - 1) mod n else i - 1)"
| "cursor_spec wraps n i MoveDown = (if wraps then (i + 1) mod n else min (i + 1) (n - 1))"
| "cursor_spec wraps n i (PageUp k) = i - k"
| "cursor_spec wraps n i (PageDown k) = min (i + k) (n - 1)"
| "cursor_spec wraps n i GotoFirst = 0"
| "cursor_spec wraps n i GotoLast = n - 1"

lemma mod_dec: "0 < i \<Longrightarrow> i < n \<Longrightarrow> (i + n - Suc 0) mod n = i - Suc 0" for i n :: nat
  using mod_add_self2 [of "i - Suc 0" n] by (simp del: mod_add_self2)

lemma cursor_spec_bound: "i < n \<Longrightarrow> cursor_spec w n i c < n"
  by (cases c) auto

section \<open>The contract\<close>

text \<open>
  An implementor keeps the selection inside the list while the list is the same: its
  state satisfies \<open>ok\<close>, \<open>ok\<close> means that the selection exists exactly when the list is
  not empty and is in range, and selecting an in-range row is visible afterwards and
  changes neither the length nor \<open>ok\<close>.
\<close>

locale list_navigation =
  fixes N :: "'s list_nav"
    and ok :: "'s \<Rightarrow> bool"
  assumes ok_range: "ok s \<Longrightarrow> 0 < nav_len N s \<Longrightarrow> \<exists>i. nav_selected N s = Some i \<and> i < nav_len N s"
    and ok_set: "ok s \<Longrightarrow> i < nav_len N s \<Longrightarrow> ok (nav_set N (Some i) s)"
    and len_set: "ok s \<Longrightarrow> i < nav_len N s \<Longrightarrow> nav_len N (nav_set N (Some i) s) = nav_len N s"
    and selected_set: "ok s \<Longrightarrow> i < nav_len N s \<Longrightarrow> nav_selected N (nav_set N (Some i) s) = Some i"
    and len_machine: "ok s \<Longrightarrow> nav_len N s \<le> usize_max"
begin

lemma page_down_pos:
  "ok s \<Longrightarrow> 0 < nav_len N s \<Longrightarrow>
     min (sat_add i k) (nav_len N s - 1) = min (i + k) (nav_len N s - 1)"
  using len_machine [of s] by (intro sat_add_min) simp

lemma apply_empty: "nav_len N s = 0 \<Longrightarrow> nav_apply N s c = s"
  by (cases c) (simp_all add: nav_defs)

text \<open>Every command moves the selection as the abstract cursor does.\<close>

lemma apply_cases:
  assumes "ok s" and "0 < nav_len N s" and "nav_selected N s = Some i" and "i < nav_len N s"
  shows "nav_apply N s c = s \<and> cursor_spec (nav_wraps N) (nav_len N s) i c = i \<or>
         nav_apply N s c = nav_set N (Some (cursor_spec (nav_wraps N) (nav_len N s) i c)) s"
proof (cases c)
  case MoveUp
  with assms show ?thesis
    by (cases "i = 0") (auto simp: nav_move_up_def Let_def mod_dec)
next
  case MoveDown
  with assms show ?thesis
    by (cases "i = nav_len N s - 1") (auto simp: nav_move_down_def Let_def)
next
  case (PageDown k)
  with assms show ?thesis
    using page_down_pos [OF assms(1,2), of i k] by (simp add: nav_page_down_def Let_def)
qed (use assms in \<open>simp_all add: nav_defs Let_def\<close>)

lemma apply_sim:
  assumes "ok s" and "0 < nav_len N s" and "nav_selected N s = Some i"
  shows "nav_selected N (nav_apply N s c) =
           Some (cursor_spec (nav_wraps N) (nav_len N s) i c)"
    and "ok (nav_apply N s c)"
    and "nav_len N (nav_apply N s c) = nav_len N s"
proof -
  have i: "i < nav_len N s" using ok_range [OF assms(1,2)] assms(3) by auto
  let ?j = "cursor_spec (nav_wraps N) (nav_len N s) i c"
  have j: "?j < nav_len N s" by (rule cursor_spec_bound [OF i])
  note set_facts = ok_set [OF assms(1) j] len_set [OF assms(1) j] selected_set [OF assms(1) j]
  show "nav_selected N (nav_apply N s c) = Some ?j" and "ok (nav_apply N s c)"
    and "nav_len N (nav_apply N s c) = nav_len N s"
    using apply_cases [OF assms i, of c] set_facts assms(1,3) by (elim disjE; simp)+
qed

lemma run_ok: "ok s \<Longrightarrow> ok (nav_run N s cs) \<and> nav_len N (nav_run N s cs) = nav_len N s"
proof (induction cs arbitrary: s)
  case Nil
  then show ?case by (simp add: nav_run_def)
next
  case (Cons c cs)
  have "ok (nav_apply N s c) \<and> nav_len N (nav_apply N s c) = nav_len N s"
  proof (cases "nav_len N s = 0")
    case True
    with Cons.prems show ?thesis by (simp add: apply_empty)
  next
    case False
    with ok_range [OF Cons.prems] obtain i where "nav_selected N s = Some i" by auto
    with Cons.prems False show ?thesis by (simp add: apply_sim)
  qed
  with Cons.IH [of "nav_apply N s c"] show ?case by (simp add: nav_run_def)
qed

text \<open>The whole run refines the abstract cursor's run.\<close>

lemma run_sim:
  assumes "ok s" and "0 < nav_len N s" and "nav_selected N s = Some i"
  shows "nav_selected N (nav_run N s cs) =
           Some (foldl (cursor_spec (nav_wraps N) (nav_len N s)) i cs)"
  using assms
proof (induction cs arbitrary: s i)
  case Nil
  then show ?case by (simp add: nav_run_def)
next
  case (Cons c cs)
  note step = apply_sim [OF Cons.prems, of c]
  have "0 < nav_len N (nav_apply N s c)" using step(3) Cons.prems(2) by simp
  from Cons.IH [OF step(2) this step(1)] step(3) show ?case
    by (simp add: nav_run_def)
qed

lemma run_in_range:
  assumes "ok s" and "0 < nav_len N s"
  shows "\<exists>i. nav_selected N (nav_run N s cs) = Some i \<and> i < nav_len N s"
  using run_ok [OF assms(1), of cs] ok_range [of "nav_run N s cs"] assms(2) by simp

end

section \<open>\<open>CursorRef\<close>\<close>

record cursor_ref =
  cr_len :: nat
  cr_selected :: nat

definition cursor_ref_selected :: "cursor_ref \<Rightarrow> nat option" where
  "cursor_ref_selected c = (if cr_len c = 0 then None else Some (cr_selected c))"

definition cursor_ref_set :: "nat option \<Rightarrow> cursor_ref \<Rightarrow> cursor_ref" where
  "cursor_ref_set index c = c\<lparr>cr_selected := (case index of None \<Rightarrow> 0 | Some i \<Rightarrow> i)\<rparr>"

definition cursor_ref_nav :: "cursor_ref list_nav" where
  "cursor_ref_nav =
     \<lparr>nav_len = cr_len, nav_selected = cursor_ref_selected,
      nav_set = cursor_ref_set, nav_wraps = False\<rparr>"

definition cursor_ref_ok :: "cursor_ref \<Rightarrow> bool" where
  "cursor_ref_ok c \<longleftrightarrow> cr_len c \<le> usize_max \<and> (cr_len c = 0 \<or> cr_selected c < cr_len c)"

interpretation cursor: list_navigation cursor_ref_nav cursor_ref_ok
  by unfold_locales
    (auto simp: cursor_ref_nav_def cursor_ref_ok_def cursor_ref_selected_def cursor_ref_set_def)

section \<open>The scroll window\<close>

record scroll_window =
  sw_offset :: nat
  sw_selected_local :: nat

definition compute_scroll_window :: "nat \<Rightarrow> nat \<Rightarrow> nat \<Rightarrow> scroll_window" where
  "compute_scroll_window selected total_rows visible_rows =
     (if total_rows = 0 then \<lparr>sw_offset = 0, sw_selected_local = 0\<rparr>
      else let clamped_selected = min selected (total_rows - 1) in
        if visible_rows = 0 then \<lparr>sw_offset = clamped_selected, sw_selected_local = 0\<rparr>
        else let offset = (if clamped_selected \<ge> visible_rows
                           then clamped_selected + 1 - visible_rows else 0)
          in \<lparr>sw_offset = offset, sw_selected_local = clamped_selected - offset\<rparr>)"

section \<open>Properties\<close>

text \<open>
  A \<open>CursorRef\<close> over a non-empty list, driven by any sequence of movement commands,
  ends on the row the abstract cursor (clamped steps, clamped pages, jumps) ends on, and
  that row is in range.
\<close>

theorem cursor_ref_refines:
  assumes "cursor_ref_ok c" and "0 < cr_len c"
  shows "nav_selected cursor_ref_nav (nav_run cursor_ref_nav c cs) =
           Some (foldl (cursor_spec False (cr_len c)) (cr_selected c) cs)
       \<and> foldl (cursor_spec False (cr_len c)) (cr_selected c) cs < cr_len c"
proof -
  have len: "nav_len cursor_ref_nav c = cr_len c" and w: "nav_wraps cursor_ref_nav = False"
    and sel: "nav_selected cursor_ref_nav c = Some (cr_selected c)"
    using assms by (simp_all add: cursor_ref_nav_def cursor_ref_ok_def cursor_ref_selected_def)
  with assms(2) have pos: "0 < nav_len cursor_ref_nav c" by simp
  show ?thesis
    using cursor.run_sim [OF assms(1) pos sel, of cs] cursor.run_in_range [OF assms(1) pos, of cs]
    by (simp add: len w)
qed

lemma cursor_ref_refines_witness:
  "nav_selected cursor_ref_nav (nav_run cursor_ref_nav \<lparr>cr_len = 3, cr_selected = 1\<rparr>
      [MoveDown, MoveDown, PageUp 1]) = Some 1"
proof -
  have h: "cursor_ref_ok \<lparr>cr_len = 3, cr_selected = 1\<rparr>" "0 < cr_len \<lparr>cr_len = 3, cr_selected = 1\<rparr>"
    by (simp_all add: cursor_ref_ok_def usize_max_def)
  show ?thesis
    using cursor_ref_refines [OF h, of "[MoveDown, MoveDown, PageUp 1]"] by simp
qed

text \<open>
  For a non-empty list and at least one visible row, the scroll window shows the
  (clamped) selection, and its offset is the least that does.
\<close>

theorem scroll_window_minimal:
  assumes "0 < total_rows" and "0 < visible_rows"
  shows "sw_offset (compute_scroll_window selected total_rows visible_rows)
         + sw_selected_local (compute_scroll_window selected total_rows visible_rows)
           = min selected (total_rows - 1)
       \<and> sw_selected_local (compute_scroll_window selected total_rows visible_rows) < visible_rows
       \<and> (\<forall>off. off \<le> min selected (total_rows - 1) \<longrightarrow> min selected (total_rows - 1) < off + visible_rows
            \<longrightarrow> sw_offset (compute_scroll_window selected total_rows visible_rows) \<le> off)"
  using assms by (auto simp: compute_scroll_window_def Let_def)

lemma scroll_window_minimal_witness:
  "sw_offset (compute_scroll_window 15 100 10) = 6 \<and>
   sw_offset (compute_scroll_window 15 100 10)
     + sw_selected_local (compute_scroll_window 15 100 10) = 15"
  using scroll_window_minimal [of 100 10 15] by (simp add: compute_scroll_window_def)

end
