(* ===== verification/Scroll.thy ===== *)
theory Scroll
  imports Prelude
begin

text \<open>
  \<open>src/src/widget/scroll.rs\<close>: the offset arithmetic of the full-screen modals. A
  vertical scroll state, the bidirectional state of the content viewer, and the
  cursored state of the row modals, whose cursor and offset move together.
\<close>

section \<open>Vertical scrolling\<close>

record vertical_scroll =
  vs_offset :: nat
  vs_rows :: nat

definition max_offset :: "vertical_scroll \<Rightarrow> nat \<Rightarrow> nat" where
  "max_offset v content_rows = content_rows - vs_rows v"

text \<open>\<open>delta\<close> is an \<open>i32\<close>; \<open>unsigned_abs\<close> and the cast to \<open>usize\<close> are \<open>nat \<bar>delta\<bar>\<close>.\<close>

definition scroll_by :: "int \<Rightarrow> nat \<Rightarrow> vertical_scroll \<Rightarrow> vertical_scroll" where
  "scroll_by delta content_rows v =
     (let new = (if delta < 0 then vs_offset v - nat \<bar>delta\<bar>
                 else sat_add (vs_offset v) (nat delta))
      in v\<lparr>vs_offset := min new (max_offset v content_rows)\<rparr>)"

definition vpage_up :: "vertical_scroll \<Rightarrow> vertical_scroll" where
  "vpage_up v = v\<lparr>vs_offset := vs_offset v - vs_rows v\<rparr>"

definition vpage_down :: "nat \<Rightarrow> vertical_scroll \<Rightarrow> vertical_scroll" where
  "vpage_down content_rows v =
     v\<lparr>vs_offset := min (sat_add (vs_offset v) (vs_rows v)) (max_offset v content_rows)\<rparr>"

definition vjump_top :: "vertical_scroll \<Rightarrow> vertical_scroll" where
  "vjump_top v = v\<lparr>vs_offset := 0\<rparr>"

definition vjump_bottom :: "nat \<Rightarrow> vertical_scroll \<Rightarrow> vertical_scroll" where
  "vjump_bottom content_rows v = v\<lparr>vs_offset := content_rows - vs_rows v\<rparr>"

definition scroll_to_visible :: "nat \<Rightarrow> vertical_scroll \<Rightarrow> vertical_scroll" where
  "scroll_to_visible target_row v =
     (if vs_rows v = 0 then v
      else if target_row < vs_offset v then v\<lparr>vs_offset := target_row\<rparr>
      else if target_row \<ge> vs_offset v + vs_rows v
        then v\<lparr>vs_offset := target_row + 1 - vs_rows v\<rparr>
      else v)"

definition clamp_to_content :: "nat \<Rightarrow> vertical_scroll \<Rightarrow> vertical_scroll" where
  "clamp_to_content content_rows v =
     (if vs_offset v > max_offset v content_rows
      then v\<lparr>vs_offset := max_offset v content_rows\<rparr> else v)"

lemmas vertical_defs [nav_simps] = max_offset_def scroll_by_def vpage_up_def vpage_down_def
  vjump_top_def vjump_bottom_def scroll_to_visible_def clamp_to_content_def Let_def

text \<open>What a viewport shows, and an offset that leaves no blank rows.\<close>

definition row_visible :: "nat \<Rightarrow> vertical_scroll \<Rightarrow> bool" where
  "row_visible r v \<longleftrightarrow> vs_offset v \<le> r \<and> r < vs_offset v + vs_rows v"

definition offset_ok :: "nat \<Rightarrow> vertical_scroll \<Rightarrow> bool" where
  "offset_ok content_rows v \<longleftrightarrow> vs_offset v \<le> max_offset v content_rows"

datatype vscroll_cmd =
  ScrollBy int | VPageUp | VPageDown | VJumpTop | VJumpBottom | VClamp

fun vscroll_apply :: "nat \<Rightarrow> vertical_scroll \<Rightarrow> vscroll_cmd \<Rightarrow> vertical_scroll" where
  "vscroll_apply n v (ScrollBy d) = scroll_by d n v"
| "vscroll_apply n v VPageUp = vpage_up v"
| "vscroll_apply n v VPageDown = vpage_down n v"
| "vscroll_apply n v VJumpTop = vjump_top v"
| "vscroll_apply n v VJumpBottom = vjump_bottom n v"
| "vscroll_apply n v VClamp = clamp_to_content n v"

lemma vscroll_apply_rows [simp]: "vs_rows (vscroll_apply n v c) = vs_rows v"
  by (cases c) (simp_all add: nav_simps)

lemma vscroll_apply_ok: "offset_ok n v \<Longrightarrow> offset_ok n (vscroll_apply n v c)"
  by (cases c) (auto simp: offset_ok_def nav_simps)

lemma offset_ok_clamp: "offset_ok n (clamp_to_content n v)"
  by (simp add: offset_ok_def nav_simps)

lemma scroll_to_visible_rows [simp]: "vs_rows (scroll_to_visible r v) = vs_rows v"
  by (simp add: scroll_to_visible_def)

lemma scroll_to_visible_shows: "0 < vs_rows v \<Longrightarrow> row_visible r (scroll_to_visible r v)"
  by (auto simp: row_visible_def scroll_to_visible_def)

lemma scroll_to_visible_id: "row_visible r v \<Longrightarrow> scroll_to_visible r v = v"
  by (auto simp: row_visible_def scroll_to_visible_def)

lemma scroll_to_visible_ok:
  "offset_ok n v \<Longrightarrow> r < n \<Longrightarrow> offset_ok n (scroll_to_visible r v)"
  by (auto simp: offset_ok_def scroll_to_visible_def max_offset_def)

section \<open>Bidirectional scrolling\<close>

record bidi_scroll =
  bs_vertical :: vertical_scroll
  bs_hoffset :: nat
  bs_cols :: nat

definition scroll_left :: "bidi_scroll \<Rightarrow> bidi_scroll" where
  "scroll_left b = b\<lparr>bs_hoffset := bs_hoffset b - 1\<rparr>"

definition scroll_right :: "nat \<Rightarrow> bidi_scroll \<Rightarrow> bidi_scroll" where
  "scroll_right content_cols b =
     b\<lparr>bs_hoffset := min (sat_add (bs_hoffset b) 1) (content_cols - bs_cols b)\<rparr>"

definition page_left :: "bidi_scroll \<Rightarrow> bidi_scroll" where
  "page_left b = b\<lparr>bs_hoffset := bs_hoffset b - bs_cols b\<rparr>"

definition page_right :: "nat \<Rightarrow> bidi_scroll \<Rightarrow> bidi_scroll" where
  "page_right content_cols b =
     b\<lparr>bs_hoffset := min (sat_add (bs_hoffset b) (bs_cols b)) (content_cols - bs_cols b)\<rparr>"

definition bidi_reset :: "bidi_scroll \<Rightarrow> bidi_scroll" where
  "bidi_reset b = b\<lparr>bs_vertical := (bs_vertical b)\<lparr>vs_offset := 0\<rparr>, bs_hoffset := 0\<rparr>"

definition hoffset_ok :: "nat \<Rightarrow> bidi_scroll \<Rightarrow> bool" where
  "hoffset_ok content_cols b \<longleftrightarrow> bs_hoffset b \<le> content_cols - bs_cols b"

lemma hoffset_ok_ops [inv_intros]:
  "hoffset_ok n b \<Longrightarrow> hoffset_ok n (scroll_left b)"
  "hoffset_ok n (scroll_right n b)"
  "hoffset_ok n b \<Longrightarrow> hoffset_ok n (page_left b)"
  "hoffset_ok n (page_right n b)"
  "hoffset_ok n (bidi_reset b)"
  by (auto simp: hoffset_ok_def scroll_left_def scroll_right_def page_left_def page_right_def
      bidi_reset_def)

section \<open>Cursored scrolling\<close>

record cursored_scroll =
  cs_scroll :: vertical_scroll
  cs_selected :: nat

definition cs_move_up :: "cursored_scroll \<Rightarrow> cursored_scroll" where
  "cs_move_up c =
     (let sel = cs_selected c - 1
      in c\<lparr>cs_selected := sel, cs_scroll := scroll_to_visible sel (cs_scroll c)\<rparr>)"

definition cs_move_down :: "nat \<Rightarrow> cursored_scroll \<Rightarrow> cursored_scroll" where
  "cs_move_down len c =
     (if cs_selected c + 1 < len
      then let sel = cs_selected c + 1
        in c\<lparr>cs_selected := sel, cs_scroll := scroll_to_visible sel (cs_scroll c)\<rparr>
      else c)"

definition cs_page_up :: "cursored_scroll \<Rightarrow> cursored_scroll" where
  "cs_page_up c =
     (let bump = max (vs_rows (cs_scroll c)) 1; sel = cs_selected c - bump
      in c\<lparr>cs_selected := sel, cs_scroll := scroll_to_visible sel (vpage_up (cs_scroll c))\<rparr>)"

definition cs_page_down :: "nat \<Rightarrow> cursored_scroll \<Rightarrow> cursored_scroll" where
  "cs_page_down len c =
     (if len = 0 then c
      else let bump = max (vs_rows (cs_scroll c)) 1; sel = min (cs_selected c + bump) (len - 1)
        in c\<lparr>cs_selected := sel,
             cs_scroll := scroll_to_visible sel (vpage_down len (cs_scroll c))\<rparr>)"

definition cs_jump_top :: "cursored_scroll \<Rightarrow> cursored_scroll" where
  "cs_jump_top c = c\<lparr>cs_selected := 0, cs_scroll := vjump_top (cs_scroll c)\<rparr>"

definition cs_jump_bottom :: "nat \<Rightarrow> cursored_scroll \<Rightarrow> cursored_scroll" where
  "cs_jump_bottom len c =
     (if len = 0 then c
      else c\<lparr>cs_selected := len - 1, cs_scroll := vjump_bottom len (cs_scroll c)\<rparr>)"

datatype cursored_cmd = CUp | CDown | CPageUp | CPageDown | CTop | CBottom

fun cursored_apply :: "nat \<Rightarrow> cursored_scroll \<Rightarrow> cursored_cmd \<Rightarrow> cursored_scroll" where
  "cursored_apply len c CUp = cs_move_up c"
| "cursored_apply len c CDown = cs_move_down len c"
| "cursored_apply len c CPageUp = cs_page_up c"
| "cursored_apply len c CPageDown = cs_page_down len c"
| "cursored_apply len c CTop = cs_jump_top c"
| "cursored_apply len c CBottom = cs_jump_bottom len c"

definition cursored_run :: "nat \<Rightarrow> cursored_scroll \<Rightarrow> cursored_cmd list \<Rightarrow> cursored_scroll" where
  "cursored_run len = foldl (cursored_apply len)"

lemmas cursored_defs [nav_simps] = cs_move_up_def cs_move_down_def cs_page_up_def
  cs_page_down_def cs_jump_top_def cs_jump_bottom_def

text \<open>
  The invariant of a row modal with \<open>len > 0\<close> rows and a viewport of at least one row:
  the cursor is a row, the row is on screen, and the viewport shows no blank rows past
  the last one.
\<close>

definition cursored_inv :: "nat \<Rightarrow> cursored_scroll \<Rightarrow> bool" where
  "cursored_inv len c \<longleftrightarrow>
     0 < vs_rows (cs_scroll c) \<and> cs_selected c < len \<and>
     row_visible (cs_selected c) (cs_scroll c) \<and> offset_ok len (cs_scroll c)"

lemma cursored_reveal:
  "0 < vs_rows v \<Longrightarrow> sel < len \<Longrightarrow> offset_ok len v \<Longrightarrow>
   cursored_inv len \<lparr>cs_scroll = scroll_to_visible sel v, cs_selected = sel\<rparr>"
  by (simp add: cursored_inv_def scroll_to_visible_shows scroll_to_visible_ok)

lemma cursored_apply_inv:
  assumes "cursored_inv len c"
  shows "cursored_inv len (cursored_apply len c cmd)"
proof -
  obtain v sel where c: "c = \<lparr>cs_scroll = v, cs_selected = sel\<rparr>" by (cases c)
  note v = assms [unfolded c cursored_inv_def, simplified]
  have up: "offset_ok len (vpage_up v)" and down: "offset_ok len (vpage_down len v)"
    using v vscroll_apply_ok [of len v VPageUp] vscroll_apply_ok [of len v VPageDown] by simp_all
  have rows: "vs_rows (vpage_up v) = vs_rows v" "vs_rows (vpage_down len v) = vs_rows v"
    by (simp_all add: vpage_up_def vpage_down_def)
  show ?thesis
  proof (cases cmd)
    case CUp
    with v show ?thesis by (auto simp: c cs_move_up_def Let_def intro!: cursored_reveal)
  next
    case CDown
    with v assms show ?thesis
      by (auto simp: c cs_move_down_def Let_def intro!: cursored_reveal)
  next
    case CPageUp
    with v up rows show ?thesis
      by (auto simp: c cs_page_up_def Let_def intro!: cursored_reveal)
  next
    case CPageDown
    with v down rows show ?thesis
      by (auto simp: c cs_page_down_def Let_def intro!: cursored_reveal)
  qed (use v in \<open>auto simp: c cs_jump_top_def cs_jump_bottom_def cursored_inv_def row_visible_def
        offset_ok_def nav_simps\<close>)
qed

lemma cursored_run_inv: "cursored_inv len c \<Longrightarrow> cursored_inv len (cursored_run len c cmds)"
  unfolding cursored_run_def
  by (induction cmds arbitrary: c) (simp_all add: cursored_apply_inv)

text \<open>The cursor alone, without the viewport.\<close>

lemma cursored_apply_selected:
  assumes "cs_selected c < len" and "0 < vs_rows (cs_scroll c)"
  shows "cs_selected (cursored_apply len c cmd) =
     (case cmd of CUp \<Rightarrow> cs_selected c - 1 | CDown \<Rightarrow> min (cs_selected c + 1) (len - 1)
      | CPageUp \<Rightarrow> cs_selected c - vs_rows (cs_scroll c)
      | CPageDown \<Rightarrow> min (cs_selected c + vs_rows (cs_scroll c)) (len - 1)
      | CTop \<Rightarrow> 0 | CBottom \<Rightarrow> len - 1)"
proof -
  have "max (vs_rows (cs_scroll c)) 1 = vs_rows (cs_scroll c)" using assms(2) by simp
  with assms(1) show ?thesis by (cases cmd) (auto simp: cursored_defs Let_def)
qed

section \<open>Properties\<close>

text \<open>
  In a row modal with \<open>len\<close> rows whose cursor is on screen, every sequence of cursor
  commands keeps the cursor a valid row, keeps it on screen, and never scrolls past the
  last row.
\<close>

theorem cursored_scroll_keeps_cursor_visible:
  assumes "cursored_inv len c"
  shows "cs_selected (cursored_run len c cmds) < len
       \<and> row_visible (cs_selected (cursored_run len c cmds)) (cs_scroll (cursored_run len c cmds))
       \<and> vs_offset (cs_scroll (cursored_run len c cmds))
           \<le> len - vs_rows (cs_scroll (cursored_run len c cmds))"
  using cursored_run_inv [OF assms, of cmds]
  by (simp add: cursored_inv_def offset_ok_def max_offset_def)

lemma cursored_scroll_keeps_cursor_visible_witness:
  "row_visible 9 (cs_scroll (cursored_run 10
     \<lparr>cs_scroll = \<lparr>vs_offset = 0, vs_rows = 4\<rparr>, cs_selected = 0\<rparr> [CPageDown, CBottom]))"
proof -
  have h: "cursored_inv 10 \<lparr>cs_scroll = \<lparr>vs_offset = 0, vs_rows = 4\<rparr>, cs_selected = 0\<rparr>"
    by (simp add: cursored_inv_def row_visible_def offset_ok_def)
  show ?thesis
    using cursored_scroll_keeps_cursor_visible [OF h, of "[CPageDown, CBottom]"]
    by (simp add: cursored_run_def cs_jump_bottom_def cs_page_down_def Let_def)
qed

end
