(* ===== verification/Text_Utils.thy ===== *)
theory Text_Utils
  imports Prelude "HOL-Library.Char_ord" "HOL-Library.List_Lexorder"
begin

text \<open>
  Strings as the source sees them: UTF-8 byte sequences with the operations of the Rust
  standard library the components call (ASCII case mapping, substring search, splitting,
  trimming, removing the last character, UTF-8 validity), and \<open>src/src/widget/search.rs\<close>,
  the substring search shared by the full-screen modals.
\<close>

section \<open>Bytes\<close>

definition byte :: "char \<Rightarrow> nat" where
  "byte c = of_char c"

definition ascii_lower :: "char \<Rightarrow> char" where
  "ascii_lower c = (if 65 \<le> byte c \<and> byte c \<le> 90 then char_of (byte c + 32) else c)"

definition ascii_upper :: "char \<Rightarrow> char" where
  "ascii_upper c = (if 97 \<le> byte c \<and> byte c \<le> 122 then char_of (byte c - 32) else c)"

definition to_ascii_lowercase :: "string \<Rightarrow> string" where
  "to_ascii_lowercase = map ascii_lower"

definition to_ascii_uppercase :: "string \<Rightarrow> string" where
  "to_ascii_uppercase = map ascii_upper"

definition is_ascii_alphabetic :: "char \<Rightarrow> bool" where
  "is_ascii_alphabetic c \<longleftrightarrow> 65 \<le> byte c \<and> byte c \<le> 90 \<or> 97 \<le> byte c \<and> byte c \<le> 122"

definition is_ascii_digit :: "char \<Rightarrow> bool" where
  "is_ascii_digit c \<longleftrightarrow> 48 \<le> byte c \<and> byte c \<le> 57"

definition is_ascii_whitespace :: "char \<Rightarrow> bool" where
  "is_ascii_whitespace c \<longleftrightarrow> byte c \<in> {32, 9, 10, 12, 13}"

text \<open>A UTF-8 continuation byte, and removing the last character (\<open>String::pop\<close>).\<close>

definition is_cont :: "char \<Rightarrow> bool" where
  "is_cont c \<longleftrightarrow> 128 \<le> byte c \<and> byte c \<le> 191"

definition pop_char :: "string \<Rightarrow> string" where
  "pop_char s = rev (tl (dropWhile is_cont (rev s)))"

text \<open>Well-formed UTF-8 (\<open>str::from_utf8\<close> succeeds), by the table of the Unicode standard.\<close>

fun utf8_valid :: "string \<Rightarrow> bool" where
  "utf8_valid [] = True"
| "utf8_valid (a # s) =
     (if byte a < 128 then utf8_valid s
      else if 194 \<le> byte a \<and> byte a \<le> 223 then
        (case s of b # t \<Rightarrow> is_cont b \<and> utf8_valid t | _ \<Rightarrow> False)
      else if 224 \<le> byte a \<and> byte a \<le> 239 then
        (case s of b # c # t \<Rightarrow> is_cont b \<and> is_cont c \<and> (byte a = 224 \<longrightarrow> 160 \<le> byte b)
             \<and> (byte a = 237 \<longrightarrow> byte b \<le> 159) \<and> utf8_valid t | _ \<Rightarrow> False)
      else if 240 \<le> byte a \<and> byte a \<le> 244 then
        (case s of b # c # d # t \<Rightarrow> is_cont b \<and> is_cont c \<and> is_cont d
             \<and> (byte a = 240 \<longrightarrow> 144 \<le> byte b) \<and> (byte a = 244 \<longrightarrow> byte b \<le> 143) \<and> utf8_valid t
         | _ \<Rightarrow> False)
      else False)"

lemma utf8_valid_ascii: "\<forall>c \<in> set s. byte c < 128 \<Longrightarrow> utf8_valid s"
  by (induction s) auto

text \<open>The encodings of the characters with the Unicode property \<open>White_Space\<close>.\<close>

definition white_space :: "string list" where
  "white_space =
     [[CHR 0x09], [CHR 0x0A], [CHR 0x0B], [CHR 0x0C], [CHR 0x0D], [CHR 0x20],
      [CHR 0xC2, CHR 0x85], [CHR 0xC2, CHR 0xA0], [CHR 0xE1, CHR 0x9A, CHR 0x80]]
     @ map (\<lambda>b. [CHR 0xE2, CHR 0x80, b])
         [CHR 0x80, CHR 0x81, CHR 0x82, CHR 0x83, CHR 0x84, CHR 0x85, CHR 0x86, CHR 0x87,
          CHR 0x88, CHR 0x89, CHR 0x8A, CHR 0xA8, CHR 0xA9, CHR 0xAF]
     @ [[CHR 0xE2, CHR 0x81, CHR 0x9F], [CHR 0xE3, CHR 0x80, CHR 0x80]]"

definition starts_with :: "string \<Rightarrow> string \<Rightarrow> bool" where
  "starts_with pat s \<longleftrightarrow> take (length pat) s = pat"

lemma starts_with_append [simp]: "starts_with p (p @ s)"
  by (simp add: starts_with_def)

lemma starts_with_length: "starts_with p s \<Longrightarrow> length p \<le> length s"
  by (auto simp: starts_with_def) (metis length_take min.cobounded1)

fun trim_start :: "nat \<Rightarrow> string list \<Rightarrow> string \<Rightarrow> string" where
  "trim_start 0 ws s = s"
| "trim_start (Suc fuel) ws s =
     (case find (\<lambda>w. starts_with w s) ws of
        None \<Rightarrow> s
      | Some w \<Rightarrow> trim_start fuel ws (drop (length w) s))"

text \<open>
  \<open>str::trim\<close>: strip white space at both ends; every strip removes a byte, so the length
  of the string is fuel enough.
\<close>

definition trim :: "string \<Rightarrow> string" where
  "trim s =
     (let l = trim_start (length s) white_space s
      in rev (trim_start (length l) (map rev white_space) (rev l)))"

section \<open>Substring search\<close>

text \<open>\<open>s.find(pat)\<close>: the offset of the first occurrence.\<close>

fun find_sub :: "string \<Rightarrow> string \<Rightarrow> nat option" where
  "find_sub pat s =
     (if starts_with pat s then Some 0
      else case s of [] \<Rightarrow> None | _ # t \<Rightarrow> map_option Suc (find_sub pat t))"

declare find_sub.simps [simp del]

definition str_contains :: "string \<Rightarrow> string \<Rightarrow> bool" where
  "str_contains s pat \<longleftrightarrow> find_sub pat s \<noteq> None"

definition occurs_at :: "string \<Rightarrow> string \<Rightarrow> nat \<Rightarrow> bool" where
  "occurs_at pat s i \<longleftrightarrow> i + length pat \<le> length s \<and> take (length pat) (drop i s) = pat"

lemma occurs_at_0: "occurs_at pat s 0 \<longleftrightarrow> starts_with pat s"
  using starts_with_length by (auto simp: occurs_at_def starts_with_def)

lemma occurs_at_Suc: "occurs_at pat (c # s) (Suc i) \<longleftrightarrow> occurs_at pat s i"
  by (simp add: occurs_at_def)

lemma occurs_at_drop:
  "pos \<le> length s \<Longrightarrow> occurs_at pat (drop pos s) i \<longleftrightarrow> occurs_at pat s (pos + i)"
  by (auto simp: occurs_at_def add.commute)

lemma find_sub_Some:
  "find_sub pat s = Some i \<Longrightarrow> occurs_at pat s i \<and> (\<forall>j<i. \<not> occurs_at pat s j)"
proof (induction pat s arbitrary: i rule: find_sub.induct)
  case (1 pat s)
  show ?case
  proof (cases "starts_with pat s")
    case True
    with 1(2) show ?thesis by (simp add: find_sub.simps [of pat s] occurs_at_0)
  next
    case False
    with 1(2) obtain c t k where s: "s = c # t" "find_sub pat t = Some k" "i = Suc k"
      by (auto simp: find_sub.simps [of pat s] split: list.splits)
    from 1(1) [OF False s(1) s(2)] s False show ?thesis
      by (auto simp: occurs_at_Suc less_Suc_eq_0_disj occurs_at_0)
  qed
qed

lemma find_sub_None: "find_sub pat s = None \<longleftrightarrow> (\<forall>j. \<not> occurs_at pat s j)"
proof (induction pat s rule: find_sub.induct)
  case (1 pat s)
  show ?case
  proof (cases "starts_with pat s")
    case True
    then show ?thesis by (auto simp: find_sub.simps [of pat s] simp flip: occurs_at_0)
  next
    case False
    show ?thesis
    proof (cases s)
      case Nil
      with False show ?thesis
        by (simp add: find_sub.simps [of pat "[]"] occurs_at_def starts_with_def)
    next
      case (Cons c t)
      have "(\<forall>j. \<not> occurs_at pat s j) \<longleftrightarrow> (\<forall>j. \<not> occurs_at pat t j)"
        using False unfolding Cons occurs_at_0 [symmetric]
        by (metis occurs_at_Suc not0_implies_Suc)
      with 1 [OF False Cons] False Cons show ?thesis
        by (simp add: find_sub.simps [of pat "c # t"])
    qed
  qed
qed

lemma find_sub_bound: "find_sub pat s = Some i \<Longrightarrow> i + length pat \<le> length s"
  using find_sub_Some [of pat s i] by (simp add: occurs_at_def)

section \<open>Splitting\<close>

fun split_on :: "char \<Rightarrow> string \<Rightarrow> string list" where
  "split_on c [] = [[]]"
| "split_on c (x # xs) =
     (if x = c then [] # split_on c xs
      else case split_on c xs of [] \<Rightarrow> [[x]] | l # ls \<Rightarrow> (x # l) # ls)"

lemma split_on_nonempty: "split_on c s \<noteq> []"
  by (cases s) (auto split: list.splits)

section \<open>Search over a body of lines\<close>

record match_span =
  ms_line :: nat
  ms_start :: nat
  ms_end :: nat

record search_state =
  ss_query :: string
  ss_input_active :: bool
  ss_committed :: bool
  ss_matches :: "match_span list"
  ss_current :: "nat option"

text \<open>
  The inner loop of \<open>compute_matches\<close> on one lower-cased line; the query is not empty
  there, so each round moves \<open>from\<close> forward.
\<close>

function line_matches :: "string \<Rightarrow> string \<Rightarrow> nat \<Rightarrow> nat \<Rightarrow> match_span list" where
  "line_matches lq ll line_idx pos =
     (if lq = [] then []
      else case find_sub lq (drop pos ll) of
        None \<Rightarrow> []
      | Some rel \<Rightarrow>
          let start = pos + rel; stop = start + length lq
          in \<lparr>ms_line = line_idx, ms_start = start, ms_end = stop\<rparr>
             # line_matches lq ll line_idx stop)"
  by pat_completeness auto
termination
proof (relation "measure (\<lambda>(lq, ll, line_idx, pos). length ll - pos)", simp, clarsimp)
  fix lq ll pos rel
  assume "lq \<noteq> []" and "find_sub lq (drop pos ll) = Some rel"
  moreover from this have "0 < length lq" by simp
  ultimately show "length ll - (pos + rel + length lq) < length ll - pos"
    using find_sub_bound [of lq "drop pos ll" rel] unfolding length_drop by linarith
qed

declare line_matches.simps [simp del]

definition compute_matches :: "string \<Rightarrow> string \<Rightarrow> match_span list" where
  "compute_matches body query =
     (if query = [] then []
      else let lq = to_ascii_lowercase query in
        concat (map (\<lambda>(line_idx, line). line_matches lq (to_ascii_lowercase line) line_idx 0)
          (enumerate 0 (split_on CHR 0x0A body))))"

text \<open>What one line contributes: true occurrences, left to right, none overlapping, none missed.\<close>

lemma line_matches_Nil:
  "lq = [] \<or> find_sub lq (drop pos ll) = None \<Longrightarrow> line_matches lq ll k pos = []"
  by (subst line_matches.simps) auto

lemma line_matches_sound:
  "pos \<le> length ll \<Longrightarrow> m \<in> set (line_matches lq ll k pos) \<Longrightarrow>
     ms_line m = k \<and> pos \<le> ms_start m \<and> ms_end m = ms_start m + length lq
     \<and> occurs_at lq ll (ms_start m)"
proof (induction lq ll k pos rule: line_matches.induct)
  case (1 lq ll k pos)
  have "lq \<noteq> [] \<and> find_sub lq (drop pos ll) \<noteq> None"
    using "1.prems"(2) line_matches_Nil [of lq pos ll k] by (metis empty_iff empty_set)
  then obtain rel where lq: "lq \<noteq> []" and rel: "find_sub lq (drop pos ll) = Some rel" by auto
  have occ: "occurs_at lq ll (pos + rel)"
    using find_sub_Some [OF rel] occurs_at_drop [OF "1.prems"(1)] by simp
  then have le: "pos + rel + length lq \<le> length ll" by (simp add: occurs_at_def)
  have "m = \<lparr>ms_line = k, ms_start = pos + rel, ms_end = pos + rel + length lq\<rparr>
      \<or> m \<in> set (line_matches lq ll k (pos + rel + length lq))"
    using "1.prems"(2) lq rel by (simp add: line_matches.simps [of lq ll k pos] Let_def)
  with occ le "1.IH" [OF lq rel refl refl] show ?case by auto
qed

lemma line_matches_sorted:
  "pos \<le> length ll \<Longrightarrow>
   sorted_wrt (\<lambda>a b. ms_end a \<le> ms_start b) (line_matches lq ll k pos)"
proof (induction lq ll k pos rule: line_matches.induct)
  case (1 lq ll k pos)
  show ?case
  proof (cases "lq = [] \<or> find_sub lq (drop pos ll) = None")
    case True
    then show ?thesis by (simp add: line_matches_Nil)
  next
    case False
    then obtain rel where lq: "lq \<noteq> []" and rel: "find_sub lq (drop pos ll) = Some rel" by auto
    let ?stop = "pos + rel + length lq"
    have le: "?stop \<le> length ll"
      using find_sub_bound [OF rel] "1.prems" by simp
    have "ms_start m \<ge> ?stop" if "m \<in> set (line_matches lq ll k ?stop)" for m
      using line_matches_sound [OF le that] by simp
    with "1.IH" [OF lq rel refl refl le] lq rel show ?thesis
      by (simp add: line_matches.simps [of lq ll k pos] Let_def)
  qed
qed

lemma line_matches_complete:
  "pos \<le> length ll \<Longrightarrow> pos \<le> i \<Longrightarrow> lq \<noteq> [] \<Longrightarrow> occurs_at lq ll i \<Longrightarrow>
   \<exists>m \<in> set (line_matches lq ll k pos). ms_start m \<le> i \<and> i < ms_end m"
proof (induction lq ll k pos rule: line_matches.induct)
  case (1 lq ll k pos)
  have "find_sub lq (drop pos ll) \<noteq> None"
    using "1.prems" find_sub_None [of lq "drop pos ll"] occurs_at_drop [of pos ll lq "i - pos"]
    by auto
  then obtain rel where rel: "find_sub lq (drop pos ll) = Some rel" by auto
  let ?stop = "pos + rel + length lq"
  have ms: "line_matches lq ll k pos =
      \<lparr>ms_line = k, ms_start = pos + rel, ms_end = ?stop\<rparr> # line_matches lq ll k ?stop"
    using "1.prems"(3) rel by (simp add: line_matches.simps [of lq ll k pos] Let_def)
  have "\<not> occurs_at lq ll (pos + j)" if "j < rel" for j
    using find_sub_Some [OF rel] that occurs_at_drop [OF "1.prems"(1)] by auto
  with "1.prems"(2,4) have ge: "pos + rel \<le> i"
    by (metis le_add_diff_inverse nat_add_left_cancel_le not_le_imp_less)
  show ?case
  proof (cases "i < ?stop")
    case True
    with ge ms show ?thesis by simp
  next
    case False
    have "?stop \<le> length ll" using find_sub_bound [OF rel] "1.prems"(1) by simp
    with False "1.IH" [OF "1.prems"(3) rel refl refl] "1.prems"(3,4) ms show ?thesis by simp
  qed
qed

lemma compute_matches_iff:
  "query \<noteq> [] \<Longrightarrow> m \<in> set (compute_matches body query) \<longleftrightarrow>
     (\<exists>k < length (split_on CHR 0x0A body).
        m \<in> set (line_matches (to_ascii_lowercase query)
                  (to_ascii_lowercase (split_on CHR 0x0A body ! k)) k 0))"
  by (force simp: compute_matches_def Let_def in_set_enumerate_eq)

section \<open>Properties\<close>

text \<open>
  The modal search reports exactly the case-insensitive occurrences of a non-empty
  query, greedily from the left: every reported span is an occurrence in its line, and
  every occurrence starts inside a reported span of its line.
\<close>

theorem compute_matches_correct:
  assumes "query \<noteq> []"
  shows "(\<forall>m \<in> set (compute_matches body query).
            ms_line m < length (split_on CHR 0x0A body)
          \<and> ms_end m = ms_start m + length query
          \<and> occurs_at (to_ascii_lowercase query)
              (to_ascii_lowercase (split_on CHR 0x0A body ! ms_line m)) (ms_start m))
       \<and> (\<forall>k i. k < length (split_on CHR 0x0A body) \<longrightarrow>
            occurs_at (to_ascii_lowercase query)
              (to_ascii_lowercase (split_on CHR 0x0A body ! k)) i \<longrightarrow>
            (\<exists>m \<in> set (compute_matches body query).
               ms_line m = k \<and> ms_start m \<le> i \<and> i < ms_end m))"
proof -
  let ?q = "to_ascii_lowercase query" and ?ls = "split_on CHR 0x0A body"
  have len: "length ?q = length query" and ne: "?q \<noteq> []"
    using assms by (simp_all add: to_ascii_lowercase_def)
  have "\<exists>m \<in> set (compute_matches body query). ms_line m = k \<and> ms_start m \<le> i \<and> i < ms_end m"
    if k: "k < length ?ls" and occ: "occurs_at ?q (to_ascii_lowercase (?ls ! k)) i" for k i
  proof -
    obtain m where m: "m \<in> set (line_matches ?q (to_ascii_lowercase (?ls ! k)) k 0)"
      "ms_start m \<le> i" "i < ms_end m"
      using line_matches_complete [OF le0 le0 ne occ, of k] by blast
    moreover have "ms_line m = k" using line_matches_sound [OF le0 m(1)] by simp
    ultimately show ?thesis using k compute_matches_iff [OF assms, of m body] by blast
  qed
  moreover have "ms_line m < length ?ls \<and> ms_end m = ms_start m + length query \<and>
      occurs_at ?q (to_ascii_lowercase (?ls ! ms_line m)) (ms_start m)"
    if "m \<in> set (compute_matches body query)" for m
    using that line_matches_sound [OF le0] len by (auto simp: compute_matches_iff [OF assms])
  ultimately show ?thesis by blast
qed

lemma compute_matches_correct_witness:
  "\<exists>m \<in> set (compute_matches ''xAb'' ''aB''). ms_line m = 0 \<and> ms_start m \<le> 1 \<and> 1 < ms_end m"
proof -
  have h: "''aB'' \<noteq> []" by simp
  have "occurs_at (to_ascii_lowercase ''aB'') (to_ascii_lowercase (split_on CHR 0x0A ''xAb'' ! 0)) 1"
    and "0 < length (split_on CHR 0x0A ''xAb'')"
    by code_simp+
  with compute_matches_correct [OF h, of "''xAb''"] show ?thesis by blast
qed

end
