(* ===== verification/Watch_Predicate.thy ===== *)
theory Watch_Predicate
  imports Text_Utils
begin

text \<open>
  \<open>src/src/client/predicate.rs\<close>: the attribute predicate language of the Events watch
  mode, \<open>attr op literal (AND ...)*\<close>. The hand-written parser walks the UTF-8 bytes of
  the input with a cursor, as here; every failure carries a 1-based column. The regex
  engine is the \<open>regex\<close> crate: its constructor \<open>regex_new\<close> and its \<open>is_match\<close> are
  parameters of the definitions that use them. An error message is the constructor of
  \<open>parse_message\<close> with the ingredients the source formats into the text.
\<close>

section \<open>Data\<close>

datatype pred_op = OpEq | OpNe | RegexMatch | RegexNotMatch

datatype 'r clause_literal = Plain string | Regex 'r

record 'r clause =
  cl_attribute :: string
  cl_op :: pred_op
  cl_literal :: "'r clause_literal"

type_synonym 'r predicate = "'r clause list"

record attribute_triple =
  at_key :: string
  at_previous :: "string option"
  at_current :: "string option"

datatype parse_message =
    ExpectedAttribute
  | AttributeStart char
  | AttributeNotUtf8
  | ExpectedOperator
  | ExpectedOperatorGot string
  | InvalidRegex string
  | ExpectedSlash
  | RegexNotUtf8
  | UnterminatedRegex
  | QuotedNotUtf8
  | UnterminatedQuoted
  | ExpectedLiteral
  | LiteralNotUtf8
  | ExpectedAndGot string

record parse_error =
  pe_message :: parse_message
  pe_column :: nat

definition perr :: "parse_message \<Rightarrow> nat \<Rightarrow> parse_error + 'a" where
  "perr m col = Inl \<lparr>pe_message = m, pe_column = col\<rparr>"

text \<open>The source's slice \<open>&bytes[start..end]\<close>.\<close>

definition slice :: "'a list \<Rightarrow> nat \<Rightarrow> nat \<Rightarrow> 'a list" where
  "slice xs start stop = take (stop - start) (drop start xs)"

section \<open>Scanning\<close>

definition is_blank :: "char \<Rightarrow> bool" where
  "is_blank b \<longleftrightarrow> b = CHR 0x20 \<or> b = CHR 0x09"

definition is_attr_char :: "char \<Rightarrow> bool" where
  "is_attr_char b \<longleftrightarrow> is_ascii_alphabetic b \<or> is_ascii_digit b \<or> b = CHR ''_'' \<or> b = CHR ''.'' \<or> b = CHR ''-''"

text \<open>A \<open>while\<close> loop that advances the cursor as long as the byte under it satisfies \<open>p\<close>.\<close>

function scan_while :: "(char \<Rightarrow> bool) \<Rightarrow> string \<Rightarrow> nat \<Rightarrow> nat" where
  "scan_while p bytes cur =
     (if cur < length bytes \<and> p (bytes ! cur) then scan_while p bytes (cur + 1) else cur)"
  by pat_completeness auto
termination
  by (relation "measure (\<lambda>(p, bytes, cur). length bytes - cur)") auto

declare scan_while.simps [simp del]

definition skip_ws :: "string \<Rightarrow> nat \<Rightarrow> nat" where
  "skip_ws = scan_while is_blank"

definition next_token_excerpt :: "string \<Rightarrow> nat \<Rightarrow> string" where
  "next_token_excerpt bytes cur = slice bytes cur (min (cur + 8) (length bytes))"

definition parse_attr :: "string \<Rightarrow> nat \<Rightarrow> parse_error + string \<times> nat" where
  "parse_attr bytes cur =
     (let start = cur in
      if cur \<ge> length bytes then perr ExpectedAttribute (cur + 1)
      else let first = bytes ! cur in
        if \<not> (is_ascii_alphabetic first \<or> first = CHR ''_'') then perr (AttributeStart first) (cur + 1)
        else let cur' = scan_while is_attr_char bytes cur; s = slice bytes start cur' in
          if utf8_valid s then Inr (s, cur') else perr AttributeNotUtf8 (start + 1))"

definition parse_op :: "string \<Rightarrow> nat \<Rightarrow> parse_error + pred_op \<times> nat" where
  "parse_op bytes cur =
     (if cur \<ge> length bytes then perr ExpectedOperator (cur + 1)
      else let rest = drop cur bytes in
        if starts_with ''=~'' rest then Inr (RegexMatch, cur + 2)
        else if starts_with ''!~'' rest then Inr (RegexNotMatch, cur + 2)
        else if starts_with ''!='' rest then Inr (OpNe, cur + 2)
        else if starts_with ''='' rest then Inr (OpEq, cur + 1)
        else perr (ExpectedOperatorGot (next_token_excerpt bytes cur)) (cur + 1))"

text \<open>
  The loop shared by \<open>parse_quoted\<close> and \<open>parse_regex_literal\<close>: collect bytes up to the
  closing delimiter, a backslash in front of the delimiter escapes it, every other
  backslash stands for itself. \<open>None\<close> is the end of the input.
\<close>

function scan_delimited :: "char \<Rightarrow> string \<Rightarrow> nat \<Rightarrow> string \<Rightarrow> (string \<times> nat) option" where
  "scan_delimited d bytes cur out =
     (if cur \<ge> length bytes then None
      else if bytes ! cur = CHR 0x5C \<and> cur + 1 < length bytes \<and> bytes ! (cur + 1) = d
        then scan_delimited d bytes (cur + 2) (out @ [d])
      else if bytes ! cur = d then Some (out, cur + 1)
      else scan_delimited d bytes (cur + 1) (out @ [bytes ! cur]))"
  by pat_completeness auto
termination
  by (relation "measure (\<lambda>(d, bytes, cur, out). length bytes - cur)") auto

declare scan_delimited.simps [simp del]

definition parse_quoted :: "string \<Rightarrow> nat \<Rightarrow> parse_error + string \<times> nat" where
  "parse_quoted bytes cur =
     (let start = cur in
      case scan_delimited CHR 0x22 bytes (cur + 1) [] of
        Some (out, cur') \<Rightarrow>
          if utf8_valid out then Inr (out, cur') else perr QuotedNotUtf8 (start + 1)
      | None \<Rightarrow> perr UnterminatedQuoted (start + 1))"

definition parse_regex_literal :: "string \<Rightarrow> nat \<Rightarrow> parse_error + (string \<times> nat) \<times> nat" where
  "parse_regex_literal bytes cur =
     (if cur \<ge> length bytes \<or> bytes ! cur \<noteq> CHR 0x2F then perr ExpectedSlash (cur + 1)
      else let start = cur in
        case scan_delimited CHR 0x2F bytes (cur + 1) [] of
          Some (out, cur') \<Rightarrow>
            if utf8_valid out then Inr ((out, start), cur') else perr RegexNotUtf8 (start + 1)
        | None \<Rightarrow> perr UnterminatedRegex (start + 1))"

definition parse_bare :: "string \<Rightarrow> nat \<Rightarrow> parse_error + string \<times> nat" where
  "parse_bare bytes cur =
     (let start = cur; cur' = scan_while (\<lambda>b. \<not> is_blank b) bytes cur in
      if cur' = start then perr ExpectedLiteral (cur' + 1)
      else let s = slice bytes start cur' in
        if utf8_valid s then Inr (s, cur') else perr LiteralNotUtf8 (start + 1))"

definition parse_literal ::
  "(string \<Rightarrow> string + 'r) \<Rightarrow> string \<Rightarrow> nat \<Rightarrow> pred_op \<Rightarrow> parse_error + 'r clause_literal \<times> nat" where
  "parse_literal regex_new bytes cur opr =
     (if opr = RegexMatch \<or> opr = RegexNotMatch then
        bind_result (parse_regex_literal bytes cur) (\<lambda>((pattern, start_col), cur').
          case regex_new pattern of
            Inl e \<Rightarrow> perr (InvalidRegex e) (start_col + 1)
          | Inr regex \<Rightarrow> Inr (Regex regex, cur'))
      else if cur < length bytes \<and> bytes ! cur = CHR 0x22 then
        bind_result (parse_quoted bytes cur) (\<lambda>(s, cur'). Inr (Plain s, cur'))
      else bind_result (parse_bare bytes cur) (\<lambda>(s, cur'). Inr (Plain s, cur')))"

definition consume_keyword :: "string \<Rightarrow> nat \<Rightarrow> string \<Rightarrow> nat option" where
  "consume_keyword bytes cur kw =
     (if starts_with kw (drop cur bytes)
      then let stop = cur + length kw in
        if stop \<ge> length bytes \<or> is_blank (bytes ! stop) then Some stop else None
      else None)"

section \<open>Progress\<close>

text \<open>
  Every scanner that succeeds moves the cursor forward and stays inside the input; this
  is what makes the clause loop below terminate.
\<close>

lemma scan_while_bounds:
  "cur \<le> scan_while p bytes cur \<and> (cur \<le> length bytes \<longrightarrow> scan_while p bytes cur \<le> length bytes)"
proof (induction p bytes cur rule: scan_while.induct)
  case (1 p bytes cur)
  then show ?case by (subst (1 2) scan_while.simps) auto
qed

lemma scan_while_stop:
  "\<not> (cur < length bytes \<and> p (bytes ! cur)) \<Longrightarrow> scan_while p bytes cur = cur"
  by (subst scan_while.simps) auto

lemma scan_while_step:
  "cur < length bytes \<Longrightarrow> p (bytes ! cur) \<Longrightarrow> scan_while p bytes cur = scan_while p bytes (cur + 1)"
  by (subst scan_while.simps) simp

lemma scan_while_progress:
  assumes "cur < length bytes" and "p (bytes ! cur)"
  shows "cur < scan_while p bytes cur"
  using scan_while_bounds [of "cur + 1" p bytes] by (simp add: scan_while_step [of cur bytes p, OF assms])

lemma skip_ws_bounds:
  "cur \<le> skip_ws bytes cur" "cur \<le> length bytes \<Longrightarrow> skip_ws bytes cur \<le> length bytes"
  using scan_while_bounds [of cur is_blank bytes] by (simp_all add: skip_ws_def)

lemma scan_delimited_bounds:
  "scan_delimited d bytes cur out = Some (r, cur') \<Longrightarrow> cur < cur' \<and> cur' \<le> length bytes"
proof (induction d bytes cur out rule: scan_delimited.induct)
  case (1 d bytes cur out)
  then show ?case
    by (auto simp: scan_delimited.simps [of d bytes cur out] split: if_splits)
qed

lemma parse_attr_bounds:
  assumes "parse_attr bytes cur = Inr (a, cur')"
  shows "cur < cur' \<and> cur' \<le> length bytes"
proof -
  have cur: "cur < length bytes" and first: "is_ascii_alphabetic (bytes ! cur) \<or> bytes ! cur = CHR ''_''"
    and cur': "cur' = scan_while is_attr_char bytes cur"
    using assms by (auto simp: parse_attr_def perr_def Let_def split: if_splits)
  have "is_attr_char (bytes ! cur)" using first by (auto simp: is_attr_char_def)
  then show ?thesis
    using scan_while_progress [of cur bytes is_attr_char, OF cur]
      scan_while_bounds [of cur is_attr_char bytes] cur cur' by simp
qed

lemma parse_op_bounds: "parse_op bytes cur = Inr (opr, cur') \<Longrightarrow> cur < cur' \<and> cur' \<le> length bytes"
  using starts_with_length [of "''=~''" "drop cur bytes"] starts_with_length [of "''!~''" "drop cur bytes"]
    starts_with_length [of "''!=''" "drop cur bytes"] starts_with_length [of "''=''" "drop cur bytes"]
  by (auto simp: parse_op_def perr_def Let_def split: if_splits)

lemma parse_quoted_bounds:
  "parse_quoted bytes cur = Inr (s, cur') \<Longrightarrow> cur < cur' \<and> cur' \<le> length bytes"
  using scan_delimited_bounds [of "CHR 0x22" bytes "cur + 1" "[]"]
  by (auto simp: parse_quoted_def perr_def Let_def split: option.splits prod.splits if_splits)

lemma parse_regex_literal_bounds:
  "parse_regex_literal bytes cur = Inr (r, cur') \<Longrightarrow> cur < cur' \<and> cur' \<le> length bytes"
  using scan_delimited_bounds [of "CHR 0x2F" bytes "cur + 1" "[]"]
  by (auto simp: parse_regex_literal_def perr_def Let_def split: option.splits prod.splits if_splits)

lemma parse_bare_bounds:
  "cur \<le> length bytes \<Longrightarrow> parse_bare bytes cur = Inr (s, cur') \<Longrightarrow> cur < cur' \<and> cur' \<le> length bytes"
  using scan_while_bounds [of cur "\<lambda>b. \<not> is_blank b" bytes]
  by (auto simp: parse_bare_def perr_def Let_def split: if_splits)

lemma parse_literal_bounds:
  assumes cur: "cur \<le> length bytes" and lit: "parse_literal rx bytes cur opr = Inr (l, cur')"
  shows "cur < cur' \<and> cur' \<le> length bytes"
proof (cases "opr = RegexMatch \<or> opr = RegexNotMatch")
  case True
  with lit obtain pat col c where r: "parse_regex_literal bytes cur = Inr ((pat, col), c)"
    and v: "(case rx pat of Inl e \<Rightarrow> perr (InvalidRegex e) (col + 1) | Inr re \<Rightarrow> Inr (Regex re, c))
        = Inr (l, cur')"
    by (auto simp: parse_literal_def)
  from v have "c = cur'" by (cases "rx pat") (simp_all add: perr_def)
  with parse_regex_literal_bounds [OF r] show ?thesis by simp
next
  case False
  with lit cur show ?thesis
    by (auto simp: parse_literal_def split: if_splits dest: parse_quoted_bounds parse_bare_bounds)
qed

lemma consume_keyword_bounds:
  "consume_keyword bytes cur kw = Some cur' \<Longrightarrow> cur' = cur + length kw \<and> cur' \<le> max cur (length bytes)"
  using starts_with_length [of kw "drop cur bytes"]
  by (auto simp: consume_keyword_def Let_def split: if_splits)

section \<open>The parser\<close>

lemma bind_result_cong [fundef_cong]:
  "r = r' \<Longrightarrow> (\<And>a. r' = Inr a \<Longrightarrow> f a = g a) \<Longrightarrow> bind_result r f = bind_result r' g"
  by (cases r) auto

function parse_clauses ::
  "(string \<Rightarrow> string + 'r) \<Rightarrow> string \<Rightarrow> nat \<Rightarrow> 'r clause list \<Rightarrow> parse_error + 'r clause list" where
  "parse_clauses regex_new bytes cur clauses =
     bind_result (parse_attr bytes cur) (\<lambda>(attribute, c1).
     bind_result (parse_op bytes (skip_ws bytes c1)) (\<lambda>(opr, c2).
     bind_result (parse_literal regex_new bytes (skip_ws bytes c2) opr) (\<lambda>(literal, c3).
       let clauses' = clauses @ [\<lparr>cl_attribute = attribute, cl_op = opr, cl_literal = literal\<rparr>];
           c4 = skip_ws bytes c3
       in if c4 \<ge> length bytes then Inr clauses'
          else case consume_keyword bytes c4 ''AND'' of
            None \<Rightarrow> perr (ExpectedAndGot (next_token_excerpt bytes c4)) (c4 + 1)
          | Some c5 \<Rightarrow> parse_clauses regex_new bytes (skip_ws bytes c5) clauses')))"
  by pat_completeness auto
termination
proof (relation "measure (\<lambda>(rx, bytes, cur, clauses). length bytes - cur)", simp, clarsimp)
  fix rx :: "string \<Rightarrow> string + 'r" and bytes cur a c1 opr c2 l c3 c5
  assume a: "parse_attr bytes cur = Inr (a, c1)"
    and o: "parse_op bytes (skip_ws bytes c1) = Inr (opr, c2)"
    and l: "parse_literal rx bytes (skip_ws bytes c2) opr = Inr (l, c3)"
    and "\<not> length bytes \<le> skip_ws bytes c3"
    and k: "consume_keyword bytes (skip_ws bytes c3) ''AND'' = Some c5"
  note b1 = parse_attr_bounds [OF a]
  note b2 = parse_op_bounds [OF o] skip_ws_bounds [of c1 bytes]
  have "skip_ws bytes c2 \<le> length bytes" using b2 by (simp add: skip_ws_bounds)
  note b3 = parse_literal_bounds [OF this l] skip_ws_bounds [of c2 bytes]
  have "cur < skip_ws bytes c5"
    using b1 b2 b3 consume_keyword_bounds [OF k] skip_ws_bounds(1) [of c3 bytes]
      skip_ws_bounds(1) [of c5 bytes] by linarith
  then show "length bytes - skip_ws bytes c5 < length bytes - cur"
    using b1 by linarith
qed

declare parse_clauses.simps [simp del]

definition predicate_parse :: "(string \<Rightarrow> string + 'r) \<Rightarrow> string \<Rightarrow> parse_error + 'r predicate" where
  "predicate_parse regex_new input =
     (let cur = skip_ws input 0 in
      if cur \<ge> length input then Inr [] else parse_clauses regex_new input cur [])"

section \<open>Evaluation and logging\<close>

definition clause_matches ::
  "('r \<Rightarrow> string \<Rightarrow> bool) \<Rightarrow> 'r clause \<Rightarrow> attribute_triple list \<Rightarrow> bool" where
  "clause_matches is_match c attrs =
     (let value = (case find (\<lambda>a. at_key a = cl_attribute c) attrs of
                     None \<Rightarrow> None | Some a \<Rightarrow> at_current a)
      in case (cl_literal c, cl_op c, value) of
           (Plain rhs, OpEq, Some v) \<Rightarrow> v = rhs
         | (Plain _, OpEq, None) \<Rightarrow> False
         | (Plain rhs, OpNe, Some v) \<Rightarrow> v \<noteq> rhs
         | (Plain _, OpNe, None) \<Rightarrow> True
         | (Regex re, RegexMatch, Some v) \<Rightarrow> is_match re v
         | (Regex _, RegexMatch, None) \<Rightarrow> False
         | (Regex re, RegexNotMatch, Some v) \<Rightarrow> \<not> is_match re v
         | (Regex _, RegexNotMatch, None) \<Rightarrow> True
         | (_, OpEq, _) \<Rightarrow> False
         | (_, RegexMatch, _) \<Rightarrow> False
         | (_, OpNe, _) \<Rightarrow> True
         | (_, RegexNotMatch, _) \<Rightarrow> True)"

definition predicate_matches ::
  "('r \<Rightarrow> string \<Rightarrow> bool) \<Rightarrow> 'r predicate \<Rightarrow> attribute_triple list \<Rightarrow> bool" where
  "predicate_matches is_match p attrs \<longleftrightarrow> list_all (\<lambda>c. clause_matches is_match c attrs) p"

fun op_text :: "pred_op \<Rightarrow> string" where
  "op_text OpEq = ''=''"
| "op_text OpNe = ''!=''"
| "op_text RegexMatch = ''=~''"
| "op_text RegexNotMatch = ''!~''"

fun redacted_from :: "nat \<Rightarrow> 'r predicate \<Rightarrow> string" where
  "redacted_from i [] = []"
| "redacted_from i (c # cs) =
     (if i > 0 then '' AND '' else []) @ cl_attribute c @ '' '' @ op_text (cl_op c) @ '' <value>''
     @ redacted_from (i + 1) cs"

definition redacted :: "'r predicate \<Rightarrow> string" where
  "redacted p = redacted_from 0 p"

section \<open>Errors point into the input\<close>

definition column_ok :: "string \<Rightarrow> parse_error + 'a \<Rightarrow> bool" where
  "column_ok bytes r \<longleftrightarrow> (\<forall>e. r = Inl e \<longrightarrow> 1 \<le> pe_column e \<and> pe_column e \<le> length bytes + 1)"

lemma column_ok_Inr [simp]: "column_ok bytes (Inr x)"
  by (simp add: column_ok_def)

lemma column_ok_perr [simp]: "column_ok bytes (perr m col) \<longleftrightarrow> 1 \<le> col \<and> col \<le> length bytes + 1"
  by (simp add: column_ok_def perr_def)

lemma column_ok_bind:
  "column_ok bytes r \<Longrightarrow> (\<And>a. r = Inr a \<Longrightarrow> column_ok bytes (f a)) \<Longrightarrow> column_ok bytes (bind_result r f)"
  by (cases r) (auto simp: column_ok_def)

lemma column_ok_attr: "cur \<le> length bytes \<Longrightarrow> column_ok bytes (parse_attr bytes cur)"
  by (simp add: parse_attr_def Let_def)

lemma column_ok_op: "cur \<le> length bytes \<Longrightarrow> column_ok bytes (parse_op bytes cur)"
  by (simp add: parse_op_def Let_def)

lemma column_ok_literal:
  assumes "cur \<le> length bytes"
  shows "column_ok bytes (parse_literal rx bytes cur opr)"
proof -
  have re: "column_ok bytes (parse_regex_literal bytes cur)"
    and qu: "cur < length bytes \<Longrightarrow> column_ok bytes (parse_quoted bytes cur)"
    and ba: "column_ok bytes (parse_bare bytes cur)"
    using assms
    by (auto simp: parse_regex_literal_def parse_quoted_def parse_bare_def Let_def
        scan_while_stop split: option.splits)
  have col: "snd (fst r) = cur \<and> cur < length bytes" if "parse_regex_literal bytes cur = Inr r" for r
    using that by (auto simp: parse_regex_literal_def perr_def Let_def
        split: if_splits option.splits prod.splits)
  show ?thesis
    unfolding parse_literal_def
    using re qu ba by (auto intro!: column_ok_bind split: sum.splits prod.splits dest!: col)
qed

lemma parse_clauses_column:
  "cur \<le> length bytes \<Longrightarrow> column_ok bytes (parse_clauses rx bytes cur clauses)"
proof (induction rx bytes cur clauses rule: parse_clauses.induct)
  case (1 rx bytes cur clauses)
  show ?case
    unfolding parse_clauses.simps [of rx bytes cur clauses]
  proof (intro column_ok_bind column_ok_attr "1.prems", clarify, intro column_ok_bind, goal_cases)
    case (1 a c1)
    then show ?case by (intro column_ok_op skip_ws_bounds) (use parse_attr_bounds in blast)
  next
    case (2 a c1 r)
    obtain opr c2 where r: "r = (opr, c2)" by force
    note o = parse_op_bounds [OF 2(2) [unfolded r]]
    have lit: "column_ok bytes (parse_literal rx bytes (skip_ws bytes c2) opr)"
      by (intro column_ok_literal skip_ws_bounds) (use o in simp)
    have rest: "column_ok bytes
        (let cl = clauses @ [\<lparr>cl_attribute = a, cl_op = opr, cl_literal = l\<rparr>]; c4 = skip_ws bytes c3
         in if length bytes \<le> c4 then Inr cl
            else case consume_keyword bytes c4 ''AND'' of
              None \<Rightarrow> perr (ExpectedAndGot (next_token_excerpt bytes c4)) (c4 + 1)
            | Some c5 \<Rightarrow> parse_clauses rx bytes (skip_ws bytes c5) cl)"
      if l: "parse_literal rx bytes (skip_ws bytes c2) opr = Inr (l, c3)" for l c3
    proof (cases "length bytes \<le> skip_ws bytes c3")
      case False
      show ?thesis
      proof (cases "consume_keyword bytes (skip_ws bytes c3) ''AND''")
        case (Some c5)
        have "skip_ws bytes c5 \<le> length bytes"
          using consume_keyword_bounds [OF Some] False by (intro skip_ws_bounds) simp
        from "1.IH" [OF 2(1) refl 2(2) [unfolded r] refl l refl refl refl False Some this] False Some show ?thesis
          by (simp add: Let_def)
      qed (use False in \<open>simp add: Let_def\<close>)
    qed (simp add: Let_def)
    show ?case unfolding r by (auto intro!: column_ok_bind lit rest)
  qed
qed

section \<open>Operator and literal go together\<close>

definition clause_paired :: "'r clause \<Rightarrow> bool" where
  "clause_paired c \<longleftrightarrow>
     (case cl_literal c of Plain _ \<Rightarrow> cl_op c = OpEq \<or> cl_op c = OpNe
      | Regex _ \<Rightarrow> cl_op c = RegexMatch \<or> cl_op c = RegexNotMatch)"

lemma parse_literal_paired:
  assumes "parse_literal rx bytes cur opr = Inr (l, c)"
  shows "clause_paired \<lparr>cl_attribute = a, cl_op = opr, cl_literal = l\<rparr>"
proof (cases "opr = RegexMatch \<or> opr = RegexNotMatch")
  case True
  with assms obtain p col c' where
    v: "(case rx p of Inl e \<Rightarrow> perr (InvalidRegex e) (col + 1) | Inr re \<Rightarrow> Inr (Regex re, c')) = Inr (l, c)"
    by (auto simp: parse_literal_def)
  then have "\<exists>re. l = Regex re" by (cases "rx p") (auto simp: perr_def)
  with True show ?thesis by (auto simp: clause_paired_def)
next
  case False
  with assms have "\<exists>s. l = Plain s" by (auto simp: parse_literal_def split: if_splits)
  moreover have "opr = OpEq \<or> opr = OpNe" using False by (cases opr) auto
  ultimately show ?thesis by (auto simp: clause_paired_def)
qed

lemma parse_clauses_paired:
  "parse_clauses rx bytes cur clauses = Inr p \<Longrightarrow> list_all clause_paired clauses \<Longrightarrow>
   list_all clause_paired p"
proof (induction rx bytes cur clauses rule: parse_clauses.induct)
  case (1 rx bytes cur clauses)
  from "1.prems"(1) obtain a c1 opr c2 l c3 where
    a: "parse_attr bytes cur = Inr (a, c1)"
    and o: "parse_op bytes (skip_ws bytes c1) = Inr (opr, c2)"
    and l: "parse_literal rx bytes (skip_ws bytes c2) opr = Inr (l, c3)"
    and rest: "(let cl = clauses @ [\<lparr>cl_attribute = a, cl_op = opr, cl_literal = l\<rparr>]; c4 = skip_ws bytes c3
         in if length bytes \<le> c4 then Inr cl
            else case consume_keyword bytes c4 ''AND'' of
              None \<Rightarrow> perr (ExpectedAndGot (next_token_excerpt bytes c4)) (c4 + 1)
            | Some c5 \<Rightarrow> parse_clauses rx bytes (skip_ws bytes c5) cl) = Inr p"
    by (auto simp: parse_clauses.simps [of rx bytes cur clauses])
  have cl: "list_all clause_paired (clauses @ [\<lparr>cl_attribute = a, cl_op = opr, cl_literal = l\<rparr>])"
    using "1.prems"(2) parse_literal_paired [OF l] by simp
  show ?case
  proof (cases "length bytes \<le> skip_ws bytes c3")
    case True
    with rest cl show ?thesis by (simp add: Let_def)
  next
    case False
    with rest obtain c5 where k: "consume_keyword bytes (skip_ws bytes c3) ''AND'' = Some c5"
      and r: "parse_clauses rx bytes (skip_ws bytes c5)
        (clauses @ [\<lparr>cl_attribute = a, cl_op = opr, cl_literal = l\<rparr>]) = Inr p"
      by (auto simp: Let_def perr_def split: option.splits)
    from "1.IH" [OF a refl o refl l refl refl refl False k r cl] show ?thesis .
  qed
qed

end
