(* ===== verification/Predicate_Printing.thy ===== *)
theory Predicate_Printing
  imports Watch_Predicate
begin

text \<open>
  The concrete syntax of the predicate language as a printer, and the proof that the
  parser of \<open>Watch_Predicate\<close> reads back what the printer writes. The printer is the
  specification side: the source only prints predicates in redacted form. A literal that
  ends in a backslash has no quoted form (the backslash would escape the delimiter), which
  is the side condition of the round trip.
\<close>

section \<open>The printer\<close>

definition escape :: "char \<Rightarrow> string \<Rightarrow> string" where
  "escape d v = concat (map (\<lambda>b. if b = d then [CHR 0x5C, d] else [b]) v)"

fun op_is_regex :: "pred_op \<Rightarrow> bool" where
  "op_is_regex OpEq = False"
| "op_is_regex OpNe = False"
| "op_is_regex RegexMatch = True"
| "op_is_regex RegexNotMatch = True"

text \<open>A clause to print: attribute, operator, and the text of the value or pattern.\<close>

type_synonym raw_clause = "string \<times> pred_op \<times> string"

definition literal_text :: "pred_op \<Rightarrow> string \<Rightarrow> string" where
  "literal_text opr v =
     (let d = (if op_is_regex opr then CHR 0x2F else CHR 0x22) in [d] @ escape d v @ [d])"

fun clause_text :: "raw_clause \<Rightarrow> string" where
  "clause_text (a, opr, v) = a @ '' '' @ op_text opr @ '' '' @ literal_text opr v"

fun predicate_text :: "raw_clause list \<Rightarrow> string" where
  "predicate_text [] = []"
| "predicate_text [c] = clause_text c"
| "predicate_text (c # cs) = clause_text c @ '' AND '' @ predicate_text cs"

text \<open>What the parser should make of it; \<open>f\<close> is what the regex engine compiles a pattern to.\<close>

fun compile_clause :: "(string \<Rightarrow> 'r) \<Rightarrow> raw_clause \<Rightarrow> 'r clause" where
  "compile_clause f (a, opr, v) =
     \<lparr>cl_attribute = a, cl_op = opr, cl_literal = (if op_is_regex opr then Regex (f v) else Plain v)\<rparr>"

definition attr_name_ok :: "string \<Rightarrow> bool" where
  "attr_name_ok a \<longleftrightarrow>
     (case a of [] \<Rightarrow> False | b # _ \<Rightarrow> is_ascii_alphabetic b \<or> b = CHR ''_'') \<and> list_all is_attr_char a"

fun raw_clause_ok :: "(string \<Rightarrow> string + 'r) \<Rightarrow> (string \<Rightarrow> 'r) \<Rightarrow> raw_clause \<Rightarrow> bool" where
  "raw_clause_ok rx f (a, opr, v) \<longleftrightarrow>
     attr_name_ok a \<and> utf8_valid v \<and> (v = [] \<or> last v \<noteq> CHR 0x5C)
     \<and> (op_is_regex opr \<longrightarrow> rx v = Inr (f v))"

section \<open>The scanners on printed text\<close>

lemma scan_while_run:
  "bytes = pre @ xs @ rest \<Longrightarrow> cur = length pre \<Longrightarrow> list_all p xs \<Longrightarrow>
   rest = [] \<or> \<not> p (hd rest) \<Longrightarrow> scan_while p bytes cur = cur + length xs"
proof (induction xs arbitrary: pre cur)
  case Nil
  then show ?case by (cases rest) (auto intro!: scan_while_stop simp: nth_append)
next
  case (Cons x xs)
  have "scan_while p bytes cur = scan_while p bytes (cur + 1)"
    using Cons.prems by (intro scan_while_step) (auto simp: nth_append)
  also have "\<dots> = cur + 1 + length xs"
    using Cons.prems by (intro Cons.IH [of "pre @ [x]"]) auto
  finally show ?case by simp
qed

lemma skip_ws_space:
  "bytes = pre @ '' '' @ rest \<Longrightarrow> cur = length pre \<Longrightarrow> rest = [] \<or> \<not> is_blank (hd rest) \<Longrightarrow>
   skip_ws bytes cur = cur + 1"
  unfolding skip_ws_def by (subst scan_while_run [of _ pre "'' ''" rest]) (auto simp: is_blank_def)

lemma skip_ws_none:
  "bytes = pre @ rest \<Longrightarrow> cur = length pre \<Longrightarrow> rest = [] \<or> \<not> is_blank (hd rest) \<Longrightarrow>
   skip_ws bytes cur = cur"
  unfolding skip_ws_def by (subst scan_while_run [of _ pre "[]" rest]) auto

lemma attr_char_ascii: "is_attr_char b \<Longrightarrow> byte b < 128"
  by (auto simp: is_attr_char_def is_ascii_alphabetic_def is_ascii_digit_def byte_def)

lemma attr_char_not_blank: "is_attr_char b \<Longrightarrow> \<not> is_blank b"
  by (auto simp: is_attr_char_def is_blank_def is_ascii_alphabetic_def is_ascii_digit_def byte_def)

lemma attr_name_hd: "attr_name_ok a \<Longrightarrow> a \<noteq> [] \<and> \<not> is_blank (hd a)"
  by (cases a) (auto simp: attr_name_ok_def intro: attr_char_not_blank dest: attr_char_not_blank)

lemma parse_attr_printed:
  assumes "bytes = pre @ a @ '' '' @ rest" and "cur = length pre" and "attr_name_ok a"
  shows "parse_attr bytes cur = Inr (a, cur + length a)"
proof -
  have scan: "scan_while is_attr_char bytes cur = cur + length a"
    using assms by (intro scan_while_run [of _ pre a "'' '' @ rest"])
      (auto simp: attr_name_ok_def is_attr_char_def is_ascii_alphabetic_def is_ascii_digit_def byte_def)
  have "utf8_valid a"
    using assms(3) by (intro utf8_valid_ascii) (auto simp: attr_name_ok_def list_all_iff attr_char_ascii)
  moreover obtain b a' where "a = b # a'" "is_ascii_alphabetic b \<or> b = CHR ''_''"
    using assms(3) by (auto simp: attr_name_ok_def split: list.splits)
  ultimately show ?thesis
    using assms(1,2) scan by (auto simp: parse_attr_def Let_def slice_def nth_append)
qed

lemma parse_op_printed:
  "bytes = pre @ op_text opr @ '' '' @ rest \<Longrightarrow> cur = length pre \<Longrightarrow>
   parse_op bytes cur = Inr (opr, cur + length (op_text opr))"
  by (cases opr) (simp_all add: parse_op_def starts_with_def)

lemma literal_text_hd: "literal_text opr v \<noteq> [] \<and> \<not> is_blank (hd (literal_text opr v))"
  by (simp add: literal_text_def is_blank_def Let_def)

lemma op_text_hd: "op_text opr \<noteq> [] \<and> \<not> is_blank (hd (op_text opr))"
  by (cases opr) (simp_all add: is_blank_def)

lemma scan_delimited_step:
  assumes "bytes = pre @ b # c # rest" and "cur = length pre"
    and "b \<noteq> d" and "\<not> (b = CHR 0x5C \<and> c = d)"
  shows "scan_delimited d bytes cur out = scan_delimited d bytes (cur + 1) (out @ [b])"
  using assms by (subst scan_delimited.simps) (auto simp: nth_append)

lemma scan_delimited_escaped:
  assumes "bytes = pre @ CHR 0x5C # d # rest" and "cur = length pre"
  shows "scan_delimited d bytes cur out = scan_delimited d bytes (cur + 2) (out @ [d])"
  using assms by (subst scan_delimited.simps) (auto simp: nth_append)

lemma scan_delimited_close:
  assumes "bytes = pre @ d # rest" and "cur = length pre" and "d \<noteq> CHR 0x5C"
  shows "scan_delimited d bytes cur out = Some (out, cur + 1)"
  using assms by (subst scan_delimited.simps) (auto simp: nth_append)

lemma escape_Cons: "escape d (b # v) = (if b = d then [CHR 0x5C, d] else [b]) @ escape d v"
  by (simp add: escape_def)

text \<open>After an escaped value comes the delimiter, so the head of the two is never a bare \<open>d\<close> inside the value.\<close>

lemma escape_hd:
  assumes "d \<noteq> CHR 0x5C" and "v \<noteq> []"
  shows "\<exists>c r. escape d v @ d # rest = c # r \<and> c \<noteq> d"
  using assms by (cases v) (auto simp: escape_Cons)

lemma scan_delimited_printed:
  "bytes = pre @ escape d v @ d # rest \<Longrightarrow> cur = length pre \<Longrightarrow> d \<noteq> CHR 0x5C \<Longrightarrow>
   v = [] \<or> last v \<noteq> CHR 0x5C \<Longrightarrow>
   scan_delimited d bytes cur out = Some (out @ v, cur + length (escape d v) + 1)"
proof (induction v arbitrary: pre cur out)
  case Nil
  then show ?case by (simp add: scan_delimited_close escape_def)
next
  case (Cons b v)
  have last: "v = [] \<or> last v \<noteq> CHR 0x5C" using Cons.prems(4) by auto
  show ?case
  proof (cases "b = d")
    case True
    have "scan_delimited d bytes cur out = scan_delimited d bytes (cur + 2) (out @ [d])"
      using Cons.prems(1,2) True by (intro scan_delimited_escaped [of _ pre]) (simp_all add: escape_Cons)
    with Cons.IH [of "pre @ [CHR 0x5C, d]" "cur + 2" "out @ [d]"] Cons.prems True last show ?thesis
      by (simp add: escape_Cons)
  next
    case False
    obtain c r where cr: "escape d v @ d # rest = c # r" and c: "v \<noteq> [] \<longrightarrow> c \<noteq> d"
      using escape_hd [OF Cons.prems(3), of v rest] by (cases v) (auto simp: escape_def)
    have "scan_delimited d bytes cur out = scan_delimited d bytes (cur + 1) (out @ [b])"
      using Cons.prems False cr c
      by (intro scan_delimited_step [of _ pre b c r]) (auto simp: escape_Cons)
    with Cons.IH [of "pre @ [b]" "cur + 1" "out @ [b]"] Cons.prems False last show ?thesis
      by (simp add: escape_Cons)
  qed
qed

lemma parse_literal_printed:
  assumes "bytes = pre @ literal_text opr v @ rest" and "cur = length pre"
    and "raw_clause_ok rx f (a, opr, v)"
  shows "parse_literal rx bytes cur opr =
     Inr (if op_is_regex opr then Regex (f v) else Plain v, cur + length (literal_text opr v))"
proof -
  define d where "d = (if op_is_regex opr then CHR 0x2F else CHR 0x22)"
  have lit: "literal_text opr v = d # escape d v @ [d]" by (simp add: d_def literal_text_def Let_def)
  have d: "d \<noteq> CHR 0x5C" by (simp add: d_def)
  have scan: "scan_delimited d bytes (cur + 1) [] = Some ([] @ v, cur + 1 + length (escape d v) + 1)"
    using assms d by (intro scan_delimited_printed [of _ "pre @ [d]" d v rest]) (auto simp: lit)
  have at: "cur < length bytes \<and> bytes ! cur = d" using assms(1,2) by (simp add: lit nth_append)
  show ?thesis
  proof (cases "op_is_regex opr")
    case True
    then have "opr = RegexMatch \<or> opr = RegexNotMatch" by (cases opr) auto
    with True scan at assms(3) lit show ?thesis
      by (auto simp: parse_literal_def parse_regex_literal_def d_def)
  next
    case False
    then have "opr = OpEq \<or> opr = OpNe" by (cases opr) auto
    with False scan at assms(3) lit show ?thesis
      by (auto simp: parse_literal_def parse_quoted_def d_def)
  qed
qed

lemma consume_and:
  "bytes = pre @ ''AND'' @ '' '' @ rest \<Longrightarrow> cur = length pre \<Longrightarrow>
   consume_keyword bytes cur ''AND'' = Some (cur + 3)"
  by (simp add: consume_keyword_def starts_with_def is_blank_def nth_append numeral_eq_Suc)

section \<open>One clause, then all of them\<close>

lemma parse_clauses_one:
  assumes b: "bytes = pre @ clause_text (a, opr, v) @ rest" and cur: "cur = length pre"
    and ok: "raw_clause_ok rx f (a, opr, v)"
  shows "parse_clauses rx bytes cur acc =
     (let acc' = acc @ [compile_clause f (a, opr, v)];
          c4 = skip_ws bytes (cur + length (clause_text (a, opr, v)))
      in if c4 \<ge> length bytes then Inr acc'
         else case consume_keyword bytes c4 ''AND'' of
           None \<Rightarrow> perr (ExpectedAndGot (next_token_excerpt bytes c4)) (c4 + 1)
         | Some c5 \<Rightarrow> parse_clauses rx bytes (skip_ws bytes c5) acc')"
proof -
  let ?lit = "literal_text opr v"
  have attr: "parse_attr bytes cur = Inr (a, cur + length a)"
    using b cur ok by (intro parse_attr_printed [of _ pre a "op_text opr @ '' '' @ ?lit @ rest"]) auto
  have ws1: "skip_ws bytes (cur + length a) = cur + length a + 1"
    using b cur op_text_hd [of opr]
    by (intro skip_ws_space [of _ "pre @ a" "op_text opr @ '' '' @ ?lit @ rest"]) auto
  have opp: "parse_op bytes (cur + length a + 1) = Inr (opr, cur + length a + 1 + length (op_text opr))"
    using b cur by (intro parse_op_printed [of _ "pre @ a @ '' ''" _ "?lit @ rest"]) auto
  have ws2: "skip_ws bytes (cur + length a + 1 + length (op_text opr)) =
      cur + length a + 1 + length (op_text opr) + 1"
    using b cur by (intro skip_ws_space [of _ "pre @ a @ '' '' @ op_text opr" "?lit @ rest"])
      (auto simp: literal_text_hd)
  have lit: "parse_literal rx bytes (cur + length a + 1 + length (op_text opr) + 1) opr =
     Inr (if op_is_regex opr then Regex (f v) else Plain v,
          cur + length a + 1 + length (op_text opr) + 1 + length ?lit)"
    using b cur ok by (intro parse_literal_printed [of _ "pre @ a @ '' '' @ op_text opr @ '' ''"]) auto
  have len: "cur + length (clause_text (a, opr, v)) =
      cur + length a + 1 + length (op_text opr) + 1 + length ?lit" by simp
  show ?thesis
    unfolding parse_clauses.simps [of rx bytes cur acc] len
    by (simp only: attr ws1 opp ws2 lit bind_result.simps prod.case compile_clause.simps)
qed

lemma clause_text_hd:
  "raw_clause_ok rx f c \<Longrightarrow> clause_text c \<noteq> [] \<and> \<not> is_blank (hd (clause_text c))"
  by (cases c) (auto dest: attr_name_hd)

lemma predicate_text_hd:
  "list_all (raw_clause_ok rx f) cs \<Longrightarrow> cs \<noteq> [] \<Longrightarrow>
   predicate_text cs \<noteq> [] \<and> \<not> is_blank (hd (predicate_text cs))"
  by (cases cs rule: predicate_text.cases) (auto dest: clause_text_hd simp del: clause_text.simps)

lemma parse_clauses_printed:
  "bytes = pre @ predicate_text cs \<Longrightarrow> cur = length pre \<Longrightarrow> cs \<noteq> [] \<Longrightarrow>
   list_all (raw_clause_ok rx f) cs \<Longrightarrow>
   parse_clauses rx bytes cur acc = Inr (acc @ map (compile_clause f) cs)"
proof (induction cs arbitrary: pre cur acc rule: predicate_text.induct)
  case 1
  then show ?case by simp
next
  case (2 c)
  obtain a opr v where c: "c = (a, opr, v)" by (cases c)
  let ?stop = "cur + length (clause_text c)"
  have ws: "skip_ws bytes ?stop = ?stop"
    using 2 by (intro skip_ws_none [of _ "pre @ clause_text c" "[]"]) auto
  have one: "bytes = pre @ clause_text (a, opr, v) @ []" "raw_clause_ok rx f (a, opr, v)"
    and len: "length bytes = ?stop"
    using 2 c by simp_all
  show ?case
    using parse_clauses_one [OF one(1) 2(2) one(2), of acc] ws len c
    by (simp del: clause_text.simps compile_clause.simps)
next
  case (3 c c2 cs)
  obtain a opr v where c: "c = (a, opr, v)" by (cases c)
  let ?tail = "predicate_text (c2 # cs)"
  let ?stop = "cur + length (clause_text c)"
  have b: "bytes = pre @ clause_text c @ '' AND '' @ ?tail" using "3.prems"(1) by simp
  have ok: "raw_clause_ok rx f c" "list_all (raw_clause_ok rx f) (c2 # cs)"
    using "3.prems"(4) by simp_all
  have hd: "?tail \<noteq> [] \<and> \<not> is_blank (hd ?tail)" by (rule predicate_text_hd [OF ok(2)]) simp
  have ws1: "skip_ws bytes ?stop = ?stop + 1"
    using b "3.prems"(2)
    by (intro skip_ws_space [of _ "pre @ clause_text c" "''AND '' @ ?tail"]) (auto simp: is_blank_def)
  have kw: "consume_keyword bytes (?stop + 1) ''AND'' = Some (?stop + 1 + 3)"
    using b "3.prems"(2) by (intro consume_and [of _ "pre @ clause_text c @ '' ''" ?tail]) auto
  have ws2: "skip_ws bytes (?stop + 1 + 3) = ?stop + 1 + 3 + 1"
    using b "3.prems"(2) hd
    by (intro skip_ws_space [of _ "pre @ clause_text c @ '' AND''" ?tail]) auto
  have lt: "\<not> length bytes \<le> ?stop + 1" using b "3.prems"(2) by simp
  have one: "bytes = pre @ clause_text (a, opr, v) @ ('' AND '' @ ?tail)"
    "raw_clause_ok rx f (a, opr, v)"
    using b ok(1) c by (simp_all del: clause_text.simps raw_clause_ok.simps)
  have "parse_clauses rx bytes cur acc =
      parse_clauses rx bytes (?stop + 1 + 3 + 1) (acc @ [compile_clause f c])"
    unfolding parse_clauses_one [OF one(1) "3.prems"(2) one(2), of acc]
    by (simp only: c [symmetric] Let_def ws1 lt if_False kw option.case ws2)
  also have "\<dots> = Inr ((acc @ [compile_clause f c]) @ map (compile_clause f) (c2 # cs))"
    using b "3.prems"(2) ok(2)
    by (intro "3.IH" [of "pre @ clause_text c @ '' AND ''"]) auto
  finally show ?case by simp
qed

section \<open>Properties\<close>

text \<open>
  Parsing the printed form of a predicate gives the predicate back: attributes,
  operators, quoted values (with embedded quotes) and regex literals (with embedded
  slashes), for any number of clauses.
\<close>

theorem predicate_roundtrip:
  assumes "list_all (raw_clause_ok rx f) cs"
  shows "predicate_parse rx (predicate_text cs) = Inr (map (compile_clause f) cs)"
proof (cases "cs = []")
  case True
  then show ?thesis by (simp add: predicate_parse_def skip_ws_def scan_while_stop)
next
  case False
  note hd = predicate_text_hd [OF assms False]
  have "skip_ws (predicate_text cs) 0 = 0"
    using hd by (intro skip_ws_none [of _ "[]" "predicate_text cs"]) auto
  with hd parse_clauses_printed [OF _ _ False assms, of "predicate_text cs" "[]" 0 "[]"]
  show ?thesis by (simp add: predicate_parse_def)
qed

lemma predicate_roundtrip_witness:
  "predicate_parse (\<lambda>p. Inr (length p)) (predicate_text [(''mime.type'', OpEq, [CHR ''a'', CHR 0x22]), (''path'', RegexMatch, ''/x'')])
   = Inr [\<lparr>cl_attribute = ''mime.type'', cl_op = OpEq, cl_literal = Plain [CHR ''a'', CHR 0x22]\<rparr>,
          \<lparr>cl_attribute = ''path'', cl_op = RegexMatch, cl_literal = Regex 2\<rparr>]"
proof -
  have h: "list_all (raw_clause_ok (\<lambda>p. Inr (length p)) length)
      [(''mime.type'', OpEq, [CHR ''a'', CHR 0x22]), (''path'', RegexMatch, ''/x'')]"
    by (simp add: attr_name_ok_def is_attr_char_def is_ascii_alphabetic_def is_ascii_digit_def byte_def)
  show ?thesis using predicate_roundtrip [OF h] by simp
qed

text \<open>
  C37: a parse failure always reports a column inside the input or right behind its last
  byte (1-based), whichever of the fourteen kinds of failure it is.
\<close>

theorem parse_error_column_in_input:
  assumes "predicate_parse rx input = Inl e"
  shows "1 \<le> pe_column e \<and> pe_column e \<le> length input + 1"
proof -
  have "column_ok input (predicate_parse rx input)"
    using parse_clauses_column [of "skip_ws input 0" input rx "[]"]
    by (simp add: predicate_parse_def Let_def)
  with assms show ?thesis by (simp add: column_ok_def)
qed

lemma parse_error_column_in_input_witness:
  "\<exists>e. predicate_parse (\<lambda>p. Inr p) ''a ='' = Inl e \<and> pe_message e = ExpectedLiteral
     \<and> 1 \<le> pe_column e \<and> pe_column e \<le> 4"
proof -
  have h: "predicate_parse (\<lambda>p. Inr p) ''a ='' = Inl \<lparr>pe_message = ExpectedLiteral, pe_column = 4\<rparr>"
    by code_simp
  show ?thesis using h parse_error_column_in_input [OF h] by simp
qed

text \<open>
  C34: the parser pairs regex operators with regex literals and equality operators with
  plain literals, so on a parsed predicate evaluation never takes the defensive fallback
  arms: it is the documented semantics, clause by clause, with a missing attribute making
  \<open>=\<close> and \<open>=~\<close> false and \<open>!=\<close> and \<open>!~\<close> true.
\<close>

theorem parsed_predicate_semantics:
  assumes "predicate_parse rx input = Inr p"
  shows "predicate_matches is_match p attrs \<longleftrightarrow>
     (\<forall>c \<in> set p.
        let value = Option.bind (find (\<lambda>a. at_key a = cl_attribute c) attrs) at_current;
            holds = (case value of None \<Rightarrow> False
                     | Some v \<Rightarrow> (case cl_literal c of Plain rhs \<Rightarrow> v = rhs | Regex re \<Rightarrow> is_match re v))
        in if cl_op c = OpEq \<or> cl_op c = RegexMatch then holds else \<not> holds)"
proof -
  have "list_all clause_paired p"
    using assms parse_clauses_paired [of rx input "skip_ws input 0" "[]" p]
    by (auto simp: predicate_parse_def Let_def split: if_splits)
  then have pair: "clause_paired c" if "c \<in> set p" for c using that by (simp add: list_all_iff)
  have "clause_matches is_match c attrs \<longleftrightarrow>
        (let value = Option.bind (find (\<lambda>a. at_key a = cl_attribute c) attrs) at_current;
            holds = (case value of None \<Rightarrow> False
                     | Some v \<Rightarrow> (case cl_literal c of Plain rhs \<Rightarrow> v = rhs | Regex re \<Rightarrow> is_match re v))
         in if cl_op c = OpEq \<or> cl_op c = RegexMatch then holds else \<not> holds)" if "c \<in> set p" for c
    using pair [OF that]
    by (cases "find (\<lambda>a. at_key a = cl_attribute c) attrs"; cases "cl_op c"; cases "cl_literal c")
      (auto simp: clause_matches_def clause_paired_def Let_def split: option.splits)
  then show ?thesis by (simp add: predicate_matches_def list_all_iff)
qed

lemma parsed_predicate_semantics_witness:
  "predicate_matches (\<lambda>re v. re = v) [\<lparr>cl_attribute = ''a'', cl_op = OpNe, cl_literal = Plain ''x''\<rparr>] []"
proof -
  have h: "predicate_parse (\<lambda>p. Inr p) ''a != x'' =
      Inr [\<lparr>cl_attribute = ''a'', cl_op = OpNe, cl_literal = Plain ''x''\<rparr>]"
    by code_simp
  show ?thesis using parsed_predicate_semantics [OF h, of "\<lambda>re v. re = v" "[]"] by simp
qed

lemma redacted_from_shape:
  "map (\<lambda>c. (cl_attribute c, cl_op c)) p = map (\<lambda>c. (cl_attribute c, cl_op c)) q \<Longrightarrow>
   redacted_from i p = redacted_from i q"
proof (induction p arbitrary: q i)
  case (Cons c p)
  then obtain d q' where "q = d # q'" by (cases q) auto
  with Cons show ?case by auto
qed simp

text \<open>
  The log form of a predicate carries no literal: two predicates with the same
  attributes and operators have the same redacted form, whatever their values.
\<close>

theorem redacted_hides_literals:
  assumes "map (\<lambda>c. (cl_attribute c, cl_op c)) p = map (\<lambda>c. (cl_attribute c, cl_op c)) q"
  shows "redacted p = redacted q"
  using redacted_from_shape [OF assms] by (simp add: redacted_def)

lemma redacted_hides_literals_witness:
  "redacted [\<lparr>cl_attribute = ''a'', cl_op = OpEq, cl_literal = Plain ''secret''\<rparr>]
   = redacted [\<lparr>cl_attribute = ''a'', cl_op = OpEq, cl_literal = Plain ''other''\<rparr>]"
  by (rule redacted_hides_literals) simp

end
