(* ===== verification/Client_Types.thy ===== *)
theory Client_Types
  imports Text_Utils "HOL-Library.Word" "HOL-Library.AList"
begin

text \<open>
  The snapshot types the API client hands to the rest of the program
  (\<open>src/src/client/mod.rs\<close>, \<open>status.rs\<close>, \<open>browser.rs\<close>, \<open>reporting_tasks.rs\<close>) and the
  pure conversions from wire strings. Counters keep their machine width (\<open>u32\<close> and \<open>u64\<close>
  are words); the optional signed numbers of the wire objects are \<open>int option\<close>.
\<close>

type_synonym u32 = "32 word"
type_synonym u64 = "64 word"

text \<open>\<open>o.unwrap_or_default()\<close> on strings and \<open>o.unwrap_or(0).max(0) as uN\<close> on numbers.\<close>

definition or_empty :: "'a list option \<Rightarrow> 'a list" where
  "or_empty v = (case v of None \<Rightarrow> [] | Some s \<Rightarrow> s)"

definition nonneg :: "int option \<Rightarrow> 'w::len word" where
  "nonneg v = word_of_int (max 0 (case v of None \<Rightarrow> 0 | Some n \<Rightarrow> n))"

text \<open>The elements that are present, in order: \<open>let Some(x) = e.x.as_ref() else { continue }\<close>.\<close>

definition present :: "'a option list option \<Rightarrow> 'a list" where
  "present v = List.map_filter (\<lambda>x. x) (or_empty v)"

lemma or_empty_simps [simp]: "or_empty None = []" "or_empty (Some s) = s"
  by (simp_all add: or_empty_def)

text \<open>A number that fits its width survives the cast; a negative one becomes zero.\<close>

lemma uint_nonneg:
  "v = Some n \<Longrightarrow> 0 \<le> n \<Longrightarrow> n < 2 ^ LENGTH('w) \<Longrightarrow> uint (nonneg v :: 'w::len word) = n"
  by (simp add: nonneg_def uint_word_of_int max_def)

definition eq_ignore_ascii_case :: "string \<Rightarrow> string \<Rightarrow> bool" where
  "eq_ignore_ascii_case a b \<longleftrightarrow> to_ascii_lowercase a = to_ascii_lowercase b"

lemma eq_ignore_ascii_case_trans:
  "eq_ignore_ascii_case s a \<Longrightarrow> eq_ignore_ascii_case s b \<Longrightarrow> eq_ignore_ascii_case a b"
  by (simp add: eq_ignore_ascii_case_def)

text \<open>
  The \<open>if s.eq_ignore_ascii_case(..) { .. } else if ..\<close> chains of the \<open>from_wire\<close>
  functions: the first matching word decides, anything else is the fallback.
\<close>

fun wire_lookup :: "(string \<times> 'a) list \<Rightarrow> 'a \<Rightarrow> string \<Rightarrow> 'a" where
  "wire_lookup [] other s = other"
| "wire_lookup ((w, v) # ws) other s =
     (if eq_ignore_ascii_case s w then v else wire_lookup ws other s)"

lemma wire_lookup_ignores_case:
  "eq_ignore_ascii_case s t \<Longrightarrow> wire_lookup ws other s = wire_lookup ws other t"
  by (induction ws) (auto simp: eq_ignore_ascii_case_def)

section \<open>Component states\<close>

datatype processor_status =
  PsRunning | PsStopped | PsInvalid | PsDisabled | PsValidating | PsUnknown

definition processor_status_from_wire :: "string \<Rightarrow> processor_status" where
  "processor_status_from_wire = wire_lookup
     [(''RUNNING'', PsRunning), (''STOPPED'', PsStopped), (''INVALID'', PsInvalid),
      (''DISABLED'', PsDisabled), (''VALIDATING'', PsValidating)] PsUnknown"

datatype cs_state = CsEnabled | CsDisabled | CsEnabling | CsDisabling | CsInvalid | CsUnknown

definition cs_state_from_wire :: "string \<Rightarrow> cs_state" where
  "cs_state_from_wire = wire_lookup
     [(''ENABLED'', CsEnabled), (''DISABLED'', CsDisabled), (''ENABLING'', CsEnabling),
      (''DISABLING'', CsDisabling), (''INVALID'', CsInvalid)] CsUnknown"

datatype port_status =
  PortRunning | PortStopped | PortInvalid | PortDisabled | PortValidating | PortUnknown

definition port_status_from_wire :: "string \<Rightarrow> port_status" where
  "port_status_from_wire = wire_lookup
     [(''RUNNING'', PortRunning), (''STOPPED'', PortStopped), (''INVALID'', PortInvalid),
      (''DISABLED'', PortDisabled), (''VALIDATING'', PortValidating)] PortUnknown"

datatype transmission_status = Transmitting | NotTransmitting | TransmissionUnknown

definition transmission_status_from_wire :: "string \<Rightarrow> transmission_status" where
  "transmission_status_from_wire = wire_lookup
     [(''Transmitting'', Transmitting), (''Not Transmitting'', NotTransmitting)]
     TransmissionUnknown"

section \<open>Bulletins\<close>

datatype severity = SevUnknown | SevInfo | SevWarning | SevError

definition severity_parse :: "string \<Rightarrow> severity" where
  "severity_parse level =
     (let u = to_ascii_uppercase level in
      if u = ''ERROR'' then SevError
      else if u = ''WARN'' \<or> u = ''WARNING'' then SevWarning
      else if u = ''INFO'' then SevInfo
      else SevUnknown)"

text \<open>The derived order of the source: the order of declaration.\<close>

fun severity_rank :: "severity \<Rightarrow> nat" where
  "severity_rank SevUnknown = 0"
| "severity_rank SevInfo = 1"
| "severity_rank SevWarning = 2"
| "severity_rank SevError = 3"

instantiation severity :: linorder
begin

definition less_eq_severity :: "severity \<Rightarrow> severity \<Rightarrow> bool" where
  "less_eq_severity a b \<longleftrightarrow> severity_rank a \<le> severity_rank b"

definition less_severity :: "severity \<Rightarrow> severity \<Rightarrow> bool" where
  "less_severity a b \<longleftrightarrow> severity_rank a < severity_rank b"

instance
proof
  fix a b :: severity
  show "a \<le> b \<Longrightarrow> b \<le> a \<Longrightarrow> a = b"
    by (cases a; cases b) (simp_all add: less_eq_severity_def)
qed (auto simp: less_eq_severity_def less_severity_def)

end

record bulletin_snapshot =
  bu_id :: int
  bu_level :: string
  bu_message :: string
  bu_source_id :: string
  bu_source_name :: string
  bu_source_type :: string
  bu_group_id :: string
  bu_timestamp_iso :: string
  bu_timestamp_human :: string

section \<open>Flow components\<close>

datatype folder_kind = Queues | ControllerServices

datatype node_kind =
    ProcessGroup | Processor | Connection | InputPort | OutputPort
  | ControllerService | RemoteProcessGroup | Folder folder_kind

datatype node_status_summary =
    StProcessGroup (st_running: u32) (st_stopped: u32) (st_invalid: u32) (st_disabled: u32)
  | StProcessor (st_run_status: string)
  | StConnection (st_fill_percent: u32) (st_flow_files_queued: u32) (st_queued_display: string)
      (st_source_id: string) (st_source_name: string)
      (st_destination_id: string) (st_destination_name: string)
  | StControllerService (st_state: string)
  | StPort
  | StRemoteProcessGroup (st_transmission_status: string) (st_active_threads: u32)
      (st_flow_files_received: u32) (st_flow_files_sent: u32)
      (st_bytes_received: u64) (st_bytes_sent: u64) (st_target_uri: string)
  | StFolder (st_count: u32)

record raw_node =
  rn_parent :: "nat option"
  rn_kind :: node_kind
  rn_id :: string
  rn_group_id :: string
  rn_name :: string
  rn_status :: node_status_summary

record connection_endpoint_ids =
  ce_source_id :: string
  ce_destination_id :: string

text \<open>\<open>ConnectionEndpoints\<close>: a hash map from connection ids, as an association list.\<close>

type_synonym connection_endpoints = "(string \<times> connection_endpoint_ids) list"

section \<open>Controller status\<close>

record controller_status_dto =
  csd_running_count :: "int option"
  csd_stopped_count :: "int option"
  csd_invalid_count :: "int option"
  csd_disabled_count :: "int option"
  csd_active_thread_count :: "int option"
  csd_flow_files_queued :: "int option"
  csd_bytes_queued :: "int option"
  csd_stale_count :: "int option"
  csd_locally_modified_count :: "int option"
  csd_sync_failure_count :: "int option"
  csd_up_to_date_count :: "int option"

record controller_status_snapshot =
  cst_running :: u32
  cst_stopped :: u32
  cst_invalid :: u32
  cst_disabled :: u32
  cst_active_threads :: u32
  cst_flow_files_queued :: u32
  cst_bytes_queued :: u64
  cst_stale :: u32
  cst_locally_modified :: u32
  cst_sync_failure :: u32
  cst_up_to_date :: u32

definition controller_status_from_dto ::
  "controller_status_dto \<Rightarrow> controller_status_snapshot" where
  "controller_status_from_dto dto =
     \<lparr>cst_running = nonneg (csd_running_count dto),
      cst_stopped = nonneg (csd_stopped_count dto),
      cst_invalid = nonneg (csd_invalid_count dto),
      cst_disabled = nonneg (csd_disabled_count dto),
      cst_active_threads = nonneg (csd_active_thread_count dto),
      cst_flow_files_queued = nonneg (csd_flow_files_queued dto),
      cst_bytes_queued = nonneg (csd_bytes_queued dto),
      cst_stale = nonneg (csd_stale_count dto),
      cst_locally_modified = nonneg (csd_locally_modified_count dto),
      cst_sync_failure = nonneg (csd_sync_failure_count dto),
      cst_up_to_date = nonneg (csd_up_to_date_count dto)\<rparr>"

record about_snapshot =
  ab_version :: string
  ab_title :: string

section \<open>Controller services\<close>

record cs_component_dto =
  csc_id :: "string option"
  csc_name :: "string option"
  csc_state :: "string option"
  csc_validation_status :: "string option"
  csc_parent_group_id :: "string option"

record cs_counts =
  csn_enabled :: u32
  csn_disabled :: u32
  csn_invalid :: u32

definition cs_counts_total :: "cs_counts \<Rightarrow> u32" where
  "cs_counts_total c = csn_enabled c + csn_disabled c + csn_invalid c"

definition cs_counts_add :: "cs_component_dto \<Rightarrow> cs_counts \<Rightarrow> cs_counts" where
  "cs_counts_add c out =
     (let validation_invalid = (case csc_validation_status c of None \<Rightarrow> False
                                | Some s \<Rightarrow> eq_ignore_ascii_case s ''INVALID'');
          state = map_option cs_state_from_wire (csc_state c)
      in if validation_invalid then out\<lparr>csn_invalid := csn_invalid out + 1\<rparr>
         else if state = Some CsEnabled then out\<lparr>csn_enabled := csn_enabled out + 1\<rparr>
         else out\<lparr>csn_disabled := csn_disabled out + 1\<rparr>)"

text \<open>The listing is the optional list of entities, each with an optional component.\<close>

definition cs_counts_from_listing :: "cs_component_dto option list option \<Rightarrow> cs_counts" where
  "cs_counts_from_listing listing =
     fold cs_counts_add (present listing) \<lparr>csn_enabled = 0, csn_disabled = 0, csn_invalid = 0\<rparr>"

record cs_member =
  csm_id :: string
  csm_name :: string
  csm_state :: string
  csm_parent_group_id :: string

record controller_services_snapshot =
  css_counts :: cs_counts
  css_members :: "cs_member list"

definition cs_member_of :: "cs_component_dto \<Rightarrow> cs_member option" where
  "cs_member_of c =
     (case csc_parent_group_id c of
        None \<Rightarrow> None
      | Some pg_id \<Rightarrow>
          Some \<lparr>csm_id = or_empty (csc_id c), csm_name = or_empty (csc_name c),
                csm_state = or_empty (csc_state c), csm_parent_group_id = pg_id\<rparr>)"

definition cs_from_listing ::
  "cs_component_dto option list option \<Rightarrow> controller_services_snapshot" where
  "cs_from_listing listing =
     \<lparr>css_counts = cs_counts_from_listing listing,
      css_members = List.map_filter cs_member_of (present listing)\<rparr>"

lemma cs_counts_total_add: "cs_counts_total (cs_counts_add c out) = cs_counts_total out + 1"
  by (simp add: cs_counts_total_def cs_counts_add_def Let_def)

lemma cs_counts_total_fold:
  "cs_counts_total (fold cs_counts_add cs out) = cs_counts_total out + of_nat (length cs)"
  by (induction cs arbitrary: out) (simp_all add: cs_counts_total_add)

section \<open>Properties\<close>

text \<open>
  Every controller service of the listing is counted in exactly one of the three
  buckets, while the member list keeps exactly those with an owning group: the buckets
  add up (modulo 2^32) to the components present, and each member is one of them.
\<close>

theorem cs_listing_counts_every_service:
  "cs_counts_total (css_counts (cs_from_listing listing)) = of_nat (length (present listing))
   \<and> map csm_parent_group_id (css_members (cs_from_listing listing))
       = List.map_filter csc_parent_group_id (present listing)"
proof -
  have "map csm_parent_group_id (List.map_filter cs_member_of cs)
          = List.map_filter csc_parent_group_id cs" for cs
    by (induction cs) (auto simp: List.map_filter_def cs_member_of_def split: option.splits)
  then show ?thesis
    by (simp add: cs_from_listing_def cs_counts_from_listing_def cs_counts_total_fold)
      (simp add: cs_counts_total_def)
qed

end
