(* ===== verification/Flow_Status.thy ===== *)
theory Flow_Status
  imports Client_Types "HOL-Library.Multiset"
begin

text \<open>
  The recursive process-group status of the API and its flattening
  (\<open>src/src/client/mod.rs\<close>, \<open>src/src/client/browser.rs\<close>): the flat node list the Browser
  arena is built from, the queue leaderboard, the component tallies and the fan-out list
  of process-group ids. The wire objects hold the fields these walks read.
\<close>

section \<open>Wire objects\<close>

record processor_dto =
  prd_id :: "string option"
  prd_group_id :: "string option"
  prd_name :: "string option"
  prd_run_status :: "string option"

record connection_dto =
  cnd_id :: "string option"
  cnd_group_id :: "string option"
  cnd_name :: "string option"
  cnd_source_id :: "string option"
  cnd_source_name :: "string option"
  cnd_destination_id :: "string option"
  cnd_destination_name :: "string option"
  cnd_queued :: "string option"
  cnd_percent_use_count :: "int option"
  cnd_percent_use_bytes :: "int option"
  cnd_flow_files_queued :: "int option"
  cnd_bytes_queued :: "int option"

record port_dto =
  pod_id :: "string option"
  pod_group_id :: "string option"
  pod_name :: "string option"

record rpg_dto =
  rpd_id :: "string option"
  rpd_group_id :: "string option"
  rpd_name :: "string option"
  rpd_transmission_status :: "string option"
  rpd_active_thread_count :: "int option"
  rpd_flow_files_received :: "int option"
  rpd_flow_files_sent :: "int option"
  rpd_bytes_received :: "int option"
  rpd_bytes_sent :: "int option"
  rpd_target_uri :: "string option"

datatype pg_dto = PgDto
  (pgd_id: "string option")
  (pgd_name: "string option")
  (pgd_flow_files_queued: "int option")
  (pgd_bytes_queued: "int option")
  (pgd_processors: "processor_dto option list option")
  (pgd_connections: "connection_dto option list option")
  (pgd_input_ports: "port_dto option list option")
  (pgd_output_ports: "port_dto option list option")
  (pgd_rpgs: "rpg_dto option list option")
  (pgd_children: "pg_dto option list option")

section \<open>Rows of one process group\<close>

definition pg_row :: "pg_dto \<Rightarrow> nat option \<Rightarrow> raw_node" where
  "pg_row s parent_idx =
     \<lparr>rn_parent = parent_idx, rn_kind = ProcessGroup, rn_id = or_empty (pgd_id s),
      rn_group_id = [], rn_name = or_empty (pgd_name s),
      rn_status = StProcessGroup 0 0 0 0\<rparr>"

definition processor_row :: "nat \<Rightarrow> processor_dto \<Rightarrow> raw_node" where
  "processor_row pg_idx p =
     \<lparr>rn_parent = Some pg_idx, rn_kind = Processor, rn_id = or_empty (prd_id p),
      rn_group_id = or_empty (prd_group_id p), rn_name = or_empty (prd_name p),
      rn_status = StProcessor (or_empty (prd_run_status p))\<rparr>"

definition fill_percent :: "connection_dto \<Rightarrow> u32" where
  "fill_percent c = max (nonneg (cnd_percent_use_count c)) (nonneg (cnd_percent_use_bytes c))"

definition connection_row :: "nat \<Rightarrow> connection_dto \<Rightarrow> raw_node" where
  "connection_row pg_idx c =
     \<lparr>rn_parent = Some pg_idx, rn_kind = Connection, rn_id = or_empty (cnd_id c),
      rn_group_id = or_empty (cnd_group_id c), rn_name = or_empty (cnd_name c),
      rn_status = StConnection (fill_percent c) (nonneg (cnd_flow_files_queued c))
        (or_empty (cnd_queued c)) (or_empty (cnd_source_id c)) (or_empty (cnd_source_name c))
        (or_empty (cnd_destination_id c)) (or_empty (cnd_destination_name c))\<rparr>"

definition port_row :: "node_kind \<Rightarrow> nat \<Rightarrow> port_dto \<Rightarrow> raw_node" where
  "port_row kind pg_idx p =
     \<lparr>rn_parent = Some pg_idx, rn_kind = kind, rn_id = or_empty (pod_id p),
      rn_group_id = or_empty (pod_group_id p), rn_name = or_empty (pod_name p),
      rn_status = StPort\<rparr>"

definition rpg_row :: "nat \<Rightarrow> rpg_dto \<Rightarrow> raw_node" where
  "rpg_row pg_idx r =
     \<lparr>rn_parent = Some pg_idx, rn_kind = RemoteProcessGroup, rn_id = or_empty (rpd_id r),
      rn_group_id = or_empty (rpd_group_id r), rn_name = or_empty (rpd_name r),
      rn_status = StRemoteProcessGroup (or_empty (rpd_transmission_status r))
        (nonneg (rpd_active_thread_count r)) (nonneg (rpd_flow_files_received r))
        (nonneg (rpd_flow_files_sent r)) (nonneg (rpd_bytes_received r))
        (nonneg (rpd_bytes_sent r)) (or_empty (rpd_target_uri r))\<rparr>"

text \<open>The leaf rows of a group, in the order the walk pushes them.\<close>

definition leaf_rows :: "pg_dto \<Rightarrow> nat \<Rightarrow> raw_node list" where
  "leaf_rows s pg_idx =
     map (processor_row pg_idx) (present (pgd_processors s))
     @ map (connection_row pg_idx) (present (pgd_connections s))
     @ map (port_row InputPort pg_idx) (present (pgd_input_ports s))
     @ map (port_row OutputPort pg_idx) (present (pgd_output_ports s))
     @ map (rpg_row pg_idx) (present (pgd_rpgs s))"

section \<open>The walks\<close>

text \<open>
  Each walk appends to the accumulator \<open>out\<close> and then visits the child groups that are
  present; the second function of each pair is the loop over the children.
\<close>

fun walk_pg_nodes :: "pg_dto \<Rightarrow> nat option \<Rightarrow> raw_node list \<Rightarrow> raw_node list"
  and walk_children :: "pg_dto option list \<Rightarrow> nat \<Rightarrow> raw_node list \<Rightarrow> raw_node list" where
  "walk_pg_nodes (PgDto i n ff bq ps cs ips ops rs children) parent_idx out =
     (let s = PgDto i n ff bq ps cs ips ops rs children; pg_idx = length out;
          out' = out @ [pg_row s parent_idx] @ leaf_rows s pg_idx
      in case children of None \<Rightarrow> out' | Some entities \<Rightarrow> walk_children entities pg_idx out')"
| "walk_children [] pg_idx out = out"
| "walk_children (None # es) pg_idx out = walk_children es pg_idx out"
| "walk_children (Some child # es) pg_idx out =
     walk_children es pg_idx (walk_pg_nodes child (Some pg_idx) out)"

fun collect_pg_ids :: "pg_dto \<Rightarrow> string list \<Rightarrow> string list"
  and collect_pg_ids_children :: "pg_dto option list \<Rightarrow> string list \<Rightarrow> string list" where
  "collect_pg_ids (PgDto i n ff bq ps cs ips ops rs children) out =
     (let out' = (case i of Some pid \<Rightarrow> if pid \<noteq> [] then out @ [pid] else out | None \<Rightarrow> out)
      in case children of None \<Rightarrow> out' | Some entities \<Rightarrow> collect_pg_ids_children entities out')"
| "collect_pg_ids_children [] out = out"
| "collect_pg_ids_children (None # es) out = collect_pg_ids_children es out"
| "collect_pg_ids_children (Some child # es) out =
     collect_pg_ids_children es (collect_pg_ids child out)"

record queue_snapshot =
  qs_id :: string
  qs_group_id :: string
  qs_name :: string
  qs_source_name :: string
  qs_destination_name :: string
  qs_fill_percent :: u32
  qs_flow_files_queued :: u32
  qs_bytes_queued :: u64
  qs_queued_display :: string

definition queue_of :: "connection_dto \<Rightarrow> queue_snapshot" where
  "queue_of c =
     \<lparr>qs_id = or_empty (cnd_id c), qs_group_id = or_empty (cnd_group_id c),
      qs_name = or_empty (cnd_name c), qs_source_name = or_empty (cnd_source_name c),
      qs_destination_name = or_empty (cnd_destination_name c),
      qs_fill_percent = fill_percent c, qs_flow_files_queued = nonneg (cnd_flow_files_queued c),
      qs_bytes_queued = nonneg (cnd_bytes_queued c), qs_queued_display = or_empty (cnd_queued c)\<rparr>"

fun collect_queues :: "pg_dto \<Rightarrow> queue_snapshot list \<Rightarrow> queue_snapshot list"
  and collect_queues_children :: "pg_dto option list \<Rightarrow> queue_snapshot list \<Rightarrow> queue_snapshot list"
where
  "collect_queues (PgDto i n ff bq ps cs ips ops rs children) out =
     (let out' = out @ map queue_of (present cs)
      in case children of None \<Rightarrow> out' | Some entities \<Rightarrow> collect_queues_children entities out')"
| "collect_queues_children [] out = out"
| "collect_queues_children (None # es) out = collect_queues_children es out"
| "collect_queues_children (Some child # es) out =
     collect_queues_children es (collect_queues child out)"

section \<open>The root snapshot\<close>

record processor_state_counts =
  psc_running :: u32
  psc_stopped :: u32
  psc_invalid :: u32
  psc_disabled :: u32

definition processor_counts_total :: "processor_state_counts \<Rightarrow> u32" where
  "processor_counts_total c = psc_running c + psc_stopped c + psc_invalid c + psc_disabled c"

record rpg_counts =
  rpc_total :: u32
  rpc_transmitting :: u32
  rpc_not_transmitting :: u32

record root_pg_status =
  rps_flow_files_queued :: u32
  rps_bytes_queued :: u64
  rps_connections :: "queue_snapshot list"
  rps_process_group_count :: u32
  rps_input_port_count :: u32
  rps_output_port_count :: u32
  rps_processors :: processor_state_counts
  rps_rpgs :: rpg_counts
  rps_process_group_ids :: "string list"
  rps_nodes :: "raw_node list"

definition root_pg_status_default :: root_pg_status where
  "root_pg_status_default =
     \<lparr>rps_flow_files_queued = 0, rps_bytes_queued = 0, rps_connections = [],
      rps_process_group_count = 0, rps_input_port_count = 0, rps_output_port_count = 0,
      rps_processors = \<lparr>psc_running = 0, psc_stopped = 0, psc_invalid = 0, psc_disabled = 0\<rparr>,
      rps_rpgs = \<lparr>rpc_total = 0, rpc_transmitting = 0, rpc_not_transmitting = 0\<rparr>,
      rps_process_group_ids = [], rps_nodes = []\<rparr>"

definition tally_processor ::
  "processor_dto \<Rightarrow> processor_state_counts \<Rightarrow> processor_state_counts" where
  "tally_processor p c =
     (case map_option processor_status_from_wire (prd_run_status p) of
        Some PsRunning \<Rightarrow> c\<lparr>psc_running := psc_running c + 1\<rparr>
      | Some PsStopped \<Rightarrow> c\<lparr>psc_stopped := psc_stopped c + 1\<rparr>
      | Some PsInvalid \<Rightarrow> c\<lparr>psc_invalid := psc_invalid c + 1\<rparr>
      | Some PsDisabled \<Rightarrow> c\<lparr>psc_disabled := psc_disabled c + 1\<rparr>
      | _ \<Rightarrow> c)"

definition tally_rpg :: "rpg_dto \<Rightarrow> rpg_counts \<Rightarrow> rpg_counts" where
  "tally_rpg r c =
     (let c' = c\<lparr>rpc_total := rpc_total c + 1\<rparr> in
      case map_option transmission_status_from_wire (rpd_transmission_status r) of
        Some Transmitting \<Rightarrow> c'\<lparr>rpc_transmitting := rpc_transmitting c' + 1\<rparr>
      | _ \<Rightarrow> c'\<lparr>rpc_not_transmitting := rpc_not_transmitting c' + 1\<rparr>)"

definition count_group :: "pg_dto \<Rightarrow> root_pg_status \<Rightarrow> root_pg_status" where
  "count_group s out =
     out\<lparr>rps_process_group_count := rps_process_group_count out + 1,
         rps_input_port_count :=
           rps_input_port_count out + of_nat (length (or_empty (pgd_input_ports s))),
         rps_output_port_count :=
           rps_output_port_count out + of_nat (length (or_empty (pgd_output_ports s))),
         rps_processors := fold tally_processor (present (pgd_processors s)) (rps_processors out),
         rps_rpgs := fold tally_rpg (present (pgd_rpgs s)) (rps_rpgs out)\<rparr>"

fun collect_counts :: "pg_dto \<Rightarrow> root_pg_status \<Rightarrow> root_pg_status"
  and collect_counts_children :: "pg_dto option list \<Rightarrow> root_pg_status \<Rightarrow> root_pg_status" where
  "collect_counts (PgDto i n ff bq ps cs ips ops rs children) out =
     (let out' = count_group (PgDto i n ff bq ps cs ips ops rs children) out
      in case children of None \<Rightarrow> out' | Some entities \<Rightarrow> collect_counts_children entities out')"
| "collect_counts_children [] out = out"
| "collect_counts_children (None # es) out = collect_counts_children es out"
| "collect_counts_children (Some child # es) out =
     collect_counts_children es (collect_counts child out)"

text \<open>\<open>sort_by\<close> is stable, and so is \<open>sort_key\<close>; the key reverses the order.\<close>

definition root_pg_status_from_aggregate :: "pg_dto \<Rightarrow> root_pg_status" where
  "root_pg_status_from_aggregate agg =
     (let snap = root_pg_status_default
            \<lparr>rps_flow_files_queued := nonneg (pgd_flow_files_queued agg),
             rps_bytes_queued := nonneg (pgd_bytes_queued agg)\<rparr>;
          connections = collect_queues agg (rps_connections snap);
          snap = snap\<lparr>rps_connections := sort_key (\<lambda>q. - uint (qs_fill_percent q)) connections\<rparr>;
          snap = collect_counts agg snap;
          snap = snap\<lparr>rps_process_group_ids := collect_pg_ids agg (rps_process_group_ids snap)\<rparr>
      in snap\<lparr>rps_nodes := walk_pg_nodes agg None (rps_nodes snap)\<rparr>)"

definition pg_ids :: "root_pg_status \<Rightarrow> string list" where
  "pg_ids s = rps_process_group_ids s"

section \<open>Shape of the flattened tree\<close>

text \<open>
  Every row but a root one points back to an earlier row, which is a process group.
\<close>

definition links_back :: "raw_node list \<Rightarrow> bool" where
  "links_back ns \<longleftrightarrow> (\<forall>i < length ns. \<forall>p. rn_parent (ns ! i) = Some p \<longrightarrow>
     p < i \<and> rn_kind (ns ! p) = ProcessGroup)"

definition is_group_row :: "raw_node list \<Rightarrow> nat \<Rightarrow> bool" where
  "is_group_row ns p \<longleftrightarrow> p < length ns \<and> rn_kind (ns ! p) = ProcessGroup"

lemma is_group_row_append: "is_group_row ns p \<Longrightarrow> is_group_row (ns @ ms) p"
  by (simp add: is_group_row_def nth_append)

lemma links_back_append:
  assumes "links_back ns" and "\<And>m p. m \<in> set ms \<Longrightarrow> rn_parent m = Some p \<Longrightarrow> is_group_row ns p"
  shows "links_back (ns @ ms)"
  unfolding links_back_def
proof (intro allI impI)
  fix i p assume i: "i < length (ns @ ms)" and p: "rn_parent ((ns @ ms) ! i) = Some p"
  show "p < i \<and> rn_kind ((ns @ ms) ! p) = ProcessGroup"
  proof (cases "i < length ns")
    case True
    with assms(1) p show ?thesis by (auto simp: links_back_def nth_append)
  next
    case False
    with i p have "is_group_row ns p"
      using assms(2) [of "ms ! (i - length ns)" p] by (simp add: nth_append)
    with False show ?thesis by (simp add: is_group_row_def nth_append)
  qed
qed

lemma leaf_rows_parent: "m \<in> set (leaf_rows s k) \<Longrightarrow> rn_parent m = Some k"
  by (auto simp: leaf_rows_def processor_row_def connection_row_def port_row_def rpg_row_def)

lemma leaf_rows_kind: "m \<in> set (leaf_rows s k) \<Longrightarrow> rn_kind m \<noteq> ProcessGroup"
  by (auto simp: leaf_rows_def processor_row_def connection_row_def port_row_def rpg_row_def)

text \<open>What one group adds before its children, and its links.\<close>

definition open_group :: "pg_dto \<Rightarrow> nat option \<Rightarrow> raw_node list \<Rightarrow> raw_node list" where
  "open_group s parent_idx out = out @ [pg_row s parent_idx] @ leaf_rows s (length out)"

lemma open_group_links:
  assumes "links_back out" and "\<And>p. parent_idx = Some p \<Longrightarrow> is_group_row out p"
  shows "links_back (open_group s parent_idx out)"
    and "is_group_row (open_group s parent_idx out) (length out)"
proof -
  have head: "links_back (out @ [pg_row s parent_idx])"
    using assms by (intro links_back_append) (auto simp: pg_row_def)
  have group: "is_group_row (out @ [pg_row s parent_idx]) (length out)"
    by (simp add: is_group_row_def pg_row_def)
  from head have "links_back ((out @ [pg_row s parent_idx]) @ leaf_rows s (length out))"
    by (rule links_back_append) (use group leaf_rows_parent in fastforce)
  then show "links_back (open_group s parent_idx out)" by (simp add: open_group_def)
  from is_group_row_append [OF group, of "leaf_rows s (length out)"]
  show "is_group_row (open_group s parent_idx out) (length out)" by (simp add: open_group_def)
qed

lemma walk_open:
  "walk_pg_nodes s parent_idx out =
     (case pgd_children s of None \<Rightarrow> open_group s parent_idx out
      | Some es \<Rightarrow> walk_children es (length out) (open_group s parent_idx out))"
  by (cases s) (simp add: open_group_def Let_def split: option.splits)

declare walk_pg_nodes.simps [simp del]

lemma walk_links:
  "links_back out \<Longrightarrow> (\<And>p. parent_idx = Some p \<Longrightarrow> is_group_row out p) \<Longrightarrow>
     links_back (walk_pg_nodes s parent_idx out) \<and>
     (\<exists>ext. walk_pg_nodes s parent_idx out = out @ pg_row s parent_idx # ext \<and>
        (\<forall>m \<in> set ext. rn_parent m \<noteq> None))"
  "links_back out \<Longrightarrow> is_group_row out k \<Longrightarrow>
     links_back (walk_children es k out) \<and>
     (\<exists>ext. walk_children es k out = out @ ext \<and> (\<forall>m \<in> set ext. rn_parent m \<noteq> None))"
proof (induction s parent_idx out and es k out rule: walk_pg_nodes_walk_children.induct)
  case (1 i n ff bq ps cs ips ops rs children parent_idx out)
  let ?s = "PgDto i n ff bq ps cs ips ops rs children"
  note opened = open_group_links [of out parent_idx ?s, OF 1(2,3)]
  have leafs: "\<forall>m \<in> set (leaf_rows ?s (length out)). rn_parent m \<noteq> None"
    using leaf_rows_parent by fastforce
  show ?case
  proof (cases children)
    case None
    with opened(1) leafs show ?thesis
      by (simp add: walk_open) (simp add: open_group_def)
  next
    case (Some es)
    have "links_back (walk_children es (length out) (open_group ?s parent_idx out)) \<and>
      (\<exists>ext. walk_children es (length out) (open_group ?s parent_idx out)
          = open_group ?s parent_idx out @ ext \<and> (\<forall>m \<in> set ext. rn_parent m \<noteq> None))"
      using 1(1) [OF refl refl _ Some] opened by (simp add: open_group_def)
    with Some leafs show ?thesis
      by (simp add: walk_open) (auto simp: open_group_def)
  qed
next
  case (2 k out)
  then show ?case by simp
next
  case (3 es k out)
  then show ?case by simp
next
  case (4 child es k out)
  from 4(1) [OF 4(3)] 4(4)
  obtain ext where one: "links_back (walk_pg_nodes child (Some k) out)"
    "walk_pg_nodes child (Some k) out = out @ pg_row child (Some k) # ext"
    "\<forall>m \<in> set ext. rn_parent m \<noteq> None"
    by auto
  have "is_group_row (walk_pg_nodes child (Some k) out) k"
    unfolding one(2) by (rule is_group_row_append [OF 4(4)])
  from 4(2) [OF one(1) this] one(2,3) show ?case
    by (auto simp: pg_row_def)
qed

section \<open>The walks agree\<close>

text \<open>
  The four walks visit the groups in the same order, so what each collects is a
  projection of the flat node list.
\<close>

definition rows_of :: "node_kind \<Rightarrow> raw_node list \<Rightarrow> raw_node list" where
  "rows_of k = filter (\<lambda>r. rn_kind r = k)"

lemma rows_of_append [simp]: "rows_of k (xs @ ys) = rows_of k xs @ rows_of k ys"
  by (simp add: rows_of_def)

lemma rows_of_leafs:
  "rows_of ProcessGroup (leaf_rows s k) = []"
  "rows_of Connection (leaf_rows s k) = map (connection_row k) (present (pgd_connections s))"
proof -
  show "rows_of ProcessGroup (leaf_rows s k) = []"
    using leaf_rows_kind by (auto simp: rows_of_def filter_empty_conv)
  have none: "filter (\<lambda>r. rn_kind r = Connection) (map (processor_row k) xs) = []"
    "filter (\<lambda>r. rn_kind r = Connection) (map (port_row InputPort k) ys) = []"
    "filter (\<lambda>r. rn_kind r = Connection) (map (port_row OutputPort k) ys) = []"
    "filter (\<lambda>r. rn_kind r = Connection) (map (rpg_row k) zs) = []" for xs ys zs
    by (auto simp: filter_empty_conv processor_row_def port_row_def rpg_row_def)
  have "filter (\<lambda>r. rn_kind r = Connection) (map (connection_row k) cs) = map (connection_row k) cs"
    for cs
    by (auto simp: filter_id_conv connection_row_def)
  then show "rows_of Connection (leaf_rows s k) = map (connection_row k) (present (pgd_connections s))"
    by (simp add: rows_of_def leaf_rows_def none)
qed

lemma rows_of_open:
  "rows_of ProcessGroup (open_group s p out) = rows_of ProcessGroup out @ [pg_row s p]"
  "rows_of Connection (open_group s p out) =
     rows_of Connection out @ map (connection_row (length out)) (present (pgd_connections s))"
proof -
  have "rows_of ProcessGroup [pg_row s p] = [pg_row s p]" "rows_of Connection [pg_row s p] = []"
    by (simp_all add: rows_of_def pg_row_def)
  then show "rows_of ProcessGroup (open_group s p out) = rows_of ProcessGroup out @ [pg_row s p]"
    "rows_of Connection (open_group s p out) =
       rows_of Connection out @ map (connection_row (length out)) (present (pgd_connections s))"
    unfolding open_group_def by (simp_all only: rows_of_append rows_of_leafs append_Nil append_Nil2)
qed

definition group_ids :: "raw_node list \<Rightarrow> string list" where
  "group_ids ns = filter (\<lambda>i. i \<noteq> []) (map rn_id (rows_of ProcessGroup ns))"

lemma walk_group_ids:
  "group_ids (walk_pg_nodes s p out) = collect_pg_ids s (group_ids out)"
  "group_ids (walk_children es k out) = collect_pg_ids_children es (group_ids out)"
proof (induction s p out and es k out rule: walk_pg_nodes_walk_children.induct)
  case (1 i n ff bq ps cs ips ops rs children parent_idx out)
  let ?s = "PgDto i n ff bq ps cs ips ops rs children"
  have open_ids: "group_ids (open_group ?s parent_idx out) =
      (case i of Some pid \<Rightarrow> if pid \<noteq> [] then group_ids out @ [pid] else group_ids out
       | None \<Rightarrow> group_ids out)"
    by (auto simp: group_ids_def rows_of_open pg_row_def split: option.splits)
  show ?case
  proof (cases children)
    case None
    with open_ids show ?thesis by (simp add: walk_open)
  next
    case (Some es)
    from 1(1) [OF refl refl _ Some]
    have "group_ids (walk_children es (length out) (open_group ?s parent_idx out)) =
        collect_pg_ids_children es (group_ids (open_group ?s parent_idx out))"
      by (simp add: open_group_def)
    with Some open_ids show ?thesis by (simp add: walk_open)
  qed
qed simp_all

text \<open>The queue fields that a connection row of the tree shows too.\<close>

definition queue_view :: "queue_snapshot \<Rightarrow> string \<times> string \<times> string \<times> u32 \<times> u32 \<times> string" where
  "queue_view q = (qs_id q, qs_group_id q, qs_name q, qs_fill_percent q,
     qs_flow_files_queued q, qs_queued_display q)"

definition row_view :: "raw_node \<Rightarrow> string \<times> string \<times> string \<times> u32 \<times> u32 \<times> string" where
  "row_view r = (rn_id r, rn_group_id r, rn_name r, st_fill_percent (rn_status r),
     st_flow_files_queued (rn_status r), st_queued_display (rn_status r))"

lemma queue_view_row: "queue_view (queue_of c) = row_view (connection_row k c)"
  by (simp add: queue_view_def row_view_def queue_of_def connection_row_def)

definition queue_rows :: "raw_node list \<Rightarrow> (string \<times> string \<times> string \<times> u32 \<times> u32 \<times> string) list" where
  "queue_rows ns = map row_view (rows_of Connection ns)"

lemma walk_queues:
  "map queue_view qs = queue_rows out \<Longrightarrow>
     map queue_view (collect_queues s qs) = queue_rows (walk_pg_nodes s p out)"
  "map queue_view qs = queue_rows out \<Longrightarrow>
     map queue_view (collect_queues_children es qs) = queue_rows (walk_children es k out)"
proof (induction s p out and es k out arbitrary: qs and qs
    rule: walk_pg_nodes_walk_children.induct)
  case (1 i n ff bq ps cs ips ops rs children parent_idx out)
  let ?s = "PgDto i n ff bq ps cs ips ops rs children"
  have opened: "map queue_view (qs @ map queue_of (present cs)) =
      queue_rows (open_group ?s parent_idx out)"
    using 1(2) by (simp add: queue_rows_def rows_of_open queue_view_row)
  show ?case
  proof (cases children)
    case None
    with opened show ?thesis by (simp add: walk_open)
  next
    case (Some es)
    from 1(1) [OF refl refl _ Some] opened
    have "map queue_view (collect_queues_children es (qs @ map queue_of (present cs))) =
        queue_rows (walk_children es (length out) (open_group ?s parent_idx out))"
      by (simp add: open_group_def)
    with Some show ?thesis by (simp add: walk_open)
  qed
qed simp_all

lemma walk_count:
  "rps_process_group_count t = of_nat (length (rows_of ProcessGroup out)) \<Longrightarrow>
     rps_process_group_count (collect_counts s t) =
       of_nat (length (rows_of ProcessGroup (walk_pg_nodes s p out)))"
  "rps_process_group_count t = of_nat (length (rows_of ProcessGroup out)) \<Longrightarrow>
     rps_process_group_count (collect_counts_children es t) =
       of_nat (length (rows_of ProcessGroup (walk_children es k out)))"
proof (induction s p out and es k out arbitrary: t and t
    rule: walk_pg_nodes_walk_children.induct)
  case (1 i n ff bq ps cs ips ops rs children parent_idx out)
  let ?s = "PgDto i n ff bq ps cs ips ops rs children"
  have opened: "rps_process_group_count (count_group ?s t) =
      of_nat (length (rows_of ProcessGroup (open_group ?s parent_idx out)))"
    using 1(2) by (simp add: rows_of_open count_group_def)
  show ?case
  proof (cases children)
    case None
    with opened show ?thesis by (simp add: walk_open)
  next
    case (Some es)
    from 1(1) [OF refl refl _ Some] opened
    have "rps_process_group_count (collect_counts_children es (count_group ?s t)) =
        of_nat (length (rows_of ProcessGroup
          (walk_children es (length out) (open_group ?s parent_idx out))))"
      by (simp add: open_group_def)
    with Some show ?thesis by (simp add: walk_open)
  qed
qed simp_all

text \<open>The tallies leave the collected lists alone.\<close>

lemma collect_counts_frame:
  "rps_connections (collect_counts s t) = rps_connections t \<and>
     rps_process_group_ids (collect_counts s t) = rps_process_group_ids t \<and>
     rps_nodes (collect_counts s t) = rps_nodes t"
  "rps_connections (collect_counts_children es t) = rps_connections t \<and>
     rps_process_group_ids (collect_counts_children es t) = rps_process_group_ids t \<and>
     rps_nodes (collect_counts_children es t) = rps_nodes t"
proof (induction s t and es t rule: collect_counts_collect_counts_children.induct)
  case (1 i n ff bq ps cs ips ops rs children out)
  then show ?case
    by (cases children) (simp_all add: Let_def count_group_def)
qed simp_all

lemma from_aggregate_fields:
  "rps_nodes (root_pg_status_from_aggregate d) = walk_pg_nodes d None []"
  "rps_process_group_ids (root_pg_status_from_aggregate d) = collect_pg_ids d []"
  "rps_connections (root_pg_status_from_aggregate d) =
     sort_key (\<lambda>q. - uint (qs_fill_percent q)) (collect_queues d [])"
  by (simp_all add: root_pg_status_from_aggregate_def Let_def collect_counts_frame
      root_pg_status_default_def)

lemma from_aggregate_count:
  "rps_process_group_count (root_pg_status_from_aggregate d) =
     of_nat (length (rows_of ProcessGroup (walk_pg_nodes d None [])))"
  unfolding root_pg_status_from_aggregate_def Let_def
  by (simp add: root_pg_status_default_def rows_of_def
      walk_count(1) [where out = "[]" and p = None and s = d, unfolded rows_of_def])

section \<open>Properties\<close>

text \<open>
  The flat node list of a status snapshot is a tree in depth-first order: row 0 is the
  root group and has no parent, every other row has one, and each parent link points back
  to an earlier row that is a process group. The Browser arena may index by these links.
\<close>

theorem status_nodes_form_tree:
  "\<exists>ext. rps_nodes (root_pg_status_from_aggregate d) = pg_row d None # ext
     \<and> (\<forall>m \<in> set ext. rn_parent m \<noteq> None)
     \<and> links_back (rps_nodes (root_pg_status_from_aggregate d))"
  using walk_links(1) [of "[]" None d]
  by (auto simp: from_aggregate_fields links_back_def)

definition sample_status :: pg_dto where
  "sample_status = PgDto (Some ''root'') None None None
     (Some [Some \<lparr>prd_id = Some ''p1'', prd_group_id = None, prd_name = None, prd_run_status = None\<rparr>, None])
     None None None None
     (Some [None, Some (PgDto (Some ''child'') None None None None None None None None None)])"

lemma status_nodes_form_tree_witness:
  "map rn_parent (rps_nodes (root_pg_status_from_aggregate sample_status)) = [None, Some 0, Some 0]
   \<and> links_back (rps_nodes (root_pg_status_from_aggregate sample_status))"
  using status_nodes_form_tree [of sample_status]
  by (simp add: from_aggregate_fields sample_status_def walk_pg_nodes.simps Let_def pg_row_def
      leaf_rows_def processor_row_def present_def List.map_filter_def)

text \<open>
  The snapshot is consistent: the process-group ids handed to the fan-out fetcher are
  the non-empty ids of the group rows in tree order, and the group count is (modulo 2^32)
  the number of group rows.
\<close>

theorem status_snapshot_consistent:
  "pg_ids (root_pg_status_from_aggregate d) = group_ids (rps_nodes (root_pg_status_from_aggregate d))
   \<and> rps_process_group_count (root_pg_status_from_aggregate d) =
       of_nat (length (rows_of ProcessGroup (rps_nodes (root_pg_status_from_aggregate d))))"
  using walk_group_ids(1) [of d None "[]"]
  by (simp add: pg_ids_def from_aggregate_fields from_aggregate_count group_ids_def rows_of_def)

text \<open>
  The queue leaderboard is sorted by descending fill percentage and lists exactly the
  connection rows of the tree, with the same identity, fill and backlog.
\<close>

theorem leaderboard_lists_every_queue:
  "sorted_wrt (\<lambda>q r. qs_fill_percent r \<le> qs_fill_percent q)
      (rps_connections (root_pg_status_from_aggregate d))
   \<and> image_mset queue_view (mset (rps_connections (root_pg_status_from_aggregate d)))
       = mset (queue_rows (rps_nodes (root_pg_status_from_aggregate d)))"
proof
  have "sorted (map (\<lambda>q. - uint (qs_fill_percent q)) (rps_connections (root_pg_status_from_aggregate d)))"
    by (simp add: from_aggregate_fields)
  then show "sorted_wrt (\<lambda>q r. qs_fill_percent r \<le> qs_fill_percent q)
      (rps_connections (root_pg_status_from_aggregate d))"
    by (simp add: sorted_map word_le_def)
  have "map queue_view (collect_queues d []) = queue_rows (walk_pg_nodes d None [])"
    by (rule walk_queues(1)) (simp add: queue_rows_def rows_of_def)
  then show "image_mset queue_view (mset (rps_connections (root_pg_status_from_aggregate d)))
       = mset (queue_rows (rps_nodes (root_pg_status_from_aggregate d)))"
    by (simp add: from_aggregate_fields flip: mset_map)
qed

end
