(* ===== verification/Node_Health.thy ===== *)
theory Node_Health
  imports Client_Types List_Navigation "HOL-Library.Multiset"
begin

text \<open>
  Cluster nodes: the snapshots of \<open>src/src/client/overview.rs\<close>,
  \<open>src/src/client/tls_cert.rs\<close> and \<open>src/src/client/reporting_tasks.rs\<close>, the projection of
  the wire objects, and \<open>update_nodes\<close>, the join of system diagnostics, cluster membership
  and certificates behind the Overview node table. Instants and wall-clock times are
  nanosecond counts; a float is its 64-bit pattern, and the one float computation of this
  code (\<open>used / max * 100.0\<close> truncated) is the argument \<open>pct\<close>; Unicode lower-casing is
  the argument \<open>lc\<close>; the date parsers of the \<open>time\<close> crate are arguments of
  \<open>parse_nifi_timestamp\<close>.
\<close>

type_synonym f64_bits = "64 word"

section \<open>Snapshots\<close>

record repo_usage =
  ru_identifier :: string
  ru_used_bytes :: u64
  ru_total_bytes :: u64
  ru_free_bytes :: u64
  ru_utilization_percent :: u32

record gc_snapshot =
  gc_name :: string
  gc_collection_count :: u64
  gc_collection_millis :: u64

record system_diag_aggregate =
  sda_content_repos :: "repo_usage list"
  sda_flowfile_repo :: "repo_usage option"
  sda_provenance_repos :: "repo_usage list"

record node_diagnostics =
  nd_address :: string
  nd_heap_used_bytes :: u64
  nd_heap_max_bytes :: u64
  nd_gc :: "gc_snapshot list"
  nd_load_average :: "f64_bits option"
  nd_available_processors :: "u32 option"
  nd_total_threads :: u32
  nd_uptime :: string
  nd_content_repos :: "repo_usage list"
  nd_flowfile_repo :: "repo_usage option"
  nd_provenance_repos :: "repo_usage list"

record system_diag_snapshot =
  sd_aggregate :: system_diag_aggregate
  sd_nodes :: "node_diagnostics list"
  sd_fetched_at :: nat

datatype traffic = Green | Yellow | Red

definition severity_for :: "u32 \<Rightarrow> u32 \<Rightarrow> traffic" where
  "severity_for yellow v = (if v \<ge> 90 then Red else if v \<ge> yellow then Yellow else Green)"

definition for_queue :: "u32 \<Rightarrow> traffic" where
  "for_queue fill = severity_for 60 fill"

definition for_repo :: "u32 \<Rightarrow> traffic" where
  "for_repo util = severity_for 70 util"

definition for_heap :: "u32 \<Rightarrow> traffic" where
  "for_heap heap = severity_for 75 heap"

datatype cluster_node_status =
  Connected | Connecting | Disconnected | Disconnecting | Offloading | Offloaded | OtherStatus

definition cluster_node_status_from_wire :: "string \<Rightarrow> cluster_node_status" where
  "cluster_node_status_from_wire s =
     (if s = ''CONNECTED'' then Connected
      else if s = ''CONNECTING'' then Connecting
      else if s = ''DISCONNECTED'' then Disconnected
      else if s = ''DISCONNECTING'' then Disconnecting
      else if s = ''OFFLOADING'' then Offloading
      else if s = ''OFFLOADED'' then Offloaded
      else OtherStatus)"

definition is_dead :: "cluster_node_status \<Rightarrow> bool" where
  "is_dead s \<longleftrightarrow> s \<in> {Disconnected, Disconnecting, Offloading, Offloaded}"

record cluster_node_event =
  ev_timestamp_iso :: string
  ev_category :: "string option"
  ev_message :: string

record cluster_node_row =
  nr_node_id :: string
  nr_address :: string
  nr_status :: cluster_node_status
  nr_is_primary :: bool
  nr_is_coordinator :: bool
  nr_heartbeat_iso :: "string option"
  nr_node_start_iso :: "string option"
  nr_active_thread_count :: u32
  nr_flow_files_queued :: u32
  nr_bytes_queued :: u64
  nr_events :: "cluster_node_event list"

record cluster_nodes_snapshot =
  cn_rows :: "cluster_node_row list"
  cn_fetched_at :: nat
  cn_fetched_wall :: int

record cluster_membership =
  cm_node_id :: string
  cm_status :: cluster_node_status
  cm_is_primary :: bool
  cm_is_coordinator :: bool
  cm_heartbeat_age :: "nat option"
  cm_node_start_iso :: "string option"
  cm_active_thread_count :: u32
  cm_flow_files_queued :: u32
  cm_bytes_queued :: u64
  cm_events :: "cluster_node_event list"

record cert_entry =
  cert_subject_cn :: "string option"
  cert_not_after :: int
  cert_is_leaf :: bool

type_synonym node_cert_chain = "cert_entry list"

datatype tls_probe_error = Connect string | Handshake string | NoCerts | ParseCert string

record tls_certs_snapshot =
  tls_certs :: "(string \<times> (tls_probe_error + node_cert_chain)) list"
  tls_fetched_at :: nat
  tls_fetched_wall :: int

text \<open>\<open>NodeCertChain::earliest_not_after\<close>: the minimum over the chain.\<close>

definition earliest_not_after :: "node_cert_chain \<Rightarrow> int option" where
  "earliest_not_after entries =
     (case entries of [] \<Rightarrow> None
      | e # es \<Rightarrow> Some (fold (\<lambda>x m. min m (cert_not_after x)) es (cert_not_after e)))"

section \<open>Wire objects to snapshots\<close>

record node_event_dto =
  ned_timestamp :: "string option"
  ned_category :: "string option"
  ned_message :: "string option"

record node_dto =
  ndo_node_id :: "string option"
  ndo_address :: "string option"
  ndo_api_port :: "int option"
  ndo_status :: "string option"
  ndo_roles :: "string list option"
  ndo_heartbeat :: "string option"
  ndo_node_start_time :: "string option"
  ndo_active_thread_count :: "int option"
  ndo_flow_files_queued :: "int option"
  ndo_bytes_queued :: "int option"
  ndo_events :: "node_event_dto list option"

text \<open>\<open>format!("{n}")\<close> of an integer.\<close>

fun show_nat_aux :: "nat \<Rightarrow> nat \<Rightarrow> string" where
  "show_nat_aux 0 n = []"
| "show_nat_aux (Suc fuel) n =
     (if n < 10 then [char_of (48 + n)]
      else show_nat_aux fuel (n div 10) @ [char_of (48 + n mod 10)])"

text \<open>A number has fewer decimal digits than its value plus one, which is the fuel.\<close>

definition show_nat :: "nat \<Rightarrow> string" where
  "show_nat n = show_nat_aux (Suc n) n"

definition show_int :: "int \<Rightarrow> string" where
  "show_int i = (if i < 0 then ''-'' @ show_nat (nat (- i)) else show_nat (nat i))"

definition max_node_events :: nat where
  "max_node_events = 8"

definition unwrap_or :: "'a \<Rightarrow> 'a option \<Rightarrow> 'a" where
  "unwrap_or d v = (case v of None \<Rightarrow> d | Some x \<Rightarrow> x)"

definition node_row_of_dto :: "node_dto \<Rightarrow> cluster_node_row" where
  "node_row_of_dto n =
     (let address = unwrap_or ''unknown'' (ndo_address n) @ '':''
                    @ show_int (unwrap_or 0 (ndo_api_port n));
          roles = or_empty (ndo_roles n);
          is_primary = (''Primary Node'' \<in> set roles);
          is_coordinator = (''Cluster Coordinator'' \<in> set roles);
          events = map (\<lambda>e. \<lparr>ev_timestamp_iso = or_empty (ned_timestamp e),
                             ev_category = ned_category e,
                             ev_message = or_empty (ned_message e)\<rparr>)
                     (take max_node_events (or_empty (ndo_events n)))
      in \<lparr>nr_node_id = or_empty (ndo_node_id n), nr_address = address,
          nr_status = cluster_node_status_from_wire (or_empty (ndo_status n)),
          nr_is_primary = is_primary, nr_is_coordinator = is_coordinator,
          nr_heartbeat_iso = ndo_heartbeat n, nr_node_start_iso = ndo_node_start_time n,
          nr_active_thread_count = nonneg (ndo_active_thread_count n),
          nr_flow_files_queued = nonneg (ndo_flow_files_queued n),
          nr_bytes_queued = nonneg (ndo_bytes_queued n), nr_events = events\<rparr>)"

definition from_cluster_dto :: "nat \<Rightarrow> int \<Rightarrow> node_dto list option \<Rightarrow> cluster_nodes_snapshot" where
  "from_cluster_dto now wall nodes =
     \<lparr>cn_rows = map node_row_of_dto (or_empty nodes), cn_fetched_at = now, cn_fetched_wall = wall\<rparr>"

section \<open>Reporting tasks\<close>

datatype reporting_task_state = RtRunning | RtStopped | RtDisabled

definition reporting_task_state_from_wire :: "string \<Rightarrow> reporting_task_state" where
  "reporting_task_state_from_wire = wire_lookup
     [(''RUNNING'', RtRunning), (''STOPPED'', RtStopped), (''DISABLED'', RtDisabled)] RtStopped"

datatype validation_status = Valid | Invalid | Validating

definition validation_status_from_wire :: "string \<Rightarrow> validation_status" where
  "validation_status_from_wire = wire_lookup
     [(''VALID'', Valid), (''INVALID'', Invalid), (''VALIDATING'', Validating)] Validating"

record rt_descriptor =
  rtd_display_name :: string
  rtd_sensitive :: bool
  rtd_required :: bool
  rtd_default_value :: "string option"

record rt_descriptor_dto =
  rdd_display_name :: "string option"
  rdd_sensitive :: "bool option"
  rdd_required :: "bool option"
  rdd_default_value :: "string option"

record reporting_task_row =
  rt_id :: string
  rt_name :: string
  rt_task_type :: string
  rt_state :: reporting_task_state
  rt_scheduling_strategy :: string
  rt_scheduling_period :: string
  rt_active_thread_count :: u32
  rt_validation_status :: validation_status
  rt_validation_errors :: "string list"
  rt_comments :: "string option"
  rt_properties :: "(string \<times> string option) list"
  rt_descriptors :: "(string \<times> rt_descriptor) list"

record reporting_tasks_snapshot =
  rts_tasks :: "reporting_task_row list"
  rts_fetched_at :: nat

record rt_component_dto =
  rtc_id :: "string option"
  rtc_name :: "string option"
  rtc_type :: "string option"
  rtc_state :: "string option"
  rtc_scheduling_strategy :: "string option"
  rtc_scheduling_period :: "string option"
  rtc_active_thread_count :: "int option"
  rtc_validation_status :: "string option"
  rtc_validation_errors :: "string list option"
  rtc_comments :: "string option"
  rtc_properties :: "(string \<times> string option) list option"
  rtc_descriptors :: "(string \<times> rt_descriptor_dto option) list option"

record rt_entity =
  rte_id :: "string option"
  rte_component :: "rt_component_dto option"

definition descriptors_of :: "rt_component_dto \<Rightarrow> (string \<times> rt_descriptor) list" where
  "descriptors_of c =
     List.map_filter (\<lambda>(k, opt_dto). map_option (\<lambda>dto.
         (k, \<lparr>rtd_display_name = unwrap_or k (rdd_display_name dto),
              rtd_sensitive = unwrap_or False (rdd_sensitive dto),
              rtd_required = unwrap_or False (rdd_required dto),
              rtd_default_value = rdd_default_value dto\<rparr>)) opt_dto)
       (or_empty (rtc_descriptors c))"

definition mask_properties ::
  "(string \<times> rt_descriptor) list \<Rightarrow> (string \<times> string option) list \<Rightarrow> (string \<times> string option) list"
where
  "mask_properties descriptors = map (\<lambda>(k, v).
     let masked = (case map_of descriptors k of None \<Rightarrow> False | Some d \<Rightarrow> rtd_sensitive d)
     in (k, if masked then None else v))"

definition reporting_task_from_entity :: "rt_entity \<Rightarrow> reporting_task_row option" where
  "reporting_task_from_entity e =
     (case rte_component e of None \<Rightarrow> None
      | Some c \<Rightarrow>
     (case (case rtc_id c of Some i \<Rightarrow> Some i | None \<Rightarrow> rte_id e) of None \<Rightarrow> None
      | Some i \<Rightarrow>
          let descriptors = descriptors_of c;
              properties = mask_properties descriptors (or_empty (rtc_properties c))
          in Some \<lparr>rt_id = i, rt_name = or_empty (rtc_name c), rt_task_type = or_empty (rtc_type c),
               rt_state = reporting_task_state_from_wire (or_empty (rtc_state c)),
               rt_scheduling_strategy = or_empty (rtc_scheduling_strategy c),
               rt_scheduling_period = or_empty (rtc_scheduling_period c),
               rt_active_thread_count = nonneg (rtc_active_thread_count c),
               rt_validation_status = validation_status_from_wire (or_empty (rtc_validation_status c)),
               rt_validation_errors = or_empty (rtc_validation_errors c),
               rt_comments = (case rtc_comments c of Some s \<Rightarrow> if s \<noteq> [] then Some s else None | None \<Rightarrow> None),
               rt_properties = properties, rt_descriptors = descriptors\<rparr>))"

definition reporting_tasks_from_entity :: "nat \<Rightarrow> rt_entity list option \<Rightarrow> reporting_tasks_snapshot" where
  "reporting_tasks_from_entity now es =
     \<lparr>rts_tasks = List.map_filter reporting_task_from_entity (or_empty es), rts_fetched_at = now\<rparr>"

record reporting_task_counts =
  rtn_total :: nat
  rtn_running :: nat
  rtn_stopped :: nat
  rtn_invalid :: nat

definition count_task :: "reporting_task_row \<Rightarrow> reporting_task_counts \<Rightarrow> reporting_task_counts" where
  "count_task t c =
     (let c = (if rt_validation_status t = Invalid then c\<lparr>rtn_invalid := rtn_invalid c + 1\<rparr> else c)
      in case rt_state t of
           RtRunning \<Rightarrow>
             if rt_validation_status t = Valid then c\<lparr>rtn_running := rtn_running c + 1\<rparr> else c
         | _ \<Rightarrow> c\<lparr>rtn_stopped := rtn_stopped c + 1\<rparr>)"

definition reporting_task_counts :: "reporting_tasks_snapshot \<Rightarrow> reporting_task_counts" where
  "reporting_task_counts s =
     fold count_task (rts_tasks s)
       \<lparr>rtn_total = length (rts_tasks s), rtn_running = 0, rtn_stopped = 0, rtn_invalid = 0\<rparr>"

section \<open>The node table\<close>

text \<open>\<open>rsplit_once(' ')\<close>: split at the last blank.\<close>

definition rsplit_once :: "char \<Rightarrow> string \<Rightarrow> (string \<times> string) option" where
  "rsplit_once c s =
     (if c \<in> set s
      then let r = rev s; back = takeWhile (\<lambda>x. x \<noteq> c) r
           in Some (rev (drop (Suc (length back)) r), rev back)
      else None)"

definition parse_nifi_timestamp ::
  "(string \<Rightarrow> int option) \<Rightarrow> (string \<Rightarrow> int option) \<Rightarrow> (string \<Rightarrow> int option) \<Rightarrow> string \<Rightarrow> int option"
where
  "parse_nifi_timestamp iso8601 with_ms without_ms raw =
     (let raw = trim raw in
      if raw = [] then None
      else case iso8601 raw of Some dt \<Rightarrow> Some dt
      | None \<Rightarrow>
     (case rsplit_once (CHR '' '') raw of None \<Rightarrow> None
      | Some (ts_part, tz_part) \<Rightarrow>
          if tz_part \<noteq> ''UTC'' then None
          else case with_ms ts_part of Some dt \<Rightarrow> Some dt | None \<Rightarrow> without_ms ts_part))"

definition nanos_per_sec :: int where
  "nanos_per_sec = 1000000000"

text \<open>Whole seconds from the heartbeat to the anchor; none when the heartbeat is ahead.\<close>

definition compute_heartbeat_age ::
  "(string \<Rightarrow> int option) \<Rightarrow> string option \<Rightarrow> int option \<Rightarrow> nat option" where
  "compute_heartbeat_age parse_ts heartbeat_iso fetched_wall =
     (case Option.bind heartbeat_iso parse_ts of None \<Rightarrow> None
      | Some hb \<Rightarrow>
     (case fetched_wall of None \<Rightarrow> None
      | Some anchor \<Rightarrow>
          let delta = anchor - hb
          in if delta < 0 then None else Some (nat (delta div nanos_per_sec))))"

record node_health_row =
  nh_node_address :: string
  nh_heap_used_bytes :: u64
  nh_heap_max_bytes :: u64
  nh_heap_percent :: u32
  nh_heap_severity :: traffic
  nh_gc_collection_count :: u64
  nh_gc_delta :: "u64 option"
  nh_gc_millis :: u64
  nh_load_average :: "f64_bits option"
  nh_available_processors :: "u32 option"
  nh_uptime :: string
  nh_total_threads :: u32
  nh_gc :: "gc_snapshot list"
  nh_content_repos :: "repo_usage list"
  nh_flowfile_repo :: "repo_usage option"
  nh_provenance_repos :: "repo_usage list"
  nh_cluster :: "cluster_membership option"
  nh_tls_cert :: "(tls_probe_error + node_cert_chain) option"

record nodes_state =
  ns_nodes :: "node_health_row list"
  ns_selected :: nat

text \<open>A map collected from pairs keeps the last value of a repeated key.\<close>

definition collect_map :: "('k \<times> 'v) list \<Rightarrow> 'k \<Rightarrow> 'v option" where
  "collect_map ps = map_of (rev ps)"

definition membership_of ::
  "(string \<Rightarrow> int option) \<Rightarrow> int option \<Rightarrow> cluster_node_row \<Rightarrow> cluster_membership" where
  "membership_of parse_ts wall cr =
     \<lparr>cm_node_id = nr_node_id cr, cm_status = nr_status cr,
      cm_is_primary = nr_is_primary cr, cm_is_coordinator = nr_is_coordinator cr,
      cm_heartbeat_age = compute_heartbeat_age parse_ts (nr_heartbeat_iso cr) wall,
      cm_node_start_iso = nr_node_start_iso cr,
      cm_active_thread_count = nr_active_thread_count cr,
      cm_flow_files_queued = nr_flow_files_queued cr,
      cm_bytes_queued = nr_bytes_queued cr, cm_events = nr_events cr\<rparr>"

definition gc_total :: "gc_snapshot list \<Rightarrow> u64" where
  "gc_total gcs = sum_list (map gc_collection_count gcs)"

definition health_row ::
  "(string \<Rightarrow> int option) \<Rightarrow> (u64 \<Rightarrow> u64 \<Rightarrow> u32) \<Rightarrow> (string \<Rightarrow> u64 option)
   \<Rightarrow> cluster_nodes_snapshot option \<Rightarrow> tls_certs_snapshot option
   \<Rightarrow> node_diagnostics \<Rightarrow> node_health_row" where
  "health_row parse_ts pct old_gc cluster tls n =
     (let cluster_by_addr = (case cluster of None \<Rightarrow> (\<lambda>_. None)
            | Some c \<Rightarrow> collect_map (map (\<lambda>r. (nr_address r, r)) (cn_rows c)));
          tls_by_addr = (case tls of None \<Rightarrow> (\<lambda>_. None) | Some t \<Rightarrow> map_of (tls_certs t));
          total_gc = gc_total (nd_gc n);
          heap_percent = (if nd_heap_max_bytes n > 0
                          then pct (nd_heap_used_bytes n) (nd_heap_max_bytes n) else 0)
      in \<lparr>nh_node_address = nd_address n,
          nh_heap_used_bytes = nd_heap_used_bytes n,
          nh_heap_max_bytes = nd_heap_max_bytes n,
          nh_heap_percent = heap_percent,
          nh_heap_severity = for_heap heap_percent,
          nh_gc_collection_count = total_gc,
          nh_gc_delta = map_option (\<lambda>prev. total_gc - prev) (old_gc (nd_address n)),
          nh_gc_millis = sum_list (map gc_collection_millis (nd_gc n)),
          nh_load_average = nd_load_average n,
          nh_available_processors = nd_available_processors n,
          nh_uptime = nd_uptime n,
          nh_total_threads = nd_total_threads n,
          nh_gc = nd_gc n,
          nh_content_repos = nd_content_repos n,
          nh_flowfile_repo = nd_flowfile_repo n,
          nh_provenance_repos = nd_provenance_repos n,
          nh_cluster = map_option (membership_of parse_ts (map_option cn_fetched_wall cluster))
                         (cluster_by_addr (nd_address n)),
          nh_tls_cert = tls_by_addr (nd_address n)\<rparr>)"

definition update_nodes ::
  "(string \<Rightarrow> string) \<Rightarrow> (string \<Rightarrow> int option) \<Rightarrow> (u64 \<Rightarrow> u64 \<Rightarrow> u32)
   \<Rightarrow> nodes_state \<Rightarrow> system_diag_snapshot \<Rightarrow> cluster_nodes_snapshot option
   \<Rightarrow> tls_certs_snapshot option \<Rightarrow> nodes_state" where
  "update_nodes lc parse_ts pct state diag cluster tls =
     (let old_gc = collect_map (map (\<lambda>n. (nh_node_address n, nh_gc_collection_count n)) (ns_nodes state));
          nodes = map (health_row parse_ts pct old_gc cluster tls) (sd_nodes diag);
          nodes = sort_key (\<lambda>n. lc (nh_node_address n)) nodes
      in \<lparr>ns_nodes = nodes,
          ns_selected = (if nodes \<noteq> [] then min (ns_selected state) (length nodes - 1) else 0)\<rparr>)"

section \<open>The node table as a navigable list\<close>

definition nodes_selected :: "nodes_state \<Rightarrow> nat option" where
  "nodes_selected s = (if ns_nodes s = [] then None else Some (ns_selected s))"

definition nodes_set_selected :: "nat option \<Rightarrow> nodes_state \<Rightarrow> nodes_state" where
  "nodes_set_selected index s = s\<lparr>ns_selected := unwrap_or 0 index\<rparr>"

definition nodes_nav :: "nodes_state list_nav" where
  "nodes_nav =
     \<lparr>nav_len = (\<lambda>s. length (ns_nodes s)), nav_selected = nodes_selected,
      nav_set = nodes_set_selected, nav_wraps = False\<rparr>"

definition nodes_ok :: "nodes_state \<Rightarrow> bool" where
  "nodes_ok s \<longleftrightarrow> length (ns_nodes s) \<le> usize_max
     \<and> (ns_nodes s = [] \<or> ns_selected s < length (ns_nodes s))"

interpretation nodes: list_navigation nodes_nav nodes_ok
  by unfold_locales
    (auto simp: nodes_nav_def nodes_ok_def nodes_selected_def nodes_set_selected_def unwrap_or_def)

lemma update_nodes_ok:
  "length (sd_nodes diag) \<le> usize_max \<Longrightarrow> nodes_ok (update_nodes lc parse_ts pct st diag cluster tls)"
  by (simp add: update_nodes_def Let_def nodes_ok_def) (cases "sd_nodes diag"; simp add: min_def)

lemma count_task_sums:
  "rtn_total (fold count_task ts c) = rtn_total c"
  "rtn_running (fold count_task ts c) = rtn_running c +
     length (filter (\<lambda>t. rt_state t = RtRunning \<and> rt_validation_status t = Valid) ts)"
  "rtn_stopped (fold count_task ts c) =
     rtn_stopped c + length (filter (\<lambda>t. rt_state t \<noteq> RtRunning) ts)"
  "rtn_invalid (fold count_task ts c) =
     rtn_invalid c + length (filter (\<lambda>t. rt_validation_status t = Invalid) ts)"
  by (induction ts arbitrary: c)
    (auto simp: count_task_def Let_def split: reporting_task_state.splits)

lemma mask_properties_hides:
  "(k, v) \<in> set (mask_properties ds ps) \<Longrightarrow> map_of ds k = Some d \<Longrightarrow> rtd_sensitive d \<Longrightarrow> v = None"
  by (auto simp: mask_properties_def Let_def)

lemma mask_properties_keeps:
  "(k, v) \<in> set ps \<Longrightarrow> (\<And>d. map_of ds k = Some d \<Longrightarrow> \<not> rtd_sensitive d) \<Longrightarrow>
     (k, v) \<in> set (mask_properties ds ps)"
  unfolding mask_properties_def set_map
  by (rule image_eqI [where x = "(k, v)"]) (auto simp: Let_def split: option.splits)

lemma entity_fields:
  "reporting_task_from_entity e = Some r \<Longrightarrow>
     \<exists>c. rte_component e = Some c \<and> rt_descriptors r = descriptors_of c \<and>
       rt_properties r = mask_properties (descriptors_of c) (or_empty (rtc_properties c))"
  by (auto simp: reporting_task_from_entity_def Let_def split: option.splits)

section \<open>Properties\<close>

text \<open>
  After a refresh the node table has one row per diagnosed node (the join of that node
  with the cluster, certificate and previous GC data), sorted by lower-cased address, and
  the selection can be moved by any sequence of commands without leaving the table.
\<close>

theorem node_table_refresh:
  assumes "sd_nodes diag \<noteq> []" and "length (sd_nodes diag) \<le> usize_max"
  shows "mset (ns_nodes (update_nodes lc parse_ts pct st diag cluster tls)) =
           image_mset (health_row parse_ts pct
             (collect_map (map (\<lambda>n. (nh_node_address n, nh_gc_collection_count n)) (ns_nodes st)))
             cluster tls) (mset (sd_nodes diag))
       \<and> sorted (map (\<lambda>n. lc (nh_node_address n))
             (ns_nodes (update_nodes lc parse_ts pct st diag cluster tls)))
       \<and> (\<exists>i. nav_selected nodes_nav
                (nav_run nodes_nav (update_nodes lc parse_ts pct st diag cluster tls) cs) = Some i
            \<and> i < length (sd_nodes diag))"
proof (intro conjI)
  let ?u = "update_nodes lc parse_ts pct st diag cluster tls"
  show "mset (ns_nodes ?u) = image_mset (health_row parse_ts pct
             (collect_map (map (\<lambda>n. (nh_node_address n, nh_gc_collection_count n)) (ns_nodes st)))
             cluster tls) (mset (sd_nodes diag))"
    by (simp add: update_nodes_def Let_def)
  show "sorted (map (\<lambda>n. lc (nh_node_address n)) (ns_nodes ?u))"
    by (simp add: update_nodes_def Let_def)
  have len: "nav_len nodes_nav ?u = length (sd_nodes diag)"
    by (simp add: nodes_nav_def update_nodes_def Let_def)
  then have pos: "0 < nav_len nodes_nav ?u" using assms(1) by simp
  from nodes.run_in_range [OF update_nodes_ok [OF assms(2)] pos, of cs] len
  show "\<exists>i. nav_selected nodes_nav (nav_run nodes_nav ?u cs) = Some i \<and> i < length (sd_nodes diag)"
    by simp
qed

definition sample_node :: "string \<Rightarrow> u64 \<Rightarrow> node_diagnostics" where
  "sample_node address gc_count =
     \<lparr>nd_address = address, nd_heap_used_bytes = 0, nd_heap_max_bytes = 0,
      nd_gc = [\<lparr>gc_name = ''G1'', gc_collection_count = gc_count, gc_collection_millis = 1\<rparr>],
      nd_load_average = None, nd_available_processors = None, nd_total_threads = 1,
      nd_uptime = ''1h'', nd_content_repos = [], nd_flowfile_repo = None, nd_provenance_repos = []\<rparr>"

definition sample_diag :: "node_diagnostics list \<Rightarrow> system_diag_snapshot" where
  "sample_diag ns = \<lparr>sd_aggregate = \<lparr>sda_content_repos = [], sda_flowfile_repo = None,
      sda_provenance_repos = []\<rparr>, sd_nodes = ns, sd_fetched_at = 0\<rparr>"

lemma node_table_refresh_witness:
  "map nh_node_address (ns_nodes (update_nodes (\<lambda>s. s) (\<lambda>_. None) (\<lambda>_ _. 0)
       \<lparr>ns_nodes = [], ns_selected = 7\<rparr> (sample_diag [sample_node ''b:1'' 3, sample_node ''a:1'' 2])
       None None)) = [''a:1'', ''b:1'']
   \<and> (\<exists>i. nav_selected nodes_nav (nav_run nodes_nav (update_nodes (\<lambda>s. s) (\<lambda>_. None) (\<lambda>_ _. 0)
       \<lparr>ns_nodes = [], ns_selected = 7\<rparr> (sample_diag [sample_node ''b:1'' 3, sample_node ''a:1'' 2])
       None None) [MoveDown, PageUp 5]) = Some i \<and> i < 2)"
proof -
  let ?d = "sample_diag [sample_node ''b:1'' 3, sample_node ''a:1'' 2]"
  have h: "sd_nodes ?d \<noteq> []" "length (sd_nodes ?d) \<le> usize_max"
    by (simp_all add: sample_diag_def usize_max_def)
  have two: "length (sd_nodes ?d) = 2" by (simp add: sample_diag_def)
  show ?thesis
    using node_table_refresh [OF h, of "\<lambda>s. s" "\<lambda>_. None" "\<lambda>_ _. 0"
        "\<lparr>ns_nodes = [], ns_selected = 7\<rparr>" None None "[MoveDown, PageUp 5]"]
    unfolding two
    by (intro conjI)
      (simp add: update_nodes_def Let_def sample_diag_def sample_node_def health_row_def less_char_def,
       blast)
qed

text \<open>
  The garbage-collection delta of a known node is the true difference exactly when the
  node's counter did not go back; after a node restart, when it did, the unsigned
  subtraction wraps and the delta exceeds the new counter value.
\<close>

theorem gc_delta_true_iff_monotone:
  "old_gc (nd_address n) = Some prev \<Longrightarrow>
     \<exists>d. nh_gc_delta (health_row parse_ts pct old_gc cluster tls n) = Some d
       \<and> (uint d = uint (gc_total (nd_gc n)) - uint prev \<longleftrightarrow> prev \<le> gc_total (nd_gc n))
       \<and> (\<not> prev \<le> gc_total (nd_gc n) \<longrightarrow>
            uint d = 2 ^ 64 - (uint prev - uint (gc_total (nd_gc n))) \<and> gc_total (nd_gc n) < d)"
  using uint_bounded [of prev] uint_ge_0 [of "gc_total (nd_gc n)"]
  by (auto simp: health_row_def Let_def uint_sub_if' word_le_def word_less_def)

lemma gc_delta_true_iff_monotone_witness:
  "\<exists>d. nh_gc_delta (health_row (\<lambda>_. None) (\<lambda>_ _. 0) [''a:1'' \<mapsto> 5] None None (sample_node ''a:1'' 2))
     = Some d \<and> 2 < d"
  using gc_delta_true_iff_monotone [of "[''a:1'' \<mapsto> 5]" "sample_node ''a:1'' 2" 5
      "\<lambda>_. None" "\<lambda>_ _. 0" None None]
  by (auto simp: gc_total_def sample_node_def)

text \<open>
  A reporting task never shows the value of a property its descriptors mark as
  sensitive, and every other property keeps its value.
\<close>

theorem sensitive_properties_masked:
  assumes "reporting_task_from_entity e = Some r"
  shows "((k, v) \<in> set (rt_properties r) \<and> map_of (rt_descriptors r) k = Some d
            \<and> rtd_sensitive d \<longrightarrow> v = None)
       \<and> (\<forall>c. rte_component e = Some c \<and> (k, v) \<in> set (or_empty (rtc_properties c))
            \<and> (\<forall>d. map_of (rt_descriptors r) k = Some d \<longrightarrow> \<not> rtd_sensitive d)
            \<longrightarrow> (k, v) \<in> set (rt_properties r))"
proof -
  from entity_fields [OF assms] obtain c where c: "rte_component e = Some c"
    "rt_descriptors r = descriptors_of c"
    "rt_properties r = mask_properties (descriptors_of c) (or_empty (rtc_properties c))"
    by auto
  have "(k, v) \<in> set (or_empty (rtc_properties c)) \<Longrightarrow>
      \<forall>d. map_of (descriptors_of c) k = Some d \<longrightarrow> \<not> rtd_sensitive d \<Longrightarrow>
      (k, v) \<in> set (mask_properties (descriptors_of c) (or_empty (rtc_properties c)))"
    by (rule mask_properties_keeps) simp_all
  with c show ?thesis using mask_properties_hides [of k v] by auto
qed

definition sample_task :: rt_entity where
  "sample_task = \<lparr>rte_id = Some ''t1'', rte_component = Some
     \<lparr>rtc_id = None, rtc_name = Some ''prom'', rtc_type = None, rtc_state = Some ''running'',
      rtc_scheduling_strategy = None, rtc_scheduling_period = None,
      rtc_active_thread_count = Some 1, rtc_validation_status = Some ''VALID'',
      rtc_validation_errors = None, rtc_comments = None,
      rtc_properties = Some [(''pw'', Some ''s3cret''), (''port'', Some ''9092'')],
      rtc_descriptors = Some [(''pw'', Some \<lparr>rdd_display_name = None, rdd_sensitive = Some True,
        rdd_required = None, rdd_default_value = None\<rparr>)]\<rparr>\<rparr>"

lemma sensitive_properties_masked_witness:
  "rt_properties (the (reporting_task_from_entity sample_task)) = [(''pw'', None), (''port'', Some ''9092'')]
   \<and> (''port'', Some ''9092'') \<in> set (rt_properties (the (reporting_task_from_entity sample_task)))"
proof -
  obtain r where r: "reporting_task_from_entity sample_task = Some r"
    by (simp add: reporting_task_from_entity_def sample_task_def Let_def)
  then have "rt_descriptors r = [(''pw'', \<lparr>rtd_display_name = ''pw'', rtd_sensitive = True,
      rtd_required = False, rtd_default_value = None\<rparr>)]"
    and props: "rt_properties r = [(''pw'', None), (''port'', Some ''9092'')]"
    by (auto simp: reporting_task_from_entity_def sample_task_def descriptors_of_def
        mask_properties_def unwrap_or_def Let_def List.map_filter_def)
  with sensitive_properties_masked [OF r, of "''port''" "Some ''9092''"] r
  show ?thesis by (simp add: sample_task_def)
qed

text \<open>
  The reporting-task counts classify the tasks: the total is the number of tasks, and
  those not counted as running or stopped are exactly the running ones that are not valid.
\<close>

theorem reporting_counts_partition:
  "rtn_total (reporting_task_counts s) = length (rts_tasks s)
   \<and> rtn_running (reporting_task_counts s) + rtn_stopped (reporting_task_counts s)
       + length (filter (\<lambda>t. rt_state t = RtRunning \<and> rt_validation_status t \<noteq> Valid) (rts_tasks s))
       = rtn_total (reporting_task_counts s)
   \<and> rtn_invalid (reporting_task_counts s)
       = length (filter (\<lambda>t. rt_validation_status t = Invalid) (rts_tasks s))"
proof -
  have "length (filter (\<lambda>t. rt_state t = RtRunning \<and> rt_validation_status t = Valid) ts)
      + length (filter (\<lambda>t. rt_state t \<noteq> RtRunning) ts)
      + length (filter (\<lambda>t. rt_state t = RtRunning \<and> rt_validation_status t \<noteq> Valid) ts)
      = length ts" for ts
    by (induction ts) auto
  then show ?thesis by (simp add: reporting_task_counts_def count_task_sums)
qed

end
