(* ===== verification/Cluster_Snapshot.thy ===== *)
theory Cluster_Snapshot
  imports Flow_Status Node_Health
begin

text \<open>
  \<open>src/src/cluster/snapshot.rs\<close> and the endpoint enumeration of
  \<open>src/src/cluster/mod.rs\<close>: the per-endpoint state that keeps the last good value across
  failures, the bounded ring of bulletins, and the snapshot of all twelve endpoints. A
  fetch error is kept as its display text; durations and instants are nanosecond counts.
\<close>

section \<open>Endpoints\<close>

datatype cluster_endpoint =
    EpAbout | EpControllerStatus | EpRootPgStatus | EpControllerServices | EpSystemDiagnostics
  | EpConnectionsByPg | EpBulletins | EpClusterNodes | EpTlsCerts | EpVersionControl
  | EpParameterContextBindings | EpReportingTasks

fun endpoint_index :: "cluster_endpoint \<Rightarrow> nat" where
  "endpoint_index EpAbout = 0"
| "endpoint_index EpControllerStatus = 1"
| "endpoint_index EpRootPgStatus = 2"
| "endpoint_index EpControllerServices = 3"
| "endpoint_index EpSystemDiagnostics = 4"
| "endpoint_index EpConnectionsByPg = 5"
| "endpoint_index EpBulletins = 6"
| "endpoint_index EpClusterNodes = 7"
| "endpoint_index EpTlsCerts = 8"
| "endpoint_index EpVersionControl = 9"
| "endpoint_index EpParameterContextBindings = 10"
| "endpoint_index EpReportingTasks = 11"

definition endpoint_count :: nat where
  "endpoint_count = 12"

fun endpoint_as_str :: "cluster_endpoint \<Rightarrow> string" where
  "endpoint_as_str EpAbout = ''about''"
| "endpoint_as_str EpControllerStatus = ''controller_status''"
| "endpoint_as_str EpRootPgStatus = ''root_pg_status''"
| "endpoint_as_str EpControllerServices = ''controller_services''"
| "endpoint_as_str EpSystemDiagnostics = ''system_diagnostics''"
| "endpoint_as_str EpConnectionsByPg = ''connections_by_pg''"
| "endpoint_as_str EpBulletins = ''bulletins''"
| "endpoint_as_str EpClusterNodes = ''cluster_nodes''"
| "endpoint_as_str EpTlsCerts = ''tls_certs''"
| "endpoint_as_str EpVersionControl = ''version_control''"
| "endpoint_as_str EpParameterContextBindings = ''parameter_context_bindings''"
| "endpoint_as_str EpReportingTasks = ''reporting_tasks''"

lemma endpoint_index_less: "endpoint_index e < endpoint_count"
  by (cases e) (simp_all add: endpoint_count_def)

lemma endpoint_index_inject: "endpoint_index a = endpoint_index b \<longleftrightarrow> a = b"
  by (cases a; cases b) simp_all

section \<open>Endpoint state\<close>

record fetch_meta =
  fm_fetched_at :: nat
  fm_fetch_duration :: nat
  fm_next_interval :: nat

datatype 'a endpoint_state =
    Loading
  | Ready 'a fetch_meta
  | Failed string fetch_meta "('a \<times> fetch_meta) option"

fun es_latest :: "'a endpoint_state \<Rightarrow> 'a option" where
  "es_latest Loading = None"
| "es_latest (Ready data meta) = Some data"
| "es_latest (Failed error meta (Some (data, m))) = Some data"
| "es_latest (Failed error meta None) = None"

fun last_ok_of :: "'a endpoint_state \<Rightarrow> ('a \<times> fetch_meta) option" where
  "last_ok_of (Ready data last_meta) = Some (data, last_meta)"
| "last_ok_of (Failed error meta last_ok) = last_ok"
| "last_ok_of Loading = None"

fun es_apply :: "string + 'a \<Rightarrow> fetch_meta \<Rightarrow> 'a endpoint_state \<Rightarrow> 'a endpoint_state" where
  "es_apply (Inr data) meta s = Ready data meta"
| "es_apply (Inl err) meta s = Failed err meta (last_ok_of s)"

fun meta_of :: "'a endpoint_state \<Rightarrow> fetch_meta option" where
  "meta_of Loading = None"
| "meta_of (Ready data meta) = Some meta"
| "meta_of (Failed error meta last_ok) = Some meta"

lemma es_latest_last_ok: "es_latest s = map_option fst (last_ok_of s)"
  by (cases s rule: es_latest.cases) auto

text \<open>The state after a sequence of results, and its reference: the last success.\<close>

definition es_run :: "((string + 'a) \<times> fetch_meta) list \<Rightarrow> 'a endpoint_state \<Rightarrow> 'a endpoint_state" where
  "es_run rs s = foldl (\<lambda>s (r, m). es_apply r m s) s rs"

definition successes :: "((string + 'a) \<times> fetch_meta) list \<Rightarrow> ('a \<times> fetch_meta) list" where
  "successes rs = concat (map (\<lambda>(r, m). case r of Inl e \<Rightarrow> [] | Inr d \<Rightarrow> [(d, m)]) rs)"

lemma es_run_snoc [simp]: "es_run (rs @ [(r, m)]) s = es_apply r m (es_run rs s)"
  by (simp add: es_run_def)

lemma es_run_last_ok:
  "last_ok_of (es_run rs Loading) = (if successes rs = [] then None else Some (last (successes rs)))"
proof (induction rs rule: rev_induct)
  case Nil
  then show ?case by (simp add: es_run_def successes_def)
next
  case (snoc x rs)
  obtain r m where x: "x = (r, m)" by (cases x)
  show ?case
  proof (cases r)
    case (Inl e)
    with snoc x show ?thesis by (simp add: successes_def)
  next
    case (Inr d)
    with x show ?thesis by (simp add: successes_def)
  qed
qed

section \<open>The bulletin ring\<close>

record bulletin_ring =
  br_buf :: "bulletin_snapshot list"
  br_capacity :: nat
  br_last_id :: "int option"
  br_meta :: "fetch_meta option"
  br_last_error :: "string option"

definition ring_new :: "nat \<Rightarrow> bulletin_ring" where
  "ring_new capacity = \<lparr>br_buf = [], br_capacity = capacity, br_last_id = None,
     br_meta = None, br_last_error = None\<rparr>"

text \<open>\<open>while buf.len() > capacity { buf.pop_front() }\<close>, and \<open>Some(a) > b\<close> on options.\<close>

fun pop_over :: "nat \<Rightarrow> 'a list \<Rightarrow> 'a list" where
  "pop_over cap [] = []"
| "pop_over cap (x # xs) = (if length (x # xs) > cap then pop_over cap xs else x # xs)"

fun id_above :: "int \<Rightarrow> int option \<Rightarrow> bool" where
  "id_above i None = True"
| "id_above i (Some j) = (i > j)"

definition ring_push :: "bulletin_snapshot \<Rightarrow> bulletin_ring \<Rightarrow> bulletin_ring" where
  "ring_push b r =
     r\<lparr>br_last_id := (if id_above (bu_id b) (br_last_id r) then Some (bu_id b) else br_last_id r),
       br_buf := pop_over (br_capacity r) (br_buf r @ [b])\<rparr>"

definition ring_merge :: "bulletin_snapshot list \<Rightarrow> bulletin_ring \<Rightarrow> bulletin_ring" where
  "ring_merge batch r = foldl (\<lambda>r b. ring_push b r) r batch"

lemma pop_over_last_n: "pop_over cap xs = last_n cap xs"
proof (induction xs)
  case Nil
  then show ?case by (simp add: last_n_def)
next
  case (Cons x xs)
  then show ?case by (simp add: last_n_def Suc_diff_le)
qed

text \<open>The largest id of a stream, in the order of optional ids.\<close>

definition max_id :: "bulletin_snapshot list \<Rightarrow> int option" where
  "max_id bs = (if bs = [] then None else Some (Max (bu_id ` set bs)))"

lemma max_id_snoc:
  "max_id (bs @ [b]) = (if id_above (bu_id b) (max_id bs) then Some (bu_id b) else max_id bs)"
proof (cases "bs = []")
  case True
  then show ?thesis by (simp add: max_id_def)
next
  case False
  then have "Max (bu_id ` set (bs @ [b])) = max (bu_id b) (Max (bu_id ` set bs))"
    by simp
  with False show ?thesis
    by (simp only: max_id_def) (simp add: max_def del: Max_less_iff Max_ge_iff Max_le_iff Max_gr_iff)
qed

definition ring_holds :: "bulletin_ring \<Rightarrow> bulletin_snapshot list \<Rightarrow> bool" where
  "ring_holds r stream \<longleftrightarrow>
     br_buf r = last_n (br_capacity r) stream \<and> br_last_id r = max_id stream"

lemma ring_holds_push: "ring_holds r stream \<Longrightarrow> ring_holds (ring_push b r) (stream @ [b])"
  by (simp add: ring_holds_def ring_push_def pop_over_last_n last_n_append max_id_snoc)

lemma ring_merge_holds: "ring_holds r stream \<Longrightarrow> ring_holds (ring_merge batch r) (stream @ batch)"
proof (induction batch arbitrary: r stream)
  case Nil
  then show ?case by (simp add: ring_merge_def)
next
  case (Cons b batch)
  from Cons.IH [OF ring_holds_push [OF Cons.prems, of b]] show ?case
    by (simp add: ring_merge_def)
qed

lemma ring_merge_capacity [simp]: "br_capacity (ring_merge batch r) = br_capacity r"
  by (induction batch arbitrary: r) (simp_all add: ring_merge_def ring_push_def)

lemma ring_merge_meta [simp]:
  "br_meta (ring_merge batch r) = br_meta r" "br_last_error (ring_merge batch r) = br_last_error r"
  by (induction batch arbitrary: r) (simp_all add: ring_merge_def ring_push_def)

lemma ring_new_holds: "ring_holds (ring_new cap) []"
  by (simp add: ring_holds_def ring_new_def max_id_def)

section \<open>The snapshot\<close>

record version_control_summary =
  vcs_state :: string
  vcs_registry_name :: "string option"
  vcs_bucket_name :: "string option"
  vcs_branch :: "string option"
  vcs_flow_id :: "string option"
  vcs_flow_name :: "string option"
  vcs_version :: "string option"
  vcs_state_explanation :: "string option"

type_synonym version_control_map = "(string \<times> version_control_summary) list"

record parameter_context_ref =
  pcr_id :: string
  pcr_name :: string

type_synonym parameter_context_bindings_map = "(string \<times> parameter_context_ref option) list"

record cluster_snapshot =
  cl_about :: "about_snapshot endpoint_state"
  cl_controller_status :: "controller_status_snapshot endpoint_state"
  cl_root_pg_status :: "root_pg_status endpoint_state"
  cl_controller_services :: "controller_services_snapshot endpoint_state"
  cl_cluster_nodes :: "cluster_nodes_snapshot endpoint_state"
  cl_tls_certs :: "tls_certs_snapshot endpoint_state"
  cl_system_diagnostics :: "system_diag_snapshot endpoint_state"
  cl_connections_by_pg :: "(string \<times> connection_endpoints endpoint_state) list"
  cl_bulletins :: bulletin_ring
  cl_version_control :: "version_control_map endpoint_state"
  cl_parameter_context_bindings :: "parameter_context_bindings_map endpoint_state"
  cl_reporting_tasks :: "reporting_tasks_snapshot endpoint_state"

definition with_bulletins_capacity :: "nat \<Rightarrow> cluster_snapshot" where
  "with_bulletins_capacity cap =
     \<lparr>cl_about = Loading, cl_controller_status = Loading, cl_root_pg_status = Loading,
      cl_controller_services = Loading, cl_cluster_nodes = Loading, cl_tls_certs = Loading,
      cl_system_diagnostics = Loading, cl_connections_by_pg = [], cl_bulletins = ring_new cap,
      cl_version_control = Loading, cl_parameter_context_bindings = Loading,
      cl_reporting_tasks = Loading\<rparr>"

definition settled :: "'a endpoint_state \<Rightarrow> bool" where
  "settled s \<longleftrightarrow> (case s of Loading \<Rightarrow> False | _ \<Rightarrow> True)"

lemma settled_meta: "settled s \<longleftrightarrow> meta_of s \<noteq> None"
  by (cases s) (simp_all add: settled_def)

lemma settled_apply [simp]: "settled (es_apply r m s)"
  by (cases r) (simp_all add: settled_def)

definition ready_count :: "cluster_snapshot \<Rightarrow> nat \<times> nat" where
  "ready_count s =
     (let simple = [settled (cl_about s), settled (cl_controller_status s),
            settled (cl_root_pg_status s), settled (cl_controller_services s),
            settled (cl_cluster_nodes s), settled (cl_tls_certs s),
            settled (cl_system_diagnostics s), settled (cl_version_control s),
            settled (cl_parameter_context_bindings s), settled (cl_reporting_tasks s)];
          ready = length (filter (\<lambda>r. r) simple);
          ready = (if br_meta (cl_bulletins s) \<noteq> None then ready + 1 else ready);
          ready = (if cl_connections_by_pg s \<noteq> [] then ready + 1 else ready)
      in (ready, endpoint_count))"

definition max_of :: "nat list \<Rightarrow> nat option" where
  "max_of xs = (case xs of [] \<Rightarrow> None | x # ys \<Rightarrow> Some (fold max ys x))"

definition interval_of :: "'a endpoint_state \<Rightarrow> nat option" where
  "interval_of s = map_option fm_next_interval (meta_of s)"

fun next_interval_for :: "cluster_snapshot \<Rightarrow> cluster_endpoint \<Rightarrow> nat option" where
  "next_interval_for s EpAbout = interval_of (cl_about s)"
| "next_interval_for s EpControllerStatus = interval_of (cl_controller_status s)"
| "next_interval_for s EpRootPgStatus = interval_of (cl_root_pg_status s)"
| "next_interval_for s EpControllerServices = interval_of (cl_controller_services s)"
| "next_interval_for s EpSystemDiagnostics = interval_of (cl_system_diagnostics s)"
| "next_interval_for s EpConnectionsByPg =
     max_of (map fm_next_interval (List.map_filter (\<lambda>p. meta_of (snd p)) (cl_connections_by_pg s)))"
| "next_interval_for s EpBulletins = map_option fm_next_interval (br_meta (cl_bulletins s))"
| "next_interval_for s EpClusterNodes = interval_of (cl_cluster_nodes s)"
| "next_interval_for s EpTlsCerts = interval_of (cl_tls_certs s)"
| "next_interval_for s EpVersionControl = interval_of (cl_version_control s)"
| "next_interval_for s EpParameterContextBindings = interval_of (cl_parameter_context_bindings s)"
| "next_interval_for s EpReportingTasks = interval_of (cl_reporting_tasks s)"

lemma ready_count_bound: "fst (ready_count s) \<le> snd (ready_count s)"
  by (simp add: ready_count_def Let_def endpoint_count_def)

section \<open>Properties\<close>

text \<open>
  Stale data is preserved: whatever results an endpoint received, its latest value is
  the value of the last success (none when there was none), and after a failure it carries
  that error together with that value and its own metadata.
\<close>

theorem latest_is_last_success:
  "es_latest (es_run rs Loading) =
     (if successes rs = [] then None else Some (fst (last (successes rs))))
   \<and> es_run (rs @ [(Inl err, m)]) Loading =
       Failed err m (if successes rs = [] then None else Some (last (successes rs)))"
  by (simp add: es_latest_last_ok es_run_last_ok)

text \<open>
  C32: however the bulletins arrive in batches, the ring holds exactly the last \<open>capacity\<close>
  of them in arrival order, never more, and its cursor is the largest id ever seen.
\<close>

theorem ring_keeps_newest:
  "br_buf (foldl (\<lambda>r batch. ring_merge batch r) (ring_new cap) batches) = last_n cap (concat batches)
   \<and> length (br_buf (foldl (\<lambda>r batch. ring_merge batch r) (ring_new cap) batches)) \<le> cap
   \<and> br_last_id (foldl (\<lambda>r batch. ring_merge batch r) (ring_new cap) batches) = max_id (concat batches)"
proof -
  have "ring_holds (foldl (\<lambda>r batch. ring_merge batch r) (ring_new cap) batches) (concat batches)
      \<and> br_capacity (foldl (\<lambda>r batch. ring_merge batch r) (ring_new cap) batches) = cap"
  proof (induction batches rule: rev_induct)
    case Nil
    then show ?case using ring_new_holds by (simp add: ring_new_def)
  next
    case (snoc batch batches)
    then show ?case using ring_merge_holds by simp
  qed
  then show ?thesis by (simp add: ring_holds_def)
qed

end
