(* ===== verification/Cluster_Store.thy ===== *)
theory Cluster_Store
  imports Cluster_Snapshot App_Types
begin

text \<open>
  \<open>src/src/cluster/subscriber.rs\<close>, \<open>src/src/cluster/config.rs\<close> and
  \<open>src/src/cluster/store.rs\<close>: the registry of view subscriptions with its atomic counters,
  the polling configuration, and the store that routes every fetch result to its endpoint
  and publishes the fan-out lists. The per-endpoint \<open>Notify\<close> is modelled with the semantics
  tokio documents: a stored permit, a registered waiter, and a waiter that was woken.
\<close>

section \<open>Subscriptions\<close>

text \<open>
  What the store and the fetch tasks rely on: subscriptions behave as one set of views
  per endpoint, the results report the transitions, and the counter is its size.
\<close>

locale subscription_registry =
  fixes subscribe :: "'ep \<Rightarrow> 'v \<Rightarrow> 'r \<Rightarrow> bool \<times> 'r"
    and unsubscribe :: "'ep \<Rightarrow> 'v \<Rightarrow> 'r \<Rightarrow> bool \<times> 'r"
    and members :: "'r \<Rightarrow> 'ep \<Rightarrow> 'v set"
    and counter :: "'ep \<Rightarrow> 'r \<Rightarrow> nat"
    and ok :: "'r \<Rightarrow> bool"
  assumes ok_subscribe: "ok r \<Longrightarrow> ok (snd (subscribe e v r))"
    and ok_unsubscribe: "ok r \<Longrightarrow> ok (snd (unsubscribe e v r))"
    and members_subscribe:
      "ok r \<Longrightarrow> members (snd (subscribe e v r)) = (members r)(e := insert v (members r e))"
    and members_unsubscribe:
      "ok r \<Longrightarrow> members (snd (unsubscribe e v r)) = (members r)(e := members r e - {v})"
    and subscribe_new: "ok r \<Longrightarrow> fst (subscribe e v r) \<longleftrightarrow> v \<notin> members r e"
    and unsubscribe_last: "ok r \<Longrightarrow> fst (unsubscribe e v r) \<longleftrightarrow> members r e = {v}"
    and counter_card: "ok r \<Longrightarrow> counter e r = card (members r e) \<and> finite (members r e)"
begin

definition apply_cmd :: "'r \<Rightarrow> bool \<times> 'ep \<times> 'v \<Rightarrow> 'r" where
  "apply_cmd r c = (case c of (add, e, v) \<Rightarrow>
     if add then snd (subscribe e v r) else snd (unsubscribe e v r))"

definition live :: "('ep \<Rightarrow> 'v set) \<Rightarrow> bool \<times> 'ep \<times> 'v \<Rightarrow> 'ep \<Rightarrow> 'v set" where
  "live f c = (case c of (add, e, v) \<Rightarrow> if add then f(e := insert v (f e)) else f(e := f e - {v}))"

lemma run_members:
  "ok r \<Longrightarrow> ok (foldl apply_cmd r cs) \<and> members (foldl apply_cmd r cs) = foldl live (members r) cs"
proof (induction cs arbitrary: r)
  case Nil
  then show ?case by simp
next
  case (Cons c cs)
  have "ok (apply_cmd r c) \<and> members (apply_cmd r c) = live (members r) c"
    using Cons.prems
    by (cases c) (simp add: apply_cmd_def live_def ok_subscribe ok_unsubscribe
        members_subscribe members_unsubscribe)
  with Cons.IH [of "apply_cmd r c"] show ?case by simp
qed

lemma live_member:
  "v \<in> foldl live f cs e \<longleftrightarrow>
     (case filter (\<lambda>c. snd c = (e, v)) cs of [] \<Rightarrow> v \<in> f e | hits \<Rightarrow> fst (last hits))"
proof (induction cs rule: rev_induct)
  case Nil
  then show ?case by simp
next
  case (snoc c cs)
  obtain add e' v' where c: "c = (add, e', v')" by (cases c)
  from snoc show ?case
    by (auto simp: c live_def split: list.splits)
qed

lemma run_counter:
  assumes "ok r" and "\<And>e. members r e = {}"
  shows "counter e (foldl apply_cmd r cs) =
     card {v. filter (\<lambda>c. snd c = (e, v)) cs \<noteq> [] \<and> fst (last (filter (\<lambda>c. snd c = (e, v)) cs))}"
proof -
  note run = run_members [OF assms(1), of cs]
  then have "counter e (foldl apply_cmd r cs) = card (foldl live (members r) cs e)"
    using counter_card by simp
  also have "foldl live (members r) cs e =
      {v. filter (\<lambda>c. snd c = (e, v)) cs \<noteq> [] \<and> fst (last (filter (\<lambda>c. snd c = (e, v)) cs))}"
    using live_member [of _ "members r" cs e] assms(2) by (auto split: list.splits)
  finally show ?thesis .
qed

end

record subscriber_registry =
  sr_sets :: "(cluster_endpoint \<times> view_id list) list"
  sr_counters :: "cluster_endpoint \<Rightarrow> u64"

definition registry_new :: subscriber_registry where
  "registry_new = \<lparr>sr_sets = [], sr_counters = (\<lambda>_. 0)\<rparr>"

definition subscribed :: "subscriber_registry \<Rightarrow> cluster_endpoint \<Rightarrow> view_id list" where
  "subscribed r e = (case map_of (sr_sets r) e of None \<Rightarrow> [] | Some vs \<Rightarrow> vs)"

definition registry_subscribe ::
  "cluster_endpoint \<Rightarrow> view_id \<Rightarrow> subscriber_registry \<Rightarrow> bool \<times> subscriber_registry" where
  "registry_subscribe e v r =
     (let vs = subscribed r e; inserted = (v \<notin> set vs);
          r' = r\<lparr>sr_sets := AList.update e (if inserted then v # vs else vs) (sr_sets r)\<rparr>
      in (inserted,
          if inserted then r'\<lparr>sr_counters := (sr_counters r')(e := sr_counters r' e + 1)\<rparr> else r'))"

definition registry_unsubscribe ::
  "cluster_endpoint \<Rightarrow> view_id \<Rightarrow> subscriber_registry \<Rightarrow> bool \<times> subscriber_registry" where
  "registry_unsubscribe e v r =
     (case map_of (sr_sets r) e of
        None \<Rightarrow> (False, r)
      | Some vs \<Rightarrow>
          let removed = (v \<in> set vs);
              r' = r\<lparr>sr_sets := AList.update e (removeAll v vs) (sr_sets r)\<rparr>
          in if removed
             then let prev = sr_counters r' e
                  in (prev = 1, r'\<lparr>sr_counters := (sr_counters r')(e := prev - 1)\<rparr>)
             else (False, r'))"

definition registry_count :: "cluster_endpoint \<Rightarrow> subscriber_registry \<Rightarrow> nat" where
  "registry_count e r = unat (sr_counters r e)"

definition debug_snapshot :: "subscriber_registry \<Rightarrow> (cluster_endpoint \<times> view_id list) list" where
  "debug_snapshot r =
     sort_key (\<lambda>(e, vs). endpoint_index e) (map (\<lambda>(e, vs). (e, sort_key view_index vs)) (sr_sets r))"

definition registry_ok :: "subscriber_registry \<Rightarrow> bool" where
  "registry_ok r \<longleftrightarrow> (\<forall>e. distinct (subscribed r e) \<and>
     sr_counters r e = of_nat (length (subscribed r e)))"

lemma all_views: "set vs \<subseteq> {Overview, Bulletins, Browser, Events, Tracer}"
  using view_id.exhaust by blast

lemma registry_length: "registry_ok r \<Longrightarrow> length (subscribed r e) \<le> 5"
  using card_mono [OF _ all_views [of "subscribed r e"]] distinct_card [of "subscribed r e"]
  by (simp add: registry_ok_def)

lemma registry_unat: "registry_ok r \<Longrightarrow> unat (sr_counters r e) = length (subscribed r e)"
  using registry_length [of r e] by (simp add: registry_ok_def unat_of_nat)

lemma subscribed_update:
  "subscribed (r\<lparr>sr_sets := AList.update e vs (sr_sets r)\<rparr>) e' = (if e' = e then vs else subscribed r e')"
  by (simp add: subscribed_def update_conv')

lemma subscribed_counters [simp]: "subscribed (r\<lparr>sr_counters := c\<rparr>) e = subscribed r e"
  by (simp add: subscribed_def)

lemma registry_subscribe_sets:
  "subscribed (snd (registry_subscribe e v r)) e' =
     (if e' = e \<and> v \<notin> set (subscribed r e) then v # subscribed r e else subscribed r e')"
  "fst (registry_subscribe e v r) \<longleftrightarrow> v \<notin> set (subscribed r e)"
  by (auto simp: registry_subscribe_def Let_def subscribed_update)

lemma registry_unsubscribe_sets:
  "subscribed (snd (registry_unsubscribe e v r)) e' =
     (if e' = e then removeAll v (subscribed r e) else subscribed r e')"
  by (auto simp: registry_unsubscribe_def Let_def subscribed_update split: option.splits)
    (auto simp: subscribed_def)

lemma registry_counters:
  "sr_counters (snd (registry_subscribe e v r)) =
     (sr_counters r)(e := sr_counters r e + (if v \<in> set (subscribed r e) then 0 else 1))"
  "sr_counters (snd (registry_unsubscribe e v r)) =
     (sr_counters r)(e := sr_counters r e - (if v \<in> set (subscribed r e) then 1 else 0))"
  "fst (registry_unsubscribe e v r) \<longleftrightarrow> v \<in> set (subscribed r e) \<and> sr_counters r e = 1"
  by (auto simp: registry_subscribe_def registry_unsubscribe_def Let_def subscribed_def
      split: option.splits)

lemma length_removeAll_distinct:
  "distinct xs \<Longrightarrow> v \<in> set xs \<Longrightarrow> Suc (length (removeAll v xs)) = length xs"
  by (induction xs) auto

lemma registry_ok_subscribe: "registry_ok r \<Longrightarrow> registry_ok (snd (registry_subscribe e v r))"
  by (auto simp: registry_ok_def registry_subscribe_sets registry_counters)

lemma registry_ok_unsubscribe: "registry_ok r \<Longrightarrow> registry_ok (snd (registry_unsubscribe e v r))"
proof -
  assume ok: "registry_ok r"
  have "(of_nat (length xs) :: u64) - 1 = of_nat (length (removeAll v xs))"
    if "distinct xs" "v \<in> set xs" for xs
    by (simp flip: length_removeAll_distinct [OF that])
  with ok show ?thesis
    by (auto simp: registry_ok_def registry_unsubscribe_sets registry_counters distinct_removeAll)
qed

lemma registry_singleton:
  "registry_ok r \<Longrightarrow> v \<in> set (subscribed r e) \<Longrightarrow>
     sr_counters r e = 1 \<longleftrightarrow> set (subscribed r e) = {v}"
proof -
  assume ok: "registry_ok r" and v: "v \<in> set (subscribed r e)"
  have "sr_counters r e = 1 \<longleftrightarrow> unat (sr_counters r e) = 1"
    by (simp add: word_unat_eq_iff)
  also have "\<dots> \<longleftrightarrow> length (subscribed r e) = 1"
    by (simp add: registry_unat [OF ok])
  also have "\<dots> \<longleftrightarrow> card (set (subscribed r e)) = 1"
    using ok by (simp add: registry_ok_def distinct_card)
  also have "\<dots> \<longleftrightarrow> set (subscribed r e) = {v}"
    using v by (auto simp: card_1_singleton_iff)
  finally show ?thesis .
qed

interpretation registry: subscription_registry registry_subscribe registry_unsubscribe
  "\<lambda>r e. set (subscribed r e)" registry_count registry_ok
proof
  fix r e v
  assume ok: "registry_ok r"
  then show "registry_ok (snd (registry_subscribe e v r))" "registry_ok (snd (registry_unsubscribe e v r))"
    by (simp_all add: registry_ok_subscribe registry_ok_unsubscribe)
  show "(\<lambda>e'. set (subscribed (snd (registry_subscribe e v r)) e')) =
      (\<lambda>e'. set (subscribed r e'))(e := insert v (set (subscribed r e)))"
    by (rule ext) (auto simp: registry_subscribe_sets)
  show "(\<lambda>e'. set (subscribed (snd (registry_unsubscribe e v r)) e')) =
      (\<lambda>e'. set (subscribed r e'))(e := set (subscribed r e) - {v})"
    by (rule ext) (auto simp: registry_unsubscribe_sets)
  show "fst (registry_subscribe e v r) = (v \<notin> set (subscribed r e))"
    by (simp add: registry_subscribe_sets)
  show "fst (registry_unsubscribe e v r) = (set (subscribed r e) = {v})"
    using registry_singleton [OF ok, of v e] by (auto simp: registry_counters)
  show "registry_count e r = card (set (subscribed r e)) \<and> finite (set (subscribed r e))"
    using ok by (simp add: registry_count_def registry_unat) (simp add: registry_ok_def distinct_card)
qed

lemma registry_new_ok: "registry_ok registry_new" "subscribed registry_new e = []"
  by (simp_all add: registry_ok_def registry_new_def subscribed_def)

section \<open>Polling configuration\<close>

definition secs :: "nat \<Rightarrow> nat" where
  "secs n = n * 1000000000"

definition millis :: "nat \<Rightarrow> nat" where
  "millis n = n * 1000000"

record polling_config =
  pc_root_pg_status :: nat
  pc_controller_services :: nat
  pc_controller_status :: nat
  pc_system_diagnostics :: nat
  pc_bulletins :: nat
  pc_cluster_nodes :: nat
  pc_tls_certs :: nat
  pc_connections_by_pg :: nat
  pc_version_control :: nat
  pc_parameter_context_bindings :: nat
  pc_reporting_tasks :: nat
  pc_status_history :: nat
  pc_events_tail :: nat
  pc_about :: nat
  pc_max_interval :: nat
  pc_jitter_percent :: nat
  pc_batch_concurrency :: nat

definition polling_default :: polling_config where
  "polling_default =
     \<lparr>pc_root_pg_status = secs 10, pc_controller_services = secs 10,
      pc_controller_status = secs 10, pc_system_diagnostics = secs 30, pc_bulletins = secs 5,
      pc_cluster_nodes = secs 5, pc_tls_certs = secs 3600, pc_connections_by_pg = secs 15,
      pc_version_control = secs 30, pc_parameter_context_bindings = secs 30,
      pc_reporting_tasks = secs 30, pc_status_history = secs 30, pc_events_tail = secs 2,
      pc_about = secs 300, pc_max_interval = secs 60, pc_jitter_percent = 20,
      pc_batch_concurrency = 16\<rparr>"

text \<open>\<open>Ord::clamp\<close> panics when the bounds are in the wrong order: \<open>None\<close> here.\<close>

definition clamp :: "'a::linorder \<Rightarrow> 'a \<Rightarrow> 'a \<Rightarrow> 'a option" where
  "clamp v lo hi = (if lo \<le> hi then Some (if v < lo then lo else if v > hi then hi else v) else None)"

definition clamped_events_tail :: "nat \<Rightarrow> nat option" where
  "clamped_events_tail raw = clamp raw (millis 100) (secs 60)"

lemma clamped_events_tail_range:
  "\<exists>t. clamped_events_tail raw = Some t \<and> millis 100 \<le> t \<and> t \<le> secs 60"
  by (simp add: clamped_events_tail_def clamp_def millis_def secs_def)

section \<open>Wake-up handles\<close>

record notify =
  nt_permit :: bool
  nt_waiting :: bool
  nt_woken :: bool

definition notify_new :: notify where
  "notify_new = \<lparr>nt_permit = False, nt_waiting = False, nt_woken = False\<rparr>"

text \<open>\<open>notify_one\<close>: wake the registered waiter, or leave one permit for the next.\<close>

definition notify_one :: "notify \<Rightarrow> notify" where
  "notify_one n =
     (if nt_waiting n then n\<lparr>nt_waiting := False, nt_woken := True\<rparr> else n\<lparr>nt_permit := True\<rparr>)"

section \<open>The store\<close>

datatype access_audit_state = AuditUnknown | AuditSupported | AuditUnsupported

datatype cluster_update =
    UAbout "string + about_snapshot" fetch_meta
  | UControllerStatus "string + controller_status_snapshot" fetch_meta
  | URootPgStatus "string + root_pg_status" fetch_meta
  | UControllerServices "string + controller_services_snapshot" fetch_meta
  | USystemDiagnostics "string + system_diag_snapshot" fetch_meta
  | UClusterNodes "string + cluster_nodes_snapshot" fetch_meta
  | UTlsCerts "string + tls_certs_snapshot" fetch_meta
  | UConnections string "string + connection_endpoints" fetch_meta
  | UBulletinsDelta "string + bulletin_snapshot list" fetch_meta
  | UVersionControl "string + version_control_map" fetch_meta
  | UParameterContextBindings "string + parameter_context_bindings_map" fetch_meta
  | UReportingTasks "string + reporting_tasks_snapshot" fetch_meta

fun update_endpoint :: "cluster_update \<Rightarrow> cluster_endpoint" where
  "update_endpoint (UAbout r m) = EpAbout"
| "update_endpoint (UControllerStatus r m) = EpControllerStatus"
| "update_endpoint (URootPgStatus r m) = EpRootPgStatus"
| "update_endpoint (UControllerServices r m) = EpControllerServices"
| "update_endpoint (USystemDiagnostics r m) = EpSystemDiagnostics"
| "update_endpoint (UClusterNodes r m) = EpClusterNodes"
| "update_endpoint (UTlsCerts r m) = EpTlsCerts"
| "update_endpoint (UConnections pg r m) = EpConnectionsByPg"
| "update_endpoint (UBulletinsDelta r m) = EpBulletins"
| "update_endpoint (UVersionControl r m) = EpVersionControl"
| "update_endpoint (UParameterContextBindings r m) = EpParameterContextBindings"
| "update_endpoint (UReportingTasks r m) = EpReportingTasks"

record cluster_store =
  st_snapshot :: cluster_snapshot
  st_subscribers :: subscriber_registry
  st_config :: polling_config
  st_notifies :: "cluster_endpoint \<Rightarrow> notify"
  st_handles :: nat
  st_pg_ids :: "string list"
  st_node_addresses :: "string list"
  st_base_url :: string
  st_access_audit :: access_audit_state

definition store_new :: "polling_config \<Rightarrow> nat \<Rightarrow> string \<Rightarrow> cluster_store" where
  "store_new config bulletins_capacity base_url =
     \<lparr>st_snapshot = with_bulletins_capacity bulletins_capacity, st_subscribers = registry_new,
      st_config = config, st_notifies = (\<lambda>_. notify_new), st_handles = 0, st_pg_ids = [],
      st_node_addresses = [], st_base_url = base_url, st_access_audit = AuditUnknown\<rparr>"

definition store_force :: "cluster_endpoint \<Rightarrow> cluster_store \<Rightarrow> cluster_store" where
  "store_force e s = s\<lparr>st_notifies := (st_notifies s)(e := notify_one (st_notifies s e))\<rparr>"

definition store_subscribe :: "cluster_endpoint \<Rightarrow> view_id \<Rightarrow> cluster_store \<Rightarrow> cluster_store" where
  "store_subscribe e v s =
     (let (added, reg) = registry_subscribe e v (st_subscribers s);
          s' = s\<lparr>st_subscribers := reg\<rparr>
      in if added then s'\<lparr>st_notifies := (st_notifies s')(e := notify_one (st_notifies s' e))\<rparr> else s')"

definition store_unsubscribe :: "cluster_endpoint \<Rightarrow> view_id \<Rightarrow> cluster_store \<Rightarrow> cluster_store" where
  "store_unsubscribe e v s =
     s\<lparr>st_subscribers := snd (registry_unsubscribe e v (st_subscribers s))\<rparr>"

text \<open>
  The list goes out on the watch channel; the certificate fetcher is woken only when it
  changed. Sending the group ids cannot fail: the store itself keeps a receiver.
\<close>

definition publish_node_addresses :: "cluster_store \<Rightarrow> cluster_store" where
  "publish_node_addresses s =
     (let from_diag = (case es_latest (cl_system_diagnostics (st_snapshot s)) of
            None \<Rightarrow> [] | Some d \<Rightarrow> map nd_address (sd_nodes d));
          addrs = (case es_latest (cl_cluster_nodes (st_snapshot s)) of
            Some snap \<Rightarrow> if cn_rows snap \<noteq> [] then map nr_address (cn_rows snap) else from_diag
          | None \<Rightarrow> from_diag);
          changed = (st_node_addresses s \<noteq> addrs);
          s' = (if changed then s\<lparr>st_node_addresses := addrs\<rparr> else s)
      in if changed then store_force EpTlsCerts s' else s')"

definition publish_pg_ids :: "cluster_store \<Rightarrow> cluster_store" where
  "publish_pg_ids s =
     (case es_latest (cl_root_pg_status (st_snapshot s)) of
        None \<Rightarrow> s
      | Some snap \<Rightarrow> s\<lparr>st_pg_ids := pg_ids snap\<rparr>)"

record fetch_task_config =
  tc_endpoint :: cluster_endpoint
  tc_base_interval :: nat
  tc_max_interval :: nat
  tc_jitter_percent :: nat
  tc_gated :: bool
  tc_batch_concurrency :: nat

definition task_config ::
  "polling_config \<Rightarrow> cluster_endpoint \<Rightarrow> nat \<Rightarrow> bool \<Rightarrow> fetch_task_config" where
  "task_config c e base gated =
     \<lparr>tc_endpoint = e, tc_base_interval = base, tc_max_interval = pc_max_interval c,
      tc_jitter_percent = pc_jitter_percent c, tc_gated = gated,
      tc_batch_concurrency = pc_batch_concurrency c\<rparr>"

text \<open>The twelve tasks in spawn order, and the cursor the bulletin task starts from.\<close>

definition spawn_fetchers :: "cluster_store \<Rightarrow> fetch_task_config list \<times> int \<times> cluster_store" where
  "spawn_fetchers s =
     (let c = st_config s;
          tasks =
            [task_config c EpControllerStatus (pc_controller_status c) False,
             task_config c EpRootPgStatus (pc_root_pg_status c) True,
             task_config c EpControllerServices (pc_controller_services c) True,
             task_config c EpConnectionsByPg (pc_connections_by_pg c) True,
             task_config c EpBulletins (pc_bulletins c) False,
             task_config c EpSystemDiagnostics (pc_system_diagnostics c) False,
             task_config c EpAbout (pc_about c) False,
             task_config c EpClusterNodes (pc_cluster_nodes c) True,
             task_config c EpTlsCerts (pc_tls_certs c) True,
             task_config c EpVersionControl (pc_version_control c) True,
             task_config c EpParameterContextBindings (pc_parameter_context_bindings c) True,
             task_config c EpReportingTasks (pc_reporting_tasks c) True];
          cursor = unwrap_or 0 (br_last_id (cl_bulletins (st_snapshot s)))
      in (tasks, cursor, s\<lparr>st_handles := st_handles s + length tasks\<rparr>))"

definition store_shutdown :: "cluster_store \<Rightarrow> cluster_store" where
  "store_shutdown s = s\<lparr>st_handles := 0, st_access_audit := AuditUnknown\<rparr>"

subsection \<open>Applying updates\<close>

definition conn_state ::
  "cluster_snapshot \<Rightarrow> string \<Rightarrow> connection_endpoints endpoint_state" where
  "conn_state c pg = (case map_of (cl_connections_by_pg c) pg of None \<Rightarrow> Loading | Some e \<Rightarrow> e)"

fun snapshot_update :: "cluster_update \<Rightarrow> cluster_snapshot \<Rightarrow> cluster_snapshot" where
  "snapshot_update (UAbout r m) c = c\<lparr>cl_about := es_apply r m (cl_about c)\<rparr>"
| "snapshot_update (UControllerStatus r m) c =
     c\<lparr>cl_controller_status := es_apply r m (cl_controller_status c)\<rparr>"
| "snapshot_update (URootPgStatus r m) c = c\<lparr>cl_root_pg_status := es_apply r m (cl_root_pg_status c)\<rparr>"
| "snapshot_update (UControllerServices r m) c =
     c\<lparr>cl_controller_services := es_apply r m (cl_controller_services c)\<rparr>"
| "snapshot_update (USystemDiagnostics r m) c =
     c\<lparr>cl_system_diagnostics := es_apply r m (cl_system_diagnostics c)\<rparr>"
| "snapshot_update (UClusterNodes r m) c = c\<lparr>cl_cluster_nodes := es_apply r m (cl_cluster_nodes c)\<rparr>"
| "snapshot_update (UTlsCerts r m) c = c\<lparr>cl_tls_certs := es_apply r m (cl_tls_certs c)\<rparr>"
| "snapshot_update (UConnections pg r m) c =
     c\<lparr>cl_connections_by_pg := AList.update pg (es_apply r m (conn_state c pg)) (cl_connections_by_pg c)\<rparr>"
| "snapshot_update (UBulletinsDelta (Inr batch) m) c =
     c\<lparr>cl_bulletins := (ring_merge batch (cl_bulletins c))\<lparr>br_meta := Some m, br_last_error := None\<rparr>\<rparr>"
| "snapshot_update (UBulletinsDelta (Inl err) m) c =
     c\<lparr>cl_bulletins := (cl_bulletins c)\<lparr>br_last_error := Some err, br_meta := Some m\<rparr>\<rparr>"
| "snapshot_update (UVersionControl r m) c =
     c\<lparr>cl_version_control := es_apply r m (cl_version_control c)\<rparr>"
| "snapshot_update (UParameterContextBindings r m) c =
     c\<lparr>cl_parameter_context_bindings := es_apply r m (cl_parameter_context_bindings c)\<rparr>"
| "snapshot_update (UReportingTasks r m) c =
     c\<lparr>cl_reporting_tasks := es_apply r m (cl_reporting_tasks c)\<rparr>"

definition store_apply_update :: "cluster_update \<Rightarrow> cluster_store \<Rightarrow> cluster_endpoint \<times> cluster_store" where
  "store_apply_update u s =
     (update_endpoint u, s\<lparr>st_snapshot := snapshot_update u (st_snapshot s)\<rparr>)"

definition store_run :: "cluster_update list \<Rightarrow> cluster_store \<Rightarrow> cluster_store" where
  "store_run us s = foldl (\<lambda>s u. snd (store_apply_update u s)) s us"


subsection \<open>Each endpoint sees its own results\<close>

text \<open>
  The results a sequence of updates carries for one endpoint, picked in order. The state
  of an endpoint after the sequence is the fold of exactly those.
\<close>

fun pick_about :: "cluster_update \<Rightarrow> ((string + about_snapshot) \<times> fetch_meta) option" where
  "pick_about (UAbout r m) = Some (r, m)"
| "pick_about _ = None"

fun pick_controller_status :: "cluster_update \<Rightarrow> ((string + controller_status_snapshot) \<times> fetch_meta) option" where
  "pick_controller_status (UControllerStatus r m) = Some (r, m)"
| "pick_controller_status _ = None"

fun pick_root :: "cluster_update \<Rightarrow> ((string + root_pg_status) \<times> fetch_meta) option" where
  "pick_root (URootPgStatus r m) = Some (r, m)"
| "pick_root _ = None"

fun pick_services :: "cluster_update \<Rightarrow> ((string + controller_services_snapshot) \<times> fetch_meta) option" where
  "pick_services (UControllerServices r m) = Some (r, m)"
| "pick_services _ = None"

fun pick_diag :: "cluster_update \<Rightarrow> ((string + system_diag_snapshot) \<times> fetch_meta) option" where
  "pick_diag (USystemDiagnostics r m) = Some (r, m)"
| "pick_diag _ = None"

fun pick_cluster :: "cluster_update \<Rightarrow> ((string + cluster_nodes_snapshot) \<times> fetch_meta) option" where
  "pick_cluster (UClusterNodes r m) = Some (r, m)"
| "pick_cluster _ = None"

fun pick_tls :: "cluster_update \<Rightarrow> ((string + tls_certs_snapshot) \<times> fetch_meta) option" where
  "pick_tls (UTlsCerts r m) = Some (r, m)"
| "pick_tls _ = None"

fun pick_version :: "cluster_update \<Rightarrow> ((string + version_control_map) \<times> fetch_meta) option" where
  "pick_version (UVersionControl r m) = Some (r, m)"
| "pick_version _ = None"

fun pick_bindings :: "cluster_update \<Rightarrow> ((string + parameter_context_bindings_map) \<times> fetch_meta) option" where
  "pick_bindings (UParameterContextBindings r m) = Some (r, m)"
| "pick_bindings _ = None"

fun pick_tasks :: "cluster_update \<Rightarrow> ((string + reporting_tasks_snapshot) \<times> fetch_meta) option" where
  "pick_tasks (UReportingTasks r m) = Some (r, m)"
| "pick_tasks _ = None"

fun pick_connections ::
  "string \<Rightarrow> cluster_update \<Rightarrow> ((string + connection_endpoints) \<times> fetch_meta) option" where
  "pick_connections g (UConnections pg r m) = (if pg = g then Some (r, m) else None)"
| "pick_connections g _ = None"

fun pick_bulletins :: "cluster_update \<Rightarrow> bulletin_snapshot list option" where
  "pick_bulletins (UBulletinsDelta (Inr batch) m) = Some batch"
| "pick_bulletins _ = None"

lemma store_run_snapshot:
  "st_snapshot (store_run us s) = foldl (\<lambda>c u. snapshot_update u c) (st_snapshot s) us"
  by (induction us arbitrary: s) (simp_all add: store_run_def store_apply_update_def)

lemma picked_run:
  assumes "\<And>u c. proj (snapshot_update u c) =
      (case pick u of None \<Rightarrow> proj c | Some (r, m) \<Rightarrow> es_apply r m (proj c))"
  shows "proj (st_snapshot (store_run us s)) = es_run (List.map_filter pick us) (proj (st_snapshot s))"
proof (induction us rule: rev_induct)
  case Nil
  then show ?case by (simp add: store_run_def es_run_def List.map_filter_def)
next
  case (snoc u us)
  then show ?case
    by (cases "pick u") (auto simp: store_run_snapshot assms List.map_filter_def es_run_def)
qed

lemma pick_cases:
  "cl_about (snapshot_update u c) =
     (case pick_about u of None \<Rightarrow> cl_about c | Some (r, m) \<Rightarrow> es_apply r m (cl_about c))"
  "cl_controller_status (snapshot_update u c) =
     (case pick_controller_status u of None \<Rightarrow> cl_controller_status c | Some (r, m) \<Rightarrow> es_apply r m (cl_controller_status c))"
  "cl_root_pg_status (snapshot_update u c) =
     (case pick_root u of None \<Rightarrow> cl_root_pg_status c | Some (r, m) \<Rightarrow> es_apply r m (cl_root_pg_status c))"
  "cl_controller_services (snapshot_update u c) =
     (case pick_services u of None \<Rightarrow> cl_controller_services c | Some (r, m) \<Rightarrow> es_apply r m (cl_controller_services c))"
  "cl_system_diagnostics (snapshot_update u c) =
     (case pick_diag u of None \<Rightarrow> cl_system_diagnostics c | Some (r, m) \<Rightarrow> es_apply r m (cl_system_diagnostics c))"
  "cl_cluster_nodes (snapshot_update u c) =
     (case pick_cluster u of None \<Rightarrow> cl_cluster_nodes c | Some (r, m) \<Rightarrow> es_apply r m (cl_cluster_nodes c))"
  "cl_tls_certs (snapshot_update u c) =
     (case pick_tls u of None \<Rightarrow> cl_tls_certs c | Some (r, m) \<Rightarrow> es_apply r m (cl_tls_certs c))"
  "cl_version_control (snapshot_update u c) =
     (case pick_version u of None \<Rightarrow> cl_version_control c | Some (r, m) \<Rightarrow> es_apply r m (cl_version_control c))"
  "cl_parameter_context_bindings (snapshot_update u c) =
     (case pick_bindings u of None \<Rightarrow> cl_parameter_context_bindings c | Some (r, m) \<Rightarrow> es_apply r m (cl_parameter_context_bindings c))"
  "cl_reporting_tasks (snapshot_update u c) =
     (case pick_tasks u of None \<Rightarrow> cl_reporting_tasks c | Some (r, m) \<Rightarrow> es_apply r m (cl_reporting_tasks c))"
  "conn_state (snapshot_update u c) g =
     (case pick_connections g u of None \<Rightarrow> conn_state c g | Some (r, m) \<Rightarrow> es_apply r m (conn_state c g))"
  by (cases "(u, c)" rule: snapshot_update.cases; simp add: conn_state_def update_conv')+

text \<open>One instance per endpoint.\<close>

lemma endpoint_runs:
  "cl_about (st_snapshot (store_run us s)) = es_run (List.map_filter pick_about us) (cl_about (st_snapshot s))"
  "cl_controller_status (st_snapshot (store_run us s)) = es_run (List.map_filter pick_controller_status us) (cl_controller_status (st_snapshot s))"
  "cl_root_pg_status (st_snapshot (store_run us s)) = es_run (List.map_filter pick_root us) (cl_root_pg_status (st_snapshot s))"
  "cl_controller_services (st_snapshot (store_run us s)) = es_run (List.map_filter pick_services us) (cl_controller_services (st_snapshot s))"
  "cl_system_diagnostics (st_snapshot (store_run us s)) = es_run (List.map_filter pick_diag us) (cl_system_diagnostics (st_snapshot s))"
  "cl_cluster_nodes (st_snapshot (store_run us s)) = es_run (List.map_filter pick_cluster us) (cl_cluster_nodes (st_snapshot s))"
  "cl_tls_certs (st_snapshot (store_run us s)) = es_run (List.map_filter pick_tls us) (cl_tls_certs (st_snapshot s))"
  "cl_version_control (st_snapshot (store_run us s)) = es_run (List.map_filter pick_version us) (cl_version_control (st_snapshot s))"
  "cl_parameter_context_bindings (st_snapshot (store_run us s)) = es_run (List.map_filter pick_bindings us) (cl_parameter_context_bindings (st_snapshot s))"
  "cl_reporting_tasks (st_snapshot (store_run us s)) = es_run (List.map_filter pick_tasks us) (cl_reporting_tasks (st_snapshot s))"
  "conn_state (st_snapshot (store_run us s)) g =
     es_run (List.map_filter (pick_connections g) us) (conn_state (st_snapshot s) g)"
proof -
  show "cl_about (st_snapshot (store_run us s)) = es_run (List.map_filter pick_about us) (cl_about (st_snapshot s))"
    by (rule picked_run) (rule pick_cases(1))
  show "cl_controller_status (st_snapshot (store_run us s)) = es_run (List.map_filter pick_controller_status us) (cl_controller_status (st_snapshot s))"
    by (rule picked_run) (rule pick_cases(2))
  show "cl_root_pg_status (st_snapshot (store_run us s)) = es_run (List.map_filter pick_root us) (cl_root_pg_status (st_snapshot s))"
    by (rule picked_run) (rule pick_cases(3))
  show "cl_controller_services (st_snapshot (store_run us s)) = es_run (List.map_filter pick_services us) (cl_controller_services (st_snapshot s))"
    by (rule picked_run) (rule pick_cases(4))
  show "cl_system_diagnostics (st_snapshot (store_run us s)) = es_run (List.map_filter pick_diag us) (cl_system_diagnostics (st_snapshot s))"
    by (rule picked_run) (rule pick_cases(5))
  show "cl_cluster_nodes (st_snapshot (store_run us s)) = es_run (List.map_filter pick_cluster us) (cl_cluster_nodes (st_snapshot s))"
    by (rule picked_run) (rule pick_cases(6))
  show "cl_tls_certs (st_snapshot (store_run us s)) = es_run (List.map_filter pick_tls us) (cl_tls_certs (st_snapshot s))"
    by (rule picked_run) (rule pick_cases(7))
  show "cl_version_control (st_snapshot (store_run us s)) = es_run (List.map_filter pick_version us) (cl_version_control (st_snapshot s))"
    by (rule picked_run) (rule pick_cases(8))
  show "cl_parameter_context_bindings (st_snapshot (store_run us s)) = es_run (List.map_filter pick_bindings us) (cl_parameter_context_bindings (st_snapshot s))"
    by (rule picked_run) (rule pick_cases(9))
  show "cl_reporting_tasks (st_snapshot (store_run us s)) = es_run (List.map_filter pick_tasks us) (cl_reporting_tasks (st_snapshot s))"
    by (rule picked_run) (rule pick_cases(10))
  show "conn_state (st_snapshot (store_run us s)) g =
     es_run (List.map_filter (pick_connections g) us) (conn_state (st_snapshot s) g)"
    by (rule picked_run [where proj = "\<lambda>c. conn_state c g"]) (rule pick_cases(11))
qed

lemma bulletins_run:
  "ring_holds (cl_bulletins (st_snapshot s)) stream \<Longrightarrow>
     ring_holds (cl_bulletins (st_snapshot (store_run us s)))
       (stream @ concat (List.map_filter pick_bulletins us))"
proof (induction us rule: rev_induct)
  case Nil
  then show ?case by (simp add: store_run_def List.map_filter_def)
next
  case (snoc u us)
  let ?c = "st_snapshot (store_run us s)"
  have step: "st_snapshot (store_run (us @ [u]) s) = snapshot_update u ?c"
    by (simp add: store_run_snapshot)
  have "ring_holds (cl_bulletins (snapshot_update u ?c))
      ((stream @ concat (List.map_filter pick_bulletins us)) @
       (case pick_bulletins u of None \<Rightarrow> [] | Some batch \<Rightarrow> batch))"
    using snoc.IH [OF snoc.prems] ring_merge_holds
    by (cases "(u, ?c)" rule: snapshot_update.cases) (simp_all add: ring_holds_def)
  then show ?case
    by (simp add: step List.map_filter_def split: option.splits)
qed

section \<open>Properties\<close>

definition registry_step ::
  "subscriber_registry \<Rightarrow> bool \<times> cluster_endpoint \<times> view_id \<Rightarrow> subscriber_registry" where
  "registry_step r c = (case c of (add, e, v) \<Rightarrow>
     if add then snd (registry_subscribe e v r) else snd (registry_unsubscribe e v r))"

lemma registry_step_cmd: "registry.apply_cmd = registry_step"
  by (rule ext)+ (simp add: registry.apply_cmd_def registry_step_def)

text \<open>
  After any sequence of subscribe and unsubscribe calls, repeated or unmatched ones
  included, the atomic counter a fetch task reads is the number of views whose last call
  for that endpoint was a subscription. It never wraps.
\<close>

theorem counter_is_live_views:
  "registry_count e (foldl registry_step registry_new cs) =
     card {v. filter (\<lambda>c. snd c = (e, v)) cs \<noteq> [] \<and> fst (last (filter (\<lambda>c. snd c = (e, v)) cs))}"
proof -
  have "set (subscribed registry_new e') = {}" for e'
    by (simp add: registry_new_ok)
  from registry.run_counter [OF registry_new_ok(1) this, of e cs] show ?thesis
    by (simp only: registry_step_cmd)
qed

text \<open>
  C6: an update reaches its own endpoint and no other: from a new store, after any
  sequence of updates every endpoint's state is the fold of exactly its own results, each
  process group's connections fold that group's results, and the bulletin ring holds the
  newest bulletins of the successful deltas.
\<close>

theorem endpoints_fold_own_results:
  "let c = st_snapshot (store_run us (store_new config cap url)) in
     cl_about c = es_run (List.map_filter pick_about us) Loading
   \<and> cl_controller_status c = es_run (List.map_filter pick_controller_status us) Loading
   \<and> cl_root_pg_status c = es_run (List.map_filter pick_root us) Loading
   \<and> cl_controller_services c = es_run (List.map_filter pick_services us) Loading
   \<and> cl_system_diagnostics c = es_run (List.map_filter pick_diag us) Loading
   \<and> cl_cluster_nodes c = es_run (List.map_filter pick_cluster us) Loading
   \<and> cl_tls_certs c = es_run (List.map_filter pick_tls us) Loading
   \<and> cl_version_control c = es_run (List.map_filter pick_version us) Loading
   \<and> cl_parameter_context_bindings c = es_run (List.map_filter pick_bindings us) Loading
   \<and> cl_reporting_tasks c = es_run (List.map_filter pick_tasks us) Loading
   \<and> (\<forall>pg. conn_state c pg = es_run (List.map_filter (pick_connections pg) us) Loading)
   \<and> br_buf (cl_bulletins c) =
       last_n (br_capacity (cl_bulletins c)) (concat (List.map_filter pick_bulletins us))"
proof -
  let ?new = "store_new config cap url"
  have "ring_holds (cl_bulletins (st_snapshot ?new)) []"
    by (simp add: store_new_def with_bulletins_capacity_def ring_new_holds)
  from bulletins_run [OF this, of us]
  have "br_buf (cl_bulletins (st_snapshot (store_run us ?new))) =
      last_n (br_capacity (cl_bulletins (st_snapshot (store_run us ?new))))
        (concat (List.map_filter pick_bulletins us))"
    by (simp add: ring_holds_def)
  then show ?thesis
    by (simp add: Let_def endpoint_runs)
      (simp add: store_new_def with_bulletins_capacity_def conn_state_def)
qed

text \<open>
  The node-address channel carries the cluster roster when there is one and the
  diagnosed nodes otherwise, and the certificate fetcher is woken exactly when the list
  changed; nothing else of the store moves.
\<close>

theorem publish_addresses_wakes_on_change:
  "st_node_addresses (publish_node_addresses s) =
     (case es_latest (cl_cluster_nodes (st_snapshot s)) of
        Some c \<Rightarrow> if cn_rows c \<noteq> [] then map nr_address (cn_rows c)
                  else (case es_latest (cl_system_diagnostics (st_snapshot s)) of
                          None \<Rightarrow> [] | Some d \<Rightarrow> map nd_address (sd_nodes d))
      | None \<Rightarrow> (case es_latest (cl_system_diagnostics (st_snapshot s)) of
                   None \<Rightarrow> [] | Some d \<Rightarrow> map nd_address (sd_nodes d)))
   \<and> st_notifies (publish_node_addresses s) =
       (if st_node_addresses (publish_node_addresses s) \<noteq> st_node_addresses s
        then (st_notifies s)(EpTlsCerts := notify_one (st_notifies s EpTlsCerts))
        else st_notifies s)
   \<and> st_snapshot (publish_node_addresses s) = st_snapshot s
   \<and> st_subscribers (publish_node_addresses s) = st_subscribers s
   \<and> publish_node_addresses (publish_node_addresses s) = publish_node_addresses s"
  by (cases "es_latest (cl_cluster_nodes (st_snapshot s))";
      cases "es_latest (cl_system_diagnostics (st_snapshot s))")
    (simp_all add: publish_node_addresses_def Let_def store_force_def)

text \<open>
  Spawning starts exactly one task per endpoint; the always-on ones are the identity,
  controller status, diagnostics and bulletin tasks, and all others are gated on their
  subscribers.
\<close>

theorem one_task_per_endpoint:
  "case spawn_fetchers s of (tasks, cursor, s') \<Rightarrow>
      distinct (map tc_endpoint tasks) \<and> (\<forall>e. e \<in> tc_endpoint ` set tasks)
      \<and> st_handles s' = st_handles s + endpoint_count
      \<and> set (map tc_endpoint (filter (\<lambda>t. \<not> tc_gated t) tasks))
          = {EpAbout, EpControllerStatus, EpSystemDiagnostics, EpBulletins}"
proof -
  have all: "e \<in> {EpControllerStatus, EpRootPgStatus, EpControllerServices, EpConnectionsByPg,
      EpBulletins, EpSystemDiagnostics, EpAbout, EpClusterNodes, EpTlsCerts, EpVersionControl,
      EpParameterContextBindings, EpReportingTasks}" for e
    by (cases e) simp_all
  show ?thesis
    using all
    by (simp add: spawn_fetchers_def Let_def task_config_def endpoint_count_def del: set_filter)
      blast
qed

end
