(* ===== verification/Fetch_Tasks.thy ===== *)
theory Fetch_Tasks
  imports Cluster_Store
begin

text \<open>
  \<open>src/src/cluster/fetcher.rs\<close> and \<open>src/src/cluster/fetcher_tasks.rs\<close>: the adaptive cadence,
  one cycle of each fetch task, and the task loop as a step relation beside the steps of
  the UI task, over the store of \<open>Cluster_Store\<close>. The answers of the server are arguments.
\<close>

section \<open>Adaptive cadence\<close>

definition duration_max :: nat where
  "duration_max = 18446744073709551615 * 1000000000 + 999999999"

definition saturating_double :: "nat \<Rightarrow> nat" where
  "saturating_double d = min (2 * d) duration_max"

definition adaptive_interval :: "nat \<Rightarrow> nat \<Rightarrow> nat \<Rightarrow> nat option" where
  "adaptive_interval base last_dur max_dur =
     (let effective_max = max base max_dur; doubled = saturating_double last_dur
      in clamp doubled base effective_max)"

lemma adaptive_interval_total:
  "adaptive_interval base d mx = Some (max base (min (saturating_double d) (max base mx)))"
  by (auto simp: adaptive_interval_def clamp_def Let_def max_def min_def)

definition next_interval_of :: "fetch_task_config \<Rightarrow> nat \<Rightarrow> nat" where
  "next_interval_of cfg duration =
     the (adaptive_interval (tc_base_interval cfg) duration (tc_max_interval cfg))"

section \<open>One cycle of each task\<close>

text \<open>
  What a cycle sends, given when the request started, how long it took, the interval
  computed by the previous cycle and the server's answer. The metadata of the fan-out
  tasks carries the new interval, that of all others the previous one.
\<close>

definition meta_at :: "nat \<Rightarrow> nat \<Rightarrow> nat \<Rightarrow> fetch_meta" where
  "meta_at t0 duration next_interval =
     \<lparr>fm_fetched_at = t0, fm_fetch_duration = duration, fm_next_interval = next_interval\<rparr>"

definition controller_status_cycle ::
  "nat \<Rightarrow> nat \<Rightarrow> nat \<Rightarrow> string + controller_status_snapshot \<Rightarrow> cluster_update list" where
  "controller_status_cycle t0 d next_interval result =
     [UControllerStatus result (meta_at t0 d next_interval)]"

definition root_pg_status_cycle ::
  "nat \<Rightarrow> nat \<Rightarrow> nat \<Rightarrow> string + root_pg_status \<Rightarrow> cluster_update list" where
  "root_pg_status_cycle t0 d next_interval result =
     [URootPgStatus result (meta_at t0 d next_interval)]"

definition controller_services_cycle ::
  "nat \<Rightarrow> nat \<Rightarrow> nat \<Rightarrow> string + controller_services_snapshot \<Rightarrow> cluster_update list" where
  "controller_services_cycle t0 d next_interval result =
     [UControllerServices result (meta_at t0 d next_interval)]"

definition reporting_tasks_cycle ::
  "nat \<Rightarrow> nat \<Rightarrow> nat \<Rightarrow> string + reporting_tasks_snapshot \<Rightarrow> cluster_update list" where
  "reporting_tasks_cycle t0 d next_interval result =
     [UReportingTasks result (meta_at t0 d next_interval)]"

definition about_cycle ::
  "nat \<Rightarrow> nat \<Rightarrow> nat \<Rightarrow> string + about_snapshot \<Rightarrow> cluster_update list" where
  "about_cycle t0 d next_interval result = [UAbout result (meta_at t0 d next_interval)]"

text \<open>
  The diagnostics task asks per node first and falls back to the aggregate; when both
  fail it reports the first error.
\<close>

definition diagnostics_cycle ::
  "nat \<Rightarrow> nat \<Rightarrow> nat \<Rightarrow> string + system_diag_snapshot \<Rightarrow> string + system_diag_snapshot
   \<Rightarrow> bool option \<Rightarrow> cluster_update list \<times> bool option" where
  "diagnostics_cycle t0 d next_interval nodewise aggregate last_nodewise =
     (let (result, used_nodewise) = (case nodewise of
            Inr snap \<Rightarrow> (Inr snap, Some True)
          | Inl nodewise_err \<Rightarrow> (case aggregate of
              Inr snap \<Rightarrow> (Inr snap, Some False)
            | Inl agg_err \<Rightarrow> (Inl nodewise_err, None)));
          last_nodewise' = (case used_nodewise of
              Some n \<Rightarrow> if last_nodewise \<noteq> Some n then Some n else last_nodewise
            | None \<Rightarrow> last_nodewise)
      in ([USystemDiagnostics result (meta_at t0 d next_interval)], last_nodewise'))"

text \<open>An error here carries its display and its debug text; the latter is inspected.\<close>

definition error_is_standalone_409 :: "string \<Rightarrow> bool" where
  "error_is_standalone_409 debug_repr \<longleftrightarrow>
     str_contains debug_repr ''409'' \<or> str_contains debug_repr ''NotClustered''
     \<or> str_contains debug_repr ''Only a node connected to a cluster''"

definition cluster_nodes_cycle ::
  "nat \<Rightarrow> nat \<Rightarrow> nat \<Rightarrow> int \<Rightarrow> (string \<times> string) + cluster_nodes_snapshot \<Rightarrow> cluster_update list" where
  "cluster_nodes_cycle t0 d next_interval wall raw =
     (let result = (case raw of
            Inr snap \<Rightarrow> Inr snap
          | Inl (err, debug_repr) \<Rightarrow>
              if error_is_standalone_409 debug_repr
              then Inr \<lparr>cn_rows = [], cn_fetched_at = t0, cn_fetched_wall = wall\<rparr>
              else Inl err)
      in [UClusterNodes result (meta_at t0 d next_interval)])"

text \<open>
  The certificate task probes the published addresses, or the base URL's host while there
  are none; \<open>fallback\<close> is the parsed base URL and \<open>probe\<close> the handshake.
\<close>

definition tls_targets :: "(string \<times> nat) option \<Rightarrow> string list \<Rightarrow> string list" where
  "tls_targets fallback addresses =
     (if addresses = []
      then (case fallback of None \<Rightarrow> [] | Some (h, p) \<Rightarrow> [h @ '':'' @ show_nat p])
      else addresses)"

definition tls_certs_cycle ::
  "nat \<Rightarrow> nat \<Rightarrow> nat \<Rightarrow> (string list \<Rightarrow> tls_certs_snapshot) \<Rightarrow> (string \<times> nat) option
   \<Rightarrow> string list \<Rightarrow> cluster_update list" where
  "tls_certs_cycle t0 d next_interval probe fallback addresses =
     [UTlsCerts (Inr (probe (tls_targets fallback addresses))) (meta_at t0 d next_interval)]"

text \<open>The fan-out tasks: the new interval is computed before the updates are sent.\<close>

definition connections_cycle ::
  "fetch_task_config \<Rightarrow> nat \<Rightarrow> nat \<Rightarrow> (string \<times> (string + connection_endpoints)) list
   \<Rightarrow> cluster_update list" where
  "connections_cycle cfg t0 d results =
     (let meta = meta_at t0 d (next_interval_of cfg d)
      in map (\<lambda>(pg_id, result). UConnections pg_id result meta) results)"

definition version_control_cycle ::
  "fetch_task_config \<Rightarrow> nat \<Rightarrow> nat \<Rightarrow> version_control_map \<Rightarrow> cluster_update list" where
  "version_control_cycle cfg t0 d m =
     [UVersionControl (Inr m) (meta_at t0 d (next_interval_of cfg d))]"

definition bindings_cycle ::
  "fetch_task_config \<Rightarrow> nat \<Rightarrow> nat \<Rightarrow> parameter_context_bindings_map \<Rightarrow> cluster_update list" where
  "bindings_cycle cfg t0 d m =
     [UParameterContextBindings (Inr m) (meta_at t0 d (next_interval_of cfg d))]"

text \<open>\<open>map_res\<close>: a remote port is known in the arena by its group, so the group id is used.\<close>

record connection_entity =
  cne_id :: "string option"
  cne_source_id :: "string option"
  cne_source_type :: string
  cne_source_group_id :: "string option"
  cne_destination_id :: "string option"
  cne_destination_type :: string
  cne_destination_group_id :: "string option"

definition endpoints_of :: "connection_entity \<Rightarrow> connection_endpoint_ids" where
  "endpoints_of e =
     \<lparr>ce_source_id =
        (if cne_source_type e = ''REMOTE_OUTPUT_PORT''
         then unwrap_or (or_empty (cne_source_id e)) (cne_source_group_id e)
         else or_empty (cne_source_id e)),
      ce_destination_id =
        (if cne_destination_type e = ''REMOTE_INPUT_PORT''
         then unwrap_or (or_empty (cne_destination_id e)) (cne_destination_group_id e)
         else or_empty (cne_destination_id e))\<rparr>"

definition map_res ::
  "string + connection_entity list option \<Rightarrow> string + connection_endpoints" where
  "map_res res =
     (case res of
        Inl err \<Rightarrow> Inl err
      | Inr conns \<Rightarrow>
          Inr (foldl (\<lambda>m e. case cne_id e of None \<Rightarrow> m | Some i \<Rightarrow> AList.update i (endpoints_of e) m)
                 [] (or_empty conns)))"

text \<open>
  The bulletin task: a cursor of zero asks for everything, any other for the bulletins
  after it; the cursor moves to the largest id of a successful batch.
\<close>

definition after_opt :: "int \<Rightarrow> int option" where
  "after_opt after = (if after > 0 then Some after else None)"

definition advance_cursor :: "int \<Rightarrow> bulletin_snapshot list \<Rightarrow> int" where
  "advance_cursor after bs = (case max_id bs of None \<Rightarrow> after | Some m \<Rightarrow> max m after)"

definition bulletins_cycle ::
  "nat \<Rightarrow> nat \<Rightarrow> nat \<Rightarrow> int \<Rightarrow> string + bulletin_snapshot list \<Rightarrow> cluster_update list \<times> int" where
  "bulletins_cycle t0 d next_interval after result =
     ([UBulletinsDelta result (meta_at t0 d next_interval)],
      case result of Inl err \<Rightarrow> after | Inr bs \<Rightarrow> advance_cursor after bs)"

section \<open>The task loop\<close>

datatype fetch_phase = LoopTop | WillPark | Parked | Fetching | WillSleep | Sleeping | Exited

record fetch_sys =
  fs_store :: cluster_store
  fs_phase :: fetch_phase
  fs_next_interval :: nat
  fs_channel :: "cluster_update list"
  fs_open :: bool
  fs_pgs_changed :: bool

definition takes_pg_ids :: "cluster_endpoint \<Rightarrow> bool" where
  "takes_pg_ids e \<longleftrightarrow> e \<in> {EpConnectionsByPg, EpVersionControl, EpParameterContextBindings}"

definition subscribers_present :: "cluster_endpoint \<Rightarrow> cluster_store \<Rightarrow> bool" where
  "subscribers_present e st \<longleftrightarrow> registry_count e (st_subscribers st) > 0"

definition gated_out :: "fetch_task_config \<Rightarrow> fetch_sys \<Rightarrow> bool" where
  "gated_out cfg s \<longleftrightarrow> tc_gated cfg \<and> \<not> subscribers_present (tc_endpoint cfg) (fs_store s)"

text \<open>The task's own \<open>Notify\<close>, and the transitions of a \<open>notified()\<close> future on it.\<close>

definition force_of :: "fetch_task_config \<Rightarrow> fetch_sys \<Rightarrow> notify" where
  "force_of cfg s = st_notifies (fs_store s) (tc_endpoint cfg)"

definition set_force :: "fetch_task_config \<Rightarrow> notify \<Rightarrow> fetch_sys \<Rightarrow> fetch_sys" where
  "set_force cfg n s = s\<lparr>fs_store := (fs_store s)\<lparr>st_notifies :=
     (st_notifies (fs_store s))(tc_endpoint cfg := n)\<rparr>\<rparr>"

definition register :: "notify \<Rightarrow> notify" where
  "register n = n\<lparr>nt_waiting := True\<rparr>"

definition consume :: "notify \<Rightarrow> notify" where
  "consume n = n\<lparr>nt_permit := False\<rparr>"

definition wake :: "notify \<Rightarrow> notify" where
  "wake n = n\<lparr>nt_woken := False\<rparr>"

text \<open>A future dropped by \<open>select!\<close> after it was woken passes its wake-up on.\<close>

definition drop_waiter :: "notify \<Rightarrow> notify" where
  "drop_waiter n = (if nt_woken n then n\<lparr>nt_woken := False, nt_permit := True\<rparr>
                    else n\<lparr>nt_waiting := False\<rparr>)"

inductive task_step :: "fetch_task_config \<Rightarrow> fetch_sys \<Rightarrow> fetch_sys \<Rightarrow> bool" for cfg where
  gate_park: "\<lbrakk>fs_phase s = LoopTop; gated_out cfg s\<rbrakk>
     \<Longrightarrow> task_step cfg s (s\<lparr>fs_phase := WillPark\<rparr>)"
| gate_idle: "\<lbrakk>fs_phase s = LoopTop; \<not> gated_out cfg s; takes_pg_ids (tc_endpoint cfg);
      st_pg_ids (fs_store s) = []\<rbrakk>
     \<Longrightarrow> task_step cfg s (s\<lparr>fs_phase := WillSleep, fs_pgs_changed := False\<rparr>)"
| gate_fetch_pgs: "\<lbrakk>fs_phase s = LoopTop; \<not> gated_out cfg s; takes_pg_ids (tc_endpoint cfg);
      st_pg_ids (fs_store s) \<noteq> []\<rbrakk>
     \<Longrightarrow> task_step cfg s (s\<lparr>fs_phase := Fetching, fs_pgs_changed := False\<rparr>)"
| gate_fetch: "\<lbrakk>fs_phase s = LoopTop; \<not> gated_out cfg s; \<not> takes_pg_ids (tc_endpoint cfg)\<rbrakk>
     \<Longrightarrow> task_step cfg s (s\<lparr>fs_phase := Fetching\<rparr>)"
| park_permit: "\<lbrakk>fs_phase s = WillPark; nt_permit (force_of cfg s)\<rbrakk>
     \<Longrightarrow> task_step cfg s (set_force cfg (consume (force_of cfg s)) (s\<lparr>fs_phase := LoopTop\<rparr>))"
| park_wait: "\<lbrakk>fs_phase s = WillPark; \<not> nt_permit (force_of cfg s)\<rbrakk>
     \<Longrightarrow> task_step cfg s (set_force cfg (register (force_of cfg s)) (s\<lparr>fs_phase := Parked\<rparr>))"
| park_wake: "\<lbrakk>fs_phase s = Parked; nt_woken (force_of cfg s)\<rbrakk>
     \<Longrightarrow> task_step cfg s (set_force cfg (wake (force_of cfg s)) (s\<lparr>fs_phase := LoopTop\<rparr>))"
| fetched: "\<lbrakk>fs_phase s = Fetching; fs_open s; \<forall>u \<in> set us. update_endpoint u = tc_endpoint cfg\<rbrakk>
     \<Longrightarrow> task_step cfg s (s\<lparr>fs_phase := WillSleep, fs_channel := fs_channel s @ us,
           fs_next_interval := next_interval_of cfg d\<rparr>)"
| closed: "\<lbrakk>fs_phase s = Fetching; \<not> fs_open s\<rbrakk> \<Longrightarrow> task_step cfg s (s\<lparr>fs_phase := Exited\<rparr>)"
| sleep_permit: "\<lbrakk>fs_phase s = WillSleep; nt_permit (force_of cfg s)\<rbrakk>
     \<Longrightarrow> task_step cfg s (set_force cfg (consume (force_of cfg s)) (s\<lparr>fs_phase := LoopTop\<rparr>))"
| sleep_wait: "\<lbrakk>fs_phase s = WillSleep; \<not> nt_permit (force_of cfg s)\<rbrakk>
     \<Longrightarrow> task_step cfg s (set_force cfg (register (force_of cfg s)) (s\<lparr>fs_phase := Sleeping\<rparr>))"
| sleep_wake: "\<lbrakk>fs_phase s = Sleeping; nt_woken (force_of cfg s)\<rbrakk>
     \<Longrightarrow> task_step cfg s (set_force cfg (wake (force_of cfg s)) (s\<lparr>fs_phase := LoopTop\<rparr>))"
| sleep_timeout: "fs_phase s = Sleeping
     \<Longrightarrow> task_step cfg s (set_force cfg (drop_waiter (force_of cfg s)) (s\<lparr>fs_phase := LoopTop\<rparr>))"
| sleep_pgs: "\<lbrakk>fs_phase s = Sleeping; takes_pg_ids (tc_endpoint cfg); fs_pgs_changed s\<rbrakk>
     \<Longrightarrow> task_step cfg s (set_force cfg (drop_waiter (force_of cfg s))
           (s\<lparr>fs_phase := LoopTop, fs_pgs_changed := False\<rparr>))"

inductive ui_step :: "fetch_sys \<Rightarrow> fetch_sys \<Rightarrow> bool" where
  ui_subscribe: "ui_step s (s\<lparr>fs_store := store_subscribe e v (fs_store s)\<rparr>)"
| ui_unsubscribe: "ui_step s (s\<lparr>fs_store := store_unsubscribe e v (fs_store s)\<rparr>)"
| ui_force: "ui_step s (s\<lparr>fs_store := store_force e (fs_store s)\<rparr>)"
| ui_deliver: "fs_channel s = u # us \<Longrightarrow>
     ui_step s (s\<lparr>fs_store := snd (store_apply_update u (fs_store s)), fs_channel := us\<rparr>)"
| ui_publish_pgs: "ui_step s (s\<lparr>fs_store := publish_pg_ids (fs_store s), fs_pgs_changed := True\<rparr>)"
| ui_publish_addresses: "ui_step s (s\<lparr>fs_store := publish_node_addresses (fs_store s)\<rparr>)"
| ui_close: "ui_step s (s\<lparr>fs_open := False\<rparr>)"

definition fetch_init :: "fetch_task_config \<Rightarrow> polling_config \<Rightarrow> nat \<Rightarrow> string \<Rightarrow> fetch_sys" where
  "fetch_init cfg config cap url =
     \<lparr>fs_store = store_new config cap url, fs_phase = LoopTop,
      fs_next_interval = tc_base_interval cfg, fs_channel = [], fs_open = True,
      fs_pgs_changed = False\<rparr>"

definition reachable :: "fetch_task_config \<Rightarrow> fetch_sys \<Rightarrow> bool" where
  "reachable cfg s \<longleftrightarrow> (\<exists>config cap url.
     (\<lambda>a b. task_step cfg a b \<or> ui_step a b)\<^sup>*\<^sup>* (fetch_init cfg config cap url) s)"

section \<open>No lost wake-up\<close>

text \<open>
  The invariant: the task holds a registered or woken waiter exactly while it waits, and
  when a subscriber is present, a task about to park finds a permit and a parked one has
  been woken.
\<close>

definition wake_inv :: "fetch_task_config \<Rightarrow> fetch_sys \<Rightarrow> bool" where
  "wake_inv cfg s \<longleftrightarrow>
     registry_ok (st_subscribers (fs_store s))
   \<and> (fs_phase s \<in> {Parked, Sleeping} \<longleftrightarrow> nt_waiting (force_of cfg s) \<or> nt_woken (force_of cfg s))
   \<and> \<not> (nt_waiting (force_of cfg s) \<and> nt_woken (force_of cfg s))
   \<and> (subscribers_present (tc_endpoint cfg) (fs_store s) \<longrightarrow>
        (fs_phase s = WillPark \<longrightarrow> nt_permit (force_of cfg s))
      \<and> (fs_phase s = Parked \<longrightarrow> nt_woken (force_of cfg s)))"

lemma force_of_set [simp]: "force_of cfg (set_force cfg n s) = n"
  by (simp add: force_of_def set_force_def)

lemma set_force_frame [simp]:
  "fs_phase (set_force cfg n s) = fs_phase s"
  "st_subscribers (fs_store (set_force cfg n s)) = st_subscribers (fs_store s)"
  "subscribers_present e (fs_store (set_force cfg n s)) = subscribers_present e (fs_store s)"
  by (simp_all add: set_force_def subscribers_present_def)

lemma force_of_update [simp]:
  "force_of cfg (s\<lparr>fs_phase := p\<rparr>) = force_of cfg s"
  "force_of cfg (s\<lparr>fs_channel := c\<rparr>) = force_of cfg s"
  "force_of cfg (s\<lparr>fs_next_interval := i\<rparr>) = force_of cfg s"
  "force_of cfg (s\<lparr>fs_open := b\<rparr>) = force_of cfg s"
  "force_of cfg (s\<lparr>fs_pgs_changed := b\<rparr>) = force_of cfg s"
  "force_of cfg (s\<lparr>fs_store := st\<rparr>) = st_notifies st (tc_endpoint cfg)"
  by (simp_all add: force_of_def)

lemmas waiter_defs = register_def consume_def wake_def drop_waiter_def

lemma wake_inv_init: "wake_inv cfg (fetch_init cfg config cap url)"
proof -
  have "registry_count e registry_new = 0" for e
    by (simp add: registry_count_def registry_new_def)
  then show ?thesis
    by (simp add: wake_inv_def fetch_init_def store_new_def force_of_def notify_new_def
        registry_new_ok subscribers_present_def)
qed

lemma wake_inv_task: "task_step cfg s t \<Longrightarrow> wake_inv cfg s \<Longrightarrow> wake_inv cfg t"
  by (cases rule: task_step.cases, assumption)
    (auto simp: wake_inv_def gated_out_def waiter_defs)

text \<open>What the UI steps may do to the registry and the task's handle.\<close>

lemma subscribe_effect:
  assumes "registry_ok (st_subscribers st)"
  shows "registry_ok (st_subscribers (store_subscribe e v st))"
    and "st_notifies (store_subscribe e v st) ep =
       (if e = ep \<and> v \<notin> set (subscribed (st_subscribers st) e)
        then notify_one (st_notifies st ep) else st_notifies st ep)"
    and "subscribers_present ep (store_subscribe e v st) \<longleftrightarrow> e = ep \<or> subscribers_present ep st"
proof -
  let ?reg = "snd (registry_subscribe e v (st_subscribers st))"
  have reg: "st_subscribers (store_subscribe e v st) = ?reg"
    by (simp add: store_subscribe_def Let_def split: prod.splits)
  show ok: "registry_ok (st_subscribers (store_subscribe e v st))"
    unfolding reg by (rule registry_ok_subscribe [OF assms])
  show "st_notifies (store_subscribe e v st) ep =
       (if e = ep \<and> v \<notin> set (subscribed (st_subscribers st) e)
        then notify_one (st_notifies st ep) else st_notifies st ep)"
    using registry_subscribe_sets(2) [of e v "st_subscribers st"]
    by (cases "registry_subscribe e v (st_subscribers st)") (auto simp: store_subscribe_def Let_def)
  show "subscribers_present ep (store_subscribe e v st) \<longleftrightarrow> e = ep \<or> subscribers_present ep st"
    using ok assms unfolding reg
    by (auto simp: subscribers_present_def registry_count_def registry_unat reg
        registry_subscribe_sets)
qed

lemma unsubscribe_effect:
  assumes "registry_ok (st_subscribers st)"
  shows "registry_ok (st_subscribers (store_unsubscribe e v st))"
    and "st_notifies (store_unsubscribe e v st) = st_notifies st"
    and "subscribers_present ep (store_unsubscribe e v st) \<Longrightarrow> subscribers_present ep st"
proof -
  show ok: "registry_ok (st_subscribers (store_unsubscribe e v st))"
    using registry_ok_unsubscribe [OF assms] by (simp add: store_unsubscribe_def)
  show "st_notifies (store_unsubscribe e v st) = st_notifies st"
    by (simp add: store_unsubscribe_def)
  show "subscribers_present ep (store_unsubscribe e v st) \<Longrightarrow> subscribers_present ep st"
    using ok assms
    by (auto simp: subscribers_present_def registry_count_def registry_unat store_unsubscribe_def
        registry_unsubscribe_sets split: if_splits)
qed

text \<open>Every other UI step leaves the registry alone and may only signal the handle.\<close>

lemma wake_inv_signal:
  assumes "wake_inv cfg s" and "st_subscribers st = st_subscribers (fs_store s)"
    and "st_notifies st (tc_endpoint cfg) \<in> {force_of cfg s, notify_one (force_of cfg s)}"
  shows "wake_inv cfg (s\<lparr>fs_store := st\<rparr>)"
  using assms
  by (auto simp: wake_inv_def subscribers_present_def notify_one_def)

lemma signal_effects:
  "st_subscribers (store_force e st) = st_subscribers st"
  "st_notifies (store_force e st) ep \<in> {st_notifies st ep, notify_one (st_notifies st ep)}"
  "st_subscribers (publish_node_addresses st) = st_subscribers st"
  "st_notifies (publish_node_addresses st) ep \<in> {st_notifies st ep, notify_one (st_notifies st ep)}"
  "st_subscribers (publish_pg_ids st) = st_subscribers st"
  "st_notifies (publish_pg_ids st) = st_notifies st"
  "st_subscribers (snd (store_apply_update u st)) = st_subscribers st"
  "st_notifies (snd (store_apply_update u st)) = st_notifies st"
  by (simp_all add: store_force_def publish_node_addresses_def Let_def publish_pg_ids_def
      store_apply_update_def split: option.split)

lemma wake_inv_frame [simp]:
  "wake_inv cfg (s\<lparr>fs_channel := c\<rparr>) = wake_inv cfg s"
  "wake_inv cfg (s\<lparr>fs_open := b\<rparr>) = wake_inv cfg s"
  "wake_inv cfg (s\<lparr>fs_pgs_changed := b\<rparr>) = wake_inv cfg s"
  by (simp_all add: wake_inv_def)

lemma wake_inv_ui: "ui_step s t \<Longrightarrow> wake_inv cfg s \<Longrightarrow> wake_inv cfg t"
proof (induction rule: ui_step.induct)
  case (ui_subscribe s e v)
  then have "registry_ok (st_subscribers (fs_store s))" by (simp add: wake_inv_def)
  note eff = subscribe_effect [OF this, where e = e and v = v]
  have sub: "subscribers_present (tc_endpoint cfg) (fs_store s)"
    if "v \<in> set (subscribed (st_subscribers (fs_store s)) (tc_endpoint cfg))"
    using that ui_subscribe
    by (auto simp: wake_inv_def subscribers_present_def registry_count_def registry_unat)
  show ?case
    using ui_subscribe eff(1) sub
    by (auto simp: wake_inv_def eff(2,3) notify_one_def simp flip: force_of_def)
next
  case (ui_unsubscribe s e v)
  then have "registry_ok (st_subscribers (fs_store s))" by (simp add: wake_inv_def)
  note eff = unsubscribe_effect [OF this, where e = e and v = v]
  show ?case
    using ui_unsubscribe eff(1) eff(3) [where ep = "tc_endpoint cfg"]
    by (auto simp: wake_inv_def eff(2) simp flip: force_of_def)
next
  case (ui_force s e)
  then show ?case
    by (rule wake_inv_signal) (use signal_effects in \<open>auto simp: force_of_def\<close>)
next
  case (ui_deliver s u us)
  then have "wake_inv cfg (s\<lparr>fs_store := snd (store_apply_update u (fs_store s))\<rparr>)"
    by (intro wake_inv_signal) (use signal_effects in \<open>auto simp: force_of_def\<close>)
  then show ?case by (simp add: wake_inv_def)
next
  case (ui_publish_pgs s)
  then have "wake_inv cfg (s\<lparr>fs_store := publish_pg_ids (fs_store s)\<rparr>)"
    by (intro wake_inv_signal) (use signal_effects in \<open>auto simp: force_of_def\<close>)
  then show ?case by (simp add: wake_inv_def)
next
  case (ui_publish_addresses s)
  then show ?case
    by (intro wake_inv_signal) (use signal_effects in \<open>auto simp: force_of_def\<close>)
next
  case (ui_close s)
  then show ?case by simp
qed

lemma reachable_wake_inv: "reachable cfg s \<Longrightarrow> wake_inv cfg s"
proof -
  assume "reachable cfg s"
  then obtain config cap url where
    "(\<lambda>a b. task_step cfg a b \<or> ui_step a b)\<^sup>*\<^sup>* (fetch_init cfg config cap url) s"
    by (auto simp: reachable_def)
  then show ?thesis
    by (induction rule: rtranclp_induct) (auto intro: wake_inv_init wake_inv_task wake_inv_ui)
qed

section \<open>The bulletin stream\<close>

text \<open>
  The bulletin task run for \<open>k\<close> cycles against a server that answers the \<open>n\<close>-th call:
  the updates it sent, in order, and its cursor.
\<close>

fun bulletin_run :: "(nat \<Rightarrow> int option \<Rightarrow> string + bulletin_snapshot list) \<Rightarrow> nat \<Rightarrow> int
    \<Rightarrow> cluster_update list \<times> int" where
  "bulletin_run server 0 cursor = ([], cursor)"
| "bulletin_run server (Suc k) cursor =
     (let (sent, after) = bulletin_run server k cursor;
          (us, after') = bulletins_cycle k 0 0 after (server k (after_opt after))
      in (sent @ us, after'))"

text \<open>
  The documented behaviour of \<open>GET /flow/bulletin-board\<close>: ids are positive, a call with
  \<open>after\<close> returns only bulletins with a greater id, and no bulletin twice.
\<close>

definition bulletin_server :: "(nat \<Rightarrow> int option \<Rightarrow> string + bulletin_snapshot list) \<Rightarrow> bool" where
  "bulletin_server server \<longleftrightarrow> (\<forall>n a bs. server n a = Inr bs \<longrightarrow>
     distinct (map bu_id bs) \<and>
     (\<forall>b \<in> set bs. 0 < bu_id b \<and> (case a of None \<Rightarrow> True | Some i \<Rightarrow> i < bu_id b)))"

definition stream_of :: "cluster_update list \<Rightarrow> bulletin_snapshot list" where
  "stream_of us = concat (List.map_filter pick_bulletins us)"

lemma stream_of_append [simp]: "stream_of (us @ vs) = stream_of us @ stream_of vs"
  by (simp add: stream_of_def List.map_filter_def)

lemma advance_cursor_bound:
  "after \<le> advance_cursor after bs" "b \<in> set bs \<Longrightarrow> bu_id b \<le> advance_cursor after bs"
  by (auto simp: advance_cursor_def max_id_def le_max_iff_disj)

lemma advance_cursor_reached:
  "advance_cursor after bs = after \<or> (\<exists>b \<in> set bs. bu_id b = advance_cursor after bs)"
proof (cases "bs = []")
  case True
  then show ?thesis by (simp add: advance_cursor_def max_id_def)
next
  case False
  then have "Max (bu_id ` set bs) \<in> bu_id ` set bs" by (intro Max_in) auto
  then obtain b where "b \<in> set bs" "bu_id b = Max (bu_id ` set bs)"
    by (metis imageE)
  moreover from False have "advance_cursor after bs = max (Max (bu_id ` set bs)) after"
    by (simp add: advance_cursor_def max_id_def)
  ultimately show ?thesis by (auto simp: max_def)
qed

text \<open>The stream so far has distinct positive ids and the cursor is the largest, or zero.\<close>

definition stream_inv :: "bulletin_snapshot list \<Rightarrow> int \<Rightarrow> bool" where
  "stream_inv bs cursor \<longleftrightarrow> 0 \<le> cursor \<and> distinct (map bu_id bs) \<and>
     (\<forall>b \<in> set bs. 0 < bu_id b \<and> bu_id b \<le> cursor) \<and>
     (cursor = 0 \<or> (\<exists>b \<in> set bs. bu_id b = cursor))"

lemma stream_inv_batch:
  assumes inv: "stream_inv bs cursor" and server: "bulletin_server server"
    and answer: "server n (after_opt cursor) = Inr batch"
  shows "stream_inv (bs @ batch) (advance_cursor cursor batch)"
proof -
  from server answer have batch: "distinct (map bu_id batch)"
    "\<forall>b \<in> set batch. 0 < bu_id b \<and> (case after_opt cursor of None \<Rightarrow> True | Some i \<Rightarrow> i < bu_id b)"
    unfolding bulletin_server_def by blast+
  have above: "cursor < bu_id b" if "b \<in> set batch" for b
    using batch(2) that inv by (auto simp: after_opt_def stream_inv_def split: if_splits)
  with inv batch(1) have "distinct (map bu_id (bs @ batch))"
    by (fastforce simp: stream_inv_def)
  moreover have "0 \<le> advance_cursor cursor batch"
    using inv advance_cursor_bound(1) [of cursor batch] by (simp add: stream_inv_def)
  moreover have "\<forall>b \<in> set (bs @ batch). 0 < bu_id b \<and> bu_id b \<le> advance_cursor cursor batch"
    using inv batch(2) advance_cursor_bound(1) [of cursor batch]
      advance_cursor_bound(2) [of _ batch cursor]
    by (fastforce simp: stream_inv_def)
  moreover have "advance_cursor cursor batch = 0 \<or>
      (\<exists>b \<in> set (bs @ batch). bu_id b = advance_cursor cursor batch)"
    using inv advance_cursor_reached [of cursor batch] by (auto simp: stream_inv_def)
  ultimately show ?thesis by (simp add: stream_inv_def)
qed

lemma bulletin_run_inv:
  "bulletin_server server \<Longrightarrow>
     stream_inv (stream_of (fst (bulletin_run server k 0))) (snd (bulletin_run server k 0))"
proof (induction k)
  case 0
  then show ?case by (simp add: stream_inv_def stream_of_def List.map_filter_def)
next
  case (Suc k)
  obtain sent after where run: "bulletin_run server k 0 = (sent, after)" by fastforce
  with Suc have inv: "stream_inv (stream_of sent) after" by simp
  show ?case
  proof (cases "server k (after_opt after)")
    case (Inl err)
    with run inv show ?thesis
      by (simp add: bulletins_cycle_def stream_of_def List.map_filter_def)
  next
    case (Inr batch)
    with run stream_inv_batch [OF inv Suc.prems Inr] show ?thesis
      by (simp add: bulletins_cycle_def) (simp add: stream_of_def List.map_filter_def)
  qed
qed

lemma distinct_last_n: "distinct (map f xs) \<Longrightarrow> distinct (map f (last_n n xs))"
  by (simp add: last_n_def drop_map flip: drop_map)

section \<open>Properties\<close>

text \<open>
  C35: the adaptive cadence never panics: whatever the configured bounds, even a base above
  the maximum, the interval exists, is at least the base and at most the larger bound, and
  equals twice the last duration whenever that lies between them.
\<close>

theorem adaptive_interval_within_bounds:
  "\<exists>r. adaptive_interval base d mx = Some r \<and> base \<le> r \<and> r \<le> max base mx
     \<and> (base \<le> saturating_double d \<and> saturating_double d \<le> mx \<longrightarrow> r = saturating_double d)
     \<and> (mx \<le> base \<longrightarrow> r = base)"
  by (auto simp: adaptive_interval_total max_def min_def)

lemma adaptive_interval_within_bounds_witness:
  "adaptive_interval (secs 300) (secs 200) (secs 60) = Some (secs 300)"
  using adaptive_interval_within_bounds [of "secs 300" "secs 200" "secs 60"]
  by (simp add: secs_def)

text \<open>
  C1: no wake-up is lost: in every state reachable by any interleaving of the task with
  the UI's subscriptions, forces, deliveries and publications, if some view is subscribed
  to the task's endpoint then the task is not stuck at its gate: a parked task has been
  woken, and one that is about to park finds a permit.
\<close>

theorem no_lost_wakeup:
  assumes "reachable cfg s" and "subscribers_present (tc_endpoint cfg) (fs_store s)"
  shows "(fs_phase s = Parked \<longrightarrow> nt_woken (force_of cfg s))
       \<and> (fs_phase s = WillPark \<longrightarrow> nt_permit (force_of cfg s))"
  using reachable_wake_inv [OF assms(1)] assms(2) by (simp add: wake_inv_def)

definition gated_sample :: fetch_task_config where
  "gated_sample = \<lparr>tc_endpoint = EpRootPgStatus, tc_base_interval = secs 10,
     tc_max_interval = secs 60, tc_jitter_percent = 20, tc_gated = True, tc_batch_concurrency = 16\<rparr>"

text \<open>A run in which the task has checked the gate when the first view subscribes.\<close>

definition raced_sample :: fetch_sys where
  "raced_sample = (fetch_init gated_sample polling_default 100 ''u'')
     \<lparr>fs_phase := WillPark,
      fs_store := store_subscribe EpRootPgStatus Overview (store_new polling_default 100 ''u'')\<rparr>"

lemma raced_reachable: "reachable gated_sample raced_sample"
proof -
  let ?init = "fetch_init gated_sample polling_default 100 ''u''"
  have "gated_out gated_sample ?init"
    by (simp add: gated_out_def gated_sample_def fetch_init_def subscribers_present_def
        registry_count_def store_new_def registry_new_def)
  then have one: "task_step gated_sample ?init (?init\<lparr>fs_phase := WillPark\<rparr>)"
    by (intro task_step.gate_park) (simp add: fetch_init_def)
  have "ui_step (?init\<lparr>fs_phase := WillPark\<rparr>) raced_sample"
    using ui_step.ui_subscribe [of "?init\<lparr>fs_phase := WillPark\<rparr>" EpRootPgStatus Overview]
    by (simp add: raced_sample_def fetch_init_def)
  with one show ?thesis
    unfolding reachable_def
    by (intro exI [of _ polling_default] exI [of _ 100] exI [of _ "''u''"])
      (blast intro: rtranclp.intros)
qed

lemma no_lost_wakeup_witness:
  "fs_phase raced_sample = WillPark \<and> nt_permit (force_of gated_sample raced_sample)"
proof -
  have "registry_ok registry_new" by (rule registry_new_ok)
  then have "subscribers_present (tc_endpoint gated_sample) (fs_store raced_sample)"
    using subscribe_effect(3) [of "store_new polling_default 100 ''u''" EpRootPgStatus EpRootPgStatus Overview]
    by (simp add: raced_sample_def gated_sample_def store_new_def)
  from no_lost_wakeup [OF raced_reachable this] show ?thesis
    by (simp add: raced_sample_def)
qed

text \<open>
  C28: a subscribed endpoint is fetched: from every reachable state in which a view is
  subscribed and the task is at its gate (at the loop top, about to park or parked), the
  task reaches the fetch by its own steps, unless it fans out over process groups and none
  is known yet.
\<close>

theorem subscribed_task_fetches:
  assumes "reachable cfg s" and "subscribers_present (tc_endpoint cfg) (fs_store s)"
    and "fs_phase s \<in> {LoopTop, WillPark, Parked}"
    and "takes_pg_ids (tc_endpoint cfg) \<Longrightarrow> st_pg_ids (fs_store s) \<noteq> []"
  shows "\<exists>t. (task_step cfg)\<^sup>*\<^sup>* s t \<and> fs_phase t = Fetching"
proof -
  have top: "\<exists>t. task_step cfg r t \<and> fs_phase t = Fetching"
    if "fs_phase r = LoopTop" "subscribers_present (tc_endpoint cfg) (fs_store r)"
      "st_pg_ids (fs_store r) = st_pg_ids (fs_store s)" for r
  proof (cases "takes_pg_ids (tc_endpoint cfg)")
    case True
    with that assms(4) have "task_step cfg r (r\<lparr>fs_phase := Fetching, fs_pgs_changed := False\<rparr>)"
      by (intro task_step.gate_fetch_pgs) (simp_all add: gated_out_def)
    then show ?thesis
      by (intro exI [of _ "r\<lparr>fs_phase := Fetching, fs_pgs_changed := False\<rparr>"]) simp
  next
    case False
    with that have "task_step cfg r (r\<lparr>fs_phase := Fetching\<rparr>)"
      by (intro task_step.gate_fetch) (simp_all add: gated_out_def)
    then show ?thesis by (intro exI [of _ "r\<lparr>fs_phase := Fetching\<rparr>"]) simp
  qed
  have step: "\<exists>t. (task_step cfg)\<^sup>*\<^sup>* s t \<and> fs_phase t = Fetching"
    if "task_step cfg s (set_force cfg n (s\<lparr>fs_phase := LoopTop\<rparr>))" for n
  proof -
    have "\<exists>t. task_step cfg (set_force cfg n (s\<lparr>fs_phase := LoopTop\<rparr>)) t \<and> fs_phase t = Fetching"
      by (rule top) (use assms(2) in \<open>simp_all add: set_force_def subscribers_present_def\<close>)
    with that show ?thesis
      by (blast intro: converse_rtranclp_into_rtranclp)
  qed
  note inv = reachable_wake_inv [OF assms(1), unfolded wake_inv_def]
  from assms(3) consider "fs_phase s = LoopTop" | "fs_phase s = WillPark" | "fs_phase s = Parked"
    by auto
  then show ?thesis
  proof cases
    case 1
    from top [OF this assms(2) refl] show ?thesis by blast
  next
    case 2
    with inv assms(2) have "nt_permit (force_of cfg s)" by simp
    from step [OF task_step.park_permit [OF 2 this]] show ?thesis .
  next
    case 3
    with inv assms(2) have "nt_woken (force_of cfg s)" by simp
    from step [OF task_step.park_wake [OF 3 this]] show ?thesis .
  qed
qed

lemma subscribed_task_fetches_witness:
  "\<exists>t. (task_step gated_sample)\<^sup>*\<^sup>* raced_sample t \<and> fs_phase t = Fetching"
proof (rule subscribed_task_fetches [OF raced_reachable])
  have "registry_ok registry_new" by (rule registry_new_ok)
  then show "subscribers_present (tc_endpoint gated_sample) (fs_store raced_sample)"
    using subscribe_effect(3) [of "store_new polling_default 100 ''u''" EpRootPgStatus EpRootPgStatus Overview]
    by (simp add: raced_sample_def gated_sample_def store_new_def)
qed (simp_all add: raced_sample_def gated_sample_def takes_pg_ids_def)

text \<open>
  C33: no bulletin is shown twice: with a server that answers as documented, however many
  cycles ran and whichever of them failed, the ring of the store that received them has
  distinct bulletin ids, and the cursor of the task is the largest id delivered.
\<close>

theorem bulletins_never_repeat:
  assumes "bulletin_server server"
  shows "distinct (map bu_id (br_buf (cl_bulletins (st_snapshot
           (store_run (fst (bulletin_run server k 0)) (store_new config cap url))))))
       \<and> br_last_id (cl_bulletins (st_snapshot
           (store_run (fst (bulletin_run server k 0)) (store_new config cap url))))
         = after_opt (snd (bulletin_run server k 0))"
proof -
  let ?us = "fst (bulletin_run server k 0)" and ?c = "snd (bulletin_run server k 0)"
  let ?ring = "cl_bulletins (st_snapshot (store_run ?us (store_new config cap url)))"
  have "ring_holds (cl_bulletins (st_snapshot (store_new config cap url))) []"
    by (simp add: store_new_def with_bulletins_capacity_def ring_new_holds)
  from bulletins_run [OF this, of ?us] have ring: "ring_holds ?ring (stream_of ?us)"
    by (simp add: stream_of_def)
  note inv = bulletin_run_inv [OF assms, of k, unfolded stream_inv_def]
  have "max_id (stream_of ?us) = after_opt ?c"
  proof (cases "stream_of ?us = []")
    case True
    with inv show ?thesis by (auto simp: max_id_def after_opt_def)
  next
    case False
    then have "hd (stream_of ?us) \<in> set (stream_of ?us)" by simp
    with inv have pos: "0 < ?c" by fastforce
    with inv obtain b where b: "b \<in> set (stream_of ?us)" "bu_id b = ?c" by auto
    have "Max (bu_id ` set (stream_of ?us)) = ?c"
      by (rule Max_eqI) (use inv b in \<open>auto intro: rev_image_eqI\<close>)
    with False pos show ?thesis by (simp add: max_id_def after_opt_def)
  qed
  with ring inv show ?thesis
    by (simp add: ring_holds_def distinct_last_n)
qed

definition sample_bulletin :: "int \<Rightarrow> bulletin_snapshot" where
  "sample_bulletin i = \<lparr>bu_id = i, bu_level = ''INFO'', bu_message = ''m'', bu_source_id = ''s'',
     bu_source_name = ''n'', bu_source_type = ''PROCESSOR'', bu_group_id = ''g'',
     bu_timestamp_iso = ''t'', bu_timestamp_human = ''t''\<rparr>"

text \<open>A server that has bulletins 1 to 5 and fails on the second call.\<close>

definition sample_server :: "nat \<Rightarrow> int option \<Rightarrow> string + bulletin_snapshot list" where
  "sample_server n a = (if n = 1 then Inl ''timeout''
     else Inr (map sample_bulletin (filter (\<lambda>i. case a of None \<Rightarrow> i < 4 | Some j \<Rightarrow> j < i) [1, 2, 3, 4, 5])))"

lemma sample_server_ok: "bulletin_server sample_server"
  by (auto simp: bulletin_server_def sample_server_def sample_bulletin_def o_def split: if_splits option.splits)

lemma sample_run:
  "bulletin_run sample_server 3 0 =
     ([UBulletinsDelta (Inr (map sample_bulletin [1, 2, 3])) (meta_at 0 0 0),
       UBulletinsDelta (Inl ''timeout'') (meta_at 1 0 0),
       UBulletinsDelta (Inr (map sample_bulletin [4, 5])) (meta_at 2 0 0)], 5)"
  by (simp add: eval_nat_numeral bulletins_cycle_def sample_server_def after_opt_def
      advance_cursor_def max_id_def sample_bulletin_def)

lemma bulletins_never_repeat_witness:
  "map bu_id (br_buf (cl_bulletins (st_snapshot
      (store_run (fst (bulletin_run sample_server 3 0)) (store_new polling_default 4 ''u'')))))
     = [2, 3, 4, 5]
   \<and> br_last_id (cl_bulletins (st_snapshot
      (store_run (fst (bulletin_run sample_server 3 0)) (store_new polling_default 4 ''u'')))) = Some 5"
proof
  show "map bu_id (br_buf (cl_bulletins (st_snapshot
      (store_run (fst (bulletin_run sample_server 3 0)) (store_new polling_default 4 ''u'')))))
     = [2, 3, 4, 5]"
    by (simp add: sample_run store_run_snapshot store_new_def with_bulletins_capacity_def
        ring_new_def ring_merge_def ring_push_def sample_bulletin_def)
  show "br_last_id (cl_bulletins (st_snapshot
      (store_run (fst (bulletin_run sample_server 3 0)) (store_new polling_default 4 ''u'')))) = Some 5"
    using bulletins_never_repeat [OF sample_server_ok, of 3 polling_default 4 "''u''"]
    by (simp add: after_opt_def sample_run)
qed

end
