(* ===== verification/Modal_Search.thy ===== *)
theory Modal_Search
  imports Text_Utils
begin

text \<open>
  The search box of the full-screen modals. Every modal of the source repeats the same six
  operations on its own \<open>SearchState\<close> and body text; here they are functions of a record
  of accessors, and the locale \<open>modal_search\<close> is what an implementing modal owes them. A
  typed character is its UTF-8 encoding.
\<close>

record 's search_host =
  sh_open :: "'s \<Rightarrow> bool"
  sh_search :: "'s \<Rightarrow> search_state option"
  sh_set :: "search_state option \<Rightarrow> 's \<Rightarrow> 's"
  sh_body :: "'s \<Rightarrow> string"

section \<open>The operations\<close>

definition search_new :: search_state where
  "search_new = \<lparr>ss_query = [], ss_input_active = True, ss_committed = False,
     ss_matches = [], ss_current = None\<rparr>"

definition host_open :: "'s search_host \<Rightarrow> 's \<Rightarrow> 's" where
  "host_open H s = (if sh_open H s then sh_set H (Some search_new) s else s)"

definition requery :: "string \<Rightarrow> string \<Rightarrow> search_state \<Rightarrow> search_state" where
  "requery body query q =
     (let ms = compute_matches body query
      in q\<lparr>ss_query := query, ss_matches := ms, ss_current := (if ms = [] then None else Some 0)\<rparr>)"

definition host_push :: "'s search_host \<Rightarrow> string \<Rightarrow> 's \<Rightarrow> 's" where
  "host_push H ch s =
     (case sh_search H s of
        None \<Rightarrow> s
      | Some q \<Rightarrow> if \<not> ss_input_active q then s
                  else sh_set H (Some (requery (sh_body H s) (ss_query q @ ch) q)) s)"

definition host_pop :: "'s search_host \<Rightarrow> 's \<Rightarrow> 's" where
  "host_pop H s =
     (case sh_search H s of
        None \<Rightarrow> s
      | Some q \<Rightarrow> if \<not> ss_input_active q then s
                  else sh_set H (Some (requery (sh_body H s) (pop_char (ss_query q)) q)) s)"

definition host_commit :: "'s search_host \<Rightarrow> 's \<Rightarrow> 's" where
  "host_commit H s =
     (case sh_search H s of
        None \<Rightarrow> s
      | Some q \<Rightarrow> if ss_query q = [] then sh_set H None s
                  else sh_set H (Some (q\<lparr>ss_input_active := False, ss_committed := True\<rparr>)) s)"

definition host_cancel :: "'s search_host \<Rightarrow> 's \<Rightarrow> 's" where
  "host_cancel H s = (if sh_open H s then sh_set H None s else s)"

definition host_cycle_next :: "'s search_host \<Rightarrow> 's \<Rightarrow> 's" where
  "host_cycle_next H s =
     (case sh_search H s of
        None \<Rightarrow> s
      | Some q \<Rightarrow> if \<not> ss_committed q \<or> ss_matches q = [] then s
                  else let cur = (case ss_current q of None \<Rightarrow> 0 | Some c \<Rightarrow> c)
                       in sh_set H (Some (q\<lparr>ss_current := Some ((cur + 1) mod length (ss_matches q))\<rparr>)) s)"

definition host_cycle_prev :: "'s search_host \<Rightarrow> 's \<Rightarrow> 's" where
  "host_cycle_prev H s =
     (case sh_search H s of
        None \<Rightarrow> s
      | Some q \<Rightarrow> if \<not> ss_committed q \<or> ss_matches q = [] then s
                  else let cur = (case ss_current q of None \<Rightarrow> 0 | Some c \<Rightarrow> c)
                       in sh_set H (Some (q\<lparr>ss_current := Some (if cur = 0 then length (ss_matches q) - 1
                                                              else cur - 1)\<rparr>)) s)"

datatype search_cmd =
  SearchOpen | SearchPush string | SearchPop | SearchCommit | SearchCancel | SearchNext | SearchPrev

fun search_apply :: "'s search_host \<Rightarrow> 's \<Rightarrow> search_cmd \<Rightarrow> 's" where
  "search_apply H s SearchOpen = host_open H s"
| "search_apply H s (SearchPush ch) = host_push H ch s"
| "search_apply H s SearchPop = host_pop H s"
| "search_apply H s SearchCommit = host_commit H s"
| "search_apply H s SearchCancel = host_cancel H s"
| "search_apply H s SearchNext = host_cycle_next H s"
| "search_apply H s SearchPrev = host_cycle_prev H s"

definition search_run :: "'s search_host \<Rightarrow> 's \<Rightarrow> search_cmd list \<Rightarrow> 's" where
  "search_run H = foldl (search_apply H)"

lemmas host_defs = host_open_def host_push_def host_pop_def host_commit_def host_cancel_def
  host_cycle_next_def host_cycle_prev_def

section \<open>The contract\<close>

text \<open>
  A consistent search: the matches are those of the query in the body, the cursor is on a
  match exactly when there is one, and the input is either being typed or committed.
\<close>

definition search_ok :: "string \<Rightarrow> search_state \<Rightarrow> bool" where
  "search_ok body q \<longleftrightarrow>
     ss_matches q = compute_matches body (ss_query q)
   \<and> (case ss_current q of None \<Rightarrow> ss_matches q = [] | Some i \<Rightarrow> i < length (ss_matches q))
   \<and> (ss_committed q \<longleftrightarrow> \<not> ss_input_active q)"

lemma compute_matches_empty [simp]: "compute_matches body [] = []"
  by (simp add: compute_matches_def)

lemma search_ok_new: "search_ok body search_new"
  by (simp add: search_ok_def search_new_def)

lemma search_ok_requery: "search_ok body q \<Longrightarrow> search_ok body (requery body query q)"
  by (simp add: search_ok_def requery_def Let_def)

locale modal_search =
  fixes H :: "'s search_host"
  assumes search_set: "sh_open H s \<Longrightarrow> sh_search H (sh_set H x s) = x"
    and body_set: "sh_body H (sh_set H x s) = sh_body H s"
    and open_set: "sh_open H (sh_set H x s) = sh_open H s"
    and search_open: "sh_search H s = Some q \<Longrightarrow> sh_open H s"
begin

definition host_ok :: "'s \<Rightarrow> bool" where
  "host_ok s \<longleftrightarrow> (case sh_search H s of None \<Rightarrow> True | Some q \<Rightarrow> search_ok (sh_body H s) q)"

lemma host_ok_set:
  "sh_open H s \<Longrightarrow> (\<And>q'. q = Some q' \<Longrightarrow> search_ok (sh_body H s) q') \<Longrightarrow> host_ok (sh_set H q s)"
  by (simp add: host_ok_def search_set body_set split: option.split)

lemma apply_ok:
  assumes "host_ok s"
  shows "host_ok (search_apply H s c)"
proof (cases "sh_search H s")
  case None
  with assms show ?thesis
    by (cases c) (auto simp: host_defs intro!: host_ok_set search_ok_new)
next
  case (Some q)
  with assms have q: "search_ok (sh_body H s) q" and o: "sh_open H s"
    by (simp_all add: host_ok_def search_open)
  then show ?thesis
    using Some assms
    by (cases c)
      (auto simp: host_defs Let_def intro!: host_ok_set search_ok_new search_ok_requery;
        auto simp: search_ok_def split: option.splits)+
qed

lemma run_ok: "host_ok s \<Longrightarrow> host_ok (search_run H s cs)"
  by (induction cs arbitrary: s) (simp_all add: search_run_def apply_ok)

lemma apply_frame:
  "sh_open H (search_apply H s c) = sh_open H s" "sh_body H (search_apply H s c) = sh_body H s"
  by (cases c; simp add: host_defs open_set body_set Let_def split: option.split)+

lemma run_frame:
  "sh_open H (search_run H s cs) = sh_open H s \<and> sh_body H (search_run H s cs) = sh_body H s"
  by (induction cs arbitrary: s) (simp_all add: search_run_def apply_frame)

text \<open>What a run from a closed search guarantees, written out.\<close>

lemma run_consistent:
  assumes "sh_search H s = None" and "sh_search H (search_run H s cs) = Some q"
  shows "search_ok (sh_body H s) q"
  using run_ok [of s cs] run_frame [of s cs] assms by (simp add: host_ok_def)

text \<open>Cycling forward and back returns to the same match.\<close>

lemma next_prev:
  assumes "sh_search H s = Some q" and "search_ok (sh_body H s) q"
    and "ss_committed q" and "ss_matches q \<noteq> []"
  shows "sh_search H (host_cycle_prev H (host_cycle_next H s)) = Some q"
proof -
  from assms(2,4) obtain i where i: "ss_current q = Some i" "i < length (ss_matches q)"
    by (auto simp: search_ok_def split: option.splits)
  let ?n = "length (ss_matches q)"
  note o = search_open [OF assms(1)]
  let ?q' = "q\<lparr>ss_current := Some (Suc i mod ?n)\<rparr>"
  have nxt: "host_cycle_next H s = sh_set H (Some ?q') s"
    using assms i by (simp add: host_cycle_next_def)
  have same: "q\<lparr>ss_current := Some i\<rparr> = q" using i(1) by simp
  have last: "Suc i = ?n \<Longrightarrow> ?n - Suc 0 = i" by simp
  have idx: "Suc i mod ?n = (if Suc i = ?n then 0 else Suc i)" using i(2) by auto
  show ?thesis
    unfolding nxt using assms(3,4) same
    by (cases "Suc i = ?n")
      (simp_all add: host_cycle_prev_def search_set [OF o] open_set o search_set Let_def idx last)
qed

end

end
