(* ===== verification/Bulletins_State.thy ===== *)
theory Bulletins_State
  imports Cluster_Snapshot Modal_Search Scroll
begin

text \<open>
  \<open>src/src/view/bulletins/state/mod.rs\<close>, the state of the Bulletins tab: message
  normalisation, filters, the grouped view of the ring, selection, pausing, muting, the
  filter input, the detail modal and the mirroring of the cluster's ring. Unicode
  lower-casing (\<open>str::to_lowercase\<close>) is the argument \<open>lc\<close>.
\<close>

section \<open>Message shape\<close>

definition find_char :: "char \<Rightarrow> string \<Rightarrow> nat option" where
  "find_char c = position (\<lambda>x. x = c)"

definition strip_component_prefix :: "string \<Rightarrow> string" where
  "strip_component_prefix msg =
     (case find_sub ''[id='' msg of
        None \<Rightarrow> msg
      | Some id_start \<Rightarrow>
          let after_id = drop (id_start + length ''[id='') msg
          in case find_char (CHR '']'') after_id of
               None \<Rightarrow> msg
             | Some close_rel \<Rightarrow>
                 (case drop (close_rel + 1) after_id of
                    [] \<Rightarrow> msg
                  | c # chars \<Rightarrow> if is_ascii_whitespace c then chars else msg))"

definition ellipsis :: string where
  "ellipsis = [CHR ''['', CHR 0xE2, CHR 0x80, CHR 0xA6, CHR '']'']"

text \<open>The loop over the bytes from position \<open>i\<close> on; \<open>None\<close> is the early return.\<close>

function normalize_from :: "string \<Rightarrow> string option" where
  "normalize_from [] = Some []"
| "normalize_from (c # s) =
     (if c = CHR ''[''
      then (case find_char (CHR '']'') s of
              Some rel \<Rightarrow> map_option (\<lambda>out. ellipsis @ out) (normalize_from (drop (rel + 1) s))
            | None \<Rightarrow> None)
      else map_option (\<lambda>out. takeWhile (\<lambda>x. x \<noteq> CHR ''['') (c # s) @ out)
             (normalize_from (dropWhile (\<lambda>x. x \<noteq> CHR ''['') (c # s))))"
  by pat_completeness auto
termination
  by (relation "measure length") (auto simp: le_imp_less_Suc length_dropWhile_le)

definition normalize_dynamic_brackets :: "string \<Rightarrow> string" where
  "normalize_dynamic_brackets s =
     (if CHR ''['' \<notin> set s then s
      else case normalize_from s of Some out \<Rightarrow> out | None \<Rightarrow> s)"

definition recent_for_source_id :: "bulletin_snapshot list \<Rightarrow> string \<Rightarrow> nat \<Rightarrow> bulletin_snapshot list" where
  "recent_for_source_id ring source_id limit =
     (if limit = 0 then [] else take limit (filter (\<lambda>b. bu_source_id b = source_id) (rev ring)))"

definition recent_for_group_id :: "bulletin_snapshot list \<Rightarrow> string \<Rightarrow> nat \<Rightarrow> bulletin_snapshot list" where
  "recent_for_group_id ring group_id limit =
     (if limit = 0 then [] else take limit (filter (\<lambda>b. bu_group_id b = group_id) (rev ring)))"

section \<open>State\<close>

datatype component_type = CtProcessor | CtControllerService | CtReportingTask | CtOther

definition classify :: "string \<Rightarrow> component_type" where
  "classify source_type =
     (let u = to_ascii_uppercase source_type in
      if u = ''PROCESSOR'' then CtProcessor
      else if u = ''CONTROLLER_SERVICE'' then CtControllerService
      else if u = ''REPORTING_TASK'' then CtReportingTask
      else CtOther)"

record filter_state =
  fi_show_error :: bool
  fi_show_warning :: bool
  fi_show_info :: bool
  fi_component_type :: "component_type option"
  fi_text :: string
  fi_source_id :: "string option"

definition filter_default :: filter_state where
  "filter_default = \<lparr>fi_show_error = True, fi_show_warning = True, fi_show_info = True,
     fi_component_type = None, fi_text = [], fi_source_id = None\<rparr>"

datatype group_mode = SourceAndMessage | Source | Off

fun group_mode_label :: "group_mode \<Rightarrow> string" where
  "group_mode_label SourceAndMessage = ''source+msg''"
| "group_mode_label Source = ''source''"
| "group_mode_label Off = ''off''"

fun group_mode_cycle :: "group_mode \<Rightarrow> group_mode" where
  "group_mode_cycle SourceAndMessage = Source"
| "group_mode_cycle Source = Off"
| "group_mode_cycle Off = SourceAndMessage"

record grouped_row =
  gr_first :: nat
  gr_latest :: nat
  gr_count :: nat

record severity_counts =
  sc_error :: nat
  sc_warning :: nat
  sc_info :: nat

record group_details =
  gd_count :: nat
  gd_first_seen_iso :: string
  gd_last_seen_iso :: string
  gd_source_name :: string
  gd_source_id :: string
  gd_source_type :: string
  gd_group_id :: string
  gd_stripped_message :: string
  gd_raw_message :: string
  gd_severity :: severity

record group_key =
  gk_source_id :: string
  gk_message_stem :: string
  gk_mode :: group_mode

record detail_modal =
  dm_group_key :: group_key
  dm_details :: group_details
  dm_scroll :: vertical_scroll
  dm_search :: "search_state option"

record bulletins_state =
  bs_ring :: "bulletin_snapshot list"
  bs_ring_capacity :: nat
  bs_last_fetched_at :: "int option"
  bs_filters :: filter_state
  bs_mutes :: "string list"
  bs_text_input :: "string option"
  bs_pre_input_text :: "string option"
  bs_selected :: nat
  bs_auto_scroll :: bool
  bs_new_since_pause :: nat
  bs_group_mode :: group_mode
  bs_detail_modal :: "detail_modal option"

definition with_capacity :: "nat \<Rightarrow> bulletins_state" where
  "with_capacity ring_capacity =
     \<lparr>bs_ring = [], bs_ring_capacity = ring_capacity, bs_last_fetched_at = None,
      bs_filters = filter_default, bs_mutes = [], bs_text_input = None,
      bs_pre_input_text = None, bs_selected = 0, bs_auto_scroll = True,
      bs_new_since_pause = 0, bs_group_mode = SourceAndMessage, bs_detail_modal = None\<rparr>"

section \<open>The grouped view\<close>

definition row_matches :: "(string \<Rightarrow> string) \<Rightarrow> bulletins_state \<Rightarrow> bulletin_snapshot \<Rightarrow> bool" where
  "row_matches lc s b =
     (let f = bs_filters s in
      if (case fi_source_id f of None \<Rightarrow> False | Some want_id \<Rightarrow> bu_source_id b \<noteq> want_id) then False
      else if \<not> (case severity_parse (bu_level b) of
                   SevError \<Rightarrow> fi_show_error f
                 | SevWarning \<Rightarrow> fi_show_warning f
                 | _ \<Rightarrow> fi_show_info f) then False
      else if bu_source_id b \<in> set (bs_mutes s) then False
      else if (case fi_component_type f of None \<Rightarrow> False
               | Some want \<Rightarrow> classify (bu_source_type b) \<noteq> want) then False
      else if fi_text f \<noteq> [] then
        let needle = lc (fi_text f); hay_message = lc (bu_message b); hay_source = lc (bu_source_name b)
        in str_contains hay_message needle \<or> str_contains hay_source needle
      else True)"

definition filtered_indices :: "(string \<Rightarrow> string) \<Rightarrow> bulletins_state \<Rightarrow> nat list" where
  "filtered_indices lc s =
     map fst (filter (\<lambda>(i, b). row_matches lc s b) (enumerate 0 (bs_ring s)))"

definition singleton_row :: "nat \<Rightarrow> grouped_row" where
  "singleton_row i = \<lparr>gr_first = i, gr_latest = i, gr_count = 1\<rparr>"

definition row_key :: "bulletins_state \<Rightarrow> nat \<Rightarrow> string" where
  "row_key s ring_idx =
     (let b = bs_ring s ! ring_idx in
      case bs_group_mode s of
        SourceAndMessage \<Rightarrow>
          bu_source_id b @ [CHR 0x1F] @ normalize_dynamic_brackets (strip_component_prefix (bu_message b))
      | _ \<Rightarrow> bu_source_id b)"

definition group_step ::
  "(nat \<Rightarrow> 'k) \<Rightarrow> grouped_row list \<times> ('k \<Rightarrow> nat option) \<Rightarrow> nat \<Rightarrow> grouped_row list \<times> ('k \<Rightarrow> nat option)"
where
  "group_step key acc ring_idx =
     (case acc of (out, positions) \<Rightarrow>
        (case positions (key ring_idx) of
           Some pos \<Rightarrow>
             (out[pos := (out ! pos)\<lparr>gr_latest := ring_idx, gr_count := gr_count (out ! pos) + 1\<rparr>], positions)
         | None \<Rightarrow>
             (out @ [singleton_row ring_idx], positions(key ring_idx := Some (length out)))))"

definition grouped_view :: "(string \<Rightarrow> string) \<Rightarrow> bulletins_state \<Rightarrow> grouped_row list" where
  "grouped_view lc s =
     (let filtered = filtered_indices lc s in
      if bs_group_mode s = Off then map singleton_row filtered
      else fst (foldl (group_step (row_key s)) ([], \<lambda>_. None) filtered))"

definition selected_ring_index :: "(string \<Rightarrow> string) \<Rightarrow> bulletins_state \<Rightarrow> nat option" where
  "selected_ring_index lc s = map_option gr_latest (get_at (grouped_view lc s) (bs_selected s))"

section \<open>Selection\<close>

text \<open>\<open>iter().rposition(p)\<close>: the index of the last element that satisfies \<open>p\<close>.\<close>

definition rposition :: "('a \<Rightarrow> bool) \<Rightarrow> 'a list \<Rightarrow> nat option" where
  "rposition p xs = map_option (\<lambda>i. length xs - 1 - i) (position p (rev xs))"

definition reconcile_selection ::
  "(string \<Rightarrow> string) \<Rightarrow> nat option \<Rightarrow> bulletins_state \<Rightarrow> bulletins_state" where
  "reconcile_selection lc prev_ring_index s =
     (let groups = grouped_view lc s;
          fallback = s\<lparr>bs_selected := (if bs_auto_scroll s then length groups - 1 else 0)\<rparr>
      in if groups = [] then s\<lparr>bs_selected := 0\<rparr>
         else case prev_ring_index of
           None \<Rightarrow> fallback
         | Some prev \<Rightarrow>
        (case position (\<lambda>g. gr_first g \<le> prev \<and> prev \<le> gr_latest g) groups of
           Some pos \<Rightarrow> s\<lparr>bs_selected := pos\<rparr>
         | None \<Rightarrow>
        (case rposition (\<lambda>g. gr_latest g < prev) groups of
           Some pos \<Rightarrow> s\<lparr>bs_selected := pos\<rparr>
         | None \<Rightarrow>
        (case position (\<lambda>g. gr_first g > prev) groups of
           Some pos \<Rightarrow> s\<lparr>bs_selected := pos\<rparr>
         | None \<Rightarrow> fallback))))"

text \<open>Every filter change captures the selected bulletin first and reconciles after.\<close>

definition with_filters ::
  "(string \<Rightarrow> string) \<Rightarrow> (filter_state \<Rightarrow> filter_state) \<Rightarrow> bulletins_state \<Rightarrow> bulletins_state" where
  "with_filters lc f s =
     reconcile_selection lc (selected_ring_index lc s) (s\<lparr>bs_filters := f (bs_filters s)\<rparr>)"

definition toggle_error :: "(string \<Rightarrow> string) \<Rightarrow> bulletins_state \<Rightarrow> bulletins_state" where
  "toggle_error lc = with_filters lc (\<lambda>f. f\<lparr>fi_show_error := \<not> fi_show_error f\<rparr>)"

definition toggle_warning :: "(string \<Rightarrow> string) \<Rightarrow> bulletins_state \<Rightarrow> bulletins_state" where
  "toggle_warning lc = with_filters lc (\<lambda>f. f\<lparr>fi_show_warning := \<not> fi_show_warning f\<rparr>)"

definition toggle_info :: "(string \<Rightarrow> string) \<Rightarrow> bulletins_state \<Rightarrow> bulletins_state" where
  "toggle_info lc = with_filters lc (\<lambda>f. f\<lparr>fi_show_info := \<not> fi_show_info f\<rparr>)"

fun next_component_type :: "component_type option \<Rightarrow> component_type option" where
  "next_component_type None = Some CtProcessor"
| "next_component_type (Some CtProcessor) = Some CtControllerService"
| "next_component_type (Some CtControllerService) = Some CtReportingTask"
| "next_component_type (Some CtReportingTask) = Some CtOther"
| "next_component_type (Some CtOther) = None"

definition cycle_component_type :: "(string \<Rightarrow> string) \<Rightarrow> bulletins_state \<Rightarrow> bulletins_state" where
  "cycle_component_type lc =
     with_filters lc (\<lambda>f. f\<lparr>fi_component_type := next_component_type (fi_component_type f)\<rparr>)"

definition clear_filters :: "(string \<Rightarrow> string) \<Rightarrow> bulletins_state \<Rightarrow> bulletins_state" where
  "clear_filters lc s =
     reconcile_selection lc (selected_ring_index lc s)
       (s\<lparr>bs_filters := filter_default, bs_mutes := []\<rparr>)"

definition set_source_filter ::
  "(string \<Rightarrow> string) \<Rightarrow> string option \<Rightarrow> bulletins_state \<Rightarrow> bulletins_state" where
  "set_source_filter lc source_id = with_filters lc (\<lambda>f. f\<lparr>fi_source_id := source_id\<rparr>)"

section \<open>Filter input\<close>

definition set_text :: "string \<Rightarrow> bulletins_state \<Rightarrow> bulletins_state" where
  "set_text t s = s\<lparr>bs_filters := (bs_filters s)\<lparr>fi_text := t\<rparr>\<rparr>"

definition enter_text_input_mode :: "bulletins_state \<Rightarrow> bulletins_state" where
  "enter_text_input_mode s =
     s\<lparr>bs_pre_input_text := Some (fi_text (bs_filters s)),
       bs_text_input := Some (fi_text (bs_filters s))\<rparr>"

definition push_text_input ::
  "(string \<Rightarrow> string) \<Rightarrow> string \<Rightarrow> nat option \<Rightarrow> bulletins_state \<Rightarrow> bulletins_state" where
  "push_text_input lc ch prev s =
     (case bs_text_input s of
        None \<Rightarrow> s
      | Some buf \<Rightarrow>
          reconcile_selection lc prev (set_text (buf @ ch) (s\<lparr>bs_text_input := Some (buf @ ch)\<rparr>)))"

definition pop_text_input ::
  "(string \<Rightarrow> string) \<Rightarrow> nat option \<Rightarrow> bulletins_state \<Rightarrow> bulletins_state" where
  "pop_text_input lc prev s =
     (case bs_text_input s of
        None \<Rightarrow> s
      | Some buf \<Rightarrow>
          reconcile_selection lc prev
            (set_text (pop_char buf) (s\<lparr>bs_text_input := Some (pop_char buf)\<rparr>)))"

definition commit_text_input ::
  "(string \<Rightarrow> string) \<Rightarrow> nat option \<Rightarrow> bulletins_state \<Rightarrow> bulletins_state" where
  "commit_text_input lc prev s =
     (case bs_text_input s of
        None \<Rightarrow> s
      | Some buf \<Rightarrow>
          reconcile_selection lc prev
            (set_text (trim buf) (s\<lparr>bs_text_input := None, bs_pre_input_text := None\<rparr>)))"

definition cancel_text_input ::
  "(string \<Rightarrow> string) \<Rightarrow> nat option \<Rightarrow> bulletins_state \<Rightarrow> bulletins_state" where
  "cancel_text_input lc prev s =
     (case bs_text_input s of
        None \<Rightarrow> s
      | Some buf \<Rightarrow>
          reconcile_selection lc prev
            (set_text (or_empty (bs_pre_input_text s))
              (s\<lparr>bs_text_input := None, bs_pre_input_text := None\<rparr>)))"

section \<open>Navigation, pause, grouping, muting\<close>

definition bulletins_selected :: "(string \<Rightarrow> string) \<Rightarrow> bulletins_state \<Rightarrow> nat option" where
  "bulletins_selected lc s = (if grouped_view lc s = [] then None else Some (bs_selected s))"

definition bulletins_set_selected :: "nat option \<Rightarrow> bulletins_state \<Rightarrow> bulletins_state" where
  "bulletins_set_selected index s = s\<lparr>bs_selected := unwrap_or 0 index\<rparr>"

definition bulletins_nav :: "(string \<Rightarrow> string) \<Rightarrow> bulletins_state list_nav" where
  "bulletins_nav lc =
     \<lparr>nav_len = (\<lambda>s. length (grouped_view lc s)), nav_selected = bulletins_selected lc,
      nav_set = bulletins_set_selected, nav_wraps = False\<rparr>"

definition move_selection_up :: "(string \<Rightarrow> string) \<Rightarrow> bulletins_state \<Rightarrow> bulletins_state" where
  "move_selection_up lc s =
     (let s' = nav_move_up (bulletins_nav lc) s
      in if bs_selected s' \<noteq> bs_selected s then s'\<lparr>bs_auto_scroll := False\<rparr> else s')"

definition move_selection_down :: "(string \<Rightarrow> string) \<Rightarrow> bulletins_state \<Rightarrow> bulletins_state" where
  "move_selection_down lc s =
     (let s' = nav_move_down (bulletins_nav lc) s; vis_len = length (grouped_view lc s')
      in if vis_len > 0 \<and> bs_selected s' = vis_len - 1
         then s'\<lparr>bs_auto_scroll := True, bs_new_since_pause := 0\<rparr> else s')"

definition goto_oldest :: "(string \<Rightarrow> string) \<Rightarrow> bulletins_state \<Rightarrow> bulletins_state" where
  "goto_oldest lc s = (nav_goto_first (bulletins_nav lc) s)\<lparr>bs_auto_scroll := False\<rparr>"

definition goto_newest :: "(string \<Rightarrow> string) \<Rightarrow> bulletins_state \<Rightarrow> bulletins_state" where
  "goto_newest lc s =
     (nav_goto_last (bulletins_nav lc) s)\<lparr>bs_auto_scroll := True, bs_new_since_pause := 0\<rparr>"

definition toggle_pause :: "(string \<Rightarrow> string) \<Rightarrow> bulletins_state \<Rightarrow> bulletins_state" where
  "toggle_pause lc s =
     (let s' = s\<lparr>bs_auto_scroll := \<not> bs_auto_scroll s\<rparr>
      in if bs_auto_scroll s'
         then s'\<lparr>bs_selected := length (grouped_view lc s') - 1, bs_new_since_pause := 0\<rparr> else s')"

definition cycle_group_mode :: "(string \<Rightarrow> string) \<Rightarrow> bulletins_state \<Rightarrow> bulletins_state" where
  "cycle_group_mode lc s =
     reconcile_selection lc (selected_ring_index lc s)
       (s\<lparr>bs_group_mode := group_mode_cycle (bs_group_mode s)\<rparr>)"

definition mute_selected_source :: "(string \<Rightarrow> string) \<Rightarrow> bulletins_state \<Rightarrow> bulletins_state" where
  "mute_selected_source lc s =
     (case selected_ring_index lc s of
        None \<Rightarrow> s
      | Some ring_idx \<Rightarrow>
          let source_id = bu_source_id (bs_ring s ! ring_idx);
              mutes = (if source_id \<in> set (bs_mutes s) then removeAll source_id (bs_mutes s)
                       else source_id # bs_mutes s)
          in reconcile_selection lc (Some ring_idx) (s\<lparr>bs_mutes := mutes\<rparr>))"

section \<open>Derived views\<close>

definition count_severity :: "bulletin_snapshot \<Rightarrow> severity_counts \<Rightarrow> severity_counts" where
  "count_severity b c =
     (case severity_parse (bu_level b) of
        SevError \<Rightarrow> c\<lparr>sc_error := sc_error c + 1\<rparr>
      | SevWarning \<Rightarrow> c\<lparr>sc_warning := sc_warning c + 1\<rparr>
      | _ \<Rightarrow> c\<lparr>sc_info := sc_info c + 1\<rparr>)"

definition severity_counts :: "bulletins_state \<Rightarrow> severity_counts" where
  "severity_counts s =
     fold count_severity (bs_ring s) \<lparr>sc_error = 0, sc_warning = 0, sc_info = 0\<rparr>"

definition group_details :: "(string \<Rightarrow> string) \<Rightarrow> bulletins_state \<Rightarrow> group_details option" where
  "group_details lc s =
     (case get_at (grouped_view lc s) (bs_selected s) of
        None \<Rightarrow> None
      | Some grp \<Rightarrow>
          let first = bs_ring s ! gr_first grp; latest = bs_ring s ! gr_latest grp
          in Some \<lparr>gd_count = gr_count grp, gd_first_seen_iso = bu_timestamp_iso first,
               gd_last_seen_iso = bu_timestamp_iso latest, gd_source_name = bu_source_name latest,
               gd_source_id = bu_source_id latest, gd_source_type = bu_source_type latest,
               gd_group_id = bu_group_id latest,
               gd_stripped_message = strip_component_prefix (bu_message latest),
               gd_raw_message = bu_message latest, gd_severity = severity_parse (bu_level latest)\<rparr>)"

text \<open>\<open>String::truncate\<close> panics inside a character: \<open>None\<close> here.\<close>

definition truncate :: "nat \<Rightarrow> string \<Rightarrow> string option" where
  "truncate n s = (if n < length s \<and> is_cont (s ! n) then None else Some (take n s))"

definition muted_label :: "bulletins_state \<Rightarrow> string \<Rightarrow> string option" where
  "muted_label s i =
     (case map_option bu_source_name (find (\<lambda>b. bu_source_id b = i) (rev (bs_ring s))) of
        Some n \<Rightarrow> if n \<noteq> [] then Some n else truncate 8 i
      | None \<Rightarrow> truncate 8 i)"

definition muted_source_labels :: "bulletins_state \<Rightarrow> string list option" where
  "muted_source_labels s = map_option sort (those (map (muted_label s) (bs_mutes s)))"

definition message_stem :: "bulletins_state \<Rightarrow> bulletin_snapshot \<Rightarrow> string" where
  "message_stem s b =
     (case bs_group_mode s of
        SourceAndMessage \<Rightarrow> normalize_dynamic_brackets (strip_component_prefix (bu_message b))
      | _ \<Rightarrow> [])"

definition selected_group_key :: "(string \<Rightarrow> string) \<Rightarrow> bulletins_state \<Rightarrow> group_key option" where
  "selected_group_key lc s =
     (case get_at (grouped_view lc s) (bs_selected s) of
        None \<Rightarrow> None
      | Some grp \<Rightarrow>
          let latest = bs_ring s ! gr_latest grp
          in Some \<lparr>gk_source_id = bu_source_id latest, gk_message_stem = message_stem s latest,
               gk_mode = bs_group_mode s\<rparr>)"

definition position_for_group_key ::
  "(string \<Rightarrow> string) \<Rightarrow> group_key \<Rightarrow> bulletins_state \<Rightarrow> nat option" where
  "position_for_group_key lc key s =
     (if gk_mode key \<noteq> bs_group_mode s then None
      else position (\<lambda>g. let latest = bs_ring s ! gr_latest g in
               bu_source_id latest = gk_source_id key \<and> message_stem s latest = gk_message_stem key)
             (grouped_view lc s))"

section \<open>The detail modal\<close>

definition vertical_scroll_default :: vertical_scroll where
  "vertical_scroll_default = \<lparr>vs_offset = 0, vs_rows = 0\<rparr>"

definition open_detail_modal ::
  "(string \<Rightarrow> string) \<Rightarrow> bulletins_state \<Rightarrow> bool \<times> bulletins_state" where
  "open_detail_modal lc s =
     (case group_details lc s of
        None \<Rightarrow> (False, s)
      | Some details \<Rightarrow>
     (case selected_group_key lc s of
        None \<Rightarrow> (False, s)
      | Some key \<Rightarrow>
          (True, s\<lparr>bs_detail_modal := Some \<lparr>dm_group_key = key, dm_details = details,
             dm_scroll = vertical_scroll_default, dm_search = None\<rparr>\<rparr>)))"

definition close_detail_modal :: "bulletins_state \<Rightarrow> bulletins_state" where
  "close_detail_modal s = s\<lparr>bs_detail_modal := None\<rparr>"

definition map_modal :: "(detail_modal \<Rightarrow> detail_modal) \<Rightarrow> bulletins_state \<Rightarrow> bulletins_state" where
  "map_modal f s = s\<lparr>bs_detail_modal := map_option f (bs_detail_modal s)\<rparr>"

definition map_scroll :: "(vertical_scroll \<Rightarrow> vertical_scroll) \<Rightarrow> bulletins_state \<Rightarrow> bulletins_state" where
  "map_scroll f = map_modal (\<lambda>m. m\<lparr>dm_scroll := f (dm_scroll m)\<rparr>)"

definition modal_scroll_by :: "int \<Rightarrow> bulletins_state \<Rightarrow> bulletins_state" where
  "modal_scroll_by delta = map_scroll (scroll_by delta usize_max)"

definition modal_page_down :: "bulletins_state \<Rightarrow> bulletins_state" where
  "modal_page_down = map_scroll (vpage_down usize_max)"

definition modal_page_up :: "bulletins_state \<Rightarrow> bulletins_state" where
  "modal_page_up = map_scroll vpage_up"

definition modal_jump_top :: "bulletins_state \<Rightarrow> bulletins_state" where
  "modal_jump_top = map_scroll vjump_top"

definition modal_jump_bottom :: "bulletins_state \<Rightarrow> bulletins_state" where
  "modal_jump_bottom = map_scroll (vjump_bottom usize_max)"

definition modal_copy_message :: "bulletins_state \<Rightarrow> string option" where
  "modal_copy_message s = map_option (\<lambda>m. gd_raw_message (dm_details m)) (bs_detail_modal s)"

definition bulletins_host :: "bulletins_state search_host" where
  "bulletins_host =
     \<lparr>sh_open = (\<lambda>s. bs_detail_modal s \<noteq> None),
      sh_search = (\<lambda>s. Option.bind (bs_detail_modal s) dm_search),
      sh_set = (\<lambda>q. map_modal (\<lambda>m. m\<lparr>dm_search := q\<rparr>)),
      sh_body = (\<lambda>s. case bs_detail_modal s of None \<Rightarrow> [] | Some m \<Rightarrow> gd_raw_message (dm_details m))\<rparr>"

definition modal_search_open :: "bulletins_state \<Rightarrow> bulletins_state" where
  "modal_search_open = host_open bulletins_host"

definition modal_search_push :: "string \<Rightarrow> bulletins_state \<Rightarrow> bulletins_state" where
  "modal_search_push = host_push bulletins_host"

definition modal_search_pop :: "bulletins_state \<Rightarrow> bulletins_state" where
  "modal_search_pop = host_pop bulletins_host"

definition modal_search_commit :: "bulletins_state \<Rightarrow> bulletins_state" where
  "modal_search_commit = host_commit bulletins_host"

definition modal_search_cancel :: "bulletins_state \<Rightarrow> bulletins_state" where
  "modal_search_cancel = host_cancel bulletins_host"

definition modal_search_cycle_next :: "bulletins_state \<Rightarrow> bulletins_state" where
  "modal_search_cycle_next = host_cycle_next bulletins_host"

definition modal_search_cycle_prev :: "bulletins_state \<Rightarrow> bulletins_state" where
  "modal_search_cycle_prev = host_cycle_prev bulletins_host"

section \<open>Mirroring the cluster's ring\<close>

definition u32_max :: nat where
  "u32_max = 4294967295"

text \<open>
  \<open>wall\<close> and \<open>clock\<close> are the wall clock and the monotonic clock at the time of the call.
\<close>

definition mirror_ring :: "int \<Rightarrow> nat \<Rightarrow> bulletin_ring \<Rightarrow> bulletins_state \<Rightarrow> bulletins_state" where
  "mirror_ring wall clock cluster_ring s =
     s\<lparr>bs_ring := br_buf cluster_ring,
       bs_last_fetched_at := (case br_meta cluster_ring of
           None \<Rightarrow> bs_last_fetched_at s
         | Some meta \<Rightarrow> Some (wall - int (min (clock - fm_fetched_at meta) (86400 * 1000000000))))\<rparr>"

text \<open>The bulletins new since the last mirror that pass the filters, for the badge.\<close>

definition new_matching :: "(string \<Rightarrow> string) \<Rightarrow> bulletin_ring \<Rightarrow> bulletins_state \<Rightarrow> nat" where
  "new_matching lc cluster_ring s =
     (let before_ids = bu_id ` set (bs_ring s)
      in min u32_max (length (filter (\<lambda>b. bu_id b \<notin> before_ids \<and> row_matches lc s b)
           (br_buf cluster_ring))))"

definition redraw_bulletins ::
  "(string \<Rightarrow> string) \<Rightarrow> int \<Rightarrow> nat \<Rightarrow> bulletin_ring \<Rightarrow> bulletins_state \<Rightarrow> bulletins_state" where
  "redraw_bulletins lc wall clock cluster_ring s =
     (if bs_auto_scroll s
      then let t = mirror_ring wall clock cluster_ring s
           in t\<lparr>bs_selected := length (grouped_view lc t) - 1, bs_new_since_pause := 0\<rparr>
      else let prior_group_key = selected_group_key lc s;
               t = (mirror_ring wall clock cluster_ring s)
                     \<lparr>bs_new_since_pause :=
                        min u32_max (bs_new_since_pause s + new_matching lc cluster_ring s)\<rparr>
           in t\<lparr>bs_selected :=
                  (case Option.bind prior_group_key (\<lambda>key. position_for_group_key lc key t) of
                     None \<Rightarrow> bs_selected t
                   | Some pos \<Rightarrow> pos)\<rparr>)"

end
