(* ===== verification/Bulletins_View.thy ===== *)
theory Bulletins_View
  imports Bulletins_State
begin

text \<open>
  The Bulletins tab verified: the grouped view folds the filtered rows exactly, the
  selection stays on a visible row under every command, the filter input can be undone,
  and the detail modal's search is consistent. The last section pins down three inputs on
  which the selection does not follow the bulletin it was on.
\<close>

section \<open>Grouping\<close>

text \<open>The reference: the keys in order of first appearance, and the run of each key.\<close>

definition first_keys :: "('a \<Rightarrow> 'k) \<Rightarrow> 'a list \<Rightarrow> 'k list" where
  "first_keys key xs = foldl (\<lambda>ks x. if key x \<in> set ks then ks else ks @ [key x]) [] xs"

definition run_of :: "(nat \<Rightarrow> 'k) \<Rightarrow> nat list \<Rightarrow> 'k \<Rightarrow> nat list" where
  "run_of key xs k = filter (\<lambda>x. key x = k) xs"

definition run_row :: "(nat \<Rightarrow> 'k) \<Rightarrow> nat list \<Rightarrow> 'k \<Rightarrow> grouped_row" where
  "run_row key xs k = (let r = run_of key xs k in
     \<lparr>gr_first = hd r, gr_latest = last r, gr_count = length r\<rparr>)"

lemma first_keys_snoc:
  "first_keys key (xs @ [x]) =
     (if key x \<in> set (first_keys key xs) then first_keys key xs else first_keys key xs @ [key x])"
  by (simp add: first_keys_def)

lemma first_keys_set: "set (first_keys key xs) = key ` set xs"
  by (induction xs rule: rev_induct) (auto simp: first_keys_snoc, simp add: first_keys_def)

lemma first_keys_distinct: "distinct (first_keys key xs)"
  by (induction xs rule: rev_induct) (auto simp: first_keys_snoc, simp add: first_keys_def)

lemma run_of_snoc:
  "run_of key (xs @ [x]) k = (if key x = k then run_of key xs k @ [x] else run_of key xs k)"
  by (simp add: run_of_def)

lemma run_of_nonempty: "k \<in> set (first_keys key xs) \<longleftrightarrow> run_of key xs k \<noteq> []"
  by (auto simp: first_keys_set run_of_def filter_empty_conv)

lemma run_row_snoc_other: "key x \<noteq> k \<Longrightarrow> run_row key (xs @ [x]) k = run_row key xs k"
  by (simp add: run_row_def run_of_snoc)

lemma run_row_snoc_same:
  "run_of key xs (key x) \<noteq> [] \<Longrightarrow>
     run_row key (xs @ [x]) (key x) =
       (run_row key xs (key x))\<lparr>gr_latest := x, gr_count := gr_count (run_row key xs (key x)) + 1\<rparr>"
  by (simp add: run_row_def run_of_snoc Let_def)

lemma run_row_snoc_new:
  "run_of key xs (key x) = [] \<Longrightarrow> run_row key (xs @ [x]) (key x) = singleton_row x"
  by (simp add: run_row_def run_of_snoc Let_def singleton_row_def)

lemma map_update_distinct:
  "distinct ks \<Longrightarrow> p < length ks \<Longrightarrow> ks ! p = k \<Longrightarrow> (\<And>k'. k' \<noteq> k \<Longrightarrow> g k' = f k') \<Longrightarrow>
     (map f ks)[p := g k] = map g ks"
  by (rule nth_equalityI) (auto simp: nth_list_update nth_eq_iff_index_eq)

text \<open>The fold over the filtered rows builds exactly the reference.\<close>

lemma group_fold:
  "fst (foldl (group_step key) ([], \<lambda>_. None) xs) = map (run_row key xs) (first_keys key xs) \<and>
   (\<forall>k. case snd (foldl (group_step key) ([], \<lambda>_. None) xs) k of
      None \<Rightarrow> k \<notin> set (first_keys key xs)
    | Some p \<Rightarrow> p < length (first_keys key xs) \<and> first_keys key xs ! p = k)"
proof (induction xs rule: rev_induct)
  case Nil
  then show ?case by (simp add: first_keys_def)
next
  case (snoc x xs)
  let ?ks = "first_keys key xs"
  obtain out pos where acc: "foldl (group_step key) ([], \<lambda>_. None) xs = (out, pos)" by fastforce
  with snoc have out: "out = map (run_row key xs) ?ks"
    and pos: "\<And>k. case pos k of None \<Rightarrow> k \<notin> set ?ks | Some p \<Rightarrow> p < length ?ks \<and> ?ks ! p = k"
    by auto
  show ?case
  proof (cases "pos (key x)")
    case None
    then have new: "key x \<notin> set ?ks" using pos [of "key x"] by simp
    then have "run_of key xs (key x) = []" using run_of_nonempty by metis
    note row = run_row_snoc_new [OF this]
    have old: "map (run_row key xs) ?ks = map (run_row key (xs @ [x])) ?ks"
      using new by (intro map_cong refl run_row_snoc_other [symmetric]) auto
    have "foldl (group_step key) ([], \<lambda>_. None) (xs @ [x]) =
        (out @ [singleton_row x], pos(key x := Some (length out)))"
      using None by (simp add: acc) (simp add: group_step_def)
    note step = this
    have view: "out @ [singleton_row x] = map (run_row key (xs @ [x])) (?ks @ [key x])"
      by (simp add: out old row)
    have positions: "case (pos(key x := Some (length out))) k of None \<Rightarrow> k \<notin> set (?ks @ [key x])
        | Some p \<Rightarrow> p < length (?ks @ [key x]) \<and> (?ks @ [key x]) ! p = k" for k
      using pos [of k] by (auto simp: out nth_append split: option.splits)
    have ks: "first_keys key (xs @ [x]) = ?ks @ [key x]" using new by (simp add: first_keys_snoc)
    show ?thesis
      unfolding step ks fst_conv snd_conv using view positions by blast
  next
    case (Some p)
    with pos [of "key x"] have p: "p < length ?ks" "?ks ! p = key x" by auto
    then have mem: "key x \<in> set ?ks" using nth_mem by metis
    then have "run_of key xs (key x) \<noteq> []" using run_of_nonempty by metis
    note row = run_row_snoc_same [OF this, symmetric]
    have "out ! p = run_row key xs (key x)" using p by (simp add: out)
    then have "out[p := (out ! p)\<lparr>gr_latest := x, gr_count := gr_count (out ! p) + 1\<rparr>] =
        map (run_row key (xs @ [x])) ?ks"
      unfolding out
      by (simp only: row) (rule map_update_distinct [OF first_keys_distinct p run_row_snoc_other], simp)
    moreover have "foldl (group_step key) ([], \<lambda>_. None) (xs @ [x]) =
        (out[p := (out ! p)\<lparr>gr_latest := x, gr_count := gr_count (out ! p) + 1\<rparr>], pos)"
      using Some by (simp add: acc) (simp add: group_step_def)
    moreover have ks: "first_keys key (xs @ [x]) = ?ks" using mem by (simp add: first_keys_snoc)
    ultimately show ?thesis
      unfolding ks using pos by (simp only: fst_conv snd_conv simp_thms)
  qed
qed

lemma sum_list_filter_keys:
  "distinct ks \<Longrightarrow> key ` set xs \<subseteq> set ks \<Longrightarrow>
     (\<Sum>k\<leftarrow>ks. length (filter (\<lambda>x. key x = k) xs)) = length xs"
proof (induction xs)
  case Nil
  then show ?case by simp
next
  case (Cons x xs)
  have "(\<Sum>k\<leftarrow>ks. length (filter (\<lambda>y. key y = k) (x # xs))) =
      (\<Sum>k\<leftarrow>ks. (if key x = k then 1 else 0) + length (filter (\<lambda>y. key y = k) xs))"
    by (rule arg_cong [where f = sum_list], rule map_cong) simp_all
  also have "\<dots> = (\<Sum>k\<leftarrow>ks. if key x = k then 1 else 0) + (\<Sum>k\<leftarrow>ks. length (filter (\<lambda>y. key y = k) xs))"
    by (simp add: sum_list_addf)
  also have "(\<Sum>k\<leftarrow>ks. if key x = k then 1 else 0) = (1::nat)"
    using Cons.prems by (simp add: sum_list_distinct_conv_sum_set)
  finally show ?case using Cons by simp
qed

definition row_key_any :: "bulletins_state \<Rightarrow> nat \<Rightarrow> string + nat" where
  "row_key_any s i = (if bs_group_mode s = Off then Inr i else Inl (row_key s i))"

lemma run_row_map:
  assumes "inj f"
  shows "map (run_row (\<lambda>i. f (key i)) xs) (first_keys (\<lambda>i. f (key i)) xs) =
     map (run_row key xs) (first_keys key xs)"
proof -
  have "first_keys (\<lambda>i. f (key i)) xs = map f (first_keys key xs)"
    using assms
    by (induction xs rule: rev_induct) (auto simp: first_keys_snoc inj_image_mem_iff, simp add: first_keys_def)
  moreover have "run_row (\<lambda>i. f (key i)) xs (f k) = run_row key xs k" for k
    using assms by (simp add: run_row_def run_of_def inj_eq)
  ultimately show ?thesis by simp
qed

lemma first_keys_id: "distinct xs \<Longrightarrow> first_keys (\<lambda>i. i) xs = xs"
  by (induction xs rule: rev_induct) (auto simp: first_keys_snoc, simp add: first_keys_def)

lemma filtered_indices_eq:
  "filtered_indices lc s = filter (\<lambda>i. row_matches lc s (bs_ring s ! i)) [0..<length (bs_ring s)]"
proof -
  have "map fst (filter (\<lambda>(i, b). P b) (enumerate 0 xs)) = filter (\<lambda>i. P (xs ! i)) [0..<length xs]"
    for P and xs :: "bulletin_snapshot list"
  proof (induction xs rule: rev_induct)
    case Nil
    then show ?case by simp
  next
    case (snoc x xs)
    have "filter (\<lambda>i. P ((xs @ [x]) ! i)) [0..<length xs] = filter (\<lambda>i. P (xs ! i)) [0..<length xs]"
      by (rule filter_cong) (simp_all add: nth_append)
    with snoc show ?case by (simp add: enumerate_append_eq)
  qed
  then show ?thesis by (simp add: filtered_indices_def)
qed

lemma filtered_strict: "sorted_wrt (<) (filtered_indices lc s)"
  by (simp add: filtered_indices_eq sorted_wrt_filter)

lemma filtered_distinct: "distinct (filtered_indices lc s)"
  by (simp add: filtered_indices_eq)

lemma filtered_bound: "i \<in> set (filtered_indices lc s) \<Longrightarrow> i < length (bs_ring s)"
  by (simp add: filtered_indices_eq)

text \<open>The grouped view of every mode is the list of runs of one key function.\<close>

lemma grouped_view_runs:
  "grouped_view lc s =
     map (run_row (row_key_any s) (filtered_indices lc s)) (first_keys (row_key_any s) (filtered_indices lc s))"
proof (cases "bs_group_mode s = Off")
  case True
  let ?xs = "filtered_indices lc s"
  have "map (run_row (row_key_any s) ?xs) (first_keys (row_key_any s) ?xs) =
      map (run_row (\<lambda>i. i) ?xs) (first_keys (\<lambda>i. i) ?xs)"
    using True run_row_map [of "Inr :: nat \<Rightarrow> string + nat" "\<lambda>i. i" ?xs]
    by (simp add: row_key_any_def [abs_def])
  also have "\<dots> = map singleton_row ?xs"
  proof -
    have "run_row (\<lambda>i. i) ?xs i = singleton_row i" if "i \<in> set ?xs" for i
    proof -
      have "filter (\<lambda>x. x = i) xs = [i]" if "distinct xs" "i \<in> set xs" for xs
        using that by (induction xs) (auto simp: filter_empty_conv)
      from this [OF filtered_distinct that] show ?thesis
        by (simp add: run_row_def run_of_def singleton_row_def)
    qed
    then show ?thesis by (simp add: first_keys_id [OF filtered_distinct])
  qed
  finally show ?thesis using True by (simp add: grouped_view_def)
next
  case False
  let ?xs = "filtered_indices lc s"
  have "map (run_row (row_key_any s) ?xs) (first_keys (row_key_any s) ?xs) =
      map (run_row (row_key s) ?xs) (first_keys (row_key s) ?xs)"
    using False run_row_map [of "Inl :: string \<Rightarrow> string + nat" "row_key s" ?xs]
    by (simp add: row_key_any_def [abs_def])
  with False show ?thesis
    using group_fold [of "row_key s" ?xs] by (simp add: grouped_view_def)
qed

lemma grouped_view_counts:
  "(\<Sum>g\<leftarrow>grouped_view lc s. gr_count g) = length (filtered_indices lc s)"
proof -
  let ?xs = "filtered_indices lc s" and ?key = "row_key_any s"
  have "(\<Sum>g\<leftarrow>grouped_view lc s. gr_count g) =
      (\<Sum>k\<leftarrow>first_keys ?key ?xs. length (filter (\<lambda>x. ?key x = k) ?xs))"
    by (simp add: grouped_view_runs run_row_def run_of_def Let_def o_def)
  also have "\<dots> = length ?xs"
    by (rule sum_list_filter_keys [OF first_keys_distinct]) (simp add: first_keys_set)
  finally show ?thesis .
qed

lemma run_ends:
  assumes "g \<in> set (grouped_view lc s)"
  shows "gr_first g \<in> set (filtered_indices lc s)" "gr_latest g \<in> set (filtered_indices lc s)"
    "gr_first g \<le> gr_latest g" "0 < gr_count g"
proof -
  let ?xs = "filtered_indices lc s" and ?key = "row_key_any s"
  from assms obtain k where k: "k \<in> set (first_keys ?key ?xs)" "g = run_row ?key ?xs k"
    by (auto simp: grouped_view_runs)
  let ?r = "run_of ?key ?xs k"
  have r: "?r \<noteq> []" using k(1) run_of_nonempty by metis
  have sub: "set ?r \<subseteq> set ?xs" by (auto simp: run_of_def)
  have sorted: "sorted_wrt (<) ?r"
    by (simp add: run_of_def sorted_wrt_filter filtered_strict)
  show "gr_first g \<in> set ?xs" "gr_latest g \<in> set ?xs" "0 < gr_count g"
    using r sub hd_in_set [OF r] last_in_set [OF r] by (auto simp: k(2) run_row_def Let_def)
  have "hd ?r \<le> last ?r"
    using r sorted by (cases ?r) (auto intro: less_imp_le)
  then show "gr_first g \<le> gr_latest g" by (simp add: k(2) run_row_def Let_def)
qed

section \<open>The selection\<close>

text \<open>The view depends on the ring, the filters, the mutes and the mode only.\<close>

lemma grouped_view_cong:
  assumes "bs_ring s = bs_ring t" and "bs_filters s = bs_filters t" and "bs_mutes s = bs_mutes t"
    and "bs_group_mode s = bs_group_mode t"
  shows "grouped_view lc s = grouped_view lc t"
proof -
  have "row_matches lc s = row_matches lc t" and "row_key s = row_key t"
    using assms by (auto simp: row_matches_def row_key_def fun_eq_iff)
  with assms show ?thesis by (simp only: grouped_view_def filtered_indices_def)
qed

lemma grouped_view_frame [simp]:
  "grouped_view lc (s\<lparr>bs_selected := i\<rparr>) = grouped_view lc s"
  "grouped_view lc (s\<lparr>bs_auto_scroll := b\<rparr>) = grouped_view lc s"
  "grouped_view lc (s\<lparr>bs_new_since_pause := n\<rparr>) = grouped_view lc s"
  "grouped_view lc (s\<lparr>bs_text_input := x\<rparr>) = grouped_view lc s"
  "grouped_view lc (s\<lparr>bs_pre_input_text := y\<rparr>) = grouped_view lc s"
  "grouped_view lc (s\<lparr>bs_detail_modal := m\<rparr>) = grouped_view lc s"
  by (rule grouped_view_cong; simp)+

lemma filtered_indices_selected [simp]:
  "filtered_indices lc (s\<lparr>bs_selected := i\<rparr>) = filtered_indices lc s"
  by (simp add: filtered_indices_def row_matches_def)

definition bulletins_ok :: "(string \<Rightarrow> string) \<Rightarrow> bulletins_state \<Rightarrow> bool" where
  "bulletins_ok lc s \<longleftrightarrow> length (bs_ring s) \<le> usize_max
     \<and> (grouped_view lc s = [] \<or> bs_selected s < length (grouped_view lc s))"

lemma grouped_view_length: "length (grouped_view lc s) \<le> length (bs_ring s)"
proof -
  have "length (grouped_view lc s) \<le> (\<Sum>g\<leftarrow>grouped_view lc s. gr_count g)"
  proof -
    have "\<forall>g \<in> set gs. 0 < gr_count g \<Longrightarrow> length gs \<le> (\<Sum>g\<leftarrow>gs. gr_count g)" for gs :: "grouped_row list"
      by (induction gs) auto
    then show ?thesis using run_ends(4) by blast
  qed
  also have "\<dots> = length (filtered_indices lc s)" by (rule grouped_view_counts)
  also have "\<dots> \<le> length (bs_ring s)"
    using length_filter_le [of _ "[0..<length (bs_ring s)]"] by (simp add: filtered_indices_eq)
  finally show ?thesis .
qed

interpretation bulletins: list_navigation "bulletins_nav lc" "bulletins_ok lc"
  for lc :: "string \<Rightarrow> string"
proof
  fix s
  assume ok: "bulletins_ok lc s"
  show "nav_len (bulletins_nav lc) s \<le> usize_max"
    using ok grouped_view_length [of lc s] by (simp add: bulletins_ok_def bulletins_nav_def)
qed (auto simp: bulletins_nav_def bulletins_ok_def bulletins_selected_def bulletins_set_selected_def
    unwrap_or_def)

lemma rposition_bound: "rposition p xs = Some i \<Longrightarrow> i < length xs"
  using position_Some [of p "rev xs"] by (auto simp: rposition_def)

lemma reconcile_frame [simp]:
  "bs_ring (reconcile_selection lc p s) = bs_ring s"
  "bs_filters (reconcile_selection lc p s) = bs_filters s"
  "bs_mutes (reconcile_selection lc p s) = bs_mutes s"
  "bs_group_mode (reconcile_selection lc p s) = bs_group_mode s"
  "bs_text_input (reconcile_selection lc p s) = bs_text_input s"
  "bs_pre_input_text (reconcile_selection lc p s) = bs_pre_input_text s"
  "bs_auto_scroll (reconcile_selection lc p s) = bs_auto_scroll s"
  by (simp_all add: reconcile_selection_def Let_def split: option.split)

lemma grouped_view_reconcile [simp]:
  "grouped_view lc (reconcile_selection lc' p s) = grouped_view lc s"
  by (rule grouped_view_cong) simp_all

lemma reconcile_ok:
  "length (bs_ring s) \<le> usize_max \<Longrightarrow> bulletins_ok lc (reconcile_selection lc p s)"
proof -
  have "grouped_view lc s \<noteq> [] \<Longrightarrow>
      bs_selected (reconcile_selection lc p s) < length (grouped_view lc s)"
    using position_Some rposition_bound
    by (auto simp: reconcile_selection_def Let_def split: option.splits)
  then show "length (bs_ring s) \<le> usize_max \<Longrightarrow> ?thesis"
    by (auto simp: bulletins_ok_def)
qed

datatype bulletins_cmd =
    ToggleError | ToggleWarning | ToggleInfo | CycleType | ClearFilters | SourceFilter "string option"
  | EnterText | PushText string | PopText | CommitText | CancelText
  | BMoveUp | BMoveDown | BOldest | BNewest | TogglePause | CycleGroup | MuteSource

text \<open>The callers capture the selected ring index before each input command.\<close>

fun bulletins_apply :: "(string \<Rightarrow> string) \<Rightarrow> bulletins_state \<Rightarrow> bulletins_cmd \<Rightarrow> bulletins_state" where
  "bulletins_apply lc s ToggleError = toggle_error lc s"
| "bulletins_apply lc s ToggleWarning = toggle_warning lc s"
| "bulletins_apply lc s ToggleInfo = toggle_info lc s"
| "bulletins_apply lc s CycleType = cycle_component_type lc s"
| "bulletins_apply lc s ClearFilters = clear_filters lc s"
| "bulletins_apply lc s (SourceFilter i) = set_source_filter lc i s"
| "bulletins_apply lc s EnterText = enter_text_input_mode s"
| "bulletins_apply lc s (PushText ch) = push_text_input lc ch (selected_ring_index lc s) s"
| "bulletins_apply lc s PopText = pop_text_input lc (selected_ring_index lc s) s"
| "bulletins_apply lc s CommitText = commit_text_input lc (selected_ring_index lc s) s"
| "bulletins_apply lc s CancelText = cancel_text_input lc (selected_ring_index lc s) s"
| "bulletins_apply lc s BMoveUp = move_selection_up lc s"
| "bulletins_apply lc s BMoveDown = move_selection_down lc s"
| "bulletins_apply lc s BOldest = goto_oldest lc s"
| "bulletins_apply lc s BNewest = goto_newest lc s"
| "bulletins_apply lc s TogglePause = toggle_pause lc s"
| "bulletins_apply lc s CycleGroup = cycle_group_mode lc s"
| "bulletins_apply lc s MuteSource = mute_selected_source lc s"

lemma nav_frame [simp]:
  "bs_ring (nav_apply (bulletins_nav lc) s c) = bs_ring s"
  "bs_filters (nav_apply (bulletins_nav lc) s c) = bs_filters s"
  "bs_mutes (nav_apply (bulletins_nav lc) s c) = bs_mutes s"
  "bs_group_mode (nav_apply (bulletins_nav lc) s c) = bs_group_mode s"
  by (cases c; simp add: nav_defs bulletins_nav_def bulletins_set_selected_def Let_def
      split: option.split)+

lemma bulletins_ok_frame [simp]:
  "bulletins_ok lc (s\<lparr>bs_auto_scroll := b\<rparr>) = bulletins_ok lc s"
  "bulletins_ok lc (s\<lparr>bs_new_since_pause := n\<rparr>) = bulletins_ok lc s"
  "bulletins_ok lc (s\<lparr>bs_text_input := x\<rparr>) = bulletins_ok lc s"
  "bulletins_ok lc (s\<lparr>bs_pre_input_text := y\<rparr>) = bulletins_ok lc s"
  by (simp_all add: bulletins_ok_def)

lemma nav_ok: "bulletins_ok lc s \<Longrightarrow> bulletins_ok lc (nav_apply (bulletins_nav lc) s c)"
  using bulletins.run_ok [of lc s "[c]"] by (simp add: nav_run_def)

lemma bulletins_apply_ring: "bs_ring (bulletins_apply lc s c) = bs_ring s"
  using nav_frame(1) [of lc s MoveUp] nav_frame(1) [of lc s MoveDown]
    nav_frame(1) [of lc s GotoFirst] nav_frame(1) [of lc s GotoLast]
  by (cases c)
    (simp_all add: toggle_error_def toggle_warning_def toggle_info_def with_filters_def
      cycle_component_type_def clear_filters_def set_source_filter_def enter_text_input_mode_def
      push_text_input_def pop_text_input_def commit_text_input_def cancel_text_input_def
      set_text_def move_selection_up_def move_selection_down_def goto_oldest_def goto_newest_def
      toggle_pause_def cycle_group_mode_def mute_selected_source_def Let_def split: option.split)

lemma bulletins_apply_ok:
  assumes "bulletins_ok lc s"
  shows "bulletins_ok lc (bulletins_apply lc s c)"
proof -
  have len: "length (bs_ring s) \<le> usize_max" using assms by (simp add: bulletins_ok_def)
  note rec = reconcile_ok [where lc = lc]
  show ?thesis
  proof (cases c)
    case BMoveUp
    with nav_ok [OF assms, of MoveUp] show ?thesis by (simp add: move_selection_up_def Let_def)
  next
    case BMoveDown
    with nav_ok [OF assms, of MoveDown] show ?thesis by (simp add: move_selection_down_def Let_def)
  next
    case BOldest
    with nav_ok [OF assms, of GotoFirst] show ?thesis by (simp add: goto_oldest_def)
  next
    case BNewest
    with nav_ok [OF assms, of GotoLast] show ?thesis by (simp add: goto_newest_def)
  next
    case TogglePause
    with assms show ?thesis by (auto simp: toggle_pause_def Let_def bulletins_ok_def)
  next
    case MuteSource
    with assms len show ?thesis
      by (auto simp: mute_selected_source_def Let_def intro!: rec split: option.split)
  qed (use assms len in \<open>auto simp: toggle_error_def toggle_warning_def toggle_info_def
      with_filters_def cycle_component_type_def clear_filters_def set_source_filter_def
      enter_text_input_mode_def push_text_input_def pop_text_input_def commit_text_input_def
      cancel_text_input_def set_text_def cycle_group_mode_def intro!: rec split: option.split\<close>)
qed

lemma bulletins_run_ok: "bulletins_ok lc s \<Longrightarrow> bulletins_ok lc (foldl (bulletins_apply lc) s cs)"
  by (induction cs arbitrary: s) (simp_all add: bulletins_apply_ok)

section \<open>Reconciliation without grouping\<close>

lemma position_map: "position p (map f xs) = position (\<lambda>x. p (f x)) xs"
  by (induction xs) simp_all

lemma position_cong: "(\<And>x. x \<in> set xs \<Longrightarrow> p x = q x) \<Longrightarrow> position p xs = position q xs"
  by (induction xs) simp_all

text \<open>Where the selection goes when no rows are folded: the same row, else the nearest.\<close>

definition nearest_visible :: "nat list \<Rightarrow> nat \<Rightarrow> nat option" where
  "nearest_visible xs prev =
     (if xs = [] then None
      else if prev \<in> set xs then Some prev
      else if filter (\<lambda>i. i < prev) xs \<noteq> [] then Some (last (filter (\<lambda>i. i < prev) xs))
      else Some (hd xs))"

lemma rposition_last:
  "(case rposition p xs of None \<Rightarrow> filter p xs = []
    | Some i \<Rightarrow> i < length xs \<and> filter p xs \<noteq> [] \<and> xs ! i = last (filter p xs))"
proof (induction xs rule: rev_induct)
  case Nil
  then show ?case by (simp add: rposition_def)
next
  case (snoc x xs)
  show ?case
  proof (cases "p x")
    case True
    then show ?thesis by (simp add: rposition_def)
  next
    case False
    then have "rposition p (xs @ [x]) = rposition p xs"
      using position_Some [of p "rev xs"] by (cases "position p (rev xs)") (auto simp: rposition_def)
    with False snoc show ?thesis
      by (auto simp: nth_append split: option.splits)
  qed
qed

lemma reconcile_off:
  assumes "bs_group_mode s = Off"
  shows "selected_ring_index lc (reconcile_selection lc (Some prev) s) =
     nearest_visible (filtered_indices lc s) prev"
proof -
  let ?xs = "filtered_indices lc s" and ?t = "reconcile_selection lc (Some prev) s"
  have view: "grouped_view lc s = map singleton_row ?xs"
    using assms by (simp add: grouped_view_def)
  have sel: "selected_ring_index lc ?t = get_at ?xs (bs_selected ?t)"
    by (auto simp: selected_ring_index_def view get_at_def singleton_row_def)
  have exact: "position (\<lambda>g. gr_first g \<le> prev \<and> prev \<le> gr_latest g) (grouped_view lc s) =
      position (\<lambda>i. i = prev) ?xs"
    unfolding view position_map by (rule position_cong) (auto simp: singleton_row_def)
  have older: "rposition (\<lambda>g. gr_latest g < prev) (grouped_view lc s) = rposition (\<lambda>i. i < prev) ?xs"
    by (simp add: view rposition_def rev_map position_map singleton_row_def)
  have newer: "position (\<lambda>g. gr_first g > prev) (grouped_view lc s) = position (\<lambda>i. i > prev) ?xs"
    by (simp add: view position_map singleton_row_def)
  have nil: "grouped_view lc s = [] \<longleftrightarrow> ?xs = []" by (simp add: view)
  note rec = reconcile_selection_def Let_def exact older newer nil nearest_visible_def
  show ?thesis
    unfolding sel
  proof (cases "?xs = []")
    case True
    then show "get_at ?xs (bs_selected ?t) = nearest_visible ?xs prev"
      by (simp add: nearest_visible_def)
  next
    case nonempty: False
    show "get_at ?xs (bs_selected ?t) = nearest_visible ?xs prev"
    proof (cases "position (\<lambda>i. i = prev) ?xs")
      case (Some pos)
      from position_Some [OF Some] have "pos < length ?xs" "?xs ! pos = prev" by auto
      moreover from this have "prev \<in> set ?xs" using nth_mem by metis
      ultimately show ?thesis
        using nonempty Some by (simp add: rec)
    next
      case None
      then have out: "prev \<notin> set ?xs" by (auto simp: position_None)
      show ?thesis
      proof (cases "rposition (\<lambda>i. i < prev) ?xs")
        case (Some pos)
        with rposition_last [of "\<lambda>i. i < prev" ?xs] None out nonempty show ?thesis
          by (simp add: rec)
      next
        case no_older: None
        with rposition_last [of "\<lambda>i. i < prev" ?xs] have "filter (\<lambda>i. i < prev) ?xs = []" by simp
        then have "prev < hd ?xs"
          using nonempty out by (cases ?xs) (auto split: if_splits)
        then have "position (\<lambda>i. i > prev) ?xs = Some 0"
          using nonempty by (cases ?xs) auto
        with None no_older out nonempty \<open>filter (\<lambda>i. i < prev) ?xs = []\<close> show ?thesis
          by (simp add: rec hd_conv_nth)
      qed
    qed
  qed
qed

section \<open>The modal search\<close>

interpretation bulletins_search: modal_search bulletins_host
  by unfold_locales
    (auto simp: bulletins_host_def map_modal_def bind_eq_Some_conv split: option.splits)

text \<open>Typing only changes the input and the filter text.\<close>

lemma typing_keeps_original:
  "set cs \<subseteq> {PopText} \<union> range PushText \<Longrightarrow> bs_text_input s \<noteq> None \<Longrightarrow>
     bs_pre_input_text (foldl (bulletins_apply lc) s cs) = bs_pre_input_text s \<and>
     bs_text_input (foldl (bulletins_apply lc) s cs) \<noteq> None"
proof (induction cs arbitrary: s)
  case Nil
  then show ?case by simp
next
  case (Cons c cs)
  then have "bs_pre_input_text (bulletins_apply lc s c) = bs_pre_input_text s \<and>
      bs_text_input (bulletins_apply lc s c) \<noteq> None"
    by (auto simp: push_text_input_def pop_text_input_def set_text_def)
  with Cons show ?case by simp
qed

lemma count_severity_total:
  "sc_error (fold count_severity bs c) + sc_warning (fold count_severity bs c)
     + sc_info (fold count_severity bs c)
   = sc_error c + sc_warning c + sc_info c + length bs"
  by (induction bs arbitrary: c) (simp_all add: count_severity_def split: severity.split)

section \<open>Properties\<close>

text \<open>
  The grouped view folds the visible bulletins without losing or repeating one: its
  rows are the runs of the grouping key in order of first appearance, each with the first
  and the latest index and the size of its run, and the counts add up to the number of
  visible bulletins.
\<close>

theorem grouped_view_partitions:
  "grouped_view lc s =
     map (run_row (row_key_any s) (filtered_indices lc s))
       (first_keys (row_key_any s) (filtered_indices lc s))
   \<and> distinct (first_keys (row_key_any s) (filtered_indices lc s))
   \<and> (\<Sum>g\<leftarrow>grouped_view lc s. gr_count g) = length (filtered_indices lc s)
   \<and> sc_error (severity_counts s) + sc_warning (severity_counts s) + sc_info (severity_counts s)
       = length (bs_ring s)"
  using grouped_view_runs grouped_view_counts first_keys_distinct
  by (simp add: severity_counts_def count_severity_total)

text \<open>
  C14: from a consistent state, any sequence of user commands (filters, text input,
  movement, pause, grouping, muting) keeps the selection on a row of the grouped view
  whenever there is one, and the ring is untouched.
\<close>

theorem bulletins_selection_valid:
  assumes "bulletins_ok lc s" and "grouped_view lc (foldl (bulletins_apply lc) s cs) \<noteq> []"
  shows "bs_selected (foldl (bulletins_apply lc) s cs)
           < length (grouped_view lc (foldl (bulletins_apply lc) s cs))
       \<and> bs_ring (foldl (bulletins_apply lc) s cs) = bs_ring s"
proof -
  have "bs_ring (foldl (bulletins_apply lc) s cs) = bs_ring s"
    by (induction cs arbitrary: s) (simp_all add: bulletins_apply_ring)
  then show ?thesis
    using bulletins_run_ok [OF assms(1), of cs] assms(2) by (simp add: bulletins_ok_def)
qed

definition sample_row :: "int \<Rightarrow> string \<Rightarrow> string \<Rightarrow> bulletin_snapshot" where
  "sample_row i src msg = \<lparr>bu_id = i, bu_level = ''ERROR'', bu_message = msg, bu_source_id = src,
     bu_source_name = src, bu_source_type = ''PROCESSOR'', bu_group_id = ''g'',
     bu_timestamp_iso = ''t'', bu_timestamp_human = ''t''\<rparr>"

definition sample_tab :: "group_mode \<Rightarrow> bulletin_snapshot list \<Rightarrow> bulletins_state" where
  "sample_tab mode ring = (with_capacity 100)\<lparr>bs_ring := ring, bs_group_mode := mode\<rparr>"

lemmas sample_defs = sample_tab_def sample_row_def with_capacity_def filter_default_def

text \<open>The visible rows of a sample tab: no filter is set and every row is an error.\<close>

lemma severity_parse_error [simp]: "severity_parse ''ERROR'' = SevError"
  by code_simp

lemma sample_visible:
  "filtered_indices lc (sample_tab mode (map (\<lambda>(i, src, msg). sample_row i src msg) rows)) =
     [0..<length rows]"
  by (auto simp: filtered_indices_eq row_matches_def sample_defs filter_id_conv Let_def split: prod.split)

lemma bulletins_selection_valid_witness:
  "bs_selected (foldl (bulletins_apply (\<lambda>x. x))
      (sample_tab Source (map (\<lambda>(i, src, msg). sample_row i src msg) [(1, ''A'', ''x''), (2, ''B'', ''y'')]))
      [BMoveDown, BMoveDown]) < 2"
proof -
  let ?s = "sample_tab Source (map (\<lambda>(i, src, msg). sample_row i src msg) [(1, ''A'', ''x''), (2, ''B'', ''y'')])"
  have view: "grouped_view (\<lambda>x. x) ?s = [singleton_row 0, singleton_row 1]"
    unfolding grouped_view_def sample_visible
    by (simp add: group_step_def row_key_def sample_defs)
  then have ok: "bulletins_ok (\<lambda>x. x) ?s"
    by (simp add: bulletins_ok_def) (simp add: sample_defs usize_max_def)
  have "grouped_view (\<lambda>x. x) (foldl (bulletins_apply (\<lambda>x. x)) ?s [BMoveDown, BMoveDown]) =
      grouped_view (\<lambda>x. x) ?s"
    using nav_frame [of "\<lambda>x. x" _ MoveDown]
    by (intro grouped_view_cong) (simp_all add: move_selection_down_def Let_def)
  with bulletins_selection_valid [OF ok, of "[BMoveDown, BMoveDown]"] view show ?thesis
    by simp
qed

text \<open>
  Without grouping, a filter change leaves the selection on the same bulletin if it is
  still visible, and otherwise moves it to the nearest older visible one, or to the first
  visible one when there is none older.
\<close>

theorem filter_change_keeps_bulletin:
  assumes "bs_group_mode s = Off" and "selected_ring_index lc s = Some prev"
  shows "selected_ring_index lc (with_filters lc f s) =
     nearest_visible (filtered_indices lc (s\<lparr>bs_filters := f (bs_filters s)\<rparr>)) prev"
  using assms by (simp add: with_filters_def reconcile_off)

lemma filter_change_keeps_bulletin_witness:
  "selected_ring_index (\<lambda>x. x) (with_filters (\<lambda>x. x) (\<lambda>f. f)
     ((sample_tab Off (map (\<lambda>(i, src, msg). sample_row i src msg)
        [(1, ''A'', ''x''), (2, ''B'', ''y'')]))\<lparr>bs_selected := 1\<rparr>)) = Some 1"
proof -
  let ?t = "sample_tab Off (map (\<lambda>(i, src, msg). sample_row i src msg) [(1, ''A'', ''x''), (2, ''B'', ''y'')])"
  let ?s = "?t\<lparr>bs_selected := 1\<rparr>"
  have off: "bs_group_mode ?s = Off" by (simp add: sample_tab_def)
  have vis: "filtered_indices (\<lambda>x. x) ?s = [0, 1]"
    using sample_visible [of "\<lambda>x. x" Off "[(1, ''A'', ''x''), (2, ''B'', ''y'')]"] by simp
  then have sel: "selected_ring_index (\<lambda>x. x) ?s = Some 1"
    using off by (simp add: selected_ring_index_def grouped_view_def get_at_def singleton_row_def)
  show ?thesis
    using filter_change_keeps_bulletin [OF off sel, of "\<lambda>f. f"] vis
    by (simp add: nearest_visible_def)
qed

text \<open>
  Cancelling the filter input restores the filter text it started from, whatever was
  typed and deleted meanwhile, and leaves input mode.
\<close>

theorem cancel_restores_filter:
  assumes "set cs \<subseteq> {PopText} \<union> range PushText"
  shows "fi_text (bs_filters (foldl (bulletins_apply lc) s (EnterText # cs @ [CancelText])))
           = fi_text (bs_filters s)
       \<and> bs_text_input (foldl (bulletins_apply lc) s (EnterText # cs @ [CancelText])) = None
       \<and> bs_pre_input_text (foldl (bulletins_apply lc) s (EnterText # cs @ [CancelText])) = None"
proof -
  let ?t = "foldl (bulletins_apply lc) (enter_text_input_mode s) cs"
  have "bs_pre_input_text ?t = Some (fi_text (bs_filters s)) \<and> bs_text_input ?t \<noteq> None"
    using typing_keeps_original [OF assms, of "enter_text_input_mode s" lc]
    by (simp add: enter_text_input_mode_def)
  then show ?thesis by (auto simp: cancel_text_input_def set_text_def)
qed

lemma cancel_restores_filter_witness:
  "fi_text (bs_filters (foldl (bulletins_apply (\<lambda>x. x)) (with_capacity 5)
     (EnterText # [PushText ''a'', PopText, PushText ''b''] @ [CancelText]))) = ''''"
  using cancel_restores_filter [of "[PushText ''a'', PopText, PushText ''b'']" "\<lambda>x. x" "with_capacity 5"]
  by (simp add: with_capacity_def filter_default_def)

text \<open>
  Whatever search commands follow, the search of the detail modal shows exactly the
  matches of its query in the raw message, with its cursor on one of them whenever there
  is one.
\<close>

theorem detail_search_consistent:
  assumes "bs_detail_modal s = Some m" and "dm_search m = None"
    and "bs_detail_modal (search_run bulletins_host s cs) = Some m'" and "dm_search m' = Some q"
  shows "ss_matches q = compute_matches (gd_raw_message (dm_details m)) (ss_query q)
       \<and> (case ss_current q of None \<Rightarrow> ss_matches q = [] | Some i \<Rightarrow> i < length (ss_matches q))"
  using bulletins_search.run_consistent [of s cs q] assms
  by (simp add: bulletins_host_def search_ok_def)

definition sample_details :: detail_modal where
  "sample_details =
     \<lparr>dm_group_key = \<lparr>gk_source_id = ''A'', gk_message_stem = [], gk_mode = Off\<rparr>,
      dm_details = \<lparr>gd_count = 1, gd_first_seen_iso = ''t'', gd_last_seen_iso = ''t'',
        gd_source_name = ''A'', gd_source_id = ''A'', gd_source_type = ''P'', gd_group_id = ''g'',
        gd_stripped_message = ''aba'', gd_raw_message = ''aba'', gd_severity = SevError\<rparr>,
      dm_scroll = vertical_scroll_default, dm_search = None\<rparr>"

lemma detail_search_consistent_witness:
  "\<exists>q. Option.bind (bs_detail_modal (search_run bulletins_host
         ((with_capacity 5)\<lparr>bs_detail_modal := Some sample_details\<rparr>)
         [SearchOpen, SearchPush ''a''])) dm_search = Some q
     \<and> ss_query q = ''a'' \<and> ss_matches q = compute_matches ''aba'' ''a''"
proof -
  let ?s = "(with_capacity 5)\<lparr>bs_detail_modal := Some sample_details\<rparr>"
  let ?q = "requery ''aba'' ''a'' search_new"
  have run: "bs_detail_modal (search_run bulletins_host ?s [SearchOpen, SearchPush ''a'']) =
      Some (sample_details\<lparr>dm_search := Some ?q\<rparr>)"
    by (simp add: search_run_def host_open_def host_push_def bulletins_host_def map_modal_def
        search_new_def sample_details_def)
  have "ss_matches ?q = compute_matches ''aba'' (ss_query ?q)"
    using detail_search_consistent [of ?s sample_details, OF _ _ run, of ?q]
    by (simp add: sample_details_def)
  then show ?thesis by (simp add: run) (simp add: requery_def Let_def)
qed

section \<open>Where the selection drifts\<close>

lemma grouped_view_filtered:
  assumes "bs_ring s = bs_ring t" and "bs_group_mode s = bs_group_mode t"
    and "filtered_indices lc s = filtered_indices lc t"
  shows "grouped_view lc s = grouped_view lc t"
proof -
  have "row_key s = row_key t" using assms by (simp add: row_key_def fun_eq_iff)
  with assms show ?thesis by (simp only: grouped_view_def)
qed

lemma redraw_frame:
  "bs_ring (redraw_bulletins lc wall clock r s) = br_buf r"
  "bs_filters (redraw_bulletins lc wall clock r s) = bs_filters s"
  "bs_mutes (redraw_bulletins lc wall clock r s) = bs_mutes s"
  "bs_group_mode (redraw_bulletins lc wall clock r s) = bs_group_mode s"
  by (simp_all add: redraw_bulletins_def mirror_ring_def Let_def)

lemma position_for_group_key_cong:
  assumes "bs_ring s = bs_ring t" and "bs_filters s = bs_filters t" and "bs_mutes s = bs_mutes t"
    and "bs_group_mode s = bs_group_mode t"
  shows "position_for_group_key lc key s = position_for_group_key lc key t"
  unfolding position_for_group_key_def message_stem_def grouped_view_cong [OF assms] assms(1,4) ..

lemma redraw_paused:
  assumes "\<not> bs_auto_scroll s"
  shows "bs_selected (redraw_bulletins lc wall clock r s) =
     (case Option.bind (selected_group_key lc s) (\<lambda>key. position_for_group_key lc key
             (s\<lparr>bs_ring := br_buf r\<rparr>)) of
        None \<Rightarrow> bs_selected s | Some pos \<Rightarrow> pos)"
proof -
  have "position_for_group_key lc key ((mirror_ring wall clock r s)\<lparr>bs_new_since_pause := n\<rparr>) =
      position_for_group_key lc key (s\<lparr>bs_ring := br_buf r\<rparr>)" for key n
    by (rule position_for_group_key_cong) (simp_all add: mirror_ring_def)
  moreover have "bs_selected ((mirror_ring wall clock r s)\<lparr>bs_new_since_pause := n\<rparr>) = bs_selected s" for n
    by (simp add: mirror_ring_def)
  ultimately show ?thesis
    using assms
    by (cases "Option.bind (selected_group_key lc s) (\<lambda>key. position_for_group_key lc key
          (s\<lparr>bs_ring := br_buf r\<rparr>))")
      (simp_all add: redraw_bulletins_def Let_def)
qed

text \<open>The grouped view of the sample tabs, by computation.\<close>

abbreviation sample_ring :: "(int \<times> string \<times> string) list \<Rightarrow> bulletin_snapshot list" where
  "sample_ring rows \<equiv> map (\<lambda>(i, src, msg). sample_row i src msg) rows"

lemma sample_view:
  assumes "bs_ring s = sample_ring rows" and "bs_filters s = filter_default\<lparr>fi_show_warning := w\<rparr>"
    and "bs_mutes s = []"
  shows "filtered_indices lc s = [0..<length rows]"
    and "grouped_view lc s =
      (if bs_group_mode s = Off then map singleton_row [0..<length rows]
       else fst (foldl (group_step (row_key s)) ([], \<lambda>_. None) [0..<length rows]))"
proof -
  show "filtered_indices lc s = [0..<length rows]"
    using assms
    by (auto simp: filtered_indices_eq row_matches_def filter_default_def sample_row_def
        filter_id_conv Let_def split: prod.split)
  then show "grouped_view lc s =
      (if bs_group_mode s = Off then map singleton_row [0..<length rows]
       else fst (foldl (group_step (row_key s)) ([], \<lambda>_. None) [0..<length rows]))"
    by (simp add: grouped_view_def Let_def)
qed


text \<open>
  When the runs of two sources interleave, a filter change that hides nothing moves the
  selection to the other source: with bulletins of A, B, A grouped by source and B
  selected, toggling the warning filter selects A, although B is still visible.
\<close>

theorem filter_change_drifts_interleaved:
  "let s = (sample_tab Source (sample_ring [(1, ''A'', ''x''), (2, ''B'', ''y''), (3, ''A'', ''x'')]))
         \<lparr>bs_selected := 1\<rparr>;
       t = toggle_warning lc s
   in selected_ring_index lc s = Some 1 \<and> 1 \<in> set (filtered_indices lc t)
    \<and> selected_ring_index lc t = Some 2"
proof -
  define rows where "rows = [(1 :: int, ''A'', ''x''), (2, ''B'', ''y''), (3, ''A'', ''x'')]"
  define s where "s = (sample_tab Source (sample_ring rows))\<lparr>bs_selected := 1\<rparr>"
  define t where "t = toggle_warning lc s"
  have fields: "bs_ring s = sample_ring rows" "bs_filters s = filter_default\<lparr>fi_show_warning := True\<rparr>"
    "bs_mutes s = []" "bs_group_mode s = Source" "bs_selected s = 1"
    by (simp_all add: s_def sample_tab_def with_capacity_def filter_default_def)
  have len: "length rows = 3" by (simp add: rows_def)
  let ?view = "[\<lparr>gr_first = 0, gr_latest = 2, gr_count = 2\<rparr>, \<lparr>gr_first = 1, gr_latest = 1, gr_count = 1\<rparr>]"
  have key: "row_key u 0 = ''A''" "row_key u (Suc 0) = ''B''" "row_key u 2 = ''A''"
    if "bs_ring u = sample_ring rows" "bs_group_mode u = Source" for u
    using that by (simp_all add: row_key_def rows_def sample_row_def)
  have view: "grouped_view lc u = ?view \<and> filtered_indices lc u = [0, 1, 2]"
    if u: "bs_ring u = sample_ring rows" "bs_filters u = filter_default\<lparr>fi_show_warning := w\<rparr>"
      "bs_mutes u = []" "bs_group_mode u = Source" for u w
    using sample_view [OF u(1-3), of lc] key [OF u(1,4)] u(4)
    by (simp add: len eval_nat_numeral) (simp add: group_step_def singleton_row_def)
  have sel: "selected_ring_index lc s = Some 1"
    using view [OF fields(1-4)] by (simp add: selected_ring_index_def get_at_def fields(5))
  let ?u = "s\<lparr>bs_filters := (bs_filters s)\<lparr>fi_show_warning := False\<rparr>\<rparr>"
  have u: "grouped_view lc ?u = ?view" using view [of ?u False] fields by simp
  have t: "t = ?u\<lparr>bs_selected := 0\<rparr>"
    unfolding t_def toggle_warning_def with_filters_def sel
    by (simp add: fields(2)) (simp add: reconcile_selection_def Let_def u [unfolded fields(2), simplified] fields(2))
  have "grouped_view lc t = ?view \<and> filtered_indices lc t = [0, 1, 2]"
    by (rule view [where w = False]) (simp_all add: t fields)
  then have "selected_ring_index lc t = Some 2" "1 \<in> set (filtered_indices lc t)"
    by (simp_all add: selected_ring_index_def get_at_def t)
  with sel show ?thesis by (simp add: Let_def t_def s_def rows_def)
qed

text \<open>
  While paused and without grouping, mirroring an unchanged ring moves the selection to
  the first bulletin of the same source: the second of two bulletins of A is selected, the
  redraw selects the first.
\<close>

theorem paused_redraw_drifts_ungrouped:
  "let s = (sample_tab Off (sample_ring [(1, ''A'', ''x''), (2, ''A'', ''y'')]))
         \<lparr>bs_selected := 1, bs_auto_scroll := False\<rparr>;
       t = redraw_bulletins lc wall clock ((ring_new 100)\<lparr>br_buf := bs_ring s\<rparr>) s
   in bs_ring t = bs_ring s \<and> selected_ring_index lc s = Some 1 \<and> selected_ring_index lc t = Some 0"
proof -
  define rows where "rows = [(1 :: int, ''A'', ''x''), (2, ''A'', ''y'')]"
  define s where "s = (sample_tab Off (sample_ring rows))\<lparr>bs_selected := 1, bs_auto_scroll := False\<rparr>"
  define t where "t = redraw_bulletins lc wall clock ((ring_new 100)\<lparr>br_buf := bs_ring s\<rparr>) s"
  have fields: "bs_ring s = sample_ring rows" "bs_filters s = filter_default\<lparr>fi_show_warning := True\<rparr>"
    "bs_mutes s = []" "bs_group_mode s = Off" "bs_selected s = 1" "\<not> bs_auto_scroll s"
    by (simp_all add: s_def sample_tab_def with_capacity_def filter_default_def)
  have view: "grouped_view lc u = [singleton_row 0, singleton_row 1]"
    if u: "bs_ring u = sample_ring rows" "bs_filters u = filter_default\<lparr>fi_show_warning := True\<rparr>"
      "bs_mutes u = []" "bs_group_mode u = Off" for u
    using sample_view [OF u(1-3), of lc] u(4) by (simp add: rows_def)
  note vs = view [OF fields(1-4)]
  have tf: "bs_ring t = sample_ring rows" "bs_filters t = filter_default\<lparr>fi_show_warning := True\<rparr>"
    "bs_mutes t = []" "bs_group_mode t = Off"
    by (simp_all add: t_def redraw_frame fields)
  have "selected_group_key lc s = Some \<lparr>gk_source_id = ''A'', gk_message_stem = [], gk_mode = Off\<rparr>"
    by (simp add: selected_group_key_def vs get_at_def fields singleton_row_def Let_def message_stem_def)
      (simp add: rows_def sample_row_def)
  moreover have "position_for_group_key lc \<lparr>gk_source_id = ''A'', gk_message_stem = [], gk_mode = Off\<rparr>
      (s\<lparr>bs_ring := sample_ring rows\<rparr>) = Some 0"
    using view [of "s\<lparr>bs_ring := sample_ring rows\<rparr>"] fields
    by (simp add: position_for_group_key_def singleton_row_def Let_def message_stem_def)
      (simp add: rows_def sample_row_def)
  ultimately have "bs_selected t = 0"
    by (simp add: t_def redraw_paused [OF fields(6)] fields(1))
  then have "selected_ring_index lc t = Some 0" "selected_ring_index lc s = Some 1"
    using view [OF tf] vs by (simp_all add: selected_ring_index_def get_at_def singleton_row_def fields(5))
  moreover have "bs_ring t = bs_ring s" by (simp only: tf(1) fields(1))
  ultimately show ?thesis by (simp only: Let_def flip: rows_def s_def t_def)
qed

text \<open>
  While paused, a redraw can leave the selection past the end of the view: when the
  selected source was evicted from the ring, the selection keeps its old number.
\<close>

theorem paused_redraw_dangles:
  "let s = (sample_tab Source (sample_ring [(1, ''A'', ''x''), (2, ''B'', ''y'')]))
         \<lparr>bs_selected := 1, bs_auto_scroll := False\<rparr>;
       t = redraw_bulletins lc wall clock ((ring_new 1)\<lparr>br_buf := sample_ring [(3, ''A'', ''x'')]\<rparr>) s
   in bulletins_ok lc s \<and> \<not> bulletins_ok lc t \<and> selected_ring_index lc t = None
    \<and> length (grouped_view lc t) = 1"
proof -
  define old where "old = [(1 :: int, ''A'', ''x''), (2, ''B'', ''y'')]"
  define rows where "rows = [(3 :: int, ''A'', ''x'')]"
  define s where "s = (sample_tab Source (sample_ring old))\<lparr>bs_selected := 1, bs_auto_scroll := False\<rparr>"
  define t where "t = redraw_bulletins lc wall clock ((ring_new 1)\<lparr>br_buf := sample_ring rows\<rparr>) s"
  have fields: "bs_ring s = sample_ring old" "bs_filters s = filter_default\<lparr>fi_show_warning := True\<rparr>"
    "bs_mutes s = []" "bs_group_mode s = Source" "bs_selected s = 1" "\<not> bs_auto_scroll s"
    by (simp_all add: s_def sample_tab_def with_capacity_def filter_default_def)
  have "row_key s 0 = ''A''" "row_key s (Suc 0) = ''B''"
    by (simp_all add: row_key_def fields old_def sample_row_def)
  then have vs: "grouped_view lc s = [singleton_row 0, singleton_row 1]"
    using sample_view [OF fields(1-3), of lc] fields(4)
    by (simp add: old_def) (simp add: group_step_def)
  have view: "grouped_view lc u = [singleton_row 0]"
    if u: "bs_ring u = sample_ring rows" "bs_filters u = filter_default\<lparr>fi_show_warning := True\<rparr>"
      "bs_mutes u = []" "bs_group_mode u = Source" for u
    using sample_view [OF u(1-3), of lc] u(4) by (simp add: rows_def) (simp add: group_step_def)
  have key: "selected_group_key lc s = Some \<lparr>gk_source_id = ''B'', gk_message_stem = [], gk_mode = Source\<rparr>"
    by (simp add: selected_group_key_def vs get_at_def fields singleton_row_def Let_def message_stem_def)
      (simp add: old_def sample_row_def)
  have "position_for_group_key lc \<lparr>gk_source_id = ''B'', gk_message_stem = [], gk_mode = Source\<rparr>
      (s\<lparr>bs_ring := sample_ring rows\<rparr>) = None"
    using view [of "s\<lparr>bs_ring := sample_ring rows\<rparr>"] fields
    by (simp add: position_for_group_key_def singleton_row_def Let_def message_stem_def)
      (simp add: rows_def sample_row_def)
  with key have sel: "bs_selected t = 1"
    by (simp add: t_def redraw_paused [OF fields(6)] fields(5))
  have "grouped_view lc t = [singleton_row 0]"
    by (rule view) (simp_all add: t_def redraw_frame fields)
  with sel have "\<not> bulletins_ok lc t" "selected_ring_index lc t = None" "length (grouped_view lc t) = 1"
    by (simp_all add: bulletins_ok_def selected_ring_index_def get_at_def)
  moreover have "bulletins_ok lc s"
    by (simp add: bulletins_ok_def vs fields(5)) (simp add: fields(1) old_def usize_max_def)
  ultimately show ?thesis
    by (simp only: Let_def flip: rows_def old_def s_def t_def) simp
qed

end
