(* ===== verification/Browser_Types.thy ===== *)
theory Browser_Types
  imports Cluster_Snapshot List_Navigation
begin

text \<open>
  The data of the Browser tab: the detail snapshots of \<open>src/src/client/browser.rs\<close>
  (\<open>ProcessGroupDetail\<close> to \<open>RemoteProcessGroupDetail\<close>), the arena node, the focus and
  the tree part of \<open>BrowserState\<close> of \<open>src/src/view/browser/state/mod.rs\<close>.

  \<open>HashSet<usize>\<close> is a set; \<open>HashMap<usize, NodeDetail>\<close> is a partial function. The
  sending half of the detail channel is the list of the requests sent so far; \<open>None\<close>
  before the worker is spawned. The handles of the modal workers are not modelled.
\<close>

section \<open>Details fetched for a node\<close>

datatype referencing_kind =
    RkProcessor | RkControllerService | RkReportingTask | RkFlowRegistryClient
  | RkParameterProvider | RkOther string

definition referencing_kind_from_api :: "string \<Rightarrow> referencing_kind" where
  "referencing_kind_from_api raw =
     (if raw \<in> {''Processor'', ''PROCESSOR''} then RkProcessor
      else if raw \<in> {''ControllerService'', ''CONTROLLER_SERVICE''} then RkControllerService
      else if raw \<in> {''ReportingTask'', ''REPORTING_TASK''} then RkReportingTask
      else if raw \<in> {''FlowRegistryClient'', ''FLOW_REGISTRY_CLIENT''} then RkFlowRegistryClient
      else if raw \<in> {''ParameterProvider'', ''PARAMETER_PROVIDER''} then RkParameterProvider
      else RkOther raw)"

record referencing_component =
  rc_id :: string
  rc_name :: string
  rc_kind :: referencing_kind
  rc_state :: string
  rc_active_thread_count :: u32
  rc_group_id :: string

record controller_service_summary =
  css_id :: string
  css_name :: string
  css_type_short :: string
  css_state :: string

record process_group_detail =
  pgt_id :: string
  pgt_name :: string
  pgt_parent_group_id :: "string option"
  pgt_running :: u32
  pgt_stopped :: u32
  pgt_invalid :: u32
  pgt_disabled :: u32
  pgt_active_threads :: u32
  pgt_flow_files_queued :: u32
  pgt_bytes_queued :: u64
  pgt_queued_display :: string
  pgt_controller_services :: "controller_service_summary list"

record processor_detail =
  pd_id :: string
  pd_name :: string
  pd_type_name :: string
  pd_bundle :: string
  pd_run_status :: string
  pd_scheduling_strategy :: string
  pd_scheduling_period :: string
  pd_concurrent_tasks :: u32
  pd_run_duration_ms :: u64
  pd_penalty_duration :: string
  pd_yield_duration :: string
  pd_bulletin_level :: string
  pd_properties :: "(string \<times> string) list"
  pd_validation_errors :: "string list"

record connection_detail =
  cd_id :: string
  cd_name :: string
  cd_source_id :: string
  cd_source_name :: string
  cd_source_type :: string
  cd_source_group_id :: string
  cd_destination_id :: string
  cd_destination_name :: string
  cd_destination_type :: string
  cd_destination_group_id :: string
  cd_selected_relationships :: "string list"
  cd_available_relationships :: "string list"
  cd_back_pressure_object_threshold :: u64
  cd_back_pressure_data_size_threshold :: string
  cd_flow_file_expiration :: string
  cd_load_balance_strategy :: string
  cd_fill_percent :: u32
  cd_flow_files_queued :: u32
  cd_bytes_queued :: u64
  cd_queued_display :: string

record controller_service_detail =
  csd_id :: string
  csd_name :: string
  csd_type_name :: string
  csd_bundle :: string
  csd_state :: string
  csd_parent_group_id :: "string option"
  csd_properties :: "(string \<times> string) list"
  csd_validation_errors :: "string list"
  csd_bulletin_level :: string
  csd_comments :: string
  csd_restricted :: bool
  csd_deprecated :: bool
  csd_persists_state :: bool
  csd_referencing_components :: "referencing_component list"

datatype port_kind = PkInput | PkOutput

record port_detail =
  ptd_id :: string
  ptd_name :: string
  ptd_kind :: port_kind
  ptd_state :: string
  ptd_comments :: string
  ptd_concurrent_tasks :: u32
  ptd_parent_group_id :: "string option"

record remote_port_summary =
  rps_port_id :: string
  rps_port_name :: string
  rps_run_status :: string
  rps_concurrent_tasks :: u32
  rps_port_comments :: string

record remote_process_group_detail =
  rgd_id :: string
  rgd_name :: string
  rgd_parent_group_id :: "string option"
  rgd_target_uri :: string
  rgd_target_secure :: bool
  rgd_transport_protocol :: string
  rgd_transmission_status :: string
  rgd_validation_status :: string
  rgd_validation_errors :: "string list"
  rgd_comments :: string
  rgd_input_ports :: "remote_port_summary list"
  rgd_output_ports :: "remote_port_summary list"
  rgd_active_input_count :: u32
  rgd_inactive_input_count :: u32
  rgd_active_output_count :: u32
  rgd_inactive_output_count :: u32

datatype node_detail =
    DtProcessGroup process_group_detail
  | DtProcessor processor_detail
  | DtConnection connection_detail
  | DtControllerService controller_service_detail
  | DtPort port_detail
  | DtRemoteProcessGroup remote_process_group_detail

section \<open>Focus\<close>

datatype detail_section =
    SecProperties | SecValidationErrors | SecRecentBulletins | SecControllerServices
  | SecChildGroups | SecReferencingComponents | SecEndpoints | SecConnections
  | SecParameterContext | SecInputPorts | SecOutputPorts

text \<open>\<open>DetailSections::for_node\<close>, \<open>for_pg_node\<close> and \<open>for_node_detail\<close>.\<close>

fun for_node :: "node_kind \<Rightarrow> detail_section list" where
  "for_node Processor = [SecProperties, SecConnections, SecRecentBulletins]"
| "for_node ControllerService = [SecProperties, SecReferencingComponents, SecRecentBulletins]"
| "for_node ProcessGroup = [SecControllerServices, SecChildGroups, SecRecentBulletins]"
| "for_node InputPort = [SecRecentBulletins]"
| "for_node OutputPort = [SecRecentBulletins]"
| "for_node Connection = [SecEndpoints]"
| "for_node RemoteProcessGroup = [SecInputPorts, SecOutputPorts]"
| "for_node (Folder _) = []"

definition for_pg_node :: "bool \<Rightarrow> detail_section list" where
  "for_pg_node has_param_ctx =
     (if has_param_ctx
      then [SecParameterContext, SecControllerServices, SecChildGroups, SecRecentBulletins]
      else [SecControllerServices, SecChildGroups, SecRecentBulletins])"

fun for_node_detail :: "node_kind \<Rightarrow> bool \<Rightarrow> detail_section list" where
  "for_node_detail Processor True =
     [SecProperties, SecValidationErrors, SecConnections, SecRecentBulletins]"
| "for_node_detail ControllerService True =
     [SecProperties, SecValidationErrors, SecReferencingComponents, SecRecentBulletins]"
| "for_node_detail RemoteProcessGroup True = [SecValidationErrors, SecInputPorts, SecOutputPorts]"
| "for_node_detail kind _ = for_node kind"

definition max_detail_sections :: nat where
  "max_detail_sections = 5"

text \<open>The row cursors and offsets are arrays of \<open>MAX_DETAIL_SECTIONS\<close> entries.\<close>

datatype detail_focus =
    FocusTree
  | FocusSection (df_idx: nat) (df_rows: "nat list") (df_x_offsets: "nat list")

section \<open>The arena and the tab\<close>

record tree_node =
  tn_parent :: "nat option"
  tn_children :: "nat list"
  tn_kind :: node_kind
  tn_id :: string
  tn_group_id :: string
  tn_name :: string
  tn_status :: node_status_summary
  tn_parameter_context_ref :: "parameter_context_ref option"

record detail_request =
  dr_arena_idx :: nat
  dr_kind :: node_kind
  dr_id :: string

record node_detail_snapshot =
  nds_arena_idx :: nat
  nds_kind :: node_kind
  nds_id :: string
  nds_detail :: node_detail

record recursive_snapshot =
  rs_nodes :: "raw_node list"
  rs_fetched_at :: int

record browser_tree =
  bt_nodes :: "tree_node list"
  bt_visible :: "nat list"
  bt_selected :: nat
  bt_expanded :: "nat set"
  bt_details :: "nat \<Rightarrow> node_detail option"
  bt_pending_detail :: "nat option"
  bt_pending_detail_unsent :: bool
  bt_last_tree_fetched_at :: "int option"
  bt_detail_tx :: "detail_request list option"
  bt_detail_focus :: detail_focus

definition browser_default :: browser_tree where
  "browser_default =
     \<lparr>bt_nodes = [], bt_visible = [], bt_selected = 0, bt_expanded = {}, bt_details = (\<lambda>_. None),
      bt_pending_detail = None, bt_pending_detail_unsent = False, bt_last_tree_fetched_at = None,
      bt_detail_tx = None, bt_detail_focus = FocusTree\<rparr>"

text \<open>The key by which nodes are recognised across snapshots, and the node under the cursor.\<close>

definition node_key :: "tree_node \<Rightarrow> string \<times> node_kind" where
  "node_key n = (tn_id n, tn_kind n)"

definition selected_arena :: "browser_tree \<Rightarrow> nat option" where
  "selected_arena s = get_at (bt_visible s) (bt_selected s)"

lemma for_node_length: "length (for_node k) \<le> 3"
  by (cases k) simp_all

lemma section_count_bounds:
  "length (for_node k) \<le> max_detail_sections"
  "length (for_node_detail k v) \<le> max_detail_sections"
  "length (for_pg_node b) \<le> max_detail_sections"
proof -
  show "length (for_node k) \<le> max_detail_sections"
    using for_node_length [of k] by (simp add: max_detail_sections_def)
  then show "length (for_node_detail k v) \<le> max_detail_sections"
    by (cases "(k, v)" rule: for_node_detail.cases) (simp_all add: max_detail_sections_def)
  show "length (for_pg_node b) \<le> max_detail_sections"
    by (simp add: for_pg_node_def max_detail_sections_def)
qed

end
