(* ===== verification/Browser_Arena.thy ===== *)
theory Browser_Arena
  imports Browser_Types Flow_Status
begin

text \<open>
  The arena of the Browser tab (\<open>src/src/view/browser/state/mod.rs\<close>): building it from a
  flat snapshot (\<open>apply_tree_snapshot\<close> with its synthetic folders), the depth-first list
  of visible rows (\<open>rebuild_visible\<close>) and the carry-over of expansion, details, selection
  and focus from the previous arena.

  The recursion over the arena is a partial function into \<open>option\<close>: \<open>None\<close> when it does
  not return or indexes past the arena. The arena invariant makes it total.
\<close>

section \<open>Visible rows\<close>

text \<open>
  \<open>push_visible_subtree\<close>, on the list of rows still to be pushed: the row itself, then the
  rows of its children when it is expanded, then the rest.
\<close>

partial_function (option) visible_walk ::
  "tree_node list \<Rightarrow> nat set \<Rightarrow> nat list \<Rightarrow> nat list option" where
  "visible_walk ns ex rows =
     (case rows of
        [] \<Rightarrow> Some []
      | i # rest \<Rightarrow>
          Option.bind
            (if i \<in> ex
             then (if i < length ns then visible_walk ns ex (tn_children (ns ! i)) else None)
             else Some [])
            (\<lambda>sub. Option.bind (visible_walk ns ex rest) (\<lambda>tail. Some (i # sub @ tail))))"

definition push_visible_subtree :: "tree_node list \<Rightarrow> nat set \<Rightarrow> nat \<Rightarrow> nat list option" where
  "push_visible_subtree ns ex i = visible_walk ns ex [i]"

definition roots :: "tree_node list \<Rightarrow> nat list" where
  "roots ns = filter (\<lambda>i. tn_parent (ns ! i) = None) [0..<length ns]"

definition rebuild_visible :: "browser_tree \<Rightarrow> browser_tree option" where
  "rebuild_visible s =
     map_option (\<lambda>v. s\<lparr>bt_visible := v\<rparr>)
       (visible_walk (bt_nodes s) (bt_expanded s) (roots (bt_nodes s)))"

section \<open>Building the arena\<close>

definition fresh_node :: "raw_node \<Rightarrow> tree_node" where
  "fresh_node r =
     \<lparr>tn_parent = rn_parent r, tn_children = [], tn_kind = rn_kind r, tn_id = rn_id r,
      tn_group_id = rn_group_id r, tn_name = rn_name r, tn_status = rn_status r,
      tn_parameter_context_ref = None\<rparr>"

text \<open>\<open>nodes[p].children.push(i)\<close> panics when \<open>p\<close> is not in the arena.\<close>

definition link_child :: "nat \<Rightarrow> tree_node list \<Rightarrow> tree_node list option" where
  "link_child i ns =
     (case tn_parent (ns ! i) of
        None \<Rightarrow> Some ns
      | Some p \<Rightarrow>
          if p < length ns
          then Some (ns[p := (ns ! p)\<lparr>tn_children := tn_children (ns ! p) @ [i]\<rparr>])
          else None)"

definition link_children :: "tree_node list \<Rightarrow> tree_node list option" where
  "link_children ns =
     foldl (\<lambda>r i. Option.bind r (link_child i)) (Some ns) [0..<length ns]"

definition folder_node :: "folder_kind \<Rightarrow> nat \<Rightarrow> nat list \<Rightarrow> tree_node list \<Rightarrow> tree_node" where
  "folder_node kind pg kids ns =
     \<lparr>tn_parent = Some pg, tn_children = kids, tn_kind = Folder kind,
      tn_id = tn_id (ns ! pg) @
        (case kind of Queues \<Rightarrow> ''::folder::queues'' | ControllerServices \<Rightarrow> ''::folder::cs''),
      tn_group_id = tn_id (ns ! pg),
      tn_name = (case kind of Queues \<Rightarrow> ''Queues ('' | ControllerServices \<Rightarrow> ''Controller services ('')
        @ show_nat (length kids) @ '')'',
      tn_status = StFolder (of_nat (length kids)), tn_parameter_context_ref = None\<rparr>"

definition reparent :: "nat \<Rightarrow> nat list \<Rightarrow> tree_node list \<Rightarrow> tree_node list" where
  "reparent f kids ns = foldl (\<lambda>ns k. ns[k := (ns ! k)\<lparr>tn_parent := Some f\<rparr>]) ns kids"

definition add_folder :: "folder_kind \<Rightarrow> nat \<Rightarrow> nat list \<Rightarrow> tree_node list \<Rightarrow> tree_node list" where
  "add_folder kind pg kids ns =
     (if kids = [] then ns else reparent (length ns) kids (ns @ [folder_node kind pg kids ns]))"

text \<open>One round of the folder synthesis: split the children of a group by kind.\<close>

definition bucket_group :: "tree_node list \<Rightarrow> nat \<Rightarrow> tree_node list" where
  "bucket_group ns pg =
     (let children = tn_children (ns ! pg);
          of_kind = (\<lambda>k. filter (\<lambda>c. tn_kind (ns ! c) = k) children);
          rest = filter (\<lambda>c. tn_kind (ns ! c) \<notin> {Processor, Connection, ControllerService}) children;
          queues = of_kind Connection; cs_kids = of_kind ControllerService;
          ns1 = add_folder Queues pg queues ns;
          ns2 = add_folder ControllerServices pg cs_kids ns1;
          new_children = of_kind Processor @ [length ns..<length ns1] @ [length ns1..<length ns2] @ rest
      in ns2[pg := (ns2 ! pg)\<lparr>tn_children := new_children\<rparr>])"

definition pg_indices :: "tree_node list \<Rightarrow> nat list" where
  "pg_indices ns = filter (\<lambda>i. tn_kind (ns ! i) = ProcessGroup) [0..<length ns]"

definition synthesize_folders :: "tree_node list \<Rightarrow> tree_node list" where
  "synthesize_folders ns = foldl bucket_group ns (pg_indices ns)"

definition build_arena :: "raw_node list \<Rightarrow> tree_node list option" where
  "build_arena raws = map_option synthesize_folders (link_children (map fresh_node raws))"

section \<open>Carrying the view over\<close>

definition prev_selected_key :: "browser_tree \<Rightarrow> (string \<times> node_kind) option" where
  "prev_selected_key s =
     Option.bind (selected_arena s) (\<lambda>i. map_option node_key (get_at (bt_nodes s) i))"

definition prev_expanded_keys :: "browser_tree \<Rightarrow> (string \<times> node_kind) set" where
  "prev_expanded_keys s = (\<lambda>i. node_key (bt_nodes s ! i)) ` {i \<in> bt_expanded s. i < length (bt_nodes s)}"

text \<open>
  The source iterates over a hash map, so which of two details with the same key survives
  is not determined; here the one with the larger index does.
\<close>

definition prev_detail_keys :: "browser_tree \<Rightarrow> string \<times> node_kind \<Rightarrow> node_detail option" where
  "prev_detail_keys s = collect_map
     (List.map_filter (\<lambda>i. map_option (\<lambda>d. (node_key (bt_nodes s ! i), d)) (bt_details s i))
       [0..<length (bt_nodes s)])"

definition translate_expanded :: "browser_tree \<Rightarrow> tree_node list \<Rightarrow> nat set" where
  "translate_expanded s ns =
     {i. i < length ns \<and> node_key (ns ! i) \<in> prev_expanded_keys s}
     \<union> (if bt_nodes s = [] \<and> ns \<noteq> [] then {0} else {})"

definition translate_details :: "browser_tree \<Rightarrow> tree_node list \<Rightarrow> nat \<Rightarrow> node_detail option" where
  "translate_details s ns i =
     (if i < length ns then prev_detail_keys s (node_key (ns ! i)) else None)"

definition clamp_selected :: "nat \<Rightarrow> nat list \<Rightarrow> nat" where
  "clamp_selected sel vis =
     (if vis = [] then 0 else if sel \<ge> length vis then length vis - 1 else sel)"

definition find_visible :: "tree_node list \<Rightarrow> nat list \<Rightarrow> string \<times> node_kind \<Rightarrow> nat option" where
  "find_visible ns vis key = position (\<lambda>i. node_key (ns ! i) = key) vis"

definition apply_tree_snapshot :: "browser_tree \<Rightarrow> recursive_snapshot \<Rightarrow> browser_tree option" where
  "apply_tree_snapshot s snap =
     Option.bind (build_arena (rs_nodes snap)) (\<lambda>nodes.
     Option.bind (rebuild_visible
        (s\<lparr>bt_detail_focus := FocusTree, bt_nodes := nodes,
           bt_expanded := translate_expanded s nodes, bt_details := translate_details s nodes,
           bt_pending_detail := None, bt_last_tree_fetched_at := Some (rs_fetched_at snap)\<rparr>))
       (\<lambda>t. let new_selected = Option.bind (prev_selected_key s) (find_visible nodes (bt_visible t));
                sel = (case new_selected of None \<Rightarrow> 0 | Some p \<Rightarrow> p)
            in Some (t\<lparr>bt_selected := clamp_selected sel (bt_visible t),
                       bt_detail_focus := (if new_selected \<noteq> None then bt_detail_focus s else FocusTree)\<rparr>)))"

definition apply_node_detail :: "browser_tree \<Rightarrow> node_detail_snapshot \<Rightarrow> browser_tree" where
  "apply_node_detail s payload =
     (let i = nds_arena_idx payload in
      if i \<ge> length (bt_nodes s) then s
      else if node_key (bt_nodes s ! i) \<noteq> (nds_id payload, nds_kind payload) then s
      else let s' = s\<lparr>bt_details := (bt_details s)(i := Some (nds_detail payload))\<rparr>
           in if bt_pending_detail s' = Some i then s'\<lparr>bt_pending_detail := None\<rparr> else s')"

section \<open>Well-formed arenas\<close>

text \<open>
  Parents and children agree, a node is listed once by its parent, and the parent links
  are well-founded: some rank decreases along them.
\<close>

definition children_agree :: "tree_node list \<Rightarrow> bool" where
  "children_agree ns \<longleftrightarrow> (\<forall>i < length ns.
     distinct (tn_children (ns ! i)) \<and>
     (\<forall>c. c \<in> set (tn_children (ns ! i)) \<longleftrightarrow> c < length ns \<and> tn_parent (ns ! c) = Some i))"

definition ranked :: "(nat \<Rightarrow> nat) \<Rightarrow> tree_node list \<Rightarrow> bool" where
  "ranked d ns \<longleftrightarrow> (\<forall>i < length ns. \<forall>p. tn_parent (ns ! i) = Some p \<longrightarrow> p < length ns \<and> d p < d i)"

definition arena_ok :: "tree_node list \<Rightarrow> bool" where
  "arena_ok ns \<longleftrightarrow> children_agree ns \<and> (\<exists>d. ranked d ns)"

lemma children_in_range:
  "children_agree ns \<Longrightarrow> i < length ns \<Longrightarrow> c \<in> set (tn_children (ns ! i)) \<Longrightarrow>
     c < length ns \<and> tn_parent (ns ! c) = Some i"
  by (auto simp: children_agree_def)

lemma child_rank:
  "children_agree ns \<Longrightarrow> ranked d ns \<Longrightarrow> i < length ns \<Longrightarrow> c \<in> set (tn_children (ns ! i)) \<Longrightarrow> d i < d c"
  using children_in_range [of ns i c] by (auto simp: ranked_def)

text \<open>An arena has finitely many ranks, so there is a ceiling.\<close>

lemma rank_ceiling: "\<exists>b. \<forall>i < length (ns :: tree_node list). d i < (b :: nat)"
proof
  show "\<forall>i < length ns. d i < Suc (sum d {..<length ns})"
    by (auto simp: less_Suc_eq_le intro!: member_le_sum)
qed

section \<open>The walk\<close>

lemma visible_walk_simps [simp]:
  "visible_walk ns ex [] = Some []"
  "visible_walk ns ex (i # rest) =
     Option.bind
       (if i \<in> ex then (if i < length ns then visible_walk ns ex (tn_children (ns ! i)) else None) else Some [])
       (\<lambda>sub. Option.bind (visible_walk ns ex rest) (\<lambda>tail. Some (i # sub @ tail)))"
  by (simp_all add: visible_walk.simps [of ns ex "[]"] visible_walk.simps [of ns ex "i # rest"])

lemma visible_walk_total_below:
  assumes "children_agree ns" and "ranked d ns"
  shows "(\<forall>i \<in> set rows. i < length ns \<and> b \<le> d i + k) \<Longrightarrow> \<forall>i < length ns. d i < b \<Longrightarrow>
           \<exists>v. visible_walk ns ex rows = Some v"
proof (induction k arbitrary: rows)
  case 0
  then have "rows = []" by (cases rows) auto
  then show ?case by simp
next
  case (Suc k)
  from Suc.prems show ?case
  proof (induction rows)
    case Nil
    then show ?case by simp
  next
    case (Cons i rest)
    then obtain tail where tail: "visible_walk ns ex rest = Some tail" by auto
    have "\<exists>v. visible_walk ns ex (tn_children (ns ! i)) = Some v"
    proof (rule Suc.IH)
      show "\<forall>c \<in> set (tn_children (ns ! i)). c < length ns \<and> b \<le> d c + k"
        using Cons.prems(1) children_in_range [OF assms(1)] child_rank [OF assms] by fastforce
    qed (use Cons.prems in auto)
    with tail Cons.prems(1) show ?case by auto
  qed
qed

lemma visible_walk_total:
  assumes "arena_ok ns" and "\<forall>i \<in> set rows. i < length ns"
  shows "\<exists>v. visible_walk ns ex rows = Some v"
proof -
  obtain d where d: "children_agree ns" "ranked d ns" using assms(1) by (auto simp: arena_ok_def)
  obtain b where "\<forall>i < length ns. d i < b" using rank_ceiling by blast
  then show ?thesis
    using assms(2) by (intro visible_walk_total_below [OF d, where k = b and b = b]) auto
qed

lemma roots_range: "i \<in> set (roots ns) \<Longrightarrow> i < length ns"
  by (simp add: roots_def)

text \<open>Induction over a walk that returns.\<close>

lemma visible_walk_cases:
  assumes "Option.bind (if i \<in> ex then (if i < length ns then f (tn_children (ns ! i)) else None) else Some [])
      (\<lambda>sub. Option.bind (f rest) (\<lambda>tail. Some (i # sub @ tail))) = Some v"
  obtains sub tail where "v = i # sub @ tail" "f rest = Some tail"
    "i \<in> ex \<longrightarrow> i < length ns \<and> f (tn_children (ns ! i)) = Some sub" "i \<notin> ex \<longrightarrow> sub = []"
  using assms by (auto simp: bind_eq_Some_conv split: if_splits)

lemma visible_walk_induct [consumes 1, case_names Nil Cons]:
  assumes "visible_walk ns ex rows = Some v"
    and nil: "P [] []"
    and cons: "\<And>i rest sub tail.
         (i \<in> ex \<longrightarrow> i < length ns \<and> visible_walk ns ex (tn_children (ns ! i)) = Some sub \<and>
            P (tn_children (ns ! i)) sub) \<Longrightarrow>
         (i \<notin> ex \<longrightarrow> sub = []) \<Longrightarrow> visible_walk ns ex rest = Some tail \<Longrightarrow> P rest tail \<Longrightarrow>
         P (i # rest) (i # sub @ tail)"
  shows "P rows v"
proof -
  let ?Q = "\<lambda>ns' ex' rows v. ns' = ns \<and> ex' = ex \<longrightarrow> visible_walk ns ex rows = Some v \<and> P rows v"
  have "?Q ns ex rows v"
  proof (rule visible_walk.raw_induct [of ?Q, OF _ assms(1)])
    fix f ns' ex' rows v
    assume hyp: "\<And>ns ex rows v. f ns ex rows = Some v \<Longrightarrow> ?Q ns ex rows v"
      and body: "(case rows of [] \<Rightarrow> Some []
        | i # rest \<Rightarrow> Option.bind
            (if i \<in> ex' then (if i < length ns' then f ns' ex' (tn_children (ns' ! i)) else None) else Some [])
            (\<lambda>sub. Option.bind (f ns' ex' rest) (\<lambda>tail. Some (i # sub @ tail)))) = Some v"
    show "?Q ns' ex' rows v"
    proof (intro impI)
      assume eq: "ns' = ns \<and> ex' = ex"
      show "visible_walk ns ex rows = Some v \<and> P rows v"
      proof (cases rows)
        case Nil
        with body nil show ?thesis by simp
      next
        case (Cons i rest)
        with body eq obtain sub tail where v: "v = i # sub @ tail" "f ns ex rest = Some tail"
          "i \<in> ex \<longrightarrow> i < length ns \<and> f ns ex (tn_children (ns ! i)) = Some sub" "i \<notin> ex \<longrightarrow> sub = []"
          by (auto elim: visible_walk_cases [where f = "f ns ex"])
        with hyp have "visible_walk ns ex rest = Some tail \<and> P rest tail"
          "i \<in> ex \<longrightarrow> i < length ns \<and> visible_walk ns ex (tn_children (ns ! i)) = Some sub \<and>
             P (tn_children (ns ! i)) sub"
          by blast+
        with v cons [of i sub rest tail] show ?thesis by (auto simp: Cons)
      qed
    qed
  qed
  then show ?thesis by blast
qed

text \<open>
  Expanding a collapsed row inserts its own subtree right after it, and changes nothing
  else.
\<close>

lemma walk_expand:
  assumes "visible_walk ns ex rows = Some v" and "i \<notin> ex" and "i < length ns"
    and "visible_walk ns (insert i ex) (tn_children (ns ! i)) = Some sub"
  shows "visible_walk ns (insert i ex) rows =
           Some (concat (map (\<lambda>j. if j = i then i # sub else [j]) v))"
  using assms(1)
proof (induction rule: visible_walk_induct)
  case Nil
  then show ?case by simp
next
  case (Cons j rest sub' tail)
  then show ?case using assms(2-4) by (cases "j = i") (cases "j \<in> ex"; auto)+
qed

section \<open>Which rows are visible\<close>

text \<open>The rows all of whose ancestors are expanded.\<close>

inductive shown :: "tree_node list \<Rightarrow> nat set \<Rightarrow> nat \<Rightarrow> bool" for ns ex where
  shown_root: "i < length ns \<Longrightarrow> tn_parent (ns ! i) = None \<Longrightarrow> shown ns ex i"
| shown_child: "i < length ns \<Longrightarrow> tn_parent (ns ! i) = Some p \<Longrightarrow> p \<in> ex \<Longrightarrow> shown ns ex p \<Longrightarrow> shown ns ex i"

lemma shown_range: "shown ns ex i \<Longrightarrow> i < length ns"
  by (cases rule: shown.cases) auto

lemma walk_shown:
  assumes "visible_walk ns ex rows = Some v" and "children_agree ns"
  shows "(\<forall>i \<in> set rows. shown ns ex i) \<longrightarrow> (\<forall>j \<in> set v. shown ns ex j)"
  using assms(1)
proof (induction rule: visible_walk_induct)
  case Nil
  then show ?case by simp
next
  case (Cons i rest sub tail)
  show ?case
  proof (intro impI ballI)
    fix j assume rows: "\<forall>i \<in> set (i # rest). shown ns ex i" and j: "j \<in> set (i # sub @ tail)"
    have "\<forall>c \<in> set (tn_children (ns ! i)). shown ns ex c" if "i \<in> ex"
      using rows that children_in_range [OF assms(2)] Cons(1)
      by (auto intro: shown_child)
    with Cons rows j show "shown ns ex j" by (cases "i \<in> ex") auto
  qed
qed

lemma walk_contains_rows: "visible_walk ns ex rows = Some v \<Longrightarrow> set rows \<subseteq> set v"
  by (induction rule: visible_walk_induct) auto

lemma walk_closed:
  assumes "visible_walk ns ex rows = Some v"
  shows "\<forall>i \<in> set v. i \<in> ex \<longrightarrow> set (tn_children (ns ! i)) \<subseteq> set v"
  using assms
proof (induction rule: visible_walk_induct)
  case Nil
  then show ?case by simp
next
  case (Cons i rest sub tail)
  then show ?case
    using walk_contains_rows [of ns ex "tn_children (ns ! i)" sub] by (cases "i \<in> ex") auto
qed

lemma walk_roots_set:
  assumes "children_agree ns" and "visible_walk ns ex (roots ns) = Some v"
  shows "set v = {i. shown ns ex i}"
proof
  have "\<forall>i \<in> set (roots ns). shown ns ex i" by (auto simp: roots_def intro: shown_root)
  then show "set v \<subseteq> {i. shown ns ex i}" using walk_shown [OF assms(2,1)] by blast
  have "i \<in> set v" if "shown ns ex i" for i
    using that
  proof induction
    case (shown_root i)
    then show ?case using walk_contains_rows [OF assms(2)] by (auto simp: roots_def)
  next
    case (shown_child i p)
    then have "i \<in> set (tn_children (ns ! p))"
      using assms(1) shown_range [of ns ex p] by (auto simp: children_agree_def)
    then show ?case using walk_closed [OF assms(2)] shown_child by blast
  qed
  then show "{i. shown ns ex i} \<subseteq> set v" by blast
qed

text \<open>The links from a node to its parent, and the rows below a list of unrelated rows.\<close>

definition parent_rel :: "tree_node list \<Rightarrow> (nat \<times> nat) set" where
  "parent_rel ns = {(c, p). c < length ns \<and> tn_parent (ns ! c) = Some p}"

lemma parent_rel_single_valued: "single_valued (parent_rel ns)"
  by (auto simp: single_valued_def parent_rel_def)

lemma ancestor_rank:
  assumes "ranked d ns" and "(c, p) \<in> (parent_rel ns)\<^sup>+"
  shows "d p < d c"
  using assms(2)
proof (induction rule: trancl_induct)
  case (base p)
  then show ?case using assms(1) by (auto simp: ranked_def parent_rel_def)
next
  case (step p q)
  then have "d q < d p" using assms(1) by (auto simp: ranked_def parent_rel_def)
  with step.IH show ?case by simp
qed

lemma ancestor_rank_eq: "ranked d ns \<Longrightarrow> (c, p) \<in> (parent_rel ns)\<^sup>* \<Longrightarrow> d p \<le> d c"
  using ancestor_rank by (auto simp: rtrancl_eq_or_trancl less_imp_le)

definition unrelated :: "tree_node list \<Rightarrow> nat set \<Rightarrow> bool" where
  "unrelated ns rows \<longleftrightarrow> (\<forall>i \<in> rows. \<forall>j \<in> rows. (i, j) \<in> (parent_rel ns)\<^sup>* \<longrightarrow> i = j)"

lemma unrelated_common:
  assumes "unrelated ns rows" and "i \<in> rows" and "j \<in> rows"
    and "(c, i) \<in> (parent_rel ns)\<^sup>*" and "(c, j) \<in> (parent_rel ns)\<^sup>*"
  shows "i = j"
  using single_valued_confluent [OF parent_rel_single_valued assms(4,5)] assms(1-3)
  by (auto simp: unrelated_def)

lemma unrelated_children:
  assumes "children_agree ns" and "ranked d ns" and "i < length ns"
  shows "unrelated ns (set (tn_children (ns ! i)))"
  unfolding unrelated_def
proof (intro ballI impI)
  fix a b assume ab: "a \<in> set (tn_children (ns ! i))" "b \<in> set (tn_children (ns ! i))"
    and "(a, b) \<in> (parent_rel ns)\<^sup>*"
  from this(3) show "a = b"
  proof (cases rule: converse_rtranclE)
    case (step c)
    with ab children_in_range [OF assms(1,3)] have "c = i" by (auto simp: parent_rel_def)
    with step ancestor_rank_eq [OF assms(2)] child_rank [OF assms ab(2)] show ?thesis by fastforce
  qed auto
qed

lemma unrelated_roots: "unrelated ns (set (roots ns))"
  by (auto simp: unrelated_def roots_def parent_rel_def elim: converse_rtranclE)

lemma walk_distinct:
  assumes "visible_walk ns ex rows = Some v" and "children_agree ns" and "ranked d ns"
  shows "distinct rows \<and> unrelated ns (set rows) \<longrightarrow>
           distinct v \<and> (\<forall>j \<in> set v. \<exists>i \<in> set rows. (j, i) \<in> (parent_rel ns)\<^sup>*)"
  using assms(1)
proof (induction rule: visible_walk_induct)
  case Nil
  then show ?case by simp
next
  case (Cons i rest sub tail)
  show ?case
  proof (intro impI)
    assume rows: "distinct (i # rest) \<and> unrelated ns (set (i # rest))"
    then have "distinct rest" "unrelated ns (set rest)" by (auto simp: unrelated_def)
    with Cons.IH have tail: "distinct tail" "\<forall>j \<in> set tail. \<exists>i \<in> set rest. (j, i) \<in> (parent_rel ns)\<^sup>*"
      by auto
    have sub: "distinct sub \<and> (\<forall>j \<in> set sub. (j, i) \<in> (parent_rel ns)\<^sup>+)"
    proof (cases "i \<in> ex")
      case True
      with Cons(1) have i: "i < length ns" by simp
      then have "distinct (tn_children (ns ! i))" using assms(2) by (simp add: children_agree_def)
      with Cons(1) True unrelated_children [OF assms(2,3) i]
      have "distinct sub" "\<forall>j \<in> set sub. \<exists>c \<in> set (tn_children (ns ! i)). (j, c) \<in> (parent_rel ns)\<^sup>*"
        by auto
      moreover have "(c, i) \<in> parent_rel ns" if "c \<in> set (tn_children (ns ! i))" for c
        using children_in_range [OF assms(2) i that] by (simp add: parent_rel_def)
      ultimately show ?thesis by (blast intro: rtrancl_into_trancl1)
    qed (use Cons.hyps(1) in simp)
    have i_sub: "i \<notin> set sub" using sub ancestor_rank [OF assms(3), of i i] by auto
    have apart: "j \<notin> set tail" if "(j, i) \<in> (parent_rel ns)\<^sup>*" for j
    proof
      assume "j \<in> set tail"
      with tail(2) obtain k where "k \<in> set rest" "(j, k) \<in> (parent_rel ns)\<^sup>*" by blast
      with unrelated_common [of ns "set (i # rest)" i k j] that rows show False by auto
    qed
    show "distinct (i # sub @ tail) \<and>
        (\<forall>j \<in> set (i # sub @ tail). \<exists>i \<in> set (i # rest). (j, i) \<in> (parent_rel ns)\<^sup>*)"
      using sub tail i_sub apart by (auto dest: trancl_into_rtrancl)
  qed
qed

lemma walk_parent_first:
  assumes "visible_walk ns ex rows = Some v" and "children_agree ns"
  shows "\<forall>xs j ys. v = xs @ j # ys \<longrightarrow> j \<in> set rows \<or> (\<exists>p \<in> set xs. tn_parent (ns ! j) = Some p)"
  using assms(1)
proof (induction rule: visible_walk_induct)
  case Nil
  then show ?case by simp
next
  case (Cons i rest sub tail)
  show ?case
  proof (intro allI impI)
    fix xs j ys assume "i # sub @ tail = xs @ j # ys"
    then consider "xs = []" "j = i" | us where "xs = i # us" "sub @ tail = us @ j # ys"
      by (cases xs) auto
    then show "j \<in> set (i # rest) \<or> (\<exists>p \<in> set xs. tn_parent (ns ! j) = Some p)"
    proof cases
      case 2
      then consider ws where "us = sub @ ws" "tail = ws @ j # ys" | ws where "sub = us @ j # ws"
        by (auto simp: append_eq_append_conv2 append_eq_Cons_conv)
      then show ?thesis
      proof cases
        case 1
        then show ?thesis using Cons.IH 2 by fastforce
      next
        case (2 ws)
        then have "i \<in> ex" using Cons.hyps(1) by auto
        then show ?thesis
          using Cons(1) children_in_range [OF assms(2)] 2 \<open>xs = i # us\<close> by fastforce
      qed
    qed simp
  qed
qed

section \<open>Linking the children\<close>

text \<open>What an index keeps for ever: everything but its links.\<close>

definition node_data ::
  "tree_node \<Rightarrow> node_kind \<times> string \<times> string \<times> string \<times> node_status_summary \<times> parameter_context_ref option"
where
  "node_data n = (tn_kind n, tn_id n, tn_group_id n, tn_name n, tn_status n, tn_parameter_context_ref n)"

definition linked :: "nat \<Rightarrow> tree_node list \<Rightarrow> tree_node list" where
  "linked k ns = map (\<lambda>j. (ns ! j)\<lparr>tn_children := tn_children (ns ! j) @
     filter (\<lambda>i. tn_parent (ns ! i) = Some j) [0..<k]\<rparr>) [0..<length ns]"

lemma length_linked [simp]: "length (linked k ns) = length ns"
  by (simp add: linked_def)

lemma linked_nth [simp]:
  "j < length ns \<Longrightarrow> linked k ns ! j = (ns ! j)\<lparr>tn_children := tn_children (ns ! j) @
     filter (\<lambda>i. tn_parent (ns ! i) = Some j) [0..<k]\<rparr>"
  by (simp add: linked_def)

definition parents_in_range :: "tree_node list \<Rightarrow> bool" where
  "parents_in_range ns \<longleftrightarrow> (\<forall>i < length ns. \<forall>p. tn_parent (ns ! i) = Some p \<longrightarrow> p < length ns)"

lemma link_child_linked:
  assumes "k < length ns" and "parents_in_range ns"
  shows "link_child k (linked k ns) = Some (linked (Suc k) ns)"
proof (cases "tn_parent (ns ! k)")
  case None
  then have "linked (Suc k) ns = linked k ns" by (intro nth_equalityI) auto
  with None assms show ?thesis by (simp add: link_child_def)
next
  case (Some p)
  with assms have p: "p < length ns" by (auto simp: parents_in_range_def)
  have "(linked k ns)[p := (linked k ns ! p)\<lparr>tn_children := tn_children (linked k ns ! p) @ [k]\<rparr>] =
      linked (Suc k) ns"
    using Some p by (intro nth_equalityI) (auto simp: nth_list_update)
  with Some p assms(1) show ?thesis by (simp add: link_child_def)
qed

lemma link_children_prefix:
  assumes "parents_in_range ns"
  shows "k \<le> length ns \<Longrightarrow>
    foldl (\<lambda>r i. Option.bind r (link_child i)) (Some ns) [0..<k] = Some (linked k ns)"
proof (induction k)
  case 0
  have "linked 0 ns = ns" by (intro nth_equalityI) auto
  then show ?case by simp
next
  case (Suc k)
  with link_child_linked [OF _ assms, of k] show ?case by simp
qed

lemma link_children_eq: "parents_in_range ns \<Longrightarrow> link_children ns = Some (linked (length ns) ns)"
  using link_children_prefix [of ns "length ns"] by (simp add: link_children_def)

lemma linked_agree:
  assumes "\<forall>n \<in> set ns. tn_children n = []"
  shows "children_agree (linked (length ns) ns)"
  using assms by (auto simp: children_agree_def)

lemma linked_ranked: "ranked d ns \<Longrightarrow> ranked d (linked k ns)"
  by (auto simp: ranked_def)

section \<open>Synthesizing the folders\<close>

lemma reparent_props:
  "length (reparent f kids ns) = length ns"
  "i < length ns \<Longrightarrow> reparent f kids ns ! i =
     (if i \<in> set kids then (ns ! i)\<lparr>tn_parent := Some f\<rparr> else ns ! i)"
proof -
  show len: "length (reparent f kids ns) = length ns" for ns
    by (induction kids arbitrary: ns) (simp_all add: reparent_def)
  show "i < length ns \<Longrightarrow> reparent f kids ns ! i =
      (if i \<in> set kids then (ns ! i)\<lparr>tn_parent := Some f\<rparr> else ns ! i)"
  proof (induction kids arbitrary: ns)
    case Nil
    then show ?case by (simp add: reparent_def)
  next
    case (Cons k kids)
    let ?ns = "ns[k := (ns ! k)\<lparr>tn_parent := Some f\<rparr>]"
    have "reparent f (k # kids) ns = reparent f kids ?ns" by (simp add: reparent_def)
    with Cons.IH [of ?ns] Cons.prems show ?case by (cases "i = k") auto
  qed
qed

text \<open>The arena after one folder: its length, its old nodes and the folder itself.\<close>

lemma add_folder_props:
  assumes "set kids \<subseteq> {..<length ns}"
  shows "length (add_folder k pg kids ns) = length ns + (if kids = [] then 0 else 1)"
    and "i < length ns \<Longrightarrow> add_folder k pg kids ns ! i =
           (if i \<in> set kids then (ns ! i)\<lparr>tn_parent := Some (length ns)\<rparr> else ns ! i)"
    and "kids \<noteq> [] \<Longrightarrow> add_folder k pg kids ns ! length ns = folder_node k pg kids ns"
proof -
  show "length (add_folder k pg kids ns) = length ns + (if kids = [] then 0 else 1)"
    by (simp add: add_folder_def reparent_props)
  show "i < length ns \<Longrightarrow> add_folder k pg kids ns ! i =
      (if i \<in> set kids then (ns ! i)\<lparr>tn_parent := Some (length ns)\<rparr> else ns ! i)"
    by (simp add: add_folder_def reparent_props nth_append)
  have "length ns \<notin> set kids" using assms by auto
  then show "kids \<noteq> [] \<Longrightarrow> add_folder k pg kids ns ! length ns = folder_node k pg kids ns"
    by (simp add: add_folder_def reparent_props)
qed

text \<open>The four buckets of a group.\<close>

definition bucket :: "tree_node list \<Rightarrow> nat \<Rightarrow> node_kind \<Rightarrow> nat list" where
  "bucket ns pg k = filter (\<lambda>c. tn_kind (ns ! c) = k) (tn_children (ns ! pg))"

definition bucket_rest :: "tree_node list \<Rightarrow> nat \<Rightarrow> nat list" where
  "bucket_rest ns pg =
     filter (\<lambda>c. tn_kind (ns ! c) \<notin> {Processor, Connection, ControllerService}) (tn_children (ns ! pg))"

definition with_queues :: "tree_node list \<Rightarrow> nat \<Rightarrow> tree_node list" where
  "with_queues ns pg = add_folder Queues pg (bucket ns pg Connection) ns"

definition with_folders :: "tree_node list \<Rightarrow> nat \<Rightarrow> tree_node list" where
  "with_folders ns pg =
     add_folder ControllerServices pg (bucket ns pg ControllerService) (with_queues ns pg)"

lemma bucket_group_eq:
  "bucket_group ns pg =
     (with_folders ns pg)[pg := (with_folders ns pg ! pg)\<lparr>tn_children :=
        bucket ns pg Processor @ [length ns..<length (with_queues ns pg)]
        @ [length (with_queues ns pg)..<length (with_folders ns pg)] @ bucket_rest ns pg\<rparr>]"
  by (simp add: bucket_group_def with_folders_def with_queues_def bucket_def bucket_rest_def Let_def)

lemma bucket_set:
  "c \<in> set (bucket ns pg k) \<longleftrightarrow> c \<in> set (tn_children (ns ! pg)) \<and> tn_kind (ns ! c) = k"
  by (auto simp: bucket_def)

lemma bucket_empty: "bucket ns pg k = [] \<longleftrightarrow> (\<forall>c \<in> set (tn_children (ns ! pg)). tn_kind (ns ! c) \<noteq> k)"
  by (auto simp: bucket_def filter_empty_conv)

lemma bucket_rest_set:
  "c \<in> set (bucket_rest ns pg) \<longleftrightarrow>
     c \<in> set (tn_children (ns ! pg)) \<and> tn_kind (ns ! c) \<notin> {Processor, Connection, ControllerService}"
  by (auto simp: bucket_rest_def)

text \<open>One round on a well-formed arena, position by position.\<close>

definition services_at :: "tree_node list \<Rightarrow> nat \<Rightarrow> nat" where
  "services_at ns pg = length ns + (if bucket ns pg Connection = [] then 0 else 1)"

definition folders_end :: "tree_node list \<Rightarrow> nat \<Rightarrow> nat" where
  "folders_end ns pg = services_at ns pg + (if bucket ns pg ControllerService = [] then 0 else 1)"

definition folder_kids :: "tree_node list \<Rightarrow> nat \<Rightarrow> nat \<Rightarrow> nat list" where
  "folder_kids ns pg f =
     (if f < services_at ns pg then bucket ns pg Connection else bucket ns pg ControllerService)"

definition new_parent :: "tree_node list \<Rightarrow> nat \<Rightarrow> nat \<Rightarrow> nat option" where
  "new_parent ns pg i =
     (if i \<in> set (bucket ns pg Connection) then Some (length ns)
      else if i \<in> set (bucket ns pg ControllerService) then Some (services_at ns pg)
      else tn_parent (ns ! i))"

definition new_children :: "tree_node list \<Rightarrow> nat \<Rightarrow> nat list" where
  "new_children ns pg = bucket ns pg Processor @ [length ns..<folders_end ns pg] @ bucket_rest ns pg"

lemmas folder_positions = services_at_def folders_end_def

lemma bucket_range:
  "children_agree ns \<Longrightarrow> pg < length ns \<Longrightarrow> set (bucket ns pg k) \<subseteq> {..<length ns}"
  using children_in_range [of ns pg] by (auto simp: bucket_set)

lemma with_queues_props:
  assumes "children_agree ns" and "pg < length ns"
  shows "length (with_queues ns pg) = services_at ns pg"
    and "i < length ns \<Longrightarrow> with_queues ns pg ! i =
           (if i \<in> set (bucket ns pg Connection) then (ns ! i)\<lparr>tn_parent := Some (length ns)\<rparr> else ns ! i)"
    and "bucket ns pg Connection \<noteq> [] \<Longrightarrow>
           with_queues ns pg ! length ns = folder_node Queues pg (bucket ns pg Connection) ns"
  using add_folder_props [OF bucket_range [OF assms, of Connection], where k = Queues and pg = pg]
  by (simp_all add: with_queues_def services_at_def)

lemma with_folders_props:
  assumes "children_agree ns" and "pg < length ns"
  shows "length (with_folders ns pg) = folders_end ns pg"
    and "i < length ns \<Longrightarrow> with_folders ns pg ! i = (ns ! i)\<lparr>tn_parent := new_parent ns pg i\<rparr>"
    and "length ns \<le> f \<Longrightarrow> f < folders_end ns pg \<Longrightarrow>
           tn_parent (with_folders ns pg ! f) = Some pg \<and>
           tn_children (with_folders ns pg ! f) = folder_kids ns pg f \<and>
           (\<exists>k. tn_kind (with_folders ns pg ! f) = Folder k)"
proof -
  note q = with_queues_props [OF assms]
  have range: "set (bucket ns pg ControllerService) \<subseteq> {..<length (with_queues ns pg)}"
    using bucket_range [OF assms, of ControllerService] q(1) by (auto simp: services_at_def)
  note c = add_folder_props [OF range, where k = ControllerServices and pg = pg, folded with_folders_def]
  show "length (with_folders ns pg) = folders_end ns pg"
    using c(1) q(1) by (simp add: folders_end_def)
  show "with_folders ns pg ! i = (ns ! i)\<lparr>tn_parent := new_parent ns pg i\<rparr>" if "i < length ns"
    using c(2) [of i] q(1) q(2) [OF that] that
    by (auto simp: new_parent_def services_at_def bucket_set)
  assume f: "length ns \<le> f" "f < folders_end ns pg"
  show "tn_parent (with_folders ns pg ! f) = Some pg \<and>
      tn_children (with_folders ns pg ! f) = folder_kids ns pg f \<and>
      (\<exists>k. tn_kind (with_folders ns pg ! f) = Folder k)"
  proof (cases "f < services_at ns pg")
    case True
    then have "bucket ns pg Connection \<noteq> []" "f = length ns"
      using f by (auto simp: services_at_def split: if_splits)
    moreover have "length ns \<notin> set (bucket ns pg ControllerService)"
      using bucket_range [OF assms, of ControllerService] by auto
    ultimately show ?thesis
      using c(2) [of f] q(1) q(3) True by (simp add: folder_node_def folder_kids_def)
  next
    case False
    then have "bucket ns pg ControllerService \<noteq> []" "f = services_at ns pg"
      using f by (auto simp: folders_end_def split: if_splits)
    with c(3) q(1) False show ?thesis by (simp add: folder_node_def folder_kids_def)
  qed
qed

lemma bucket_group_props:
  assumes "children_agree ns" and "pg < length ns"
  shows "length (bucket_group ns pg) = folders_end ns pg"
    and "i < length ns \<Longrightarrow> bucket_group ns pg ! i = (ns ! i)\<lparr>tn_parent := new_parent ns pg i,
           tn_children := (if i = pg then new_children ns pg else tn_children (ns ! i))\<rparr>"
    and "length ns \<le> f \<Longrightarrow> f < folders_end ns pg \<Longrightarrow>
           tn_parent (bucket_group ns pg ! f) = Some pg \<and>
           tn_children (bucket_group ns pg ! f) = folder_kids ns pg f \<and>
           (\<exists>k. tn_kind (bucket_group ns pg ! f) = Folder k)"
proof -
  note w = with_folders_props [OF assms]
  have len: "length ns \<le> folders_end ns pg" by (simp add: folder_positions)
  have kids: "bucket ns pg Processor @ [length ns..<length (with_queues ns pg)]
      @ [length (with_queues ns pg)..<length (with_folders ns pg)] @ bucket_rest ns pg = new_children ns pg"
    by (simp add: new_children_def w(1) with_queues_props(1) [OF assms] folder_positions)
  show "length (bucket_group ns pg) = folders_end ns pg"
    by (simp add: bucket_group_eq w(1))
  show "bucket_group ns pg ! i = (ns ! i)\<lparr>tn_parent := new_parent ns pg i,
      tn_children := (if i = pg then new_children ns pg else tn_children (ns ! i))\<rparr>" if "i < length ns"
    unfolding bucket_group_eq kids using w(1) w(2) [OF that] len that by (auto simp: nth_list_update)
  assume "length ns \<le> f" "f < folders_end ns pg"
  with w(3) [of f] assms(2) show "tn_parent (bucket_group ns pg ! f) = Some pg \<and>
      tn_children (bucket_group ns pg ! f) = folder_kids ns pg f \<and>
      (\<exists>k. tn_kind (bucket_group ns pg ! f) = Folder k)"
    unfolding bucket_group_eq by (auto simp: nth_list_update)
qed

lemma bucket_group_agree:
  assumes "children_agree ns" and "pg < length ns" and "ranked d ns"
  shows "children_agree (bucket_group ns pg)"
  unfolding children_agree_def
proof (intro allI impI)
  note g = bucket_group_props [OF assms(1,2)]
  fix i assume "i < length (bucket_group ns pg)"
  then have i: "i < folders_end ns pg" by (simp add: g(1))
  have kids: "distinct (tn_children (ns ! j))" "\<And>c. c \<in> set (tn_children (ns ! j)) \<longleftrightarrow> c < length ns \<and> tn_parent (ns ! c) = Some j"
    if "j < length ns" for j
    using assms(1) that by (auto simp: children_agree_def)
  have parent: "tn_parent (bucket_group ns pg ! c) = (if c < length ns then new_parent ns pg c else Some pg)"
    if "c < folders_end ns pg" for c
    using g(2,3) [of c] that by auto
  have up: "tn_parent (ns ! c) = Some q \<Longrightarrow> q < length ns" if "c < length ns" for c q
    using assms(3) that by (auto simp: ranked_def)
  show "distinct (tn_children (bucket_group ns pg ! i)) \<and>
      (\<forall>c. c \<in> set (tn_children (bucket_group ns pg ! i)) \<longleftrightarrow>
        c < length (bucket_group ns pg) \<and> tn_parent (bucket_group ns pg ! c) = Some i)"
  proof (cases "i < length ns")
    case True
    show ?thesis
    proof (cases "i = pg")
      case False
      have "c \<in> set (tn_children (ns ! i)) \<longleftrightarrow> c < folders_end ns pg \<and>
          (if c < length ns then new_parent ns pg c else Some pg) = Some i" for c
        using kids(2) [OF True, of c] kids(2) [OF assms(2), of c] True False
        by (auto simp: new_parent_def bucket_set folder_positions split: if_splits)
      with True False kids(1) [OF True] parent show ?thesis by (auto simp: g(1,2))
    next
      case True
      have "distinct (new_children ns pg)"
        using kids(1) [OF assms(2)]
        by (auto simp: new_children_def bucket_def bucket_rest_def dest: children_in_range [OF assms(1,2)])
      moreover have "c \<in> set (new_children ns pg) \<longleftrightarrow> c < folders_end ns pg \<and>
          (if c < length ns then new_parent ns pg c else Some pg) = Some pg" for c
        using kids(2) [OF assms(2), of c] assms(2)
        by (auto simp: new_children_def new_parent_def bucket_set bucket_rest_set folder_positions)
      ultimately show ?thesis
        using True assms(2) parent by (auto simp: g(1,2))
    qed
  next
    case False
    then have "tn_children (bucket_group ns pg ! i) = folder_kids ns pg i" using g(3) i by simp
    moreover have "distinct (folder_kids ns pg i)"
      using kids(1) [OF assms(2)] by (simp add: folder_kids_def bucket_def)
    moreover have "c \<in> set (folder_kids ns pg i) \<longleftrightarrow> c < folders_end ns pg \<and>
        (if c < length ns then new_parent ns pg c else Some pg) = Some i" for c
      using kids(2) [OF assms(2), of c] assms(2) False i up [of c]
      by (auto simp: folder_kids_def new_parent_def bucket_set bucket_empty folder_positions split: if_splits)
    ultimately show ?thesis using parent by (auto simp: g(1))
  qed
qed

lemma new_parent_cases:
  assumes "new_parent ns pg i = Some p"
  obtains "i \<in> set (bucket ns pg Connection)" "p = length ns"
    | "i \<in> set (bucket ns pg ControllerService)" "p = services_at ns pg"
    | "tn_parent (ns ! i) = Some p"
proof (cases "i \<in> set (bucket ns pg Connection)")
  case True
  with assms that(1) show ?thesis by (simp add: new_parent_def)
next
  case False
  with assms that(2,3) show ?thesis
    by (cases "i \<in> set (bucket ns pg ControllerService)") (simp_all add: new_parent_def)
qed

text \<open>A folder ranks between its group and its leaves once all ranks are doubled.\<close>

lemma bucket_group_ranked:
  assumes "children_agree ns" and "pg < length ns" and "ranked d ns"
  shows "ranked (\<lambda>i. if i < length ns then 2 * d i else 2 * d pg + 1) (bucket_group ns pg)"
  unfolding ranked_def
proof (intro allI impI)
  note g = bucket_group_props [OF assms(1,2)]
  fix i p assume "i < length (bucket_group ns pg)" and p: "tn_parent (bucket_group ns pg ! i) = Some p"
  then have i: "i < folders_end ns pg" by (simp add: g(1))
  have d: "q < length ns \<and> d q < d i" if "tn_parent (ns ! i) = Some q" "i < length ns" for q
    using assms(3) that by (auto simp: ranked_def)
  have leaf: "d pg < d i" if "i \<in> set (bucket ns pg k)" for k
    using that child_rank [OF assms(1,3,2), of i] by (simp add: bucket_set)
  have q: "length ns < folders_end ns pg" if "bucket ns pg Connection \<noteq> []"
    using that by (simp add: folder_positions)
  have c: "length ns \<le> services_at ns pg \<and> services_at ns pg < folders_end ns pg"
    if "bucket ns pg ControllerService \<noteq> []"
    using that by (simp add: folder_positions)
  show "p < length (bucket_group ns pg) \<and>
      (if p < length ns then 2 * d p else 2 * d pg + 1) < (if i < length ns then 2 * d i else 2 * d pg + 1)"
  proof (cases "i < length ns")
    case False
    with g(3) i p have "p = pg" by simp
    with False assms(2) i show ?thesis by (simp add: g(1))
  next
    case True
    with g(2) p have "new_parent ns pg i = Some p" by simp
    then show ?thesis
    proof (cases rule: new_parent_cases)
      case 1
      from 1(1) have "bucket ns pg Connection \<noteq> []" by auto
      with 1 True q leaf [OF 1(1)] show ?thesis by (simp add: g(1))
    next
      case 2
      from 2(1) have "bucket ns pg ControllerService \<noteq> []" by auto
      with 2 True c leaf [OF 2(1)] show ?thesis by (simp add: g(1))
    next
      case 3
      with True d have "p < length ns" "d p < d i" by auto
      moreover have "length ns \<le> folders_end ns pg" by (simp add: folder_positions)
      ultimately show ?thesis using True by (simp add: g(1))
    qed
  qed
qed

lemma bucket_group_ok:
  "arena_ok ns \<Longrightarrow> pg < length ns \<Longrightarrow> arena_ok (bucket_group ns pg)"
  using bucket_group_agree bucket_group_ranked by (auto simp: arena_ok_def) blast

text \<open>A round keeps the data of every node and adds only folders.\<close>

definition extends :: "tree_node list \<Rightarrow> tree_node list \<Rightarrow> bool" where
  "extends ns ms \<longleftrightarrow> length ns \<le> length ms
     \<and> (\<forall>i < length ns. node_data (ms ! i) = node_data (ns ! i))
     \<and> (\<forall>i. length ns \<le> i \<and> i < length ms \<longrightarrow> (\<exists>k. tn_kind (ms ! i) = Folder k))"

lemma extends_refl [simp]: "extends ns ns"
  by (auto simp: extends_def)

lemma node_data_kind: "node_data m = node_data n \<Longrightarrow> tn_kind m = tn_kind n"
  by (simp add: node_data_def)

lemma extends_trans:
  assumes "extends ns ms" and "extends ms ks"
  shows "extends ns ks"
  unfolding extends_def
proof (intro conjI allI impI)
  show "length ns \<le> length ks" using assms by (simp add: extends_def)
  show "node_data (ks ! i) = node_data (ns ! i)" if "i < length ns" for i
    using assms that by (simp add: extends_def)
  show "\<exists>k. tn_kind (ks ! i) = Folder k" if "length ns \<le> i \<and> i < length ks" for i
  proof (cases "i < length ms")
    case True
    with assms(2) have "node_data (ks ! i) = node_data (ms ! i)" by (simp add: extends_def)
    then have "tn_kind (ks ! i) = tn_kind (ms ! i)" by (rule node_data_kind)
    with assms(1) that True show ?thesis by (simp add: extends_def)
  next
    case False
    with assms(2) that show ?thesis by (simp add: extends_def)
  qed
qed

lemma bucket_group_extends:
  "children_agree ns \<Longrightarrow> pg < length ns \<Longrightarrow> extends ns (bucket_group ns pg)"
  using bucket_group_props [of ns pg]
  by (auto simp: extends_def node_data_def folder_positions)

text \<open>In a grouped node no queue and no controller service is a direct child.\<close>

definition grouped :: "tree_node list \<Rightarrow> nat \<Rightarrow> bool" where
  "grouped ns g \<longleftrightarrow> (\<forall>c \<in> set (tn_children (ns ! g)). tn_kind (ns ! c) \<notin> {Connection, ControllerService})"

lemma bucket_group_grouped:
  assumes "children_agree ns" and "pg < length ns"
  shows "grouped (bucket_group ns pg) pg"
    and "g < length ns \<Longrightarrow> grouped ns g \<Longrightarrow> grouped (bucket_group ns pg) g"
proof -
  note props = bucket_group_props [OF assms]
  have old: "tn_kind (bucket_group ns pg ! c) = tn_kind (ns ! c)" if "c < length ns" for c
    by (simp add: props(2) [OF that])
  have kinds: "tn_kind (bucket_group ns pg ! c) \<notin> {Connection, ControllerService}"
    if "c \<in> set (new_children ns pg)" for c
  proof (cases "c < length ns")
    case True
    with that show ?thesis by (auto simp: old new_children_def bucket_set bucket_rest_set)
  next
    case False
    then have "c < folders_end ns pg"
      using that children_in_range [OF assms] by (auto simp: new_children_def bucket_set bucket_rest_set)
    with False props(3) [of c] show ?thesis by auto
  qed
  then show "grouped (bucket_group ns pg) pg"
    by (simp add: grouped_def props(2) [OF assms(2)])
  with kinds show "grouped (bucket_group ns pg) g" if "g < length ns" "grouped ns g"
    using that children_in_range [OF assms(1) that(1)] old
    by (cases "g = pg") (auto simp: grouped_def props(2))
qed

lemma synthesize_ok:
  assumes "arena_ok ns" and "\<forall>g \<in> set gs. g < length ns"
  shows "arena_ok (foldl bucket_group ns gs) \<and> extends ns (foldl bucket_group ns gs) \<and>
    (\<forall>g. g \<in> set gs \<or> g < length ns \<and> grouped ns g \<longrightarrow> grouped (foldl bucket_group ns gs) g)"
  using assms
proof (induction gs arbitrary: ns)
  case Nil
  then show ?case by simp
next
  case (Cons g gs)
  let ?ns = "bucket_group ns g"
  from Cons.prems have g: "g < length ns" and agree: "children_agree ns" by (auto simp: arena_ok_def)
  have ext: "extends ns ?ns" by (rule bucket_group_extends [OF agree g])
  then have len: "length ns \<le> length ?ns" by (simp add: extends_def)
  have "\<forall>g \<in> set gs. g < length ?ns" using Cons.prems(2) len by auto
  note rest = Cons.IH [OF bucket_group_ok [OF Cons.prems(1) g] this]
  show ?case
    using rest extends_trans [OF ext] bucket_group_grouped [OF agree g] g len
    by (auto dest: less_le_trans)
qed

text \<open>
  The arena of a snapshot whose parent links point backwards: the raw nodes keep their
  indices and data, the rest are folders, and every group is grouped.
\<close>

definition arena_of :: "raw_node list \<Rightarrow> tree_node list \<Rightarrow> bool" where
  "arena_of raws ns \<longleftrightarrow> arena_ok ns \<and> extends (map fresh_node raws) ns \<and>
     (\<forall>g < length ns. tn_kind (ns ! g) = ProcessGroup \<longrightarrow> grouped ns g)"

lemma build_arena_ok:
  assumes "links_back raws"
  shows "\<exists>ns. build_arena raws = Some ns \<and> arena_of raws ns"
proof -
  let ?fresh = "map fresh_node raws"
  let ?linked = "linked (length raws) ?fresh"
  have rank: "ranked (\<lambda>i. i) ?fresh"
    using assms by (force simp: ranked_def links_back_def fresh_node_def)
  then have "parents_in_range ?fresh" by (auto simp: parents_in_range_def ranked_def)
  then have link: "link_children ?fresh = Some ?linked" using link_children_eq [of ?fresh] by simp
  have "children_agree ?linked" using linked_agree [of ?fresh] by (auto simp: fresh_node_def)
  with linked_ranked [OF rank] have ok: "arena_ok ?linked" by (auto simp: arena_ok_def)
  have "\<forall>g \<in> set (pg_indices ?linked). g < length ?linked" by (simp add: pg_indices_def)
  note syn = synthesize_ok [OF ok this, folded synthesize_folders_def]
  have fresh: "extends ?fresh ?linked" by (auto simp: extends_def node_data_def)
  have "grouped (synthesize_folders ?linked) g"
    if "g < length (synthesize_folders ?linked)" "tn_kind (synthesize_folders ?linked ! g) = ProcessGroup" for g
  proof -
    have ext: "extends ?linked (synthesize_folders ?linked)" using syn by blast
    have g: "g < length ?linked"
    proof (rule ccontr)
      assume "\<not> g < length ?linked"
      with ext that(1) obtain k where "tn_kind (synthesize_folders ?linked ! g) = Folder k"
        unfolding extends_def by (meson not_less)
      with that(2) show False by simp
    qed
    with ext have "node_data (synthesize_folders ?linked ! g) = node_data (?linked ! g)"
      by (simp add: extends_def)
    with that(2) have "tn_kind (?linked ! g) = ProcessGroup" using node_data_kind by metis
    with g have "g \<in> set (pg_indices ?linked)" by (simp add: pg_indices_def)
    with syn show ?thesis by blast
  qed
  with syn extends_trans [OF fresh] have "arena_of raws (synthesize_folders ?linked)"
    by (auto simp: arena_of_def)
  with link show ?thesis by (auto simp: build_arena_def)
qed

end
