(* ===== verification/Browser_Tree.thy ===== *)
theory Browser_Tree
  imports Browser_Arena
begin

text \<open>
  Moving in the tree of the Browser tab (\<open>src/src/view/browser/state/mod.rs\<close>): the cursor,
  expanding and collapsing groups and folders, drilling into a group, the detail request of
  the selected row, and the invariant all of them keep.

  An operation that indexes the arena or walks it returns \<open>None\<close> when the source would
  panic or not return; under the invariant it never does.
\<close>

section \<open>Operations\<close>

definition reset_detail_focus :: "browser_tree \<Rightarrow> browser_tree" where
  "reset_detail_focus s = s\<lparr>bt_detail_focus := FocusTree\<rparr>"

definition bt_selected_opt :: "browser_tree \<Rightarrow> nat option" where
  "bt_selected_opt s = (if bt_visible s = [] then None else Some (bt_selected s))"

definition bt_set_selected :: "nat option \<Rightarrow> browser_tree \<Rightarrow> browser_tree" where
  "bt_set_selected index s =
     reset_detail_focus (s\<lparr>bt_selected := (case index of None \<Rightarrow> 0 | Some i \<Rightarrow> i)\<rparr>)"

definition browser_nav :: "browser_tree list_nav" where
  "browser_nav =
     \<lparr>nav_len = (\<lambda>s. length (bt_visible s)), nav_selected = bt_selected_opt,
      nav_set = bt_set_selected, nav_wraps = False\<rparr>"

definition bt_move_down :: "browser_tree \<Rightarrow> browser_tree" where
  "bt_move_down s = reset_detail_focus (nav_move_down browser_nav s)"

definition bt_move_up :: "browser_tree \<Rightarrow> browser_tree" where
  "bt_move_up s = reset_detail_focus (nav_move_up browser_nav s)"

definition bt_page_down :: "nat \<Rightarrow> browser_tree \<Rightarrow> browser_tree" where
  "bt_page_down k s = reset_detail_focus (nav_page_down browser_nav k s)"

definition bt_page_up :: "nat \<Rightarrow> browser_tree \<Rightarrow> browser_tree" where
  "bt_page_up k s = reset_detail_focus (nav_page_up browser_nav k s)"

definition bt_goto_first :: "browser_tree \<Rightarrow> browser_tree" where
  "bt_goto_first s = reset_detail_focus (nav_goto_first browser_nav s)"

definition bt_goto_last :: "browser_tree \<Rightarrow> browser_tree" where
  "bt_goto_last s = reset_detail_focus (nav_goto_last browser_nav s)"

text \<open>\<open>expanded.insert(i)\<close> or \<open>expanded.remove(&i)\<close> followed by \<open>rebuild_visible\<close>.\<close>

definition expand_row :: "nat \<Rightarrow> browser_tree \<Rightarrow> browser_tree option" where
  "expand_row i s = rebuild_visible (s\<lparr>bt_expanded := insert i (bt_expanded s)\<rparr>)"

definition collapse_row :: "nat \<Rightarrow> browser_tree \<Rightarrow> browser_tree option" where
  "collapse_row i s = rebuild_visible (s\<lparr>bt_expanded := bt_expanded s - {i}\<rparr>)"

text \<open>Select the row of an arena index if it is visible.\<close>

definition select_row :: "nat \<Rightarrow> browser_tree \<Rightarrow> browser_tree" where
  "select_row i s =
     (case position (\<lambda>j. j = i) (bt_visible s) of None \<Rightarrow> s | Some pos \<Rightarrow> s\<lparr>bt_selected := pos\<rparr>)"

definition enter_selection :: "browser_tree \<Rightarrow> browser_tree option" where
  "enter_selection s =
     (case selected_arena s of
        None \<Rightarrow> Some s
      | Some i \<Rightarrow>
          if i \<ge> length (bt_nodes s) then None
          else if tn_kind (bt_nodes s ! i) \<noteq> ProcessGroup then Some s
          else Option.bind (if i \<in> bt_expanded s then Some s else expand_row i s)
            (\<lambda>t. Some (reset_detail_focus
               (case tn_children (bt_nodes t ! i) of [] \<Rightarrow> t | c # _ \<Rightarrow> select_row c t))))"

definition backspace_selection :: "browser_tree \<Rightarrow> browser_tree option" where
  "backspace_selection s =
     (case selected_arena s of
        None \<Rightarrow> Some s
      | Some i \<Rightarrow>
          if i \<ge> length (bt_nodes s) then None
          else if tn_kind (bt_nodes s ! i) = ProcessGroup \<and> i \<in> bt_expanded s
          then map_option (\<lambda>t. reset_detail_focus (select_row i t)) (collapse_row i s)
          else Some (reset_detail_focus
            (case tn_parent (bt_nodes s ! i) of None \<Rightarrow> s | Some p \<Rightarrow> select_row p s)))"

text \<open>The walk \<open>while let Some(p) = cursor \<dots> cursor = nodes[p].parent\<close>: the indices met.\<close>

partial_function (option) ancestors :: "tree_node list \<Rightarrow> nat option \<Rightarrow> nat list option" where
  "ancestors ns cursor =
     (case cursor of
        None \<Rightarrow> Some []
      | Some p \<Rightarrow>
          if p < length ns
          then Option.bind (ancestors ns (tn_parent (ns ! p))) (\<lambda>as. Some (p # as))
          else None)"

definition find_group :: "tree_node list \<Rightarrow> string \<Rightarrow> nat option" where
  "find_group ns group_id = position (\<lambda>n. tn_kind n = ProcessGroup \<and> tn_id n = group_id) ns"

definition drill_into_group :: "string \<Rightarrow> browser_tree \<Rightarrow> (bool \<times> browser_tree) option" where
  "drill_into_group group_id s =
     (case find_group (bt_nodes s) group_id of
        None \<Rightarrow> Some (False, s)
      | Some i \<Rightarrow>
          Option.bind (ancestors (bt_nodes s) (tn_parent (bt_nodes s ! i))) (\<lambda>as.
          Option.bind (rebuild_visible (s\<lparr>bt_expanded := bt_expanded s \<union> set as\<rparr>)) (\<lambda>t.
          Some (True, reset_detail_focus (select_row i t)))))"

definition is_folder :: "node_kind \<Rightarrow> bool" where
  "is_folder k = (case k of Folder _ \<Rightarrow> True | _ \<Rightarrow> False)"

definition emit_detail_request :: "browser_tree \<Rightarrow> browser_tree option" where
  "emit_detail_request s =
     (case selected_arena s of
        None \<Rightarrow> Some s
      | Some i \<Rightarrow>
          if i \<ge> length (bt_nodes s) then None
          else let n = bt_nodes s ! i in
            if is_folder (tn_kind n)
            then Some (s\<lparr>bt_pending_detail := None, bt_pending_detail_unsent := False\<rparr>)
            else Some (case bt_detail_tx s of
                None \<Rightarrow> s\<lparr>bt_pending_detail := Some i, bt_pending_detail_unsent := True\<rparr>
              | Some sent \<Rightarrow> s\<lparr>bt_pending_detail := Some i, bt_pending_detail_unsent := False,
                  bt_detail_tx := Some (sent @ [\<lparr>dr_arena_idx = i, dr_kind = tn_kind n, dr_id = tn_id n\<rparr>])\<rparr>))"

section \<open>The invariant\<close>

definition browser_ok :: "browser_tree \<Rightarrow> bool" where
  "browser_ok s \<longleftrightarrow> arena_ok (bt_nodes s)
     \<and> visible_walk (bt_nodes s) (bt_expanded s) (roots (bt_nodes s)) = Some (bt_visible s)
     \<and> (bt_visible s = [] \<or> bt_selected s < length (bt_visible s))
     \<and> length (bt_nodes s) \<le> usize_max"

lemma browser_default_ok: "browser_ok browser_default"
  by (simp add: browser_ok_def browser_default_def arena_ok_def children_agree_def ranked_def roots_def)

text \<open>The visible rows: each shown node once.\<close>

lemma visible_shown:
  assumes "arena_ok ns" and "visible_walk ns ex (roots ns) = Some v"
  shows "distinct v" and "set v = {i. shown ns ex i}" and "set v \<subseteq> {..<length ns}"
    and "length v \<le> length ns"
proof -
  obtain d where d: "children_agree ns" "ranked d ns" using assms(1) by (auto simp: arena_ok_def)
  have "distinct (roots ns)" by (simp add: roots_def)
  with walk_distinct [OF assms(2) d] unrelated_roots show dist: "distinct v" by blast
  show set: "set v = {i. shown ns ex i}" by (rule walk_roots_set [OF d(1) assms(2)])
  then show range: "set v \<subseteq> {..<length ns}" using shown_range by auto
  show "length v \<le> length ns"
    using card_mono [OF _ range] distinct_card [OF dist] by simp
qed

lemma rebuild_visible_Some:
  assumes "arena_ok (bt_nodes s)"
  obtains v where "rebuild_visible s = Some (s\<lparr>bt_visible := v\<rparr>)"
    and "visible_walk (bt_nodes s) (bt_expanded s) (roots (bt_nodes s)) = Some v"
  using visible_walk_total [OF assms, of "roots (bt_nodes s)" "bt_expanded s"] roots_range that
  by (auto simp: rebuild_visible_def)

lemma selected_arena_Some:
  assumes "browser_ok s" and "selected_arena s = Some i"
  shows "bt_selected s < length (bt_visible s)" and "bt_visible s ! bt_selected s = i"
    and "i < length (bt_nodes s)" and "shown (bt_nodes s) (bt_expanded s) i"
proof -
  show sel: "bt_selected s < length (bt_visible s)" "bt_visible s ! bt_selected s = i"
    using assms(2) by (simp_all add: selected_arena_def)
  then have "i \<in> set (bt_visible s)" by (metis nth_mem)
  with visible_shown [of "bt_nodes s" "bt_expanded s" "bt_visible s"] assms(1)
  show "i < length (bt_nodes s)" "shown (bt_nodes s) (bt_expanded s) i"
    by (auto simp: browser_ok_def)
qed

lemma selected_arena_None: "browser_ok s \<Longrightarrow> selected_arena s = None \<longleftrightarrow> bt_visible s = []"
  by (auto simp: browser_ok_def selected_arena_def)

subsection \<open>Expanding and collapsing\<close>

lemma replace_one:
  assumes "distinct (pre @ i # post)"
  shows "concat (map (\<lambda>j. if j = i then i # sub else [j]) (pre @ i # post)) = pre @ i # sub @ post"
proof -
  have "concat (map (\<lambda>j. if j = i then i # sub else [j]) xs) = xs" if "i \<notin> set xs" for xs
    using that by (induction xs) auto
  with assms show ?thesis by auto
qed

lemma replace_none:
  "i \<notin> set v \<Longrightarrow> concat (map (\<lambda>j. if j = i then i # sub else [j]) v) = v"
  by (induction v) auto

text \<open>The rows with and without one expansion differ by the subtree of its row.\<close>

lemma expand_splits:
  assumes "arena_ok ns" and "i < length ns" and "i \<notin> ex"
    and "visible_walk ns ex (roots ns) = Some v"
  obtains sub where "visible_walk ns (insert i ex) (tn_children (ns ! i)) = Some sub"
    and "\<And>pre post. v = pre @ i # post \<Longrightarrow>
           visible_walk ns (insert i ex) (roots ns) = Some (pre @ i # sub @ post)"
    and "i \<notin> set v \<Longrightarrow> visible_walk ns (insert i ex) (roots ns) = Some v"
proof -
  have "\<forall>c \<in> set (tn_children (ns ! i)). c < length ns"
    using assms(1,2) children_in_range by (auto simp: arena_ok_def)
  then obtain sub where sub: "visible_walk ns (insert i ex) (tn_children (ns ! i)) = Some sub"
    using visible_walk_total [OF assms(1)] by blast
  note walk = walk_expand [OF assms(4,3,2) sub]
  have "visible_walk ns (insert i ex) (roots ns) = Some (pre @ i # sub @ post)"
    if v: "v = pre @ i # post" for pre post
  proof -
    have "distinct (pre @ i # post)" using visible_shown(1) [OF assms(1,4)] v by simp
    from replace_one [OF this, of sub] walk show ?thesis by (simp only: v)
  qed
  moreover have "visible_walk ns (insert i ex) (roots ns) = Some v" if "i \<notin> set v"
    using walk replace_none [OF that, of sub] by simp
  ultimately show ?thesis using sub that by blast
qed

lemma collapse_splits:
  assumes "arena_ok ns" and "i < length ns" and "i \<in> ex" and "i \<in> set v"
    and "visible_walk ns ex (roots ns) = Some v"
  obtains pre sub post where "v = pre @ i # sub @ post"
    and "visible_walk ns ex (tn_children (ns ! i)) = Some sub"
    and "visible_walk ns (ex - {i}) (roots ns) = Some (pre @ i # post)"
proof -
  obtain w where w: "visible_walk ns (ex - {i}) (roots ns) = Some w"
    using visible_walk_total [OF assms(1), of "roots ns"] roots_range by blast
  have ins: "insert i (ex - {i}) = ex" using assms(3) by auto
  show ?thesis
  proof (rule expand_splits [OF assms(1,2) _ w, unfolded ins])
    fix sub
    assume sub: "visible_walk ns ex (tn_children (ns ! i)) = Some sub"
      and yes: "\<And>pre post. w = pre @ i # post \<Longrightarrow> visible_walk ns ex (roots ns) = Some (pre @ i # sub @ post)"
      and no: "i \<notin> set w \<Longrightarrow> visible_walk ns ex (roots ns) = Some w"
    have "i \<in> set w" using no assms(4,5) by auto
    then obtain pre post where "w = pre @ i # post" by (auto simp: in_set_conv_decomp)
    with yes sub w assms(5) show ?thesis by (intro that [of pre sub post]) auto
  qed simp
qed

lemma expand_row_ok:
  assumes "browser_ok s" and "selected_arena s = Some i"
  obtains pre sub post v where "expand_row i s = Some (s\<lparr>bt_expanded := insert i (bt_expanded s), bt_visible := v\<rparr>)"
    and "browser_ok (s\<lparr>bt_expanded := insert i (bt_expanded s), bt_visible := v\<rparr>)"
    and "i \<notin> bt_expanded s \<Longrightarrow> bt_visible s = pre @ i # post \<and> v = pre @ i # sub @ post"
    and "length pre = bt_selected s"
proof -
  note sel = selected_arena_Some [OF assms]
  have ok: "arena_ok (bt_nodes s)"
    and walk: "visible_walk (bt_nodes s) (bt_expanded s) (roots (bt_nodes s)) = Some (bt_visible s)"
    using assms(1) by (simp_all add: browser_ok_def)
  let ?pre = "take (bt_selected s) (bt_visible s)" and ?post = "drop (Suc (bt_selected s)) (bt_visible s)"
  have split: "bt_visible s = ?pre @ i # ?post" using id_take_nth_drop [OF sel(1)] by (simp only: sel(2))
  have len: "length ?pre = bt_selected s" using sel(1) by simp
  show ?thesis
  proof (cases "i \<in> bt_expanded s")
    case True
    then have "expand_row i s = Some (s\<lparr>bt_expanded := insert i (bt_expanded s), bt_visible := bt_visible s\<rparr>)"
      using walk by (simp add: expand_row_def rebuild_visible_def insert_absorb)
    moreover have "browser_ok (s\<lparr>bt_expanded := insert i (bt_expanded s), bt_visible := bt_visible s\<rparr>)"
      using assms(1) True by (simp add: insert_absorb browser_ok_def)
    ultimately show ?thesis using that len True by blast
  next
    case False
    from expand_splits [OF ok sel(3) False walk] obtain sub where
      new: "visible_walk (bt_nodes s) (insert i (bt_expanded s)) (roots (bt_nodes s)) = Some (?pre @ i # sub @ ?post)"
      using split by metis
    then have "expand_row i s =
        Some (s\<lparr>bt_expanded := insert i (bt_expanded s), bt_visible := ?pre @ i # sub @ ?post\<rparr>)"
      by (simp add: expand_row_def rebuild_visible_def)
    moreover have "browser_ok (s\<lparr>bt_expanded := insert i (bt_expanded s), bt_visible := ?pre @ i # sub @ ?post\<rparr>)"
      using assms(1) new sel(1) by (simp add: browser_ok_def)
    ultimately show ?thesis using that [of "?pre @ i # sub @ ?post" ?pre ?post sub] split len by blast
  qed
qed

lemma collapse_row_ok:
  assumes "browser_ok s" and "selected_arena s = Some i" and "i \<in> bt_expanded s"
  obtains pre sub post where "bt_visible s = pre @ i # sub @ post" and "length pre = bt_selected s"
    and "collapse_row i s = Some (s\<lparr>bt_expanded := bt_expanded s - {i}, bt_visible := pre @ i # post\<rparr>)"
    and "browser_ok (s\<lparr>bt_expanded := bt_expanded s - {i}, bt_visible := pre @ i # post\<rparr>)"
proof -
  note sel = selected_arena_Some [OF assms(1,2)]
  have ok: "arena_ok (bt_nodes s)"
    and walk: "visible_walk (bt_nodes s) (bt_expanded s) (roots (bt_nodes s)) = Some (bt_visible s)"
    using assms(1) by (simp_all add: browser_ok_def)
  have "i \<in> set (bt_visible s)" using sel(1,2) by (metis nth_mem)
  from collapse_splits [OF ok sel(3) assms(3) this walk] obtain pre sub post where
    v: "bt_visible s = pre @ i # sub @ post"
    and new: "visible_walk (bt_nodes s) (bt_expanded s - {i}) (roots (bt_nodes s)) = Some (pre @ i # post)"
    by metis
  have "(pre @ i # sub @ post) ! bt_selected s = (pre @ i # sub @ post) ! length pre"
    using sel(2) v by simp
  then have len: "length pre = bt_selected s"
    using nth_eq_iff_index_eq [OF visible_shown(1) [OF ok walk], of "bt_selected s" "length pre"] sel(1) v
    by simp
  have "collapse_row i s = Some (s\<lparr>bt_expanded := bt_expanded s - {i}, bt_visible := pre @ i # post\<rparr>)"
    using new by (simp add: collapse_row_def rebuild_visible_def)
  moreover have "browser_ok (s\<lparr>bt_expanded := bt_expanded s - {i}, bt_visible := pre @ i # post\<rparr>)"
    using assms(1) new len by (simp add: browser_ok_def)
  ultimately show ?thesis using that v len by blast
qed

subsection \<open>Every operation keeps the invariant\<close>

named_theorems browser_inv \<open>one preservation fact per operation\<close>

lemma reset_ok [browser_inv, simp]: "browser_ok (reset_detail_focus s) = browser_ok s"
  by (simp add: reset_detail_focus_def browser_ok_def)

lemma reset_frame [simp]:
  "bt_nodes (reset_detail_focus s) = bt_nodes s" "bt_expanded (reset_detail_focus s) = bt_expanded s"
  "bt_visible (reset_detail_focus s) = bt_visible s" "bt_details (reset_detail_focus s) = bt_details s"
  "bt_selected (reset_detail_focus s) = bt_selected s"
  "bt_detail_focus (reset_detail_focus s) = FocusTree"
  by (simp_all add: reset_detail_focus_def)

lemma select_row_ok [browser_inv]: "browser_ok s \<Longrightarrow> browser_ok (select_row i s)"
  by (auto simp: select_row_def browser_ok_def dest: position_Some split: option.split)

lemma select_row_frame [simp]:
  "bt_nodes (select_row i s) = bt_nodes s" "bt_expanded (select_row i s) = bt_expanded s"
  "bt_visible (select_row i s) = bt_visible s" "bt_details (select_row i s) = bt_details s"
  by (simp_all add: select_row_def split: option.split)

lemma select_row_selects:
  assumes "i \<in> set (bt_visible s)"
  shows "selected_arena (select_row i s) = Some i"
proof -
  obtain pos where "position (\<lambda>j. j = i) (bt_visible s) = Some pos"
    using assms position_None [of "\<lambda>j. j = i" "bt_visible s"] by (cases "position (\<lambda>j. j = i) (bt_visible s)") auto
  with position_Some [OF this] show ?thesis by (simp add: select_row_def selected_arena_def)
qed

lemma selected_arena_reset [simp]: "selected_arena (reset_detail_focus s) = selected_arena s"
  by (simp add: selected_arena_def reset_detail_focus_def)

lemma enter_ok:
  assumes "browser_ok s"
  shows "\<exists>t. enter_selection s = Some t \<and> browser_ok t \<and> bt_nodes t = bt_nodes s"
proof (cases "selected_arena s")
  case None
  with assms show ?thesis by (simp add: enter_selection_def)
next
  case (Some i)
  note sel = selected_arena_Some [OF assms Some]
  obtain t where t: "(if i \<in> bt_expanded s then Some s else expand_row i s) = Some t"
    "browser_ok t" "bt_nodes t = bt_nodes s"
  proof (cases "i \<in> bt_expanded s")
    case False
    show ?thesis
    proof (rule expand_row_ok [OF assms Some])
      fix v
      let ?t = "s\<lparr>bt_expanded := insert i (bt_expanded s), bt_visible := v\<rparr>"
      assume "expand_row i s = Some ?t" "browser_ok ?t"
      with False that [of ?t] show ?thesis by simp
    qed
  next
    case True
    with assms that [of s] show ?thesis by simp
  qed
  have "browser_ok (case tn_children (bt_nodes t ! i) of [] \<Rightarrow> t | c # x \<Rightarrow> select_row c t)"
    "bt_nodes (case tn_children (bt_nodes t ! i) of [] \<Rightarrow> t | c # x \<Rightarrow> select_row c t) = bt_nodes s"
    using t by (auto intro: select_row_ok split: list.split)
  with t Some sel(3) assms show ?thesis by (simp add: enter_selection_def)
qed

lemma backspace_ok:
  assumes "browser_ok s"
  shows "\<exists>t. backspace_selection s = Some t \<and> browser_ok t \<and> bt_nodes t = bt_nodes s"
proof (cases "selected_arena s")
  case None
  with assms show ?thesis by (simp add: backspace_selection_def)
next
  case (Some i)
  note sel = selected_arena_Some [OF assms Some]
  show ?thesis
  proof (cases "tn_kind (bt_nodes s ! i) = ProcessGroup \<and> i \<in> bt_expanded s")
    case True
    show ?thesis
    proof (rule collapse_row_ok [OF assms Some])
      fix pre post
      let ?t = "s\<lparr>bt_expanded := bt_expanded s - {i}, bt_visible := pre @ i # post\<rparr>"
      assume "collapse_row i s = Some ?t" "browser_ok ?t"
      with True Some sel(3) select_row_ok [of ?t i] show ?thesis
        by (simp add: backspace_selection_def)
    qed (use True in simp)
  next
    case False
    have "browser_ok (case tn_parent (bt_nodes s ! i) of None \<Rightarrow> s | Some p \<Rightarrow> select_row p s)"
      "bt_nodes (case tn_parent (bt_nodes s ! i) of None \<Rightarrow> s | Some p \<Rightarrow> select_row p s) = bt_nodes s"
      using assms by (auto intro: select_row_ok split: option.split)
    with False Some sel(3) show ?thesis by (auto simp: backspace_selection_def)
  qed
qed

text \<open>The ancestors of a node: the walk returns them all, nearest first.\<close>

lemma ancestors_simps [simp]:
  "ancestors ns None = Some []"
  "ancestors ns (Some p) =
     (if p < length ns then Option.bind (ancestors ns (tn_parent (ns ! p))) (\<lambda>as. Some (p # as)) else None)"
  by (simp_all add: ancestors.simps [of ns None] ancestors.simps [of ns "Some p"])

lemma ancestor_step:
  "(i, p) \<in> (parent_rel ns)\<^sup>+ \<longleftrightarrow>
     i < length ns \<and> (\<exists>q. tn_parent (ns ! i) = Some q \<and> (p = q \<or> (q, p) \<in> (parent_rel ns)\<^sup>+))"
  by (auto simp: parent_rel_def elim: converse_tranclE intro: trancl_into_trancl2)

lemma ancestors_correct:
  assumes "ranked d ns" and "i < length ns"
  shows "\<exists>as. ancestors ns (tn_parent (ns ! i)) = Some as \<and> set as = {p. (i, p) \<in> (parent_rel ns)\<^sup>+}
    \<and> (set as \<subseteq> ex \<longrightarrow> shown ns ex i)"
  using assms(2)
proof (induction "d i" arbitrary: i rule: less_induct)
  case less
  show ?case
  proof (cases "tn_parent (ns ! i)")
    case None
    with less.prems show ?thesis
      by (auto simp: ancestor_step [of i] intro: shown_root)
  next
    case (Some p)
    with assms(1) less.prems have p: "p < length ns" "d p < d i" by (auto simp: ranked_def)
    from less.hyps [OF p(2,1)] obtain as where
      "ancestors ns (tn_parent (ns ! p)) = Some as" "set as = {q. (p, q) \<in> (parent_rel ns)\<^sup>+}"
      "set as \<subseteq> ex \<longrightarrow> shown ns ex p" by blast
    with Some p less.prems show ?thesis
      by (auto simp: ancestor_step [of i] intro: shown_child)
  qed
qed

lemma arena_ranked: "arena_ok ns \<Longrightarrow> \<exists>d. ranked d ns"
  by (auto simp: arena_ok_def)

lemma find_group_Some:
  assumes "find_group ns g = Some i"
  shows "i < length ns" and "tn_kind (ns ! i) = ProcessGroup" and "tn_id (ns ! i) = g"
  using position_Some [OF assms [unfolded find_group_def]] by auto

text \<open>
  Drilling into a known group selects its row, whatever was collapsed above it.
\<close>

lemma drill_ok:
  assumes "browser_ok s"
  shows "\<exists>t. drill_into_group g s = Some (find_group (bt_nodes s) g \<noteq> None, t) \<and> browser_ok t
    \<and> bt_nodes t = bt_nodes s
    \<and> (find_group (bt_nodes s) g \<noteq> None \<longrightarrow> selected_arena t = find_group (bt_nodes s) g)"
proof (cases "find_group (bt_nodes s) g")
  case None
  with assms show ?thesis by (simp add: drill_into_group_def)
next
  case (Some i)
  note i = find_group_Some [OF Some]
  have ok: "arena_ok (bt_nodes s)" using assms by (simp add: browser_ok_def)
  then obtain d where "ranked d (bt_nodes s)" using arena_ranked by blast
  from ancestors_correct [OF this i(1), of "bt_expanded s \<union> _"] obtain as where
    as: "ancestors (bt_nodes s) (tn_parent (bt_nodes s ! i)) = Some as"
    and shown: "\<And>ex. set as \<subseteq> ex \<Longrightarrow> shown (bt_nodes s) ex i"
    using ancestors_correct [OF \<open>ranked d (bt_nodes s)\<close> i(1)] by (metis option.inject)
  let ?s = "s\<lparr>bt_expanded := bt_expanded s \<union> set as\<rparr>"
  obtain v where v: "rebuild_visible ?s = Some (?s\<lparr>bt_visible := v\<rparr>)"
    "visible_walk (bt_nodes ?s) (bt_expanded ?s) (roots (bt_nodes ?s)) = Some v"
    by (rule rebuild_visible_Some [of ?s]) (use ok in simp_all)
  let ?t = "select_row i (?s\<lparr>bt_visible := v\<rparr>)"
  have "i \<in> set v"
    using visible_shown(2) [of "bt_nodes s" "bt_expanded s \<union> set as" v] ok v(2) shown [of "bt_expanded s \<union> set as"]
    by simp
  then have sel: "selected_arena ?t = Some i" by (intro select_row_selects) simp
  then have "browser_ok ?t" using assms v(2) by (auto simp: browser_ok_def selected_arena_def)
  with sel show ?thesis by (simp add: drill_into_group_def Some as v(1))
qed

lemma emit_ok:
  assumes "browser_ok s"
  shows "\<exists>t. emit_detail_request s = Some t \<and> browser_ok t \<and> bt_nodes t = bt_nodes s
    \<and> bt_visible t = bt_visible s \<and> bt_selected t = bt_selected s"
proof (cases "selected_arena s")
  case None
  with assms show ?thesis by (simp add: emit_detail_request_def)
next
  case (Some i)
  with selected_arena_Some(3) [OF assms] assms show ?thesis
    by (simp add: emit_detail_request_def Let_def browser_ok_def split: option.split)
qed

section \<open>The cursor\<close>

lemma visible_bound: "browser_ok s \<Longrightarrow> length (bt_visible s) \<le> usize_max"
  using visible_shown(4) [of "bt_nodes s" "bt_expanded s" "bt_visible s"]
  by (simp add: browser_ok_def)

interpretation browser: list_navigation browser_nav browser_ok
proof
  fix s :: browser_tree and i
  assume ok: "browser_ok s"
  show "nav_len browser_nav s \<le> usize_max" using visible_bound [OF ok] by (simp add: browser_nav_def)
qed (auto simp: browser_nav_def bt_selected_opt_def bt_set_selected_def reset_detail_focus_def browser_ok_def)

end
