(* ===== verification/Status_History.thy ===== *)
theory Status_History
  imports Node_Health Text_Utils "HOL-Library.AList"
begin

text \<open>
  The sparkline of the Browser tab: reducing NiFi's status history to the metrics the strip
  draws (\<open>src/src/client/history.rs\<close>), with the fallback that sums the per-node snapshots of
  a cluster, and the selection-scoped \<open>SparklineState\<close>
  (\<open>src/src/view/browser/state/sparkline.rs\<close>).

  A metric is an \<open>i64\<close>, a 64-bit word read with \<open>sint\<close>; sums wrap as in a release build.
  A \<open>HashMap\<close> is an association list with distinct keys, a \<open>BTreeMap\<close> the same sorted by
  key when iterated.
\<close>

section \<open>Data\<close>

type_synonym i64 = "64 word"
type_synonym metrics = "(string \<times> i64 option) list"

datatype component_kind =
    CkProcessor | CkProcessGroup | CkConnection | CkControllerService | CkPort | CkRemoteProcessGroup

fun component_kind_label :: "component_kind \<Rightarrow> string" where
  "component_kind_label CkProcessor = ''Processor''"
| "component_kind_label CkProcessGroup = ''ProcessGroup''"
| "component_kind_label CkConnection = ''Connection''"
| "component_kind_label CkControllerService = ''ControllerService''"
| "component_kind_label CkPort = ''Port''"
| "component_kind_label CkRemoteProcessGroup = ''RemoteProcessGroup''"

record status_snapshot_dto =
  ss_timestamp :: "string option"
  ss_status_metrics :: "metrics option"

record status_history_dto =
  sh_aggregate_snapshots :: "status_snapshot_dto list option"
  sh_node_snapshots :: "status_snapshot_dto list option list option"
  sh_generated :: "string option"

record bucket =
  bk_timestamp :: int
  bk_in_count :: nat
  bk_out_count :: nat
  bk_queued_count :: "nat option"
  bk_task_time_ns :: "nat option"
  bk_bytes_per_sec :: "nat option"

record status_history_series =
  shs_buckets :: "bucket list"
  shs_generated_at :: int

section \<open>Metrics\<close>

definition pick_metric :: "metrics \<Rightarrow> string \<Rightarrow> nat option" where
  "pick_metric ms key =
     (case map_of ms key of
        Some (Some v) \<Rightarrow> Some (nat (max (sint v) 0))
      | _ \<Rightarrow> None)"

fun pick_first_metric :: "metrics \<Rightarrow> string list \<Rightarrow> nat option" where
  "pick_first_metric ms [] = None"
| "pick_first_metric ms (k # ks) =
     (case pick_metric ms k of Some v \<Rightarrow> Some v | None \<Rightarrow> pick_first_metric ms ks)"

section \<open>Summing the nodes\<close>

definition bump :: "string \<Rightarrow> i64 \<Rightarrow> (string \<times> i64) list \<Rightarrow> (string \<times> i64) list" where
  "bump k v m = AList.update k ((case map_of m k of None \<Rightarrow> 0 | Some x \<Rightarrow> x) + v) m"

definition add_metrics :: "metrics \<Rightarrow> (string \<times> i64) list \<Rightarrow> (string \<times> i64) list" where
  "add_metrics ms m = foldl (\<lambda>m (k, v). case v of None \<Rightarrow> m | Some x \<Rightarrow> bump k x m) m ms"

type_synonym by_ts = "(string \<times> (string \<times> i64) list) list"

definition add_snapshot :: "by_ts \<Rightarrow> status_snapshot_dto \<Rightarrow> by_ts" where
  "add_snapshot by_ts snap =
     (case ss_timestamp snap of
        None \<Rightarrow> by_ts
      | Some ts \<Rightarrow>
          let m = (case map_of by_ts ts of None \<Rightarrow> [] | Some m \<Rightarrow> m)
          in AList.update ts (add_metrics (or_empty (ss_status_metrics snap)) m) by_ts)"

definition add_node :: "by_ts \<Rightarrow> status_snapshot_dto list option \<Rightarrow> by_ts" where
  "add_node by_ts node = foldl add_snapshot by_ts (or_empty node)"

definition aggregate_node_snapshots :: "status_snapshot_dto list option list \<Rightarrow> status_snapshot_dto list" where
  "aggregate_node_snapshots nodes =
     map (\<lambda>(ts, m). \<lparr>ss_timestamp = Some ts, ss_status_metrics = Some (map (\<lambda>(k, v). (k, Some v)) m)\<rparr>)
       (sort_key fst (foldl add_node [] nodes))"

section \<open>Reducing a series\<close>

text \<open>
  \<open>parse_ts\<close> stands for \<open>parse_nifi_timestamp(raw)?.unix_timestamp()\<close>; \<open>now\<close> for the
  clock, in seconds since the epoch.
\<close>

definition to_systemtime :: "(string \<Rightarrow> int option) \<Rightarrow> string \<Rightarrow> int option" where
  "to_systemtime parse_ts raw =
     (case parse_ts raw of Some unix \<Rightarrow> if unix < 0 then None else Some unix | None \<Rightarrow> None)"

definition timestamp_or :: "(string \<Rightarrow> int option) \<Rightarrow> int \<Rightarrow> string option \<Rightarrow> int" where
  "timestamp_or parse_ts now raw =
     (case Option.bind raw (to_systemtime parse_ts) of None \<Rightarrow> now | Some t \<Rightarrow> t)"

definition zero_or :: "nat option \<Rightarrow> nat" where
  "zero_or v = (case v of None \<Rightarrow> 0 | Some n \<Rightarrow> n)"

definition in_keys :: "string list" where
  "in_keys = [''flowFilesIn'', ''inputCount'', ''receivedCount'', ''flowFilesReceived'']"

definition out_keys :: "string list" where
  "out_keys = [''flowFilesOut'', ''outputCount'', ''sentCount'', ''flowFilesSent'']"

fun kind_metrics :: "component_kind \<Rightarrow> metrics \<Rightarrow> nat option \<times> nat option \<times> nat option" where
  "kind_metrics CkProcessor ms = (None, pick_metric ms ''taskNanos'', None)"
| "kind_metrics CkProcessGroup ms = (pick_first_metric ms [''queuedCount'', ''flowFilesQueued''], None, None)"
| "kind_metrics CkConnection ms = (pick_first_metric ms [''queuedCount'', ''flowFilesQueued''], None, None)"
| "kind_metrics CkRemoteProcessGroup ms = (None, None, pick_first_metric ms [''totalBytesPerSecond''])"
| "kind_metrics CkControllerService ms = (None, None, None)"
| "kind_metrics CkPort ms = (None, None, None)"

definition bucket_of ::
  "(string \<Rightarrow> int option) \<Rightarrow> int \<Rightarrow> component_kind \<Rightarrow> status_snapshot_dto \<Rightarrow> bucket" where
  "bucket_of parse_ts now kind snap =
     (let ms = or_empty (ss_status_metrics snap); (queued, task, bytes) = kind_metrics kind ms
      in \<lparr>bk_timestamp = timestamp_or parse_ts now (ss_timestamp snap),
          bk_in_count = zero_or (pick_first_metric ms in_keys),
          bk_out_count = zero_or (pick_first_metric ms out_keys),
          bk_queued_count = queued, bk_task_time_ns = task, bk_bytes_per_sec = bytes\<rparr>)"

definition history_snapshots :: "status_history_dto \<Rightarrow> status_snapshot_dto list" where
  "history_snapshots dto =
     (let aggregate = or_empty (sh_aggregate_snapshots dto)
      in if aggregate = []
         then (case sh_node_snapshots dto of None \<Rightarrow> [] | Some nodes \<Rightarrow> aggregate_node_snapshots nodes)
         else aggregate)"

definition reduce_status_history ::
  "(string \<Rightarrow> int option) \<Rightarrow> int \<Rightarrow> status_history_dto \<Rightarrow> component_kind \<Rightarrow> status_history_series" where
  "reduce_status_history parse_ts now dto kind =
     \<lparr>shs_buckets = map (bucket_of parse_ts now kind) (history_snapshots dto),
      shs_generated_at = timestamp_or parse_ts now (sh_generated dto)\<rparr>"

text \<open>
  \<open>status_history\<close>: the four kinds with an endpoint fetch and reduce, the others are an
  error. The answer of the client, with its error, is the argument \<open>fetch\<close>.
\<close>

datatype history_error = EndpointMissing string | FetchFailed string | UnsupportedKind string

definition map_history_error :: "string \<Rightarrow> bool \<times> string \<Rightarrow> history_error" where
  "map_history_error i err =
     (let (not_found, dbg) = err
      in if not_found \<or> str_contains dbg ''404'' then EndpointMissing i else FetchFailed i)"

definition status_history ::
  "(string \<Rightarrow> int option) \<Rightarrow> int
   \<Rightarrow> (component_kind \<Rightarrow> string \<Rightarrow> (bool \<times> string) + status_history_dto)
   \<Rightarrow> component_kind \<Rightarrow> string \<Rightarrow> history_error + status_history_series" where
  "status_history parse_ts now fetch kind i =
     (if kind = CkControllerService \<or> kind = CkPort
      then Inl (UnsupportedKind (component_kind_label kind))
      else case fetch kind i of
          Inr dto \<Rightarrow> Inr (reduce_status_history parse_ts now dto kind)
        | Inl err \<Rightarrow> Inl (map_history_error i err))"

section \<open>The sparkline\<close>

record sparkline_state =
  sp_kind :: component_kind
  sp_id :: string
  sp_series :: "status_history_series option"
  sp_endpoint_missing :: bool
  sp_last_fetched_at :: "nat option"

definition sparkline_pending :: "component_kind \<Rightarrow> string \<Rightarrow> sparkline_state" where
  "sparkline_pending kind i =
     \<lparr>sp_kind = kind, sp_id = i, sp_series = None, sp_endpoint_missing = False, sp_last_fetched_at = None\<rparr>"

definition sparkline_apply_update ::
  "nat \<Rightarrow> component_kind \<Rightarrow> string \<Rightarrow> status_history_series \<Rightarrow> sparkline_state \<Rightarrow> sparkline_state" where
  "sparkline_apply_update clock kind i series s =
     (if sp_kind s \<noteq> kind \<or> sp_id s \<noteq> i then s
      else s\<lparr>sp_series := Some series, sp_endpoint_missing := False, sp_last_fetched_at := Some clock\<rparr>)"

definition sparkline_apply_endpoint_missing ::
  "component_kind \<Rightarrow> string \<Rightarrow> sparkline_state \<Rightarrow> sparkline_state" where
  "sparkline_apply_endpoint_missing kind i s =
     (if sp_kind s \<noteq> kind \<or> sp_id s \<noteq> i then s else s\<lparr>sp_endpoint_missing := True\<rparr>)"

section \<open>What the sum of the nodes is\<close>

text \<open>All values nodes report for a metric at a time, in the order they are met.\<close>

definition values_in :: "string \<Rightarrow> metrics \<Rightarrow> i64 list" where
  "values_in k ms = List.map_filter snd (filter (\<lambda>(k', v). k' = k) ms)"

definition all_snapshots :: "status_snapshot_dto list option list \<Rightarrow> status_snapshot_dto list" where
  "all_snapshots nodes = concat (map or_empty nodes)"

definition values_at :: "string \<Rightarrow> string \<Rightarrow> status_snapshot_dto list \<Rightarrow> i64 list" where
  "values_at ts k snaps = concat (map (\<lambda>s. values_in k (or_empty (ss_status_metrics s)))
     (filter (\<lambda>s. ss_timestamp s = Some ts) snaps))"

definition sum_of :: "i64 list \<Rightarrow> i64 option" where
  "sum_of vs = (if vs = [] then None else Some (sum_list vs))"

definition plus_opt :: "i64 option \<Rightarrow> i64 list \<Rightarrow> i64 option" where
  "plus_opt x vs = (case x of None \<Rightarrow> sum_of vs | Some a \<Rightarrow> Some (a + sum_list vs))"

lemma plus_opt_append: "plus_opt (plus_opt x us) vs = plus_opt x (us @ vs)"
  by (auto simp: plus_opt_def sum_of_def add.assoc split: option.split)

lemma plus_opt_Nil [simp]: "plus_opt x [] = x" "plus_opt None vs = sum_of vs"
  by (auto simp: plus_opt_def sum_of_def split: option.split)

lemma add_metrics_values: "map_of (add_metrics ms m) k = plus_opt (map_of m k) (values_in k ms)"
proof (induction ms arbitrary: m)
  case Nil
  then show ?case by (simp add: add_metrics_def values_in_def map_filter_def)
next
  case (Cons kv ms)
  obtain k' v where kv: "kv = (k', v)" by (cases kv)
  let ?m = "case v of None \<Rightarrow> m | Some x \<Rightarrow> bump k' x m"
  have "map_of ?m k = plus_opt (map_of m k) (values_in k [kv])"
    by (auto simp: kv bump_def values_in_def map_filter_def plus_opt_def sum_of_def update_conv'
        split: option.split)
  moreover have "add_metrics (kv # ms) m = add_metrics ms ?m" by (simp add: add_metrics_def kv)
  moreover have "values_in k (kv # ms) = values_in k [kv] @ values_in k ms"
    by (simp add: values_in_def map_filter_def)
  ultimately show ?case using Cons.IH [of ?m] by (simp add: plus_opt_append)
qed

definition metric_at :: "by_ts \<Rightarrow> string \<Rightarrow> string \<Rightarrow> i64 option" where
  "metric_at by_ts ts k = Option.bind (map_of by_ts ts) (\<lambda>m. map_of m k)"

lemma add_snapshot_metric:
  "metric_at (add_snapshot b s) ts k = plus_opt (metric_at b ts k) (values_at ts k [s])"
proof (cases "ss_timestamp s")
  case None
  then show ?thesis by (simp add: add_snapshot_def values_at_def)
next
  case (Some t)
  then show ?thesis
    by (cases "map_of b t")
      (auto simp: add_snapshot_def metric_at_def values_at_def update_conv' Let_def add_metrics_values
        simp flip: plus_opt_Nil(2))
qed

lemma add_snapshot_times:
  "dom (map_of (add_snapshot b s)) = dom (map_of b) \<union> set_option (ss_timestamp s)"
  by (auto simp: add_snapshot_def update_conv' split: option.split)

lemma add_snapshots:
  "metric_at (foldl add_snapshot b ss) ts k = plus_opt (metric_at b ts k) (values_at ts k ss)"
  "dom (map_of (foldl add_snapshot b ss)) = dom (map_of b) \<union> {t. \<exists>s \<in> set ss. ss_timestamp s = Some t}"
  "distinct (map fst b) \<Longrightarrow> distinct (map fst (foldl add_snapshot b ss))"
proof (induction ss arbitrary: b)
  case (Cons s ss)
  {
    case 1
    have "values_at ts k (s # ss) = values_at ts k [s] @ values_at ts k ss" by (simp add: values_at_def)
    with Cons.IH(1) show ?case by (simp add: add_snapshot_metric plus_opt_append)
  next
    case 2
    with Cons.IH(2) show ?case by (auto simp: add_snapshot_times)
  next
    case 3
    then have "distinct (map fst (add_snapshot b s))"
      by (auto simp: add_snapshot_def distinct_update Let_def split: option.split)
    with Cons.IH(3) show ?case by simp
  }
qed (auto simp: values_at_def)

lemma add_nodes: "foldl add_node b nodes = foldl add_snapshot b (all_snapshots nodes)"
  by (induction nodes arbitrary: b) (simp_all add: all_snapshots_def add_node_def)

lemma sort_key_fst_distinct:
  fixes ps :: "(string \<times> 'a) list"
  assumes "distinct (map fst ps)"
  shows "map fst (sort_key fst ps) = sorted_list_of_set (fst ` set ps)"
proof (rule sorted_distinct_set_unique)
  show "distinct (map fst (sort_key fst ps))" using assms by (simp add: distinct_map)
qed (simp_all add: sorted_list_of_set)

definition reported_times :: "status_snapshot_dto list \<Rightarrow> string set" where
  "reported_times snaps = {t. \<exists>s \<in> set snaps. ss_timestamp s = Some t}"

text \<open>
  C31: when a cluster sends only per-node history, the summed series has one snapshot per
  reported time, in increasing order of the time strings, and each metric in it is the sum
  of that metric over all nodes at that time, absent exactly when no node reports it.
\<close>

theorem cluster_history_sums_nodes:
  "map (\<lambda>s. (ss_timestamp s, map_of (or_empty (ss_status_metrics s)))) (aggregate_node_snapshots nodes) =
   map (\<lambda>t. (Some t, \<lambda>k. map_option Some (sum_of (values_at t k (all_snapshots nodes)))))
     (sorted_list_of_set (reported_times (all_snapshots nodes)))"
proof -
  let ?b = "foldl add_snapshot [] (all_snapshots nodes)"
  have dist: "distinct (map fst ?b)" by (rule add_snapshots(3)) simp
  have "fst ` set ?b = reported_times (all_snapshots nodes)"
    using add_snapshots(2) [of "[]" "all_snapshots nodes"] by (simp add: dom_map_of_conv_image_fst reported_times_def)
  then have times: "sorted_list_of_set (reported_times (all_snapshots nodes)) = map fst (sort_key fst ?b)"
    using sort_key_fst_distinct [OF dist] by simp
  have "map_of m k = sum_of (values_at ts k (all_snapshots nodes))" if "(ts, m) \<in> set ?b" for ts m k
    using that dist add_snapshots(1) [of "[]" "all_snapshots nodes" ts k] by (simp add: metric_at_def)
  then show ?thesis
    by (auto simp: aggregate_node_snapshots_def add_nodes times map_of_map fun_eq_iff comp_def
        option.map_comp)
qed

text \<open>
  The summed series is not in time order across a year boundary: a bucket of New Year
  comes before one of the evening before, because the times are compared as strings.
\<close>

theorem cluster_history_order_at_new_year:
  "map ss_timestamp (aggregate_node_snapshots
     [Some [\<lparr>ss_timestamp = Some ''12/31/2025 23:55:00 UTC'', ss_status_metrics = None\<rparr>,
            \<lparr>ss_timestamp = Some ''01/01/2026 00:00:00 UTC'', ss_status_metrics = None\<rparr>]]) =
   [Some ''01/01/2026 00:00:00 UTC'', Some ''12/31/2025 23:55:00 UTC'']"
  by code_simp

text \<open>
  The strip never shows data of another component: an update or a missing-endpoint
  answer for another kind or id leaves the sparkline unchanged.
\<close>

lemma sparkline_stale_ignored:
  "(kind, i) \<noteq> (sp_kind s, sp_id s) \<Longrightarrow>
     sparkline_apply_update clock kind i series s = s \<and> sparkline_apply_endpoint_missing kind i s = s"
  by (auto simp: sparkline_apply_update_def sparkline_apply_endpoint_missing_def)

end
