(* ===== verification/Param_Refs.thy ===== *)
theory Param_Refs
  imports Text_Utils
begin

text \<open>
  Parameter references in property values (\<open>src/src/view/browser/render/param_ref_scan.rs\<close>):
  the scan for \<open>#{name}\<close> with its \<open>##\<close> escape, on the bytes of the value.
\<close>

datatype param_ref_scan = NoRef | SingleRef string | MultipleRefs

definition scan_result :: "string option \<Rightarrow> param_ref_scan" where
  "scan_result found = (case found of Some name \<Rightarrow> SingleRef name | None \<Rightarrow> NoRef)"

text \<open>The loop, on the bytes from position \<open>i\<close>.\<close>

function scan_loop :: "string \<Rightarrow> string option \<Rightarrow> param_ref_scan" where
  "scan_loop [] found = scan_result found"
| "scan_loop (b # bs) found =
     (if b \<noteq> CHR 0x23 then scan_loop bs found
      else case bs of
        [] \<Rightarrow> scan_loop [] found
      | c # rest \<Rightarrow>
          if c = CHR 0x23 then scan_loop rest found
          else if c = CHR 0x7B then
            (case position (\<lambda>x. x = CHR 0x7D) rest of
               None \<Rightarrow> scan_loop bs found
             | Some k \<Rightarrow>
                 if k = 0 then scan_loop bs found
                 else if \<not> utf8_valid (take k rest) then scan_loop (drop (k + 1) rest) found
                 else if found \<noteq> None then MultipleRefs
                 else scan_loop (drop (k + 1) rest) (Some (take k rest)))
          else scan_loop bs found)"
  by pat_completeness auto
termination
  by (relation "measure (\<lambda>(bs, _). length bs)") auto

definition scan_param_refs :: "string \<Rightarrow> param_ref_scan" where
  "scan_param_refs v = scan_loop v None"

section \<open>Values written piece by piece\<close>

text \<open>
  A value as its author writes it: text without a hash, an escaped hash, or a reference to
  a parameter with a non-empty name that has no closing brace.
\<close>

datatype piece = Text string | EscapedHash | Ref string

fun piece_ok :: "piece \<Rightarrow> bool" where
  "piece_ok (Text t) \<longleftrightarrow> CHR 0x23 \<notin> set t"
| "piece_ok EscapedHash \<longleftrightarrow> True"
| "piece_ok (Ref n) \<longleftrightarrow> n \<noteq> [] \<and> CHR 0x7D \<notin> set n \<and> utf8_valid n"

fun write_piece :: "piece \<Rightarrow> string" where
  "write_piece (Text t) = t"
| "write_piece EscapedHash = [CHR 0x23, CHR 0x23]"
| "write_piece (Ref n) = [CHR 0x23, CHR 0x7B] @ n @ [CHR 0x7D]"

definition write_value :: "piece list \<Rightarrow> string" where
  "write_value ps = concat (map write_piece ps)"

fun refs_of :: "piece list \<Rightarrow> string list" where
  "refs_of [] = []"
| "refs_of (Ref n # ps) = n # refs_of ps"
| "refs_of (_ # ps) = refs_of ps"

fun classify_refs :: "string list \<Rightarrow> param_ref_scan" where
  "classify_refs [] = NoRef"
| "classify_refs [n] = SingleRef n"
| "classify_refs _ = MultipleRefs"

lemma scan_text: "CHR 0x23 \<notin> set t \<Longrightarrow> scan_loop (t @ bs) found = scan_loop bs found"
  by (induction t) auto

lemma position_append_miss:
  "x \<notin> set n \<Longrightarrow> position (\<lambda>y. y = x) (n @ x # bs) = Some (length n)"
  by (induction n) auto

lemma scan_ref:
  assumes "piece_ok (Ref n)"
  shows "scan_loop (write_piece (Ref n) @ bs) found =
     (if found \<noteq> None then MultipleRefs else scan_loop bs (Some n))"
  using assms by (simp add: position_append_miss)

lemma write_value_Cons: "write_value (p # ps) = write_piece p @ write_value ps"
  by (simp add: write_value_def)

lemma scan_pieces:
  "list_all piece_ok ps \<Longrightarrow> scan_loop (write_value ps) found =
     classify_refs ((case found of None \<Rightarrow> [] | Some n \<Rightarrow> [n]) @ refs_of ps)"
proof (induction ps arbitrary: found)
  case Nil
  then show ?case by (simp add: write_value_def scan_result_def split: option.split)
next
  case (Cons p ps)
  then have ih: "scan_loop (write_value ps) found =
      classify_refs ((case found of None \<Rightarrow> [] | Some n \<Rightarrow> [n]) @ refs_of ps)" for found by simp
  show ?case
  proof (cases p)
    case (Text t)
    with Cons.prems ih show ?thesis by (simp add: write_value_Cons scan_text)
  next
    case EscapedHash
    with ih show ?thesis by (simp add: write_value_Cons)
  next
    case (Ref n)
    with Cons.prems scan_ref [of n "write_value ps" found] have
      "scan_loop (write_value (p # ps)) found =
        (if found \<noteq> None then MultipleRefs else scan_loop (write_value ps) (Some n))"
      by (simp add: write_value_Cons)
    with ih [of "Some n"] Ref show ?thesis by (cases found) simp_all
  qed
qed

text \<open>
  Scanning a written value finds exactly the references that were written: none, the
  one, or several; escaped hashes and unrelated text never count.
\<close>

theorem param_scan_finds_references:
  assumes "list_all piece_ok ps"
  shows "scan_param_refs (write_value ps) = classify_refs (refs_of ps)"
  using scan_pieces [OF assms, of None] by (simp add: scan_param_refs_def)

lemma param_scan_finds_references_witness:
  "scan_param_refs ''##{a} and #{b}'' = SingleRef ''b''"
proof -
  have "write_value [EscapedHash, Text ''{a} and '', Ref ''b''] = ''##{a} and #{b}''"
    by (simp add: write_value_def)
  moreover have "list_all piece_ok [EscapedHash, Text ''{a} and '', Ref ''b'']" by code_simp
  ultimately show ?thesis
    using param_scan_finds_references [of "[EscapedHash, Text ''{a} and '', Ref ''b'']"] by simp
qed

end
