(* ===== verification/Browser_Detail.thy ===== *)
theory Browser_Detail
  imports Browser_Tree Status_History Param_Refs
begin

text \<open>
  What the Browser tab computes from its arena (\<open>src/src/view/browser/state/mod.rs\<close>):
  resolving ids, breadcrumbs and group paths, the health rollup of a group, the rows of the
  detail sections and what is copied from them, the edges of a processor, and the
  parameter-context bindings.

  A function that walks the arena returns \<open>None\<close> when the source would panic or not
  return; where its own result is an option too, the outer option is that.
\<close>

section \<open>Resolving ids\<close>

definition is_ascii_hexdigit :: "char \<Rightarrow> bool" where
  "is_ascii_hexdigit c \<longleftrightarrow> is_ascii_digit c \<or> byte c \<in> {65..70} \<or> byte c \<in> {97..102}"

definition is_uuid_shape :: "string \<Rightarrow> bool" where
  "is_uuid_shape s \<longleftrightarrow> length s = 36 \<and>
     list_all (\<lambda>(i, b). if i \<in> {8, 13, 18, 23} then b = CHR ''-'' else is_ascii_hexdigit b) (enumerate 0 s)"

record resolved_ref =
  rr_arena_idx :: nat
  rr_kind :: node_kind
  rr_name :: string
  rr_group_id :: string

definition resolve_id :: "string \<Rightarrow> browser_tree \<Rightarrow> resolved_ref option" where
  "resolve_id raw s =
     (let t = trim raw in
      if \<not> is_uuid_shape t then None
      else map_option (\<lambda>i. let n = bt_nodes s ! i in
          \<lparr>rr_arena_idx = i, rr_kind = tn_kind n, rr_name = tn_name n, rr_group_id = tn_group_id n\<rparr>)
        (position (\<lambda>n. tn_id n = t) (bt_nodes s)))"

definition version_control_for :: "cluster_snapshot \<Rightarrow> string \<Rightarrow> version_control_summary option" where
  "version_control_for snap pg_id =
     Option.bind (es_latest (cl_version_control snap)) (\<lambda>m. map_of m pg_id)"

text \<open>Every group is stamped with its binding; the other nodes are untouched.\<close>

definition stamp_binding :: "parameter_context_bindings_map \<Rightarrow> tree_node \<Rightarrow> tree_node" where
  "stamp_binding m n =
     (if tn_kind n = ProcessGroup
      then n\<lparr>tn_parameter_context_ref := Option.bind (map_of m (tn_id n)) (\<lambda>r. r)\<rparr> else n)"

definition apply_parameter_context_bindings ::
  "parameter_context_bindings_map \<Rightarrow> browser_tree \<Rightarrow> browser_tree" where
  "apply_parameter_context_bindings m s = s\<lparr>bt_nodes := map (stamp_binding m) (bt_nodes s)\<rparr>"

text \<open>\<open>iter().find_map(f)\<close>.\<close>

fun find_map :: "('a \<Rightarrow> 'b option) \<Rightarrow> 'a list \<Rightarrow> 'b option" where
  "find_map f [] = None"
| "find_map f (x # xs) = (case f x of None \<Rightarrow> find_map f xs | Some y \<Rightarrow> Some y)"

definition pg_name_for :: "string \<Rightarrow> browser_tree \<Rightarrow> string option" where
  "pg_name_for pg_id s =
     find_map (\<lambda>n. if tn_id n = pg_id \<and> tn_kind n = ProcessGroup then Some (tn_name n) else None)
       (bt_nodes s)"

definition parameter_context_ref_for :: "string \<Rightarrow> browser_tree \<Rightarrow> parameter_context_ref option" where
  "parameter_context_ref_for pg_id s =
     find_map (\<lambda>n. if tn_id n = pg_id then tn_parameter_context_ref n else None) (bt_nodes s)"

definition arrow :: string where
  "arrow = [CHR 0x20, CHR 0xE2, CHR 0x86, CHR 0x92, CHR 0x20]"

definition resolve_connection_display_label :: "string \<Rightarrow> browser_tree \<Rightarrow> string option" where
  "resolve_connection_display_label conn_id s =
     Option.bind (find (\<lambda>n. tn_id n = conn_id \<and> tn_kind n = Connection) (bt_nodes s))
       (\<lambda>n. case tn_status n of
          StConnection _ _ _ _ source_name _ destination_name \<Rightarrow> Some (source_name @ arrow @ destination_name)
        | _ \<Rightarrow> None)"

section \<open>The selected row\<close>

definition selected_node :: "browser_tree \<Rightarrow> tree_node option" where
  "selected_node s = Option.bind (selected_arena s) (get_at (bt_nodes s))"

definition selected_component_id :: "browser_tree \<Rightarrow> string option" where
  "selected_component_id s =
     Option.bind (selected_node s) (\<lambda>n.
       if tn_kind n \<in> {Processor, ProcessGroup, RemoteProcessGroup} then Some (tn_id n) else None)"

definition sparkline_kind :: "node_kind \<Rightarrow> component_kind option" where
  "sparkline_kind k =
     (case k of
        Processor \<Rightarrow> Some CkProcessor
      | ProcessGroup \<Rightarrow> Some CkProcessGroup
      | Connection \<Rightarrow> Some CkConnection
      | RemoteProcessGroup \<Rightarrow> Some CkRemoteProcessGroup
      | _ \<Rightarrow> None)"

definition current_selection_for_sparkline :: "browser_tree \<Rightarrow> (component_kind \<times> string) option" where
  "current_selection_for_sparkline s =
     Option.bind (selected_node s) (\<lambda>n. map_option (\<lambda>k. (k, tn_id n)) (sparkline_kind (tn_kind n)))"

definition current_selection_for_queue_listing :: "browser_tree \<Rightarrow> (string \<times> string \<times> bool) option" where
  "current_selection_for_queue_listing s =
     Option.bind (selected_node s) (\<lambda>n.
       if tn_kind n \<noteq> Connection then None
       else Some (tn_id n, tn_name n,
         case tn_status n of StConnection _ queued _ _ _ _ _ \<Rightarrow> queued > 0 | _ \<Rightarrow> False))"

section \<open>Paths to the root\<close>

record breadcrumb_segment =
  bc_name :: string
  bc_arena_idx :: nat

definition breadcrumb_segments :: "browser_tree \<Rightarrow> breadcrumb_segment list option" where
  "breadcrumb_segments s =
     (case selected_arena s of
        None \<Rightarrow> Some []
      | Some i \<Rightarrow> map_option (\<lambda>path. rev (map (\<lambda>j. \<lparr>bc_name = tn_name (bt_nodes s ! j), bc_arena_idx = j\<rparr>)
            (filter (\<lambda>j. \<not> is_folder (tn_kind (bt_nodes s ! j))) path)))
          (ancestors (bt_nodes s) (Some i)))"

fun join :: "string \<Rightarrow> string list \<Rightarrow> string" where
  "join sep [] = []"
| "join sep [x] = x"
| "join sep (x # y # xs) = x @ sep @ join sep (y # xs)"

definition pg_path :: "string \<Rightarrow> browser_tree \<Rightarrow> string option option" where
  "pg_path group_id s =
     (case find_group (bt_nodes s) group_id of
        None \<Rightarrow> Some None
      | Some i \<Rightarrow> map_option (\<lambda>path.
            let names = map (\<lambda>j. tn_name (bt_nodes s ! j))
              (takeWhile (\<lambda>j. tn_parent (bt_nodes s ! j) \<noteq> None) path)
            in if names = [] then None else Some (join '' / '' (rev names)))
          (ancestors (bt_nodes s) (Some i)))"

section \<open>Health of a group\<close>

datatype pg_health = Green | Yellow | Red

definition node_health :: "tree_node \<Rightarrow> pg_health" where
  "node_health n =
     (case tn_status n of
        StProcessor run_status \<Rightarrow>
          (case processor_status_from_wire run_status of
             PsInvalid \<Rightarrow> Red | PsStopped \<Rightarrow> Yellow | _ \<Rightarrow> Green)
      | _ \<Rightarrow> Green)"

text \<open>The depth-first loop; the head of the list is the top of the stack.\<close>

partial_function (option) health_walk :: "tree_node list \<Rightarrow> nat list \<Rightarrow> bool \<Rightarrow> pg_health option" where
  "health_walk ns stack saw_stopped =
     (case stack of
        [] \<Rightarrow> Some (if saw_stopped then Yellow else Green)
      | i # rest \<Rightarrow>
          if i \<ge> length ns then health_walk ns rest saw_stopped
          else if node_health (ns ! i) = Red then Some Red
          else health_walk ns (rev (tn_children (ns ! i)) @ rest)
                 (saw_stopped \<or> node_health (ns ! i) = Yellow))"

definition pg_health_rollup :: "nat \<Rightarrow> browser_tree \<Rightarrow> pg_health option" where
  "pg_health_rollup i s =
     health_walk (bt_nodes s)
       (case get_at (bt_nodes s) i of None \<Rightarrow> [] | Some n \<Rightarrow> rev (tn_children n)) False"

section \<open>Groups, edges\<close>

record child_pg_summary =
  cps_id :: string
  cps_name :: string
  cps_running :: u32
  cps_stopped :: u32
  cps_invalid :: u32
  cps_disabled :: u32

definition child_summary :: "tree_node \<Rightarrow> child_pg_summary option" where
  "child_summary n =
     (if tn_kind n \<noteq> ProcessGroup then None
      else Some (case tn_status n of
          StProcessGroup r st i d \<Rightarrow> \<lparr>cps_id = tn_id n, cps_name = tn_name n, cps_running = r,
            cps_stopped = st, cps_invalid = i, cps_disabled = d\<rparr>
        | _ \<Rightarrow> \<lparr>cps_id = tn_id n, cps_name = tn_name n, cps_running = 0, cps_stopped = 0,
            cps_invalid = 0, cps_disabled = 0\<rparr>))"

definition child_process_groups :: "string \<Rightarrow> browser_tree \<Rightarrow> child_pg_summary list" where
  "child_process_groups group_id s =
     (case find_group (bt_nodes s) group_id of
        None \<Rightarrow> []
      | Some p \<Rightarrow> List.map_filter (\<lambda>c. Option.bind (get_at (bt_nodes s) c) child_summary)
                   (tn_children (bt_nodes s ! p)))"

datatype edge_direction = EdgeIn | EdgeOut

record connection_edge =
  ced_connection_id :: string
  ced_connection_name :: string
  ced_direction :: edge_direction
  ced_opposite_id :: string
  ced_opposite_name :: string
  ced_opposite_group_id :: string
  ced_queued_display :: string

definition group_of_id :: "string \<Rightarrow> browser_tree \<Rightarrow> string" where
  "group_of_id i s = (case find (\<lambda>n. tn_id n = i) (bt_nodes s) of None \<Rightarrow> [] | Some n \<Rightarrow> tn_group_id n)"

definition edge_of :: "string \<Rightarrow> browser_tree \<Rightarrow> tree_node \<Rightarrow> connection_edge option" where
  "edge_of processor_id s n =
     (if tn_kind n \<noteq> Connection then None
      else case tn_status n of
        StConnection _ _ queued source_id source_name destination_id destination_name \<Rightarrow>
          let edge = (\<lambda>d oid oname. \<lparr>ced_connection_id = tn_id n, ced_connection_name = tn_name n,
                ced_direction = d, ced_opposite_id = oid, ced_opposite_name = oname,
                ced_opposite_group_id = group_of_id oid s, ced_queued_display = queued\<rparr>)
          in if source_id = processor_id then Some (edge EdgeOut destination_id destination_name)
             else if destination_id = processor_id then Some (edge EdgeIn source_id source_name)
             else None
      | _ \<Rightarrow> None)"

definition connections_for_processor :: "string \<Rightarrow> browser_tree \<Rightarrow> connection_edge list" where
  "connections_for_processor processor_id s = List.map_filter (edge_of processor_id s) (bt_nodes s)"

section \<open>Rows of the detail sections\<close>

definition of_source :: "string \<Rightarrow> bulletin_snapshot list \<Rightarrow> bulletin_snapshot list" where
  "of_source i = filter (\<lambda>b. bu_source_id b = i)"

definition of_group :: "string \<Rightarrow> bulletin_snapshot list \<Rightarrow> bulletin_snapshot list" where
  "of_group i = filter (\<lambda>b. bu_group_id b = i)"

definition section_rows ::
  "browser_tree \<Rightarrow> bulletin_snapshot list \<Rightarrow> nat \<Rightarrow> detail_section \<Rightarrow> node_detail \<Rightarrow> nat" where
  "section_rows s ring a sec d =
     (case sec of
        SecProperties \<Rightarrow>
          (case d of DtProcessor p \<Rightarrow> length (pd_properties p)
           | DtControllerService c \<Rightarrow> length (csd_properties c) | _ \<Rightarrow> 0)
      | SecValidationErrors \<Rightarrow>
          (case d of DtProcessor p \<Rightarrow> length (pd_validation_errors p)
           | DtControllerService c \<Rightarrow> length (csd_validation_errors c)
           | DtRemoteProcessGroup r \<Rightarrow> length (rgd_validation_errors r) | _ \<Rightarrow> 0)
      | SecReferencingComponents \<Rightarrow>
          (case d of DtControllerService c \<Rightarrow> length (csd_referencing_components c) | _ \<Rightarrow> 0)
      | SecRecentBulletins \<Rightarrow>
          (case d of DtControllerService c \<Rightarrow> length (of_source (csd_id c) ring)
           | DtProcessor p \<Rightarrow> length (of_source (tn_id (bt_nodes s ! a)) ring)
           | DtProcessGroup g \<Rightarrow> length (of_group (pgt_id g) ring)
           | DtPort p \<Rightarrow> length (of_source (ptd_id p) ring) | _ \<Rightarrow> 0)
      | SecControllerServices \<Rightarrow>
          (case d of DtProcessGroup g \<Rightarrow> length (pgt_controller_services g) | _ \<Rightarrow> 0)
      | SecChildGroups \<Rightarrow>
          (case d of DtProcessGroup g \<Rightarrow> length (child_process_groups (pgt_id g) s) | _ \<Rightarrow> 0)
      | SecEndpoints \<Rightarrow> (case d of DtConnection c \<Rightarrow> 2 | _ \<Rightarrow> 0)
      | SecConnections \<Rightarrow>
          (case d of DtProcessor p \<Rightarrow> length (connections_for_processor (tn_id (bt_nodes s ! a)) s) | _ \<Rightarrow> 0)
      | SecParameterContext \<Rightarrow>
          (case d of DtProcessGroup g \<Rightarrow> if parameter_context_ref_for (pgt_id g) s \<noteq> None then 1 else 0 | _ \<Rightarrow> 0)
      | SecInputPorts \<Rightarrow> (case d of DtRemoteProcessGroup r \<Rightarrow> length (rgd_input_ports r) | _ \<Rightarrow> 0)
      | SecOutputPorts \<Rightarrow> (case d of DtRemoteProcessGroup r \<Rightarrow> length (rgd_output_ports r) | _ \<Rightarrow> 0))"

definition section_len :: "detail_section \<Rightarrow> bulletin_snapshot list \<Rightarrow> browser_tree \<Rightarrow> nat" where
  "section_len sec ring s =
     (case selected_arena s of
        None \<Rightarrow> 0
      | Some a \<Rightarrow> (case bt_details s a of None \<Rightarrow> 0 | Some d \<Rightarrow> section_rows s ring a sec d))"

definition has_validation :: "node_detail option \<Rightarrow> bool" where
  "has_validation d =
     (case d of
        Some (DtProcessor p) \<Rightarrow> pd_validation_errors p \<noteq> []
      | Some (DtControllerService c) \<Rightarrow> csd_validation_errors c \<noteq> []
      | Some (DtRemoteProcessGroup r) \<Rightarrow> rgd_validation_errors r \<noteq> []
      | _ \<Rightarrow> False)"

definition row_value ::
  "browser_tree \<Rightarrow> bulletin_snapshot list \<Rightarrow> nat \<Rightarrow> detail_section \<Rightarrow> node_detail \<Rightarrow> nat \<Rightarrow> string option"
where
  "row_value s ring a sec d row =
     (case sec of
        SecProperties \<Rightarrow>
          (case d of DtProcessor p \<Rightarrow> map_option snd (get_at (pd_properties p) row)
           | DtControllerService c \<Rightarrow> map_option snd (get_at (csd_properties c) row) | _ \<Rightarrow> None)
      | SecValidationErrors \<Rightarrow>
          (case d of DtProcessor p \<Rightarrow> get_at (pd_validation_errors p) row
           | DtControllerService c \<Rightarrow> get_at (csd_validation_errors c) row
           | DtRemoteProcessGroup r \<Rightarrow> get_at (rgd_validation_errors r) row | _ \<Rightarrow> None)
      | SecRecentBulletins \<Rightarrow>
          (case d of
             DtProcessor p \<Rightarrow> map_option bu_message (get_at (of_source (tn_id (bt_nodes s ! a)) ring) row)
           | DtProcessGroup g \<Rightarrow> map_option bu_message (get_at (of_group (pgt_id g) (rev ring)) row)
           | _ \<Rightarrow> None)
      | SecControllerServices \<Rightarrow>
          (case d of DtProcessGroup g \<Rightarrow> map_option css_id (get_at (pgt_controller_services g) row) | _ \<Rightarrow> None)
      | SecChildGroups \<Rightarrow>
          (case d of DtProcessGroup g \<Rightarrow>
             map_option cps_id (get_at (child_process_groups (pgt_id g) s) row) | _ \<Rightarrow> None)
      | SecInputPorts \<Rightarrow>
          (case d of DtRemoteProcessGroup r \<Rightarrow> map_option rps_port_name (get_at (rgd_input_ports r) row) | _ \<Rightarrow> None)
      | SecOutputPorts \<Rightarrow>
          (case d of DtRemoteProcessGroup r \<Rightarrow> map_option rps_port_name (get_at (rgd_output_ports r) row) | _ \<Rightarrow> None)
      | _ \<Rightarrow> None)"

text \<open>
  \<open>rows[*idx]\<close> and \<open>self.nodes[arena_idx]\<close> panic out of range: the outer option.
\<close>

definition focused_row_copy_value :: "bulletin_snapshot list \<Rightarrow> browser_tree \<Rightarrow> string option option" where
  "focused_row_copy_value ring s =
     (case bt_detail_focus s of
        FocusTree \<Rightarrow> Some None
      | FocusSection idx rows xs \<Rightarrow>
     (case selected_arena s of None \<Rightarrow> Some None | Some a \<Rightarrow>
     (case bt_details s a of None \<Rightarrow> Some None | Some d \<Rightarrow>
        if a \<ge> length (bt_nodes s) then None
        else case get_at (for_node_detail (tn_kind (bt_nodes s ! a)) (has_validation (Some d))) idx of
            None \<Rightarrow> Some None
          | Some sec \<Rightarrow>
              (case get_at rows idx of None \<Rightarrow> None | Some row \<Rightarrow> Some (row_value s ring a sec d row)))))"

definition focused_row_source_id :: "bulletin_snapshot list \<Rightarrow> browser_tree \<Rightarrow> string option option" where
  "focused_row_source_id ring s =
     (case bt_detail_focus s of
        FocusTree \<Rightarrow> Some None
      | FocusSection idx rows xs \<Rightarrow>
     (case selected_arena s of None \<Rightarrow> Some None | Some a \<Rightarrow>
     (case bt_details s a of None \<Rightarrow> Some None | Some d \<Rightarrow>
        if a \<ge> length (bt_nodes s) then None
        else case get_at (for_node (tn_kind (bt_nodes s ! a))) idx of
            None \<Rightarrow> Some None
          | Some sec \<Rightarrow>
              if sec \<noteq> SecRecentBulletins then Some None
              else case get_at rows idx of None \<Rightarrow> None
                | Some row \<Rightarrow> Some (case d of
                    DtProcessor _ \<Rightarrow>
                      map_option bu_source_id (get_at (of_source (tn_id (bt_nodes s ! a)) ring) row)
                  | DtProcessGroup g \<Rightarrow>
                      map_option bu_source_id (get_at (of_group (pgt_id g) (rev ring)) row)
                  | _ \<Rightarrow> None))))"

record property_row =
  prw_key :: string
  prw_value :: string
  prw_resolves_to :: "nat option"
  prw_param_ref :: "string option option"

definition property_rows :: "browser_tree \<Rightarrow> string \<Rightarrow> (string \<times> string) list \<Rightarrow> property_row list" where
  "property_rows s owning_pg_id props =
     (let has_ctx = (parameter_context_ref_for owning_pg_id s \<noteq> None) in
      map (\<lambda>(k, v).
        let resolves_to = map_option rr_arena_idx (resolve_id v s);
            param_ref = (if resolves_to = None \<and> has_ctx
              then (case scan_param_refs v of NoRef \<Rightarrow> None | SingleRef name \<Rightarrow> Some (Some name)
                    | MultipleRefs \<Rightarrow> Some None)
              else None)
        in \<lparr>prw_key = k, prw_value = v, prw_resolves_to = resolves_to, prw_param_ref = param_ref\<rparr>) props)"

end
