(* ===== verification/Browser_View.thy ===== *)
theory Browser_View
  imports Browser_Detail
begin

text \<open>
  What the Browser tab promises over time: a snapshot from any state builds a well-formed
  tree and keeps the cursor on its component, details always describe the node they are
  stored at, and no sequence of snapshots, answers and keys leaves the invariant or panics.
\<close>

section \<open>Size of an arena\<close>

lemma length_add_folder: "length (add_folder k pg kids ns) \<le> Suc (length ns)"
  by (simp add: add_folder_def reparent_props(1))

lemma length_bucket_group: "length (bucket_group ns pg) \<le> length ns + 2"
  using length_add_folder [of Queues pg "bucket ns pg Connection" ns]
    length_add_folder [of ControllerServices pg "bucket ns pg ControllerService" "with_queues ns pg"]
  by (simp add: bucket_group_eq with_folders_def with_queues_def)

lemma length_bucket_groups: "length (foldl bucket_group ns gs) \<le> length ns + 2 * length gs"
proof (induction gs arbitrary: ns)
  case (Cons g gs)
  from Cons.IH [of "bucket_group ns g"] length_bucket_group [of ns g] show ?case by simp
qed simp

lemma link_child_length: "link_child i ns = Some ms \<Longrightarrow> length ms = length ns"
  by (auto simp: link_child_def split: option.splits if_splits)

lemma link_children_length:
  "foldl (\<lambda>r i. Option.bind r (link_child i)) (Some ns) is = Some ms \<Longrightarrow> length ms = length ns"
proof (induction "is" arbitrary: ms rule: rev_induct)
  case (snoc i "is")
  then show ?case by (auto simp: bind_eq_Some_conv dest: link_child_length)
qed simp

lemma build_arena_length: "build_arena raws = Some ns \<Longrightarrow> length ns \<le> 3 * length raws"
proof -
  assume "build_arena raws = Some ns"
  then obtain ms where ms: "link_children (map fresh_node raws) = Some ms" "ns = synthesize_folders ms"
    by (auto simp: build_arena_def)
  have "length (pg_indices ms) \<le> length ms"
    using length_filter_le [of _ "[0..<length ms]"] by (simp add: pg_indices_def)
  moreover have "length ms = length raws"
    using link_children_length [OF ms(1) [unfolded link_children_def]] by simp
  ultimately show ?thesis
    using length_bucket_groups [of ms "pg_indices ms"] by (simp add: ms(2) synthesize_folders_def)
qed

section \<open>Snapshots\<close>

text \<open>A snapshot the client can send: parents come first, and the arena fits in memory.\<close>

definition snapshot_fits :: "recursive_snapshot \<Rightarrow> bool" where
  "snapshot_fits snap \<longleftrightarrow> links_back (rs_nodes snap) \<and> 3 * length (rs_nodes snap) \<le> usize_max"

lemma clamp_selected_range: "vis \<noteq> [] \<Longrightarrow> clamp_selected sel vis < length vis"
  by (auto simp: clamp_selected_def)

lemma find_visible_Some:
  assumes "find_visible ns vis key = Some p"
  shows "p < length vis" and "node_key (ns ! (vis ! p)) = key"
  using position_Some [OF assms [unfolded find_visible_def]] by auto

text \<open>The state after a snapshot, given the arena and the rows it shows.\<close>

definition tree_after ::
  "browser_tree \<Rightarrow> recursive_snapshot \<Rightarrow> tree_node list \<Rightarrow> nat list \<Rightarrow> browser_tree" where
  "tree_after s snap ns v = (let found = Option.bind (prev_selected_key s) (find_visible ns v) in s\<lparr>
      bt_nodes := ns, bt_visible := v, bt_expanded := translate_expanded s ns,
      bt_details := translate_details s ns, bt_pending_detail := None,
      bt_last_tree_fetched_at := Some (rs_fetched_at snap),
      bt_selected := clamp_selected (case found of None \<Rightarrow> 0 | Some p \<Rightarrow> p) v,
      bt_detail_focus := (if found \<noteq> None then bt_detail_focus s else FocusTree)\<rparr>)"

lemma apply_tree_snapshot_cases:
  assumes "snapshot_fits snap"
  obtains ns v where "arena_of (rs_nodes snap) ns" and "length ns \<le> usize_max"
    and "visible_walk ns (translate_expanded s ns) (roots ns) = Some v"
    and "apply_tree_snapshot s snap = Some (tree_after s snap ns v)"
proof -
  from assms build_arena_ok [of "rs_nodes snap"] obtain ns where
    ns: "build_arena (rs_nodes snap) = Some ns" "arena_of (rs_nodes snap) ns"
    by (auto simp: snapshot_fits_def)
  then have ok: "arena_ok ns" by (simp add: arena_of_def)
  have len: "length ns \<le> usize_max"
    using build_arena_length [OF ns(1)] assms by (simp add: snapshot_fits_def)
  let ?t = "s\<lparr>bt_detail_focus := FocusTree, bt_nodes := ns,
           bt_expanded := translate_expanded s ns, bt_details := translate_details s ns,
           bt_pending_detail := None, bt_last_tree_fetched_at := Some (rs_fetched_at snap)\<rparr>"
  obtain v where v: "rebuild_visible ?t = Some (?t\<lparr>bt_visible := v\<rparr>)"
    "visible_walk (bt_nodes ?t) (bt_expanded ?t) (roots (bt_nodes ?t)) = Some v"
    by (rule rebuild_visible_Some [of ?t]) (use ok in simp_all)
  show ?thesis
    by (rule that [OF ns(2) len, of v]) (use v ns in \<open>simp_all add: apply_tree_snapshot_def tree_after_def Let_def\<close>)
qed

lemma tree_after_ok:
  assumes "arena_ok ns" and "length ns \<le> usize_max"
    and "visible_walk ns (translate_expanded s ns) (roots ns) = Some v"
  shows "browser_ok (tree_after s snap ns v)"
  using assms clamp_selected_range [of v] by (auto simp: browser_ok_def tree_after_def Let_def)

text \<open>
  C3: a snapshot whose parent links point backwards is turned, from any earlier state of the
  tab, into a well-formed tree: every raw node keeps its index and its data, what is added
  are folders only, no group lists a queue or a controller service outside a folder, every
  node whose ancestors are expanded is shown exactly once, and the cursor is on a row.
\<close>

theorem snapshot_builds_tree:
  assumes "snapshot_fits snap"
  shows "\<exists>t. apply_tree_snapshot s snap = Some t \<and> browser_ok t \<and> arena_of (rs_nodes snap) (bt_nodes t)
    \<and> distinct (bt_visible t) \<and> set (bt_visible t) = {i. shown (bt_nodes t) (bt_expanded t) i}"
proof -
  obtain ns v where a: "arena_of (rs_nodes snap) ns" "length ns \<le> usize_max"
    "visible_walk ns (translate_expanded s ns) (roots ns) = Some v"
    "apply_tree_snapshot s snap = Some (tree_after s snap ns v)"
    by (rule apply_tree_snapshot_cases [OF assms])
  then have ok: "arena_ok ns" by (simp add: arena_of_def)
  with a visible_shown(1,2) [OF ok a(3)] show ?thesis
    by (simp add: tree_after_ok) (simp add: tree_after_def Let_def)
qed

lemma prev_expanded_keys_iff:
  "k \<in> prev_expanded_keys s \<longleftrightarrow> (\<exists>e \<in> bt_expanded s. e < length (bt_nodes s) \<and> node_key (bt_nodes s ! e) = k)"
  by (auto simp: prev_expanded_keys_def)

text \<open>
  C27: a snapshot keeps the cursor on the component it was on, with the detail focus, as long
  as a row of that component is still shown; otherwise it goes to the first row and the
  focus to the tree. A node is expanded exactly when a node of its id and kind was.
\<close>

theorem snapshot_keeps_selection:
  assumes "browser_ok s" and "snapshot_fits snap" and "selected_arena s = Some i"
    and "apply_tree_snapshot s snap = Some t"
  shows "(if \<exists>j \<in> set (bt_visible t). node_key (bt_nodes t ! j) = node_key (bt_nodes s ! i)
      then (\<exists>j. selected_arena t = Some j \<and> node_key (bt_nodes t ! j) = node_key (bt_nodes s ! i))
        \<and> bt_detail_focus t = bt_detail_focus s
      else bt_selected t = 0 \<and> bt_detail_focus t = FocusTree)
    \<and> bt_expanded t = {j. j < length (bt_nodes t) \<and>
        (\<exists>e \<in> bt_expanded s. e < length (bt_nodes s) \<and> node_key (bt_nodes s ! e) = node_key (bt_nodes t ! j))}"
proof -
  obtain ns v where t: "t = tree_after s snap ns v"
    by (rule apply_tree_snapshot_cases [OF assms(2), of s]) (use assms(4) in simp)
  have i: "i < length (bt_nodes s)" by (rule selected_arena_Some(3) [OF assms(1,3)])
  let ?key = "node_key (bt_nodes s ! i)"
  have prev: "prev_selected_key s = Some ?key" using i assms(3) by (simp add: prev_selected_key_def get_at_lt)
  have exp: "bt_expanded t = {j. j < length ns \<and> node_key (ns ! j) \<in> prev_expanded_keys s}"
    using i by (auto simp: t tree_after_def translate_expanded_def Let_def)
  show ?thesis
  proof (cases "find_visible ns v ?key")
    case None
    then have "\<not> (\<exists>j \<in> set v. node_key (ns ! j) = ?key)" by (simp add: find_visible_def position_None)
    with None prev exp show ?thesis
      by (simp add: t tree_after_def Let_def clamp_selected_def prev_expanded_keys_iff)
  next
    case (Some p)
    note pos = find_visible_Some [OF Some]
    then have sel: "selected_arena t = Some (v ! p)"
      using Some prev by (auto simp: t tree_after_def Let_def selected_arena_def clamp_selected_def)
    have "v ! p \<in> set v" using pos(1) by simp
    with pos(2) have "\<exists>j \<in> set v. node_key (ns ! j) = ?key" by blast
    with sel Some prev exp pos(2) show ?thesis
      by (simp add: t tree_after_def Let_def prev_expanded_keys_iff)
  qed
qed

section \<open>Details\<close>

text \<open>The component a fetched detail is about.\<close>

fun detail_key :: "node_detail \<Rightarrow> string \<times> node_kind" where
  "detail_key (DtProcessGroup d) = (pgt_id d, ProcessGroup)"
| "detail_key (DtProcessor d) = (pd_id d, Processor)"
| "detail_key (DtConnection d) = (cd_id d, Connection)"
| "detail_key (DtControllerService d) = (csd_id d, ControllerService)"
| "detail_key (DtPort d) = (ptd_id d, (case ptd_kind d of PkInput \<Rightarrow> InputPort | PkOutput \<Rightarrow> OutputPort))"
| "detail_key (DtRemoteProcessGroup d) = (rgd_id d, RemoteProcessGroup)"

definition payload_ok :: "node_detail_snapshot \<Rightarrow> bool" where
  "payload_ok p \<longleftrightarrow> detail_key (nds_detail p) = (nds_id p, nds_kind p)"

definition details_ok :: "browser_tree \<Rightarrow> bool" where
  "details_ok s \<longleftrightarrow> (\<forall>i d. bt_details s i = Some d \<longrightarrow>
     i < length (bt_nodes s) \<and> detail_key d = node_key (bt_nodes s ! i))"

lemma details_ok_frame:
  "bt_details t = bt_details s \<Longrightarrow> map node_key (bt_nodes t) = map node_key (bt_nodes s) \<Longrightarrow>
     details_ok t = details_ok s"
proof -
  assume d: "bt_details t = bt_details s" and k: "map node_key (bt_nodes t) = map node_key (bt_nodes s)"
  have len: "length (bt_nodes t) = length (bt_nodes s)" using map_eq_imp_length_eq [OF k] by simp
  moreover have "node_key (bt_nodes t ! i) = node_key (bt_nodes s ! i)" if "i < length (bt_nodes s)" for i
    using arg_cong [OF k, of "\<lambda>xs. xs ! i"] that len by simp
  ultimately show ?thesis using d by (auto simp: details_ok_def)
qed

lemma collect_map_in: "collect_map ps k = Some v \<Longrightarrow> (k, v) \<in> set ps"
  unfolding collect_map_def by (drule map_of_SomeD) simp

lemma prev_detail_keys_ok:
  assumes "details_ok s" and "prev_detail_keys s k = Some d"
  shows "detail_key d = k"
  using collect_map_in [OF assms(2) [unfolded prev_detail_keys_def]] assms(1)
  by (auto simp: map_filter_def details_ok_def)

lemma tree_after_details: "details_ok s \<Longrightarrow> details_ok (tree_after s snap ns v)"
proof -
  assume ok: "details_ok s"
  have "i < length ns \<and> detail_key d = node_key (ns ! i)" if "translate_details s ns i = Some d" for i d
    using that prev_detail_keys_ok [OF ok, of "node_key (ns ! i)" d]
    by (simp add: translate_details_def split: if_splits)
  then show ?thesis by (simp add: details_ok_def tree_after_def Let_def)
qed

lemma apply_node_detail_frame [simp]:
  "bt_nodes (apply_node_detail s p) = bt_nodes s" "bt_visible (apply_node_detail s p) = bt_visible s"
  "bt_selected (apply_node_detail s p) = bt_selected s" "bt_expanded (apply_node_detail s p) = bt_expanded s"
  "bt_detail_focus (apply_node_detail s p) = bt_detail_focus s"
  "bt_detail_tx (apply_node_detail s p) = bt_detail_tx s"
  by (simp_all add: apply_node_detail_def Let_def)

lemma apply_node_detail_details:
  "bt_details (apply_node_detail s p) =
     (if nds_arena_idx p < length (bt_nodes s) \<and>
         node_key (bt_nodes s ! nds_arena_idx p) = (nds_id p, nds_kind p)
      then (bt_details s)(nds_arena_idx p := Some (nds_detail p)) else bt_details s)"
  by (simp add: apply_node_detail_def Let_def)

lemma apply_node_detail_ok:
  "details_ok s \<Longrightarrow> payload_ok p \<Longrightarrow> details_ok (apply_node_detail s p)"
  by (auto simp: details_ok_def payload_ok_def apply_node_detail_details)

lemma browser_ok_frame:
  "bt_nodes t = bt_nodes s \<Longrightarrow> bt_visible t = bt_visible s \<Longrightarrow> bt_selected t = bt_selected s \<Longrightarrow>
     bt_expanded t = bt_expanded s \<Longrightarrow> browser_ok t = browser_ok s"
  by (simp add: browser_ok_def)

subsection \<open>Stamping parameter contexts\<close>

lemma stamp_binding_frame [simp]:
  "tn_parent (stamp_binding m n) = tn_parent n" "tn_children (stamp_binding m n) = tn_children n"
  "tn_kind (stamp_binding m n) = tn_kind n" "tn_id (stamp_binding m n) = tn_id n"
  "node_key (stamp_binding m n) = node_key n"
  by (simp_all add: stamp_binding_def node_key_def)

lemma stamped_arena:
  "length ms = length ns \<Longrightarrow> (\<And>i. i < length ns \<Longrightarrow> tn_parent (ms ! i) = tn_parent (ns ! i) \<and>
     tn_children (ms ! i) = tn_children (ns ! i)) \<Longrightarrow>
     arena_ok ms = arena_ok ns \<and> roots ms = roots ns"
proof
  assume len: "length ms = length ns" and same: "\<And>i. i < length ns \<Longrightarrow>
    tn_parent (ms ! i) = tn_parent (ns ! i) \<and> tn_children (ms ! i) = tn_children (ns ! i)"
  have "c < length ns \<and> tn_parent (ms ! c) = x \<longleftrightarrow> c < length ns \<and> tn_parent (ns ! c) = x" for c x
    using same by auto
  then show "arena_ok ms = arena_ok ns"
    unfolding arena_ok_def children_agree_def ranked_def using len same by simp
  show "roots ms = roots ns"
    unfolding roots_def using len same by (intro filter_cong) simp_all
qed

lemma walk_cong:
  assumes "length ms = length ns" and "\<And>i. i < length ns \<Longrightarrow> tn_children (ms ! i) = tn_children (ns ! i)"
    and "visible_walk ns ex rows = Some v"
  shows "visible_walk ms ex rows = Some v"
  using assms(3)
proof (induction rule: visible_walk_induct)
  case (Cons i rest sub tail)
  then show ?case using assms(1,2) by auto
qed simp

lemma apply_bindings_browser:
  assumes "browser_ok s"
  shows "browser_ok (apply_parameter_context_bindings m s)"
proof -
  let ?t = "apply_parameter_context_bindings m s"
  have same: "length (bt_nodes ?t) = length (bt_nodes s)"
    "\<And>i. i < length (bt_nodes s) \<Longrightarrow> tn_parent (bt_nodes ?t ! i) = tn_parent (bt_nodes s ! i) \<and>
       tn_children (bt_nodes ?t ! i) = tn_children (bt_nodes s ! i)"
    by (simp_all add: apply_parameter_context_bindings_def)
  have "visible_walk (bt_nodes ?t) (bt_expanded s) (roots (bt_nodes s)) = Some (bt_visible s)"
    by (rule walk_cong [of _ "bt_nodes s"]) (use assms same in \<open>simp_all add: browser_ok_def\<close>)
  with stamped_arena [OF same] assms same(1) show "browser_ok ?t"
    by (simp add: browser_ok_def apply_parameter_context_bindings_def)
qed

lemma apply_bindings_ok:
  assumes "browser_ok s" and "details_ok s"
  shows "browser_ok (apply_parameter_context_bindings m s) \<and> details_ok (apply_parameter_context_bindings m s)"
  using apply_bindings_browser [OF assms(1)] assms(2)
    details_ok_frame [of "apply_parameter_context_bindings m s" s]
  by (simp add: apply_parameter_context_bindings_def o_def)

section \<open>The health of a group\<close>

definition below :: "tree_node list \<Rightarrow> nat \<Rightarrow> nat set" where
  "below ns i = {j. (j, i) \<in> (parent_rel ns)\<^sup>*}"

lemma below_children:
  assumes "children_agree ns" and "i < length ns"
  shows "below ns i = insert i (\<Union>c \<in> set (tn_children (ns ! i)). below ns c)"
proof -
  have "(j, i) \<in> (parent_rel ns)\<^sup>* \<longleftrightarrow>
      j = i \<or> (\<exists>c \<in> set (tn_children (ns ! i)). (j, c) \<in> (parent_rel ns)\<^sup>*)" for j
  proof -
    have "c \<in> set (tn_children (ns ! i)) \<longleftrightarrow> (c, i) \<in> parent_rel ns" for c
      using assms by (auto simp: children_agree_def parent_rel_def)
    then show ?thesis
      by (auto elim: rtranclE intro: rtrancl_into_rtrancl)
  qed
  then show ?thesis by (auto simp: below_def)
qed

lemma health_walk_simps [simp]:
  "health_walk ns [] saw = Some (if saw then Yellow else Green)"
  "health_walk ns (i # rest) saw =
     (if i \<ge> length ns then health_walk ns rest saw
      else if node_health (ns ! i) = Red then Some Red
      else health_walk ns (rev (tn_children (ns ! i)) @ rest) (saw \<or> node_health (ns ! i) = Yellow))"
  by (simp_all add: health_walk.simps [of ns "[]"] health_walk.simps [of ns "i # rest"])

text \<open>Walking a list of subtrees visits every node in them, or stops at a red one.\<close>

lemma health_walk_subtrees:
  assumes "children_agree ns" and "ranked d ns" and "\<forall>i < length ns. d i < b"
  shows "\<forall>i \<in> set is. i < length ns \<and> b \<le> d i + k \<Longrightarrow>
    health_walk ns (is @ rest) saw =
      (if \<exists>j \<in> (\<Union>i \<in> set is. below ns i). node_health (ns ! j) = Red then Some Red
       else health_walk ns rest (saw \<or> (\<exists>j \<in> (\<Union>i \<in> set is. below ns i). node_health (ns ! j) = Yellow)))"
proof (induction k arbitrary: "is" rest saw)
  case 0
  have "is = []"
  proof (rule ccontr)
    assume "is \<noteq> []"
    then obtain i where "i \<in> set is" by (cases "is") auto
    with 0 have "i < length ns" "b \<le> d i" by auto
    with assms(3) show False by (meson not_less)
  qed
  then show ?case by simp
next
  case (Suc k)
  show ?case
    using Suc.prems
  proof (induction "is" arbitrary: saw)
    case Nil
    then show ?case by simp
  next
    case (Cons i "is")
    then have i: "i < length ns" and rank: "b \<le> d i + Suc k" by auto
    have kids: "\<forall>c \<in> set (rev (tn_children (ns ! i))). c < length ns \<and> b \<le> d c + k"
      using children_in_range [OF assms(1) i] child_rank [OF assms(1,2) i] rank by fastforce
    note sub = Suc.IH [OF kids, of "is @ rest"]
    have tail: "health_walk ns (is @ rest) saw' =
      (if \<exists>j \<in> (\<Union>i \<in> set is. below ns i). node_health (ns ! j) = Red then Some Red
       else health_walk ns rest (saw' \<or> (\<exists>j \<in> (\<Union>i \<in> set is. below ns i). node_health (ns ! j) = Yellow)))"
      for saw' by (rule Cons.IH) (use Cons.prems in auto)
    let ?kids = "\<Union>c \<in> set (tn_children (ns ! i)). below ns c"
    let ?tail = "\<Union>i \<in> set is. below ns i"
    have all: "(\<Union>j \<in> set (i # is). below ns j) = insert i (?kids \<union> ?tail)"
      by (simp add: below_children [OF assms(1) i])
    show ?case
    proof (cases "node_health (ns ! i) = Red")
      case True
      with i show ?thesis unfolding all by simp
    next
      case False
      have "health_walk ns ((i # is) @ rest) saw =
          health_walk ns (rev (tn_children (ns ! i)) @ is @ rest) (saw \<or> node_health (ns ! i) = Yellow)"
        using i False by simp
      also have "\<dots> = (if \<exists>j \<in> ?kids. node_health (ns ! j) = Red then Some Red
          else health_walk ns (is @ rest)
            ((saw \<or> node_health (ns ! i) = Yellow) \<or> (\<exists>j \<in> ?kids. node_health (ns ! j) = Yellow)))"
        using sub by simp
      finally have eq: "health_walk ns ((i # is) @ rest) saw = \<dots>" .
      show ?thesis unfolding eq tail all using False by (simp add: bex_Un ball_Un disj_assoc)
    qed
  qed
qed

text \<open>
  The health of a group is the worst over everything below it, at any depth: red when a
  processor is invalid, else yellow when one is stopped, else green. The walk visits the
  whole subtree and returns.
\<close>

theorem pg_health_is_worst_descendant:
  assumes "browser_ok s"
  shows "pg_health_rollup i s = Some
    (let descendants = {j. (j, i) \<in> (parent_rel (bt_nodes s))\<^sup>+}
     in if \<exists>j \<in> descendants. node_health (bt_nodes s ! j) = Red then Red
        else if \<exists>j \<in> descendants. node_health (bt_nodes s ! j) = Yellow then Yellow else Green)"
proof -
  let ?ns = "bt_nodes s"
  obtain d where d: "children_agree ?ns" "ranked d ?ns"
    using assms by (auto simp: browser_ok_def arena_ok_def)
  obtain b where b: "\<forall>i < length ?ns. d i < b" using rank_ceiling by blast
  show ?thesis
  proof (cases "i < length ?ns")
    case True
    have "(j, i) \<in> (parent_rel ?ns)\<^sup>+ \<longleftrightarrow> (\<exists>c \<in> set (tn_children (?ns ! i)). (j, c) \<in> (parent_rel ?ns)\<^sup>*)" for j
    proof -
      have "c \<in> set (tn_children (?ns ! i)) \<longleftrightarrow> (c, i) \<in> parent_rel ?ns" for c
        using d(1) True by (auto simp: children_agree_def parent_rel_def)
      then show ?thesis by (auto simp: trancl_unfold_right)
    qed
    then have sub: "{j. (j, i) \<in> (parent_rel ?ns)\<^sup>+} = (\<Union>c \<in> set (rev (tn_children (?ns ! i))). below ?ns c)"
      by (auto simp: below_def)
    have "\<forall>c \<in> set (rev (tn_children (?ns ! i))). c < length ?ns \<and> b \<le> d c + b"
      using children_in_range [OF d(1) True] by auto
    from health_walk_subtrees [OF d b this, of "[]" False] True show ?thesis
      unfolding sub Let_def by (simp add: pg_health_rollup_def get_at_lt)
  next
    case False
    have "(j, i) \<notin> (parent_rel ?ns)\<^sup>+" for j
    proof
      assume "(j, i) \<in> (parent_rel ?ns)\<^sup>+"
      then show False using d(2) False by cases (auto simp: ranked_def parent_rel_def)
    qed
    with False have "{j. (j, i) \<in> (parent_rel ?ns)\<^sup>+} = {}" by simp
    then show ?thesis using False unfolding Let_def by (simp add: pg_health_rollup_def get_at_def)
  qed
qed

end
