(* ===== verification/Browser_Rebuild.thy ===== *)
theory Browser_Rebuild
  imports Browser_View
begin

text \<open>
  From the cluster snapshot to the Browser tab (\<open>src/src/view/browser/state/mod.rs\<close>):
  assembling the flat node list from the process-group status, the connection endpoints and
  the controller services (\<open>rebuild_arena_from_cluster\<close>), the flow index of the fuzzy finder
  (\<open>build_flow_index\<close>) and its version-control stamps (\<open>redraw_version_control\<close>).

  The glyph and colour of a state badge are a function of the parsed status, which the badge
  keeps here. Unicode lower-casing is the argument \<open>lc\<close>, the clock the argument \<open>now\<close>.
\<close>

section \<open>Assembling the nodes\<close>

definition endpoint_ids :: "cluster_snapshot \<Rightarrow> string \<Rightarrow> connection_endpoint_ids option" where
  "endpoint_ids snap = collect_map (concat (map (\<lambda>p. or_empty (es_latest (snd p))) (cl_connections_by_pg snap)))"

definition nonempty_or :: "string \<Rightarrow> string \<Rightarrow> string" where
  "nonempty_or new old = (if new \<noteq> [] then new else old)"

definition backfill :: "cluster_snapshot \<Rightarrow> raw_node \<Rightarrow> raw_node" where
  "backfill snap n =
     (if rn_kind n \<noteq> Connection then n
      else case endpoint_ids snap (rn_id n) of
          None \<Rightarrow> n
        | Some e \<Rightarrow>
            (case rn_status n of
               StConnection fill queued disp src src_name dst dst_name \<Rightarrow>
                 n\<lparr>rn_status := StConnection fill queued disp (nonempty_or (ce_source_id e) src) src_name
                     (nonempty_or (ce_destination_id e) dst) dst_name\<rparr>
             | _ \<Rightarrow> n))"

definition pg_index :: "raw_node list \<Rightarrow> string \<Rightarrow> nat option" where
  "pg_index nodes = collect_map (List.map_filter
     (\<lambda>i. if rn_kind (nodes ! i) = ProcessGroup then Some (rn_id (nodes ! i), i) else None) [0..<length nodes])"

definition service_row :: "nat \<Rightarrow> cs_member \<Rightarrow> raw_node" where
  "service_row p m =
     \<lparr>rn_parent = Some p, rn_kind = ControllerService, rn_id = csm_id m,
      rn_group_id = csm_parent_group_id m, rn_name = csm_name m, rn_status = StControllerService (csm_state m)\<rparr>"

definition service_rows :: "raw_node list \<Rightarrow> cs_member list \<Rightarrow> raw_node list" where
  "service_rows nodes ms =
     List.map_filter (\<lambda>m. map_option (\<lambda>p. service_row p m) (pg_index nodes (csm_parent_group_id m))) ms"

definition assemble_nodes :: "cluster_snapshot \<Rightarrow> raw_node list \<Rightarrow> raw_node list" where
  "assemble_nodes snap raws =
     (let nodes = map (backfill snap) raws
      in nodes @ (case es_latest (cl_controller_services snap) of
                    None \<Rightarrow> []
                  | Some cs \<Rightarrow> service_rows nodes (css_members cs)))"

section \<open>The flow index\<close>

datatype state_badge =
    BadgeProcessor processor_status
  | BadgeCs string cs_state
  | BadgePg u32
  | BadgeConn u32
  | BadgePort

record flow_index_entry =
  fe_id :: string
  fe_group_id :: string
  fe_kind :: node_kind
  fe_name :: string
  fe_group_path :: string
  fe_state :: state_badge
  fe_haystack :: string
  fe_version_state :: "string option"

fun kind_label :: "node_kind \<Rightarrow> string" where
  "kind_label ProcessGroup = ''PG''"
| "kind_label Processor = ''Processor''"
| "kind_label Connection = ''Connection''"
| "kind_label InputPort = ''InputPort''"
| "kind_label OutputPort = ''OutputPort''"
| "kind_label ControllerService = ''CS''"
| "kind_label RemoteProcessGroup = ''RPG''"
| "kind_label (Folder _) = ''Folder''"

fun badge_of :: "node_status_summary \<Rightarrow> state_badge" where
  "badge_of (StProcessor run_status) = BadgeProcessor (processor_status_from_wire run_status)"
| "badge_of (StControllerService st) = BadgeCs st (cs_state_from_wire st)"
| "badge_of (StProcessGroup _ _ invalid _) = BadgePg invalid"
| "badge_of (StConnection fill _ _ _ _ _ _) = BadgeConn fill"
| "badge_of _ = BadgePort"

definition path_to_root :: "tree_node list \<Rightarrow> nat \<Rightarrow> string option" where
  "path_to_root ns i = map_option (\<lambda>path. join ''/'' (rev (map (\<lambda>j. tn_name (ns ! j)) path))) (ancestors ns (Some i))"

definition group_path_of :: "tree_node list \<Rightarrow> tree_node \<Rightarrow> string option" where
  "group_path_of ns n = (case tn_parent n of None \<Rightarrow> Some ''(root)'' | Some p \<Rightarrow> path_to_root ns p)"

definition flow_entry :: "(string \<Rightarrow> string) \<Rightarrow> tree_node list \<Rightarrow> tree_node \<Rightarrow> flow_index_entry option" where
  "flow_entry lc ns n = map_option (\<lambda>group_path.
     \<lparr>fe_id = tn_id n, fe_group_id = tn_group_id n, fe_kind = tn_kind n, fe_name = tn_name n,
      fe_group_path = group_path, fe_state = badge_of (tn_status n),
      fe_haystack = lc (tn_name n @ ''   '' @ kind_label (tn_kind n) @ ''   '' @ group_path),
      fe_version_state = None\<rparr>) (group_path_of ns n)"

text \<open>\<open>None\<close> when a walk to the root would panic or not return.\<close>

fun all_some :: "'a option list \<Rightarrow> 'a list option" where
  "all_some [] = Some []"
| "all_some (None # xs) = None"
| "all_some (Some x # xs) = map_option (\<lambda>ys. x # ys) (all_some xs)"

definition build_flow_index :: "(string \<Rightarrow> string) \<Rightarrow> browser_tree \<Rightarrow> flow_index_entry list option" where
  "build_flow_index lc s =
     all_some (map (flow_entry lc (bt_nodes s)) (filter (\<lambda>n. \<not> is_folder (tn_kind n)) (bt_nodes s)))"

definition stamp_version :: "cluster_snapshot \<Rightarrow> flow_index_entry \<Rightarrow> flow_index_entry" where
  "stamp_version snap e = e\<lparr>fe_version_state :=
     (if fe_kind e = ProcessGroup then map_option vcs_state (version_control_for snap (fe_id e)) else None)\<rparr>"

definition redraw_version_control ::
  "cluster_snapshot \<Rightarrow> flow_index_entry list option \<Rightarrow> flow_index_entry list option" where
  "redraw_version_control snap flow = map_option (map (stamp_version snap)) flow"

section \<open>Rebuilding\<close>

text \<open>The tree and the flow index of the application after a cluster update.\<close>

definition rebuild_arena_from_cluster ::
  "(string \<Rightarrow> string) \<Rightarrow> int \<Rightarrow> cluster_snapshot \<Rightarrow> browser_tree \<times> flow_index_entry list option
   \<Rightarrow> (browser_tree \<times> flow_index_entry list option) option" where
  "rebuild_arena_from_cluster lc now snap st =
     (case es_latest (cl_root_pg_status snap) of
        None \<Rightarrow> Some st
      | Some root \<Rightarrow>
          Option.bind (apply_tree_snapshot (fst st)
             \<lparr>rs_nodes = assemble_nodes snap (rps_nodes root), rs_fetched_at = now\<rparr>) (\<lambda>t.
          Option.bind (build_flow_index lc t) (\<lambda>entries.
          Some ((case es_latest (cl_parameter_context_bindings snap) of
                   None \<Rightarrow> t
                 | Some m \<Rightarrow> apply_parameter_context_bindings m t),
                redraw_version_control snap (Some entries)))))"

section \<open>What is assembled\<close>

lemma backfill_frame [simp]:
  "rn_parent (backfill snap n) = rn_parent n" "rn_kind (backfill snap n) = rn_kind n"
  "rn_id (backfill snap n) = rn_id n" "rn_name (backfill snap n) = rn_name n"
  "rn_group_id (backfill snap n) = rn_group_id n"
  by (simp_all add: backfill_def split: option.split node_status_summary.split)

lemma pg_index_Some:
  assumes "pg_index nodes g = Some p"
  shows "p < length nodes" and "rn_kind (nodes ! p) = ProcessGroup" and "rn_id (nodes ! p) = g"
  using collect_map_in [OF assms [unfolded pg_index_def]] by (auto simp: map_filter_def split: if_splits)

lemma collect_map_None: "collect_map ps k = None \<longleftrightarrow> k \<notin> fst ` set ps"
  by (simp add: collect_map_def map_of_eq_None_iff)

lemma pg_index_None:
  "pg_index nodes g = None \<longleftrightarrow> \<not> (\<exists>n \<in> set nodes. rn_kind n = ProcessGroup \<and> rn_id n = g)"
proof -
  have "pg_index nodes g = None \<longleftrightarrow>
      \<not> (\<exists>i < length nodes. rn_kind (nodes ! i) = ProcessGroup \<and> rn_id (nodes ! i) = g)"
    unfolding pg_index_def collect_map_None by (auto simp: map_filter_def image_iff)
  then show ?thesis by (metis in_set_conv_nth)
qed

lemma assembled_links_back:
  assumes "links_back raws"
  shows "links_back (assemble_nodes snap raws)"
proof -
  let ?nodes = "map (backfill snap) raws"
  have "links_back ?nodes" using assms by (auto simp: links_back_def)
  moreover have "is_group_row ?nodes p" if "m \<in> set (service_rows ?nodes ms)" "rn_parent m = Some p" for m p ms
    using that pg_index_Some(1,2) [of ?nodes]
    by (auto simp: service_rows_def map_filter_def service_row_def is_group_row_def)
  ultimately show ?thesis
    unfolding assemble_nodes_def Let_def by (intro links_back_append) (auto split: option.splits)
qed

lemma assembled_length:
  "length (assemble_nodes snap raws) \<le> length raws +
     (case es_latest (cl_controller_services snap) of None \<Rightarrow> 0 | Some cs \<Rightarrow> length (css_members cs))"
  by (simp add: assemble_nodes_def Let_def service_rows_def map_filter_def split: option.split)

section \<open>Descent\<close>

text \<open>Folders come between a node and its group, so the links of the snapshot survive as paths.\<close>

lemma bucket_group_descends:
  assumes "children_agree ns" and "pg < length ns" and "(c, p) \<in> parent_rel ns"
  shows "(c, p) \<in> (parent_rel (bucket_group ns pg))\<^sup>+"
proof -
  note g = bucket_group_props [OF assms(1,2)]
  have c: "c < length ns" and p: "tn_parent (ns ! c) = Some p" using assms(3) by (auto simp: parent_rel_def)
  have len: "length ns \<le> folders_end ns pg" by (simp add: folder_positions)
  have up: "tn_parent (bucket_group ns pg ! c) = new_parent ns pg c" using g(2) [OF c] by simp
  show ?thesis
  proof (cases "new_parent ns pg c = tn_parent (ns ! c)")
    case True
    with c p up len g(1) show ?thesis by (intro r_into_trancl) (simp add: parent_rel_def)
  next
    case False
    have "\<exists>k f. c \<in> set (bucket ns pg k) \<and> new_parent ns pg c = Some f \<and> length ns \<le> f \<and> f < folders_end ns pg"
    proof (cases "c \<in> set (bucket ns pg Connection)")
      case True
      then have "bucket ns pg Connection \<noteq> []" by auto
      with True show ?thesis by (auto simp: new_parent_def folder_positions)
    next
      case queue: False
      with False have cs: "c \<in> set (bucket ns pg ControllerService)"
        by (auto simp: new_parent_def split: if_splits)
      then have "bucket ns pg ControllerService \<noteq> []" by auto
      with queue cs show ?thesis by (auto simp: new_parent_def folder_positions)
    qed
    then obtain k f where f: "c \<in> set (bucket ns pg k)" "new_parent ns pg c = Some f"
      "length ns \<le> f" "f < folders_end ns pg" by blast
    have "p = pg" using f(1) children_in_range [OF assms(1,2), of c] p by (simp add: bucket_set)
    moreover have "(c, f) \<in> parent_rel (bucket_group ns pg)"
      using c up f(2) len g(1) by (simp add: parent_rel_def)
    moreover have "(f, pg) \<in> parent_rel (bucket_group ns pg)"
      using g(1) g(3) [OF f(3,4)] f(4) by (simp add: parent_rel_def)
    ultimately show ?thesis by (blast intro: trancl_into_trancl)
  qed
qed

lemma synthesize_descends:
  assumes "arena_ok ns" and "\<forall>g \<in> set gs. g < length ns"
  shows "(parent_rel ns)\<^sup>+ \<subseteq> (parent_rel (foldl bucket_group ns gs))\<^sup>+"
  using assms
proof (induction gs arbitrary: ns)
  case (Cons g gs)
  then have g: "g < length ns" and agree: "children_agree ns" by (auto simp: arena_ok_def)
  have "parent_rel ns \<subseteq> (parent_rel (bucket_group ns g))\<^sup>+"
    using bucket_group_descends [OF agree g] by auto
  then have step: "(parent_rel ns)\<^sup>+ \<subseteq> (parent_rel (bucket_group ns g))\<^sup>+"
    by (metis trancl_mono trancl_id trans_trancl subrelI)
  have "length ns \<le> length (bucket_group ns g)"
    using bucket_group_extends [OF agree g] by (simp add: extends_def)
  with Cons.prems(2) have "\<forall>h \<in> set gs. h < length (bucket_group ns g)" by auto
  from Cons.IH [OF bucket_group_ok [OF Cons.prems(1) g] this] step show ?case by auto
qed simp

lemma build_arena_descends:
  assumes "links_back raws" and "build_arena raws = Some ns" and "i < length raws" and "rn_parent (raws ! i) = Some p"
  shows "(i, p) \<in> (parent_rel ns)\<^sup>+"
proof -
  let ?fresh = "map fresh_node raws"
  let ?linked = "linked (length raws) ?fresh"
  have rank: "ranked (\<lambda>i. i) ?fresh"
    using assms(1) by (force simp: ranked_def links_back_def fresh_node_def)
  then have link: "link_children ?fresh = Some ?linked"
    using link_children_eq [of ?fresh] by (auto simp: parents_in_range_def ranked_def)
  then have ns: "ns = synthesize_folders ?linked" using assms(2) by (simp add: build_arena_def)
  have "children_agree ?linked" using linked_agree [of ?fresh] by (auto simp: fresh_node_def)
  with linked_ranked [OF rank] have "arena_ok ?linked" by (auto simp: arena_ok_def)
  then have "(parent_rel ?linked)\<^sup>+ \<subseteq> (parent_rel ns)\<^sup>+"
    unfolding ns synthesize_folders_def by (rule synthesize_descends) (simp add: pg_indices_def)
  moreover have "(i, p) \<in> parent_rel ?linked"
    using assms(3,4) by (simp add: parent_rel_def fresh_node_def)
  ultimately show ?thesis by blast
qed

section \<open>The flow index\<close>

lemma all_some_map: "(\<And>x. x \<in> set xs \<Longrightarrow> f x = Some (g x)) \<Longrightarrow> all_some (map f xs) = Some (map g xs)"
  by (induction xs) simp_all

lemma group_path_total:
  assumes "arena_ok ns" and "n \<in> set ns"
  shows "group_path_of ns n \<noteq> None"
proof (cases "tn_parent n")
  case None
  then show ?thesis by (simp add: group_path_of_def)
next
  case (Some p)
  obtain d where d: "ranked d ns" using assms(1) arena_ranked by blast
  obtain i where i: "i < length ns" "ns ! i = n" using assms(2) by (auto simp: in_set_conv_nth)
  with ancestors_correct [OF d i(1), of "{}"] Some show ?thesis
    by (auto simp: group_path_of_def path_to_root_def simp del: ancestors_simps)
qed

definition entry_of :: "(string \<Rightarrow> string) \<Rightarrow> tree_node list \<Rightarrow> tree_node \<Rightarrow> flow_index_entry" where
  "entry_of lc ns n = the (flow_entry lc ns n)"

lemma build_flow_index_total:
  assumes "arena_ok (bt_nodes t)"
  shows "build_flow_index lc t = Some (map (entry_of lc (bt_nodes t))
    (filter (\<lambda>n. \<not> is_folder (tn_kind n)) (bt_nodes t)))"
  unfolding build_flow_index_def
proof (rule all_some_map)
  fix n assume "n \<in> set (filter (\<lambda>n. \<not> is_folder (tn_kind n)) (bt_nodes t))"
  then have "group_path_of (bt_nodes t) n \<noteq> None" using group_path_total [OF assms] by simp
  then show "flow_entry lc (bt_nodes t) n = Some (entry_of lc (bt_nodes t) n)"
    by (auto simp: flow_entry_def entry_of_def)
qed

lemma entry_of_fields:
  assumes "arena_ok ns" and "n \<in> set ns"
  shows "fe_id (entry_of lc ns n) = tn_id n" and "fe_kind (entry_of lc ns n) = tn_kind n"
    and "fe_name (entry_of lc ns n) = tn_name n"
  using group_path_total [OF assms] by (auto simp: entry_of_def flow_entry_def)


section \<open>The tab after a cluster update\<close>

definition member_list :: "cluster_snapshot \<Rightarrow> cs_member list" where
  "member_list snap = (case es_latest (cl_controller_services snap) of None \<Rightarrow> [] | Some cs \<Rightarrow> css_members cs)"

lemma assemble_eq:
  "assemble_nodes snap raws = map (backfill snap) raws @ service_rows (map (backfill snap) raws) (member_list snap)"
  by (simp add: assemble_nodes_def member_list_def Let_def service_rows_def map_filter_def split: option.split)

lemma assembled_service:
  assumes "m \<in> set (member_list snap)"
    and "\<exists>n \<in> set raws. rn_kind n = ProcessGroup \<and> rn_id n = csm_parent_group_id m"
  shows "\<exists>i p. i < length (assemble_nodes snap raws) \<and> p < length (assemble_nodes snap raws) \<and>
     assemble_nodes snap raws ! i = service_row p m \<and>
     rn_kind (assemble_nodes snap raws ! p) = ProcessGroup \<and>
     rn_id (assemble_nodes snap raws ! p) = csm_parent_group_id m"
proof -
  let ?nodes = "map (backfill snap) raws" and ?all = "assemble_nodes snap raws"
  have "pg_index ?nodes (csm_parent_group_id m) \<noteq> None"
    using assms(2) by (simp add: pg_index_None)
  then obtain p where p: "pg_index ?nodes (csm_parent_group_id m) = Some p" by blast
  then have "service_row p m \<in> set (service_rows ?nodes (member_list snap))"
    using assms(1) by (force simp: service_rows_def map_filter_def)
  then have "service_row p m \<in> set ?all" by (simp add: assemble_eq)
  then obtain i where "i < length ?all" "?all ! i = service_row p m" by (auto simp: in_set_conv_nth)
  moreover have "p < length ?all" "?all ! p = ?nodes ! p"
    using pg_index_Some(1) [OF p] by (simp_all add: assemble_eq nth_append)
  ultimately show ?thesis
    using pg_index_Some(2,3) [OF p] by (intro exI [of _ i] exI [of _ p] conjI) simp_all
qed


definition bound_tree :: "cluster_snapshot \<Rightarrow> browser_tree \<Rightarrow> browser_tree" where
  "bound_tree snap t = (case es_latest (cl_parameter_context_bindings snap) of
     None \<Rightarrow> t | Some m \<Rightarrow> apply_parameter_context_bindings m t)"

definition stamped_index :: "(string \<Rightarrow> string) \<Rightarrow> cluster_snapshot \<Rightarrow> browser_tree \<Rightarrow> flow_index_entry list" where
  "stamped_index lc snap t =
     map (stamp_version snap) (map (entry_of lc (bt_nodes t)) (filter (\<lambda>n. \<not> is_folder (tn_kind n)) (bt_nodes t)))"

definition index_view :: "tree_node \<Rightarrow> string \<times> node_kind \<times> string" where
  "index_view n = (tn_id n, tn_kind n, tn_name n)"

definition listed_nodes :: "browser_tree \<Rightarrow> tree_node list" where
  "listed_nodes t = filter (\<lambda>n. \<not> is_folder (tn_kind n)) (bt_nodes t)"

lemma stamp_view [simp]: "index_view (stamp_binding m n) = index_view n"
  by (simp add: index_view_def stamp_binding_def)

lemma bound_tree_frame:
  "browser_ok t \<Longrightarrow> browser_ok (bound_tree snap t)"
  "length (bt_nodes (bound_tree snap t)) = length (bt_nodes t)"
  "i < length (bt_nodes t) \<Longrightarrow> node_key (bt_nodes (bound_tree snap t) ! i) = node_key (bt_nodes t ! i)"
  "parent_rel (bt_nodes (bound_tree snap t)) = parent_rel (bt_nodes t)"
  "map index_view (listed_nodes (bound_tree snap t)) = map index_view (listed_nodes t)"
  using apply_bindings_browser [of t]
  by (auto simp: bound_tree_def apply_parameter_context_bindings_def parent_rel_def listed_nodes_def filter_map o_def
      split: option.splits)

lemma stamped_index_eq:
  "stamped_index lc snap t = map (stamp_version snap) (map (entry_of lc (bt_nodes t)) (listed_nodes t))"
  by (simp add: stamped_index_def listed_nodes_def)

lemma stamped_index_view:
  assumes "arena_ok (bt_nodes t)"
  shows "map (\<lambda>e. (fe_id e, fe_kind e, fe_name e)) (stamped_index lc snap t) = map index_view (listed_nodes t)"
  unfolding stamped_index_eq
  using entry_of_fields [OF assms] by (auto simp: stamp_version_def index_view_def listed_nodes_def)

lemma stamped_index_version:
  "e \<in> set (stamped_index lc snap t) \<Longrightarrow> fe_version_state e =
     (if fe_kind e = ProcessGroup then map_option vcs_state (version_control_for snap (fe_id e)) else None)"
  by (auto simp: stamped_index_def stamp_version_def)

lemma arena_of_key:
  assumes "arena_of raws ns" and "i < length raws"
  shows "i < length ns" and "node_key (ns ! i) = (rn_id (raws ! i), rn_kind (raws ! i))"
proof -
  have ext: "extends (map fresh_node raws) ns" using assms(1) by (simp add: arena_of_def)
  then show "i < length ns" using assms(2) by (simp add: extends_def)
  from ext assms(2) have "node_data (ns ! i) = node_data (fresh_node (raws ! i))" by (simp add: extends_def)
  then show "node_key (ns ! i) = (rn_id (raws ! i), rn_kind (raws ! i))"
    by (simp add: node_data_def node_key_def fresh_node_def)
qed

lemma service_below_group:
  assumes "links_back raws" and "build_arena (assemble_nodes snap raws) = Some ns" and "m \<in> set (member_list snap)"
    and "\<exists>n \<in> set raws. rn_kind n = ProcessGroup \<and> rn_id n = csm_parent_group_id m"
  shows "\<exists>i p. i < length ns \<and> p < length ns \<and> node_key (ns ! i) = (csm_id m, ControllerService)
     \<and> node_key (ns ! p) = (csm_parent_group_id m, ProcessGroup) \<and> (i, p) \<in> (parent_rel ns)\<^sup>+"
proof -
  let ?all = "assemble_nodes snap raws"
  obtain i p where i: "i < length ?all" "p < length ?all" "?all ! i = service_row p m"
    "rn_kind (?all ! p) = ProcessGroup" "rn_id (?all ! p) = csm_parent_group_id m"
    using assembled_service [OF assms(3,4)] by blast
  have links: "links_back ?all" by (rule assembled_links_back [OF assms(1)])
  have arena: "arena_of ?all ns" using build_arena_ok [OF links] assms(2) by simp
  have "(i, p) \<in> (parent_rel ns)\<^sup>+"
    by (rule build_arena_descends [OF links assms(2) i(1)]) (simp add: i(3) service_row_def)
  with i arena_of_key [OF arena i(1)] arena_of_key [OF arena i(2)] show ?thesis
    by (intro exI [of _ i] exI [of _ p]) (simp add: service_row_def)
qed

lemma rebuilt_tree:
  assumes "es_latest (cl_root_pg_status snap) = Some root" and "links_back (rps_nodes root)"
    and "3 * (length (rps_nodes root) + length (member_list snap)) \<le> usize_max"
  obtains t where "browser_ok t" and "arena_of (assemble_nodes snap (rps_nodes root)) (bt_nodes t)"
    and "build_arena (assemble_nodes snap (rps_nodes root)) = Some (bt_nodes t)"
    and "rebuild_arena_from_cluster lc now snap (s, flow) = Some (bound_tree snap t, Some (stamped_index lc snap t))"
proof -
  let ?raws = "assemble_nodes snap (rps_nodes root)"
  let ?snap = "\<lparr>rs_nodes = ?raws, rs_fetched_at = now\<rparr>"
  have "length ?raws \<le> length (rps_nodes root) + length (member_list snap)"
    using assembled_length [of snap "rps_nodes root"] by (simp add: member_list_def split: option.splits)
  with assms(3) assembled_links_back [OF assms(2)] have fits: "snapshot_fits ?snap"
    by (simp add: snapshot_fits_def)
  obtain t where t: "apply_tree_snapshot s ?snap = Some t" "browser_ok t" "arena_of ?raws (bt_nodes t)"
    using snapshot_builds_tree [OF fits, of s] by auto
  have "build_arena ?raws = Some (bt_nodes t)"
    using t(1) by (auto simp: apply_tree_snapshot_def bind_eq_Some_conv rebuild_visible_def Let_def)
  moreover have "arena_ok (bt_nodes t)" using t(3) by (simp add: arena_of_def)
  ultimately show ?thesis
    using t assms(1) that by (simp add: rebuild_arena_from_cluster_def build_flow_index_total redraw_version_control_def
        bound_tree_def stamped_index_def cong: option.case_cong)
qed


text \<open>
  C13: after a cluster update that carries a status, the Browser tab, in whatever state it
  was, holds a well-formed tree of the whole flow: every row of the status is at its index,
  every controller service whose group exists has a node below that group, and the flow
  index lists the nodes of the tree that are not folders, in tree order, each process group with its current
  version state and nothing else with one.
\<close>

theorem cluster_snapshot_rebuilds_tab:
  assumes "es_latest (cl_root_pg_status snap) = Some (root_pg_status_from_aggregate d)"
    and "rows = rps_nodes (root_pg_status_from_aggregate d)"
    and "3 * (length rows + length (member_list snap)) \<le> usize_max"
  shows "\<exists>t entries. rebuild_arena_from_cluster lc now snap (s, flow) = Some (t, Some entries) \<and> browser_ok t
    \<and> (\<forall>i < length rows. node_key (bt_nodes t ! i) = (rn_id (rows ! i), rn_kind (rows ! i)))
    \<and> (\<forall>m \<in> set (member_list snap). (\<exists>n \<in> set rows. rn_kind n = ProcessGroup \<and> rn_id n = csm_parent_group_id m) \<longrightarrow>
         (\<exists>i p. i < length (bt_nodes t) \<and> node_key (bt_nodes t ! i) = (csm_id m, ControllerService)
            \<and> p < length (bt_nodes t) \<and> node_key (bt_nodes t ! p) = (csm_parent_group_id m, ProcessGroup)
            \<and> (i, p) \<in> (parent_rel (bt_nodes t))\<^sup>+))
    \<and> map (\<lambda>e. (fe_id e, fe_kind e, fe_name e)) entries = map index_view (listed_nodes t)
    \<and> (\<forall>e \<in> set entries. fe_version_state e =
         (if fe_kind e = ProcessGroup then map_option vcs_state (version_control_for snap (fe_id e)) else None))"
proof -
  have links: "links_back rows" unfolding assms(2) using status_nodes_form_tree [of d] by blast
  obtain t where t: "browser_ok t" "arena_of (assemble_nodes snap rows) (bt_nodes t)"
    "build_arena (assemble_nodes snap rows) = Some (bt_nodes t)"
    "rebuild_arena_from_cluster lc now snap (s, flow) = Some (bound_tree snap t, Some (stamped_index lc snap t))"
    using rebuilt_tree [OF assms(1), where s = s and lc = lc and now = now and flow = flow] links assms(2,3) by blast
  let ?t = "bound_tree snap t"
  have keys: "node_key (bt_nodes ?t ! i) = (rn_id (rows ! i), rn_kind (rows ! i))" if "i < length rows" for i
    using arena_of_key [OF t(2), of i] that by (simp add: assemble_eq nth_append bound_tree_frame(3))
  have service: "\<exists>i p. i < length (bt_nodes ?t) \<and> node_key (bt_nodes ?t ! i) = (csm_id m, ControllerService)
      \<and> p < length (bt_nodes ?t) \<and> node_key (bt_nodes ?t ! p) = (csm_parent_group_id m, ProcessGroup)
      \<and> (i, p) \<in> (parent_rel (bt_nodes ?t))\<^sup>+"
    if "m \<in> set (member_list snap)" "\<exists>n \<in> set rows. rn_kind n = ProcessGroup \<and> rn_id n = csm_parent_group_id m" for m
    using service_below_group [OF links t(3) that] bound_tree_frame(2-4) [where t = t and snap = snap] by metis
  have "arena_ok (bt_nodes t)" using t(2) by (simp add: arena_of_def)
  then have "map (\<lambda>e. (fe_id e, fe_kind e, fe_name e)) (stamped_index lc snap t) = map index_view (listed_nodes ?t)"
    by (simp add: stamped_index_view bound_tree_frame(5))
  with t(4) bound_tree_frame(1) [OF t(1)] keys service stamped_index_version [of _ lc snap t] show ?thesis by blast
qed

definition sample_member :: cs_member where
  "sample_member = \<lparr>csm_id = ''cs'', csm_name = ''pool'', csm_state = ''ENABLED'', csm_parent_group_id = ''child''\<rparr>"

definition sample_cluster :: cluster_snapshot where
  "sample_cluster = (with_bulletins_capacity 1)\<lparr>
     cl_root_pg_status := Ready (root_pg_status_from_aggregate sample_status)
       \<lparr>fm_fetched_at = 0, fm_fetch_duration = 0, fm_next_interval = 0\<rparr>,
     cl_controller_services := Ready \<lparr>css_counts = \<lparr>csn_enabled = 1, csn_disabled = 0, csn_invalid = 0\<rparr>,
       css_members = [sample_member]\<rparr>
       \<lparr>fm_fetched_at = 0, fm_fetch_duration = 0, fm_next_interval = 0\<rparr>\<rparr>"

lemma cluster_snapshot_rebuilds_tab_witness:
  "\<exists>t entries. rebuild_arena_from_cluster (\<lambda>x. x) 0 sample_cluster (browser_default, None) = Some (t, Some entries)
    \<and> browser_ok t \<and> node_key (bt_nodes t ! 2) = (''child'', ProcessGroup)
    \<and> (\<exists>i p. node_key (bt_nodes t ! i) = (''cs'', ControllerService)
          \<and> node_key (bt_nodes t ! p) = (''child'', ProcessGroup) \<and> (i, p) \<in> (parent_rel (bt_nodes t))\<^sup>+)"
proof -
  let ?rows = "rps_nodes (root_pg_status_from_aggregate sample_status)"
  have rows: "length ?rows = 3" "rn_kind (?rows ! 2) = ProcessGroup" "rn_id (?rows ! 2) = ''child''"
    by (simp_all add: from_aggregate_fields sample_status_def walk_pg_nodes.simps Let_def pg_row_def
      leaf_rows_def processor_row_def present_def List.map_filter_def)
  have snap: "es_latest (cl_root_pg_status sample_cluster) = Some (root_pg_status_from_aggregate sample_status)"
    "member_list sample_cluster = [sample_member]"
    by (simp_all add: sample_cluster_def member_list_def)
  have "?rows ! 2 \<in> set ?rows" by (rule nth_mem) (simp add: rows(1))
  with rows(2,3) have "\<exists>n \<in> set ?rows. rn_kind n = ProcessGroup \<and> rn_id n = csm_parent_group_id sample_member"
    by (intro bexI [of _ "?rows ! 2"]) (simp_all add: sample_member_def)
  with cluster_snapshot_rebuilds_tab [OF snap(1) refl, of "\<lambda>x. x" 0 browser_default None] rows snap(2)
  show ?thesis by (fastforce simp: usize_max_def sample_member_def)
qed

end
