(* ===== verification/Queue_Listing.thy ===== *)
theory Queue_Listing
  imports Modal_Search Scroll "HOL-Library.AList"
begin

text \<open>
  The flowfile listing of a connection and the peek modal on one flowfile
  (\<open>src/src/view/browser/state/queue_listing.rs\<close>, and the \<open>peek_search_*\<close> operations of
  \<open>src/src/view/browser/state/mod.rs\<close>).

  Unicode lower-casing is the parameter \<open>lc\<close>. A duration is a number of milliseconds. The
  handles of the listing and peek workers are not part of the state. The attribute map is
  an association list in the order of the \<open>BTreeMap\<close>.
\<close>

section \<open>State\<close>

record queue_listing_row =
  qr_uuid :: string
  qr_filename :: "string option"
  qr_size :: nat
  qr_queued_duration :: nat
  qr_position :: nat
  qr_penalized :: bool
  qr_cluster_node_id :: "string option"
  qr_lineage_duration :: nat

record content_claim_summary =
  cc_container :: string
  cc_section :: string
  cc_identifier :: string
  cc_offset :: nat
  cc_file_size :: nat

record peek_identity =
  pi_uuid :: string
  pi_filename :: "string option"
  pi_size :: nat
  pi_mime_type :: "string option"
  pi_content_claim :: "content_claim_summary option"
  pi_cluster_node_id :: "string option"
  pi_lineage_duration :: nat
  pi_penalized :: bool

record peek_state =
  pk_uuid :: string
  pk_queue_id :: string
  pk_cluster_node_id :: "string option"
  pk_identity :: peek_identity
  pk_attrs :: "(string \<times> string) list option"
  pk_error :: "string option"
  pk_scroll :: vertical_scroll
  pk_search :: "search_state option"

record queue_listing =
  ql_queue_id :: string
  ql_queue_name :: string
  ql_request_id :: "string option"
  ql_percent :: nat
  ql_rows :: "queue_listing_row list"
  ql_count :: nat
  ql_truncated :: bool
  ql_fetched_at :: "int option"
  ql_filter :: "string option"
  ql_filter_prompt :: "string option"
  ql_selected :: nat
  ql_error :: "string option"
  ql_timed_out :: bool
  ql_peek :: "peek_state option"

definition queue_listing_pending :: "string \<Rightarrow> string \<Rightarrow> queue_listing" where
  "queue_listing_pending queue_id queue_name =
     \<lparr>ql_queue_id = queue_id, ql_queue_name = queue_name, ql_request_id = None, ql_percent = 0,
      ql_rows = [], ql_count = 0, ql_truncated = False, ql_fetched_at = None, ql_filter = None,
      ql_filter_prompt = None, ql_selected = 0, ql_error = None, ql_timed_out = False, ql_peek = None\<rparr>"

section \<open>Visible rows and selection\<close>

definition filter_admits :: "(string \<Rightarrow> string) \<Rightarrow> string option \<Rightarrow> queue_listing_row \<Rightarrow> bool" where
  "filter_admits lc flt row =
     (case flt of None \<Rightarrow> True
      | Some needle \<Rightarrow> (case qr_filename row of None \<Rightarrow> False | Some n \<Rightarrow> str_contains (lc n) needle))"

definition visible_indices :: "(string \<Rightarrow> string) \<Rightarrow> queue_listing \<Rightarrow> nat list" where
  "visible_indices lc s =
     filter (\<lambda>i. filter_admits lc (ql_filter s) (ql_rows s ! i)) [0..<length (ql_rows s)]"

definition clamp_selection :: "(string \<Rightarrow> string) \<Rightarrow> queue_listing \<Rightarrow> queue_listing" where
  "clamp_selection lc s =
     (let visible = visible_indices lc s in
      if visible = [] then s\<lparr>ql_selected := 0\<rparr>
      else if ql_selected s \<ge> length visible then s\<lparr>ql_selected := length visible - 1\<rparr> else s)"

definition selected_uuid :: "(string \<Rightarrow> string) \<Rightarrow> queue_listing \<Rightarrow> string option" where
  "selected_uuid lc s =
     Option.bind (get_at (visible_indices lc s) (ql_selected s))
       (\<lambda>i. map_option qr_uuid (get_at (ql_rows s) i))"

definition visible_index_for_uuid :: "(string \<Rightarrow> string) \<Rightarrow> string \<Rightarrow> queue_listing \<Rightarrow> nat option" where
  "visible_index_for_uuid lc uuid s =
     position (\<lambda>i. case get_at (ql_rows s) i of None \<Rightarrow> False | Some r \<Rightarrow> qr_uuid r = uuid)
       (visible_indices lc s)"

section \<open>Payloads\<close>

text \<open>Each answers whether it was for this queue.\<close>

definition apply_progress :: "string \<Rightarrow> nat \<Rightarrow> queue_listing \<Rightarrow> bool \<times> queue_listing" where
  "apply_progress queue_id percent s =
     (if ql_queue_id s \<noteq> queue_id then (False, s)
      else (True, s\<lparr>ql_percent := percent, ql_error := None\<rparr>))"

definition apply_complete ::
  "(string \<Rightarrow> string) \<Rightarrow> int \<Rightarrow> string \<Rightarrow> queue_listing_row list \<Rightarrow> nat \<Rightarrow> bool \<Rightarrow> queue_listing
   \<Rightarrow> bool \<times> queue_listing" where
  "apply_complete lc now queue_id rows count truncated s =
     (if ql_queue_id s \<noteq> queue_id then (False, s)
      else let prior_uuid = selected_uuid lc s;
               t = s\<lparr>ql_rows := rows, ql_count := count, ql_truncated := truncated, ql_percent := 100,
                     ql_fetched_at := Some now, ql_error := None, ql_timed_out := False\<rparr>
           in (True,
               case Option.bind prior_uuid (\<lambda>u. visible_index_for_uuid lc u t) of
                 Some i \<Rightarrow> t\<lparr>ql_selected := i\<rparr>
               | None \<Rightarrow> clamp_selection lc t))"

definition apply_listing_error :: "string \<Rightarrow> string \<Rightarrow> queue_listing \<Rightarrow> bool \<times> queue_listing" where
  "apply_listing_error queue_id msg s =
     (if ql_queue_id s \<noteq> queue_id then (False, s)
      else (True, s\<lparr>ql_error := Some msg, ql_percent := 0\<rparr>))"

definition apply_timeout :: "string \<Rightarrow> queue_listing \<Rightarrow> bool \<times> queue_listing" where
  "apply_timeout queue_id s =
     (if ql_queue_id s \<noteq> queue_id then (False, s)
      else (True, s\<lparr>ql_timed_out := True, ql_error := Some ''listing timeout'', ql_percent := 0\<rparr>))"

section \<open>The filter\<close>

definition set_filter :: "(string \<Rightarrow> string) \<Rightarrow> string option \<Rightarrow> queue_listing \<Rightarrow> queue_listing" where
  "set_filter lc flt s =
     clamp_selection lc (s\<lparr>ql_filter :=
       (case map_option (\<lambda>f. lc (trim f)) flt of
          Some f \<Rightarrow> if f \<noteq> [] then Some f else None
        | None \<Rightarrow> None)\<rparr>)"

definition open_filter_prompt :: "queue_listing \<Rightarrow> queue_listing" where
  "open_filter_prompt s = (if ql_filter_prompt s = None then s\<lparr>ql_filter_prompt := Some []\<rparr> else s)"

definition push_filter_char :: "string \<Rightarrow> queue_listing \<Rightarrow> queue_listing" where
  "push_filter_char c s = s\<lparr>ql_filter_prompt := map_option (\<lambda>d. d @ c) (ql_filter_prompt s)\<rparr>"

definition backspace_filter_char :: "queue_listing \<Rightarrow> queue_listing" where
  "backspace_filter_char s = s\<lparr>ql_filter_prompt := map_option pop_char (ql_filter_prompt s)\<rparr>"

definition commit_filter_prompt :: "(string \<Rightarrow> string) \<Rightarrow> queue_listing \<Rightarrow> queue_listing" where
  "commit_filter_prompt lc s =
     (case ql_filter_prompt s of
        None \<Rightarrow> s
      | Some draft \<Rightarrow> set_filter lc (Some draft) (s\<lparr>ql_filter_prompt := None\<rparr>))"

definition cancel_filter_prompt :: "queue_listing \<Rightarrow> queue_listing" where
  "cancel_filter_prompt s = s\<lparr>ql_filter_prompt := None\<rparr>"

section \<open>The peek modal\<close>

definition peek_from_row :: "string \<Rightarrow> queue_listing_row \<Rightarrow> peek_state" where
  "peek_from_row queue_id row =
     \<lparr>pk_uuid = qr_uuid row, pk_queue_id = queue_id, pk_cluster_node_id = qr_cluster_node_id row,
      pk_identity = \<lparr>pi_uuid = qr_uuid row, pi_filename = qr_filename row, pi_size = qr_size row,
        pi_mime_type = None, pi_content_claim = None, pi_cluster_node_id = qr_cluster_node_id row,
        pi_lineage_duration = qr_lineage_duration row, pi_penalized = qr_penalized row\<rparr>,
      pk_attrs = None, pk_error = None, pk_scroll = \<lparr>vs_offset = 0, vs_rows = 0\<rparr>, pk_search = None\<rparr>"

definition apply_peek ::
  "string \<Rightarrow> string \<Rightarrow> (string \<times> string) list \<Rightarrow> content_claim_summary option \<Rightarrow> string option
   \<Rightarrow> peek_state \<Rightarrow> bool \<times> peek_state" where
  "apply_peek queue_id uuid attrs claim mime p =
     (if pk_queue_id p \<noteq> queue_id \<or> pk_uuid p \<noteq> uuid then (False, p)
      else (True, p\<lparr>pk_attrs := Some attrs,
             pk_identity := (pk_identity p)\<lparr>pi_content_claim := claim, pi_mime_type := mime\<rparr>,
             pk_error := None\<rparr>))"

definition apply_peek_error :: "string \<Rightarrow> string \<Rightarrow> string \<Rightarrow> peek_state \<Rightarrow> bool \<times> peek_state" where
  "apply_peek_error queue_id uuid err p =
     (if pk_queue_id p \<noteq> queue_id \<or> pk_uuid p \<noteq> uuid then (False, p)
      else (True, p\<lparr>pk_error := Some err\<rparr>))"

definition peek_open_search :: "peek_state \<Rightarrow> peek_state" where
  "peek_open_search p = p\<lparr>pk_search := Some search_new\<rparr>"

definition peek_close_search :: "peek_state \<Rightarrow> peek_state" where
  "peek_close_search p = p\<lparr>pk_search := None\<rparr>"

text \<open>Unlike the other modals these two do not ask whether the search is committed.\<close>

definition cycle_search_next :: "peek_state \<Rightarrow> peek_state" where
  "cycle_search_next p =
     (case pk_search p of
        None \<Rightarrow> p
      | Some q \<Rightarrow>
          if ss_matches q = [] then p
          else p\<lparr>pk_search := Some (q\<lparr>ss_current := Some
            (case ss_current q of Some i \<Rightarrow> (i + 1) mod length (ss_matches q) | None \<Rightarrow> 0)\<rparr>)\<rparr>)"

definition cycle_search_prev :: "peek_state \<Rightarrow> peek_state" where
  "cycle_search_prev p =
     (case pk_search p of
        None \<Rightarrow> p
      | Some q \<Rightarrow>
          if ss_matches q = [] then p
          else p\<lparr>pk_search := Some (q\<lparr>ss_current := Some
            (case ss_current q of
               None \<Rightarrow> length (ss_matches q) - 1
             | Some i \<Rightarrow> if i = 0 then length (ss_matches q) - 1 else i - 1)\<rparr>)\<rparr>)"

text \<open>\<open>{k:<40}\<close> pads with blanks to forty characters; characters are counted, not bytes.\<close>

definition char_count :: "string \<Rightarrow> nat" where
  "char_count s = length (filter (\<lambda>c. \<not> is_cont c) s)"

definition pad_right :: "nat \<Rightarrow> string \<Rightarrow> string" where
  "pad_right n s = s @ replicate (n - char_count s) CHR '' ''"

definition peek_searchable_body :: "peek_state \<Rightarrow> string" where
  "peek_searchable_body p =
     (case pk_attrs p of
        None \<Rightarrow> []
      | Some attrs \<Rightarrow> concat (map (\<lambda>(k, v). pad_right 40 k @ v @ [CHR 0x0A]) attrs))"

definition map_peek :: "(peek_state \<Rightarrow> peek_state) \<Rightarrow> queue_listing \<Rightarrow> queue_listing" where
  "map_peek f s = s\<lparr>ql_peek := map_option f (ql_peek s)\<rparr>"

definition peek_host :: "queue_listing search_host" where
  "peek_host =
     \<lparr>sh_open = (\<lambda>s. ql_peek s \<noteq> None),
      sh_search = (\<lambda>s. Option.bind (ql_peek s) pk_search),
      sh_set = (\<lambda>q. map_peek (\<lambda>p. p\<lparr>pk_search := q\<rparr>)),
      sh_body = (\<lambda>s. case ql_peek s of None \<Rightarrow> [] | Some p \<Rightarrow> peek_searchable_body p)\<rparr>"

definition peek_search_push :: "string \<Rightarrow> queue_listing \<Rightarrow> queue_listing" where
  "peek_search_push = host_push peek_host"

definition peek_search_pop :: "queue_listing \<Rightarrow> queue_listing" where
  "peek_search_pop = host_pop peek_host"

definition peek_search_commit :: "queue_listing \<Rightarrow> queue_listing" where
  "peek_search_commit = host_commit peek_host"

definition peek_search_cancel :: "queue_listing \<Rightarrow> queue_listing" where
  "peek_search_cancel = host_cancel peek_host"

definition open_queue_listing_peek_modal :: "(string \<Rightarrow> string) \<Rightarrow> queue_listing \<Rightarrow> queue_listing" where
  "open_queue_listing_peek_modal lc s =
     (case get_at (visible_indices lc s) (ql_selected s) of
        None \<Rightarrow> s
      | Some i \<Rightarrow>
          (case get_at (ql_rows s) i of
             None \<Rightarrow> s
           | Some row \<Rightarrow> s\<lparr>ql_peek := Some (peek_from_row (ql_queue_id s) row)\<rparr>))"

definition close_queue_listing_peek_modal :: "queue_listing \<Rightarrow> queue_listing" where
  "close_queue_listing_peek_modal s = s\<lparr>ql_peek := None\<rparr>"

interpretation peek_search: modal_search peek_host
  by unfold_locales
    (auto simp: peek_host_def map_peek_def peek_searchable_body_def bind_eq_Some_conv split: option.splits)

section \<open>Moving the cursor\<close>

text \<open>The listing arm of the focus handler: \<open>None\<close> for the actions it does not take.\<close>

datatype focus_action =
    FaUp | FaDown | FaLeft | FaRight | FaPageUp | FaPageDown | FaFirst | FaLast
  | FaDescend | FaAscend | FaNextPane | FaPrevPane

definition listing_move :: "focus_action \<Rightarrow> nat \<Rightarrow> nat \<Rightarrow> nat option" where
  "listing_move action bound sel =
     (case action of
        FaUp \<Rightarrow> Some (sel - 1)
      | FaDown \<Rightarrow> Some (min (sel + 1) bound)
      | FaPageUp \<Rightarrow> Some (sel - 10)
      | FaPageDown \<Rightarrow> Some (min (sel + 10) bound)
      | FaFirst \<Rightarrow> Some 0
      | FaLast \<Rightarrow> Some bound
      | _ \<Rightarrow> None)"

definition listing_focus :: "(string \<Rightarrow> string) \<Rightarrow> focus_action \<Rightarrow> queue_listing \<Rightarrow> queue_listing option" where
  "listing_focus lc action s =
     (let visible_count = length (visible_indices lc s) in
      if visible_count = 0 then None
      else map_option (\<lambda>i. s\<lparr>ql_selected := i\<rparr>) (listing_move action (visible_count - 1) (ql_selected s)))"

section \<open>The invariant\<close>

definition listing_ok :: "(string \<Rightarrow> string) \<Rightarrow> queue_listing \<Rightarrow> bool" where
  "listing_ok lc s \<longleftrightarrow>
     visible_indices lc s = [] \<or> ql_selected s < length (visible_indices lc s)"

text \<open>
  \<open>BrowserQueueVerb\<close> refresh: the old request is dropped and the panel emptied, the cursor
  kept. A new request id is stored when it is for this queue.
\<close>

definition refresh_listing :: "queue_listing \<Rightarrow> queue_listing" where
  "refresh_listing s = s\<lparr>ql_request_id := None, ql_rows := [], ql_count := 0, ql_truncated := False,
     ql_percent := 0, ql_error := None, ql_timed_out := False\<rparr>"

definition assign_request_id :: "string \<Rightarrow> string \<Rightarrow> queue_listing \<Rightarrow> queue_listing" where
  "assign_request_id queue_id request_id s =
     (if ql_queue_id s = queue_id then s\<lparr>ql_request_id := Some request_id\<rparr> else s)"

text \<open>The operations of the panel as commands.\<close>

datatype listing_cmd =
    LProgress string nat | LComplete int string "queue_listing_row list" nat bool
  | LError string string | LTimeout string | LOpenFilter | LPushFilter string | LPopFilter
  | LCommitFilter | LCancelFilter | LClearFilter | LFocus focus_action | LOpenPeek | LClosePeek
  | LPeekSearch search_cmd | LPeekNext | LPeekPrev | LRefresh | LRequestId string string
  | LPeekLoaded string string "(string \<times> string) list" "content_claim_summary option" "string option"
  | LPeekFailed string string string

fun listing_apply :: "(string \<Rightarrow> string) \<Rightarrow> queue_listing \<Rightarrow> listing_cmd \<Rightarrow> queue_listing" where
  "listing_apply lc s (LProgress q p) = snd (apply_progress q p s)"
| "listing_apply lc s (LComplete now q rows c t) = snd (apply_complete lc now q rows c t s)"
| "listing_apply lc s (LError q m) = snd (apply_listing_error q m s)"
| "listing_apply lc s (LTimeout q) = snd (apply_timeout q s)"
| "listing_apply lc s LOpenFilter = open_filter_prompt s"
| "listing_apply lc s (LPushFilter c) = push_filter_char c s"
| "listing_apply lc s LPopFilter = backspace_filter_char s"
| "listing_apply lc s LCommitFilter = commit_filter_prompt lc s"
| "listing_apply lc s LCancelFilter = cancel_filter_prompt s"
| "listing_apply lc s LClearFilter = set_filter lc None s"
| "listing_apply lc s (LFocus a) = (case listing_focus lc a s of None \<Rightarrow> s | Some t \<Rightarrow> t)"
| "listing_apply lc s LOpenPeek = open_queue_listing_peek_modal lc s"
| "listing_apply lc s LClosePeek = close_queue_listing_peek_modal s"
| "listing_apply lc s (LPeekSearch c) = search_apply peek_host s c"
| "listing_apply lc s LPeekNext = map_peek cycle_search_next s"
| "listing_apply lc s LPeekPrev = map_peek cycle_search_prev s"
| "listing_apply lc s LRefresh = refresh_listing s"
| "listing_apply lc s (LRequestId q r) = assign_request_id q r s"
| "listing_apply lc s (LPeekLoaded q u attrs claim mime) = map_peek (\<lambda>p. snd (apply_peek q u attrs claim mime p)) s"
| "listing_apply lc s (LPeekFailed q u err) = map_peek (\<lambda>p. snd (apply_peek_error q u err p)) s"

lemma visible_cong:
  "ql_rows s = ql_rows t \<Longrightarrow> ql_filter s = ql_filter t \<Longrightarrow> visible_indices lc s = visible_indices lc t"
  by (simp add: visible_indices_def)

lemma listing_ok_cong:
  "ql_rows s = ql_rows t \<Longrightarrow> ql_filter s = ql_filter t \<Longrightarrow> ql_selected s = ql_selected t \<Longrightarrow>
     listing_ok lc s = listing_ok lc t"
  by (simp add: listing_ok_def visible_cong [of s t])

lemma clamp_ok: "listing_ok lc (clamp_selection lc s)"
proof -
  have "visible_indices lc (s\<lparr>ql_selected := k\<rparr>) = visible_indices lc s" for k
    by (rule visible_cong) simp_all
  then show ?thesis by (auto simp: clamp_selection_def listing_ok_def Let_def)
qed

lemma complete_ok:
  assumes "listing_ok lc s"
  shows "listing_ok lc (snd (apply_complete lc now q rows c t s))"
proof (cases "ql_queue_id s = q")
  case True
  let ?t = "s\<lparr>ql_rows := rows, ql_count := c, ql_truncated := t, ql_percent := 100,
      ql_fetched_at := Some now, ql_error := None, ql_timed_out := False\<rparr>"
  have "listing_ok lc (?t\<lparr>ql_selected := i\<rparr>)" if "visible_index_for_uuid lc u ?t = Some i" for u i
  proof -
    have "i < length (visible_indices lc ?t)"
      using position_Some that unfolding visible_index_for_uuid_def by blast
    moreover have "visible_indices lc (?t\<lparr>ql_selected := i\<rparr>) = visible_indices lc ?t"
      by (rule visible_cong) simp_all
    ultimately show ?thesis by (auto simp: listing_ok_def)
  qed
  then show ?thesis
    using True clamp_ok [of lc ?t]
    by (auto simp: apply_complete_def Let_def bind_eq_Some_conv split: option.split)
qed (use assms in \<open>simp add: apply_complete_def\<close>)

lemma listing_move_range:
  "0 < n \<Longrightarrow> sel < n \<Longrightarrow> listing_move a (n - 1) sel = Some i \<Longrightarrow> i < n"
  by (cases a) (auto simp: listing_move_def)

lemma focus_ok:
  assumes "listing_ok lc s" and "listing_focus lc a s = Some t"
  shows "listing_ok lc t"
proof -
  let ?n = "length (visible_indices lc s)"
  from assms(2) obtain i where i: "0 < ?n" "listing_move a (?n - 1) (ql_selected s) = Some i"
    "t = s\<lparr>ql_selected := i\<rparr>"
    by (auto simp: listing_focus_def Let_def split: if_splits)
  have "visible_indices lc t = visible_indices lc s" by (rule visible_cong) (simp_all add: i(3))
  with i assms(1) listing_move_range [OF i(1) _ i(2)] show ?thesis
    by (auto simp: listing_ok_def split: if_splits)
qed

lemma search_frame:
  "ql_rows (search_apply peek_host s c) = ql_rows s"
  "ql_filter (search_apply peek_host s c) = ql_filter s"
  "ql_selected (search_apply peek_host s c) = ql_selected s"
  by (cases c; simp add: host_defs peek_host_def map_peek_def Let_def split: option.split)+

lemma listing_apply_ok:
  assumes "listing_ok lc s"
  shows "listing_ok lc (listing_apply lc s c)"
proof -
  have same: "listing_ok lc t" if "ql_rows t = ql_rows s" "ql_filter t = ql_filter s"
    "ql_selected t = ql_selected s" for t
    using assms listing_ok_cong [OF that] by simp
  show ?thesis
  proof (cases c)
    case (LComplete now q rows n t)
    with complete_ok [OF assms] show ?thesis by simp
  next
    case LCommitFilter
    then show ?thesis
      using assms clamp_ok by (simp add: commit_filter_prompt_def set_filter_def split: option.split)
  next
    case LClearFilter
    then show ?thesis using clamp_ok by (simp add: set_filter_def)
  next
    case (LFocus a)
    then show ?thesis using assms focus_ok [OF assms, of a] by (simp split: option.split)
  next
    case LOpenPeek
    then show ?thesis
      by (intro same) (simp_all add: open_queue_listing_peek_modal_def split: option.split)
  next
    case (LPeekSearch x)
    then show ?thesis by (intro same) (simp_all add: search_frame)
  next
    case LRefresh
    then show ?thesis by (simp add: listing_ok_def refresh_listing_def visible_indices_def)
  qed (intro same; simp add: map_peek_def assign_request_id_def; fail | intro same; simp add: apply_progress_def apply_listing_error_def apply_timeout_def
        open_filter_prompt_def push_filter_char_def backspace_filter_char_def
        cancel_filter_prompt_def close_queue_listing_peek_modal_def)+
qed

lemma listing_run_ok: "listing_ok lc s \<Longrightarrow> listing_ok lc (foldl (listing_apply lc) s cs)"
  by (induction cs arbitrary: s) (simp_all add: listing_apply_ok)

lemma pending_ok: "listing_ok lc (queue_listing_pending q n)"
  by (simp add: listing_ok_def queue_listing_pending_def visible_indices_def)

text \<open>
  Whatever sequence of worker answers, refreshes, filter input, cursor moves and peeks
  follows the opening of a listing, the selected row is one of the visible rows whenever there
  is one.
\<close>

theorem queue_listing_selection_valid:
  "let s = foldl (listing_apply lc) (queue_listing_pending queue_id queue_name) cs
   in visible_indices lc s = [] \<or> ql_selected s < length (visible_indices lc s)"
  using listing_run_ok [OF pending_ok] by (simp add: listing_ok_def Let_def)

lemma selected_uuid_visible:
  assumes "visible_index_for_uuid lc u s = Some i"
  shows "selected_uuid lc (s\<lparr>ql_selected := i\<rparr>) = Some u"
proof -
  have "visible_indices lc (s\<lparr>ql_selected := i\<rparr>) = visible_indices lc s" by (rule visible_cong) simp_all
  with position_Some [OF assms [unfolded visible_index_for_uuid_def]] show ?thesis
    by (auto simp: selected_uuid_def get_at_lt split: option.splits)
qed

text \<open>
  A refreshed listing keeps the cursor on the same flowfile as long as the flowfile is
  still there and visible.
\<close>

theorem refresh_keeps_flowfile:
  assumes "ql_queue_id s = queue_id" and "selected_uuid lc s = Some u"
    and "i < length rows" and "qr_uuid (rows ! i) = u" and "filter_admits lc (ql_filter s) (rows ! i)"
  shows "selected_uuid lc (snd (apply_complete lc now queue_id rows count truncated s)) = Some u"
proof -
  let ?t = "s\<lparr>ql_rows := rows, ql_count := count, ql_truncated := truncated, ql_percent := 100,
      ql_fetched_at := Some now, ql_error := None, ql_timed_out := False\<rparr>"
  have "i \<in> set (visible_indices lc ?t)" using assms(3,5) by (simp add: visible_indices_def)
  then have "visible_index_for_uuid lc u ?t \<noteq> None"
    using assms(3,4) unfolding visible_index_for_uuid_def position_None
    by (auto simp: get_at_lt intro!: bexI [of _ i])
  then obtain k where "visible_index_for_uuid lc u ?t = Some k" by blast
  with selected_uuid_visible [OF this] assms(1,2) show ?thesis
    by (simp add: apply_complete_def Let_def)
qed

definition sample_ff :: "string \<Rightarrow> queue_listing_row" where
  "sample_ff u = \<lparr>qr_uuid = u, qr_filename = None, qr_size = 0, qr_queued_duration = 0,
     qr_position = 0, qr_penalized = False, qr_cluster_node_id = None, qr_lineage_duration = 0\<rparr>"

lemma refresh_keeps_flowfile_witness:
  "selected_uuid (\<lambda>x. x) (snd (apply_complete (\<lambda>x. x) 7 ''q'' [sample_ff ''b'', sample_ff ''a''] 2 False
     ((queue_listing_pending ''q'' ''n'')\<lparr>ql_rows := [sample_ff ''a'']\<rparr>))) = Some ''a''"
  by (rule refresh_keeps_flowfile [where i = 1])
    (simp_all add: queue_listing_pending_def selected_uuid_def visible_indices_def filter_admits_def
      sample_ff_def get_at_lt)

text \<open>
  The refresh key empties the rows before it asks for new ones, so the answer has no
  flowfile to return to: the cursor on \<open>b\<close> is on \<open>a\<close> after a refresh, though \<open>b\<close> is listed.
\<close>

theorem refresh_key_loses_flowfile:
  "let s = (queue_listing_pending ''q'' ''n'')\<lparr>ql_rows := [sample_ff ''a'', sample_ff ''b''], ql_selected := 1\<rparr>;
       answer = LComplete 7 ''q'' [sample_ff ''b'', sample_ff ''a''] 2 False
   in selected_uuid (\<lambda>x. x) s = Some ''b''
    \<and> selected_uuid (\<lambda>x. x) (listing_apply (\<lambda>x. x) s answer) = Some ''b''
    \<and> selected_uuid (\<lambda>x. x) (foldl (listing_apply (\<lambda>x. x)) s [LRefresh, answer]) = Some ''a''"
  by code_simp

end
