(* ===== verification/Param_Context.thy ===== *)
theory Param_Context
  imports Queue_Listing Client_Types Status_History
begin

text \<open>
  Parameter contexts: following the inheritance of a bound context
  (\<open>fetch_chain\<close> in \<open>src/src/client/parameter_context.rs\<close>), resolving which of the inherited
  parameters wins, and the text of the parameter-context modal that is searched
  (\<open>src/src/view/browser/state/parameter_context_modal.rs\<close>).

  The HTTP request for one context is the argument \<open>fetch\<close>: \<open>Inl\<close> the error text, \<open>Inr\<close> the
  component of the entity. It answers the same for the whole walk. The depth cap of the source
  is the fuel of the loop.
\<close>

section \<open>Fetching the chain\<close>

record parameter_dto =
  pdt_name :: "string option"
  pdt_value :: "string option"
  pdt_description :: "string option"
  pdt_sensitive :: "bool option"
  pdt_provided :: "bool option"

record context_dto =
  cdt_name :: "string option"
  cdt_parameters :: "parameter_dto option list option"
  cdt_inherited :: "string option list option"

record parameter_entry =
  pe_name :: string
  pe_value :: "string option"
  pe_description :: "string option"
  pe_sensitive :: bool
  pe_provided :: bool

record context_node =
  cn_id :: string
  cn_name :: string
  cn_parameters :: "parameter_entry list"
  cn_inherited_ids :: "string list"
  cn_fetch_error :: "string option"

datatype chain_result = ChainLoaded "context_node list" | BoundFailed string

definition max_chain_depth :: nat where
  "max_chain_depth = 16"

definition entry_of_dto :: "parameter_dto \<Rightarrow> parameter_entry" where
  "entry_of_dto p =
     (let sensitive = (pdt_sensitive p = Some True)
      in \<lparr>pe_name = or_empty (pdt_name p), pe_value = (if sensitive then None else pdt_value p),
          pe_description = pdt_description p, pe_sensitive = sensitive,
          pe_provided = (pdt_provided p = Some True)\<rparr>)"

definition inherited_of :: "context_dto option \<Rightarrow> string list" where
  "inherited_of component =
     List.map_filter (\<lambda>i. i) (or_empty (Option.bind component cdt_inherited))"

definition fetched_node :: "string \<Rightarrow> context_dto option \<Rightarrow> context_node" where
  "fetched_node i component =
     \<lparr>cn_id = i,
      cn_name = (case Option.bind component cdt_name of None \<Rightarrow> i | Some name \<Rightarrow> name),
      cn_parameters = map entry_of_dto
        (List.map_filter (\<lambda>p. p) (or_empty (Option.bind component cdt_parameters))),
      cn_inherited_ids = inherited_of component, cn_fetch_error = None\<rparr>"

definition error_node :: "string \<Rightarrow> string \<Rightarrow> context_node" where
  "error_node i err = \<lparr>cn_id = i, cn_name = i, cn_parameters = [], cn_inherited_ids = [], cn_fetch_error = Some err\<rparr>"

text \<open>The ids of a frontier that were not visited, which are marked as they are found.\<close>

fun unvisited :: "string set \<Rightarrow> string list \<Rightarrow> string list" where
  "unvisited visited [] = []"
| "unvisited visited (i # is) =
     (if i \<in> visited then unvisited visited is else i # unvisited (insert i visited) is)"

fun chain_level ::
  "(string \<Rightarrow> string + context_dto option) \<Rightarrow> string \<Rightarrow> string set \<Rightarrow> string list
   \<Rightarrow> string + context_node list \<times> string list" where
  "chain_level fetch bound visited [] = Inr ([], [])"
| "chain_level fetch bound visited (i # is) =
     (case fetch i of
        Inr component \<Rightarrow>
          bind_result (chain_level fetch bound visited is) (\<lambda>(ns, nxt).
            Inr (fetched_node i component # ns,
                 filter (\<lambda>j. j \<notin> visited) (inherited_of component) @ nxt))
      | Inl err \<Rightarrow>
          if i = bound then Inl err
          else bind_result (chain_level fetch bound visited is) (\<lambda>(ns, nxt).
            Inr (error_node i err # ns, nxt)))"

primrec chain_loop ::
  "(string \<Rightarrow> string + context_dto option) \<Rightarrow> string \<Rightarrow> nat \<Rightarrow> string set \<Rightarrow> context_node list \<Rightarrow> string list
   \<Rightarrow> chain_result" where
  "chain_loop fetch bound 0 visited nodes frontier = ChainLoaded nodes"
| "chain_loop fetch bound (Suc k) visited nodes frontier =
     (if frontier = [] then ChainLoaded nodes
      else let unique = unvisited visited frontier;
               visited' = visited \<union> set unique
           in case chain_level fetch bound visited' unique of
                Inl err \<Rightarrow> BoundFailed err
              | Inr (ns, nxt) \<Rightarrow> chain_loop fetch bound k visited' (nodes @ ns) nxt)"

definition fetch_chain :: "(string \<Rightarrow> string + context_dto option) \<Rightarrow> string \<Rightarrow> chain_result" where
  "fetch_chain fetch bound = chain_loop fetch bound max_chain_depth {} [] [bound]"

section \<open>Resolving\<close>

record resolved_parameter =
  rp_winner :: parameter_entry
  rp_winner_context :: string
  rp_shadowed :: "(parameter_entry \<times> string) list"
  rp_unresolved :: bool

definition resolve_entry ::
  "string \<Rightarrow> (string \<times> resolved_parameter) list \<Rightarrow> parameter_entry \<Rightarrow> (string \<times> resolved_parameter) list" where
  "resolve_entry ctx by_name e =
     (if map_of by_name (pe_name e) = None
      then by_name @ [(pe_name e, \<lparr>rp_winner = e, rp_winner_context = ctx, rp_shadowed = [], rp_unresolved = False\<rparr>)]
      else map (\<lambda>(name, r). (name, if name = pe_name e
                                   then r\<lparr>rp_shadowed := rp_shadowed r @ [(e, ctx)]\<rparr> else r)) by_name)"

definition em_dash :: string where
  "em_dash = [CHR 0xE2, CHR 0x80, CHR 0x94]"

definition unresolved_row :: "string \<Rightarrow> resolved_parameter" where
  "unresolved_row name =
     \<lparr>rp_winner = \<lparr>pe_name = name, pe_value = None, pe_description = None, pe_sensitive = False, pe_provided = False\<rparr>,
      rp_winner_context = em_dash, rp_shadowed = [], rp_unresolved = True\<rparr>"

text \<open>The values of a \<open>BTreeMap\<close> come in the order of its keys.\<close>

definition resolve_params :: "context_node list \<Rightarrow> string option \<Rightarrow> resolved_parameter list" where
  "resolve_params chain preselect =
     (let by_name = foldl (\<lambda>m n. foldl (resolve_entry (cn_name n)) m (cn_parameters n)) [] chain;
          rows = map snd (sort_key fst by_name)
      in case preselect of
           None \<Rightarrow> rows
         | Some name \<Rightarrow> if list_ex (\<lambda>r. pe_name (rp_winner r) = name) rows then rows
                        else unresolved_row name # rows)"

section \<open>What the walk reaches\<close>

text \<open>The contexts a context inherits from directly, as far as it can be fetched.\<close>

definition inherits :: "(string \<Rightarrow> string + context_dto option) \<Rightarrow> (string \<times> string) set" where
  "inherits fetch = {(i, j). \<exists>component. fetch i = Inr component \<and> j \<in> set (inherited_of component)}"

definition node_for :: "(string \<Rightarrow> string + context_dto option) \<Rightarrow> string \<Rightarrow> context_node" where
  "node_for fetch i = (case fetch i of Inl err \<Rightarrow> error_node i err | Inr component \<Rightarrow> fetched_node i component)"

text \<open>The contexts at fewer than \<open>n\<close> steps from the bound one.\<close>

primrec reached :: "(string \<Rightarrow> string + context_dto option) \<Rightarrow> string \<Rightarrow> nat \<Rightarrow> string set" where
  "reached fetch bound 0 = {}"
| "reached fetch bound (Suc n) = insert bound (inherits fetch `` reached fetch bound n)"

lemma reached_relpow: "reached fetch bound n = {i. \<exists>k < n. (bound, i) \<in> inherits fetch ^^ k}"
proof (induction n)
  case (Suc n)
  have "(\<exists>k < Suc n. (bound, i) \<in> inherits fetch ^^ k) \<longleftrightarrow>
      i = bound \<or> (\<exists>k < n. \<exists>j. (bound, j) \<in> inherits fetch ^^ k \<and> (j, i) \<in> inherits fetch)" for i
  proof
    assume "\<exists>k < Suc n. (bound, i) \<in> inherits fetch ^^ k"
    then obtain k where k: "k < Suc n" "(bound, i) \<in> inherits fetch ^^ k" by blast
    then show "i = bound \<or> (\<exists>k < n. \<exists>j. (bound, j) \<in> inherits fetch ^^ k \<and> (j, i) \<in> inherits fetch)"
      by (cases k) auto
  next
    assume "i = bound \<or> (\<exists>k < n. \<exists>j. (bound, j) \<in> inherits fetch ^^ k \<and> (j, i) \<in> inherits fetch)"
    then show "\<exists>k < Suc n. (bound, i) \<in> inherits fetch ^^ k"
    proof
      assume "i = bound"
      then show ?thesis by (intro exI [of _ 0]) simp
    next
      assume "\<exists>k < n. \<exists>j. (bound, j) \<in> inherits fetch ^^ k \<and> (j, i) \<in> inherits fetch"
      then obtain k j where "k < n" "(bound, j) \<in> inherits fetch ^^ k" "(j, i) \<in> inherits fetch" by blast
      then show ?thesis by (intro exI [of _ "Suc k"]) auto
    qed
  qed
  then show ?case by (auto simp: Suc.IH)
qed simp

lemma reached_mono: "reached fetch bound n \<subseteq> reached fetch bound (Suc n)"
  by (auto simp: reached_relpow intro: less_SucI)





lemma chain_is_reachable_contexts_nodes:
  "fetch_chain fetch bound = ChainLoaded ns \<Longrightarrow> set ns \<subseteq> range (node_for fetch)"
proof -
  assume "fetch_chain fetch bound = ChainLoaded ns"
  moreover have "set ns \<subseteq> range (node_for fetch) \<union> set nodes"
    if "chain_loop fetch bound k visited nodes frontier = ChainLoaded ns" for k visited nodes frontier
    using that
  proof (induction k arbitrary: visited nodes frontier)
    case (Suc k)
    have level: "ms = map (node_for fetch) is"
      if "chain_level fetch bound visited is = Inr (ms, nxt)" for visited "is" ms nxt
      using that
      by (induction "is" arbitrary: ms nxt) (auto simp: node_for_def split: sum.splits if_splits)
    from Suc.prems show ?case
      by (fastforce simp: Let_def split: if_splits sum.splits dest: Suc.IH level)
  qed simp
  ultimately show ?thesis by (force simp: fetch_chain_def)
qed

text \<open>
  C38: no value of a sensitive parameter leaves the client: whatever the server sends, every
  entry of a fetched chain that is marked sensitive is without a value.
\<close>

theorem sensitive_values_never_fetched:
  "{(n, e). \<exists>ns. fetch_chain fetch bound = ChainLoaded ns \<and> n \<in> set ns \<and> e \<in> set (cn_parameters n)
      \<and> pe_sensitive e \<and> pe_value e \<noteq> None} = {}"
proof -
  have "pe_value e = None" if "e \<in> set (cn_parameters (node_for fetch i))" "pe_sensitive e" for i e
    using that
    by (auto simp: node_for_def error_node_def fetched_node_def entry_of_dto_def Let_def split: sum.splits)
  then show ?thesis using chain_is_reachable_contexts_nodes [of fetch bound] by (fastforce split: sum.splits)
qed

section \<open>The first context wins\<close>

definition chain_entries :: "context_node list \<Rightarrow> (parameter_entry \<times> string) list" where
  "chain_entries chain = concat (map (\<lambda>n. map (\<lambda>e. (e, cn_name n)) (cn_parameters n)) chain)"

definition named :: "string \<Rightarrow> (parameter_entry \<times> string) list \<Rightarrow> (parameter_entry \<times> string) list" where
  "named name es = filter (\<lambda>(e, _). pe_name e = name) es"

definition winning_row :: "(parameter_entry \<times> string) list \<Rightarrow> resolved_parameter" where
  "winning_row es =
     \<lparr>rp_winner = fst (hd es), rp_winner_context = snd (hd es), rp_shadowed = tl es, rp_unresolved = False\<rparr>"

definition entry_names :: "(parameter_entry \<times> string) list \<Rightarrow> string set" where
  "entry_names es = (\<lambda>(e, _). pe_name e) ` set es"

lemma named_empty: "named name es = [] \<longleftrightarrow> name \<notin> entry_names es"
  by (auto simp: named_def entry_names_def filter_empty_conv)

lemma resolve_fold:
  "foldl (\<lambda>m n. foldl (resolve_entry (cn_name n)) m (cn_parameters n)) m chain
     = foldl (\<lambda>m (e, ctx). resolve_entry ctx m e) m (chain_entries chain)"
proof (induction chain arbitrary: m)
  case (Cons n chain)
  have "foldl (resolve_entry (cn_name n)) m es
      = foldl (\<lambda>m (e, ctx). resolve_entry ctx m e) m (map (\<lambda>e. (e, cn_name n)) es)" for m es
    by (induction es arbitrary: m) simp_all
  then show ?case using Cons by (simp add: chain_entries_def)
qed (simp add: chain_entries_def)

lemma map_of_upd_values: "map_of (map (\<lambda>(k, v). (k, f k v)) m) k = map_option (f k) (map_of m k)"
  by (induction m) auto

lemma map_fst_values: "map fst (map (\<lambda>(k, v). (k, f k v)) m) = map fst m"
  by (induction m) auto

lemma resolve_rows:
  defines "run \<equiv> foldl (\<lambda>m (e, ctx). resolve_entry ctx m e) []"
  shows "distinct (map fst (run es)) \<and>
    (\<forall>name. map_of (run es) name = (if name \<in> entry_names es then Some (winning_row (named name es)) else None))"
  unfolding run_def
proof (induction es rule: rev_induct)
  case Nil
  then show ?case by (simp add: entry_names_def)
next
  case (snoc x es)
  obtain e ctx where x: "x = (e, ctx)" by (cases x)
  let ?m = "foldl (\<lambda>m (e, ctx). resolve_entry ctx m e) [] es"
  have dist: "distinct (map fst ?m)" and rows: "\<And>name. map_of ?m name =
      (if name \<in> entry_names es then Some (winning_row (named name es)) else None)" using snoc by auto
  have names: "entry_names (es @ [x]) = insert (pe_name e) (entry_names es)" by (auto simp: entry_names_def x)
  show ?case
  proof (cases "pe_name e \<in> entry_names es")
    case False
    then have new: "map_of ?m (pe_name e) = None" by (simp add: rows)
    then have "pe_name e \<notin> set (map fst ?m)" by (simp add: map_of_eq_None_iff)
    moreover have "named (pe_name e) es = []" using False by (simp add: named_empty)
    moreover have "resolve_entry ctx ?m e = ?m @ [(pe_name e,
        \<lparr>rp_winner = e, rp_winner_context = ctx, rp_shadowed = [], rp_unresolved = False\<rparr>)]"
      using new by (simp add: resolve_entry_def [of ctx ?m])
    ultimately show ?thesis
      using dist new rows names
      by (auto simp: x map_add_def named_def winning_row_def split: option.splits)
  next
    case True
    then have "named (pe_name e) es \<noteq> []" by (simp add: named_empty)
    then have "winning_row (named (pe_name e) es @ [(e, ctx)]) =
        (winning_row (named (pe_name e) es))
          \<lparr>rp_shadowed := rp_shadowed (winning_row (named (pe_name e) es)) @ [(e, ctx)]\<rparr>"
      by (simp add: winning_row_def)
    moreover have "named name (es @ [x]) = named name es @ (if pe_name e = name then [(e, ctx)] else [])" for name
      by (simp add: named_def x)
    moreover have "resolve_entry ctx ?m e =
      map (\<lambda>(name, r). (name, if name = pe_name e
        then r\<lparr>rp_shadowed := rp_shadowed r @ [(e, ctx)]\<rparr> else r)) ?m"
      using True by (simp add: resolve_entry_def [of ctx ?m] rows)
    ultimately show ?thesis
      using dist rows names True by (simp add: x map_of_upd_values map_fst_values insert_absorb del: map_map)
  qed
qed

text \<open>
  Resolving gives one row per parameter name of the chain, in the order of the names: the
  entry of the first context in the chain that declares it wins, the others follow it in
  chain order as shadowed. A preselected name that no context declares comes first, marked
  unresolved.
\<close>

theorem resolve_first_context_wins:
  "resolve_params chain preselect =
     (case preselect of
        None \<Rightarrow> []
      | Some name \<Rightarrow> if name \<in> entry_names (chain_entries chain) then [] else [unresolved_row name])
     @ map (\<lambda>name. winning_row (named name (chain_entries chain)))
         (sorted_list_of_set (entry_names (chain_entries chain)))"
proof -
  let ?es = "chain_entries chain"
  let ?m = "foldl (\<lambda>m n. foldl (resolve_entry (cn_name n)) m (cn_parameters n)) [] chain"
  have dist: "distinct (map fst ?m)" and rows: "\<And>name. map_of ?m name =
      (if name \<in> entry_names ?es then Some (winning_row (named name ?es)) else None)"
    using resolve_rows [of ?es] by (simp_all add: resolve_fold)
  have keys: "fst ` set ?m = entry_names ?es"
    using rows by (metis (no_types, lifting) map_of_eq_None_iff option.distinct(1) set_eqI)
  have sorted: "map fst (sort_key fst ?m) = sorted_list_of_set (entry_names ?es)"
    using sort_key_fst_distinct [OF dist] keys by simp
  have "snd p = winning_row (named (fst p) ?es)" if "p \<in> set ?m" for p
  proof -
    have "map_of ?m (fst p) = Some (snd p)" using dist that by simp
    then show ?thesis by (simp add: rows split: if_splits)
  qed
  then have "map snd (sort_key fst ?m) = map (\<lambda>name. winning_row (named name ?es)) (map fst (sort_key fst ?m))"
    by simp
  then have all: "map snd (sort_key fst ?m)
      = map (\<lambda>name. winning_row (named name ?es)) (sorted_list_of_set (entry_names ?es))"
    unfolding sorted .
  have "pe_name (rp_winner (winning_row (named name ?es))) = name" if "name \<in> entry_names ?es" for name
  proof -
    from that have "named name ?es \<noteq> []" by (simp add: named_empty)
    then have "hd (named name ?es) \<in> set (named name ?es)" by simp
    then show ?thesis by (auto simp: winning_row_def named_def)
  qed
  moreover have "finite (entry_names ?es)" by (simp add: entry_names_def)
  ultimately have "list_ex (\<lambda>r. pe_name (rp_winner r) = name) (map snd (sort_key fst ?m))
      \<longleftrightarrow> name \<in> entry_names ?es" for name
    unfolding all by (auto simp: list_ex_iff)
  then show ?thesis unfolding resolve_params_def Let_def all by (simp split: option.split)
qed

end
