(* ===== verification/Access_Audit.thy ===== *)
theory Access_Audit
  imports Browser_Detail Scroll
begin

text \<open>
  The access auditor: the five axes and their policy resources, the answers of the policy
  endpoint and what they say of the authorizer (\<open>src/src/client/access.rs\<close>), the matrix of the
  access modal (\<open>src/src/view/browser/state/access_modal.rs\<close>) and the grants of the identity modal
  (\<open>src/src/view/browser/state/identity_modal.rs\<close>).

  A hash map from axes to cells is a partial function; the map from identity ids to rows is an
  association list in order of insertion (the source iterates over it in an unspecified order,
  which shows only in the order of rows with equal identities). Unicode lower-casing is the
  argument \<open>lc\<close>.
\<close>

section \<open>Axes\<close>

datatype axis = ViewComponent | ModifyComponent | ViewData | Operate | ManagePolicies

definition axis_all :: "axis list" where
  "axis_all = [ViewComponent, ModifyComponent, ViewData, Operate, ManagePolicies]"

fun axis_header :: "axis \<Rightarrow> string" where
  "axis_header ViewComponent = ''view''"
| "axis_header ModifyComponent = ''mod''"
| "axis_header ViewData = ''data''"
| "axis_header Operate = ''oper''"
| "axis_header ManagePolicies = ''pol''"

definition axis_action :: "axis \<Rightarrow> string" where
  "axis_action a = (if a \<in> {ViewComponent, ViewData} then ''read'' else ''write'')"

fun resource_prefix :: "axis \<Rightarrow> string" where
  "resource_prefix ViewComponent = ''''"
| "resource_prefix ModifyComponent = ''''"
| "resource_prefix ViewData = ''/data''"
| "resource_prefix Operate = ''/operate''"
| "resource_prefix ManagePolicies = ''/policies''"

definition applies_to :: "axis \<Rightarrow> node_kind \<Rightarrow> bool" where
  "applies_to a kind \<longleftrightarrow> \<not> is_folder kind \<and>
     (case a of
        ViewData \<Rightarrow> kind \<in> {ProcessGroup, Processor, InputPort, OutputPort, Connection}
      | Operate \<Rightarrow> kind \<in> {ProcessGroup, Processor, InputPort, OutputPort, RemoteProcessGroup}
      | _ \<Rightarrow> True)"

fun node_kind_resource :: "node_kind \<Rightarrow> string" where
  "node_kind_resource ProcessGroup = ''process-groups''"
| "node_kind_resource Processor = ''processors''"
| "node_kind_resource ControllerService = ''controller-services''"
| "node_kind_resource InputPort = ''input-ports''"
| "node_kind_resource OutputPort = ''output-ports''"
| "node_kind_resource RemoteProcessGroup = ''remote-process-groups''"
| "node_kind_resource Connection = ''connections''"
| "node_kind_resource (Folder _) = ''''"

definition axis_resource :: "axis \<Rightarrow> node_kind \<Rightarrow> string \<Rightarrow> string option" where
  "axis_resource a kind i =
     (if applies_to a kind then Some (resource_prefix a @ ''/'' @ node_kind_resource kind @ ''/'' @ i) else None)"

section \<open>Answers\<close>

record tenant_ref =
  tr_id :: string
  tr_identity :: string
  tr_member_count :: "nat option"

datatype axis_outcome =
    AoDirect "tenant_ref list" "tenant_ref list"
  | AoInherited string "tenant_ref list" "tenant_ref list"
  | AoNone
  | AoForbidden
  | AoError string
  | AoNotApplicable

text \<open>What the client library answers: the fields of the entities that are read, and its errors.\<close>

record tenant_entity =
  te_id :: "string option"
  te_component_identity :: "string option option"

record access_policy_component =
  apc_resource :: "string option"
  apc_action :: "string option"
  apc_users :: "tenant_entity list option"
  apc_user_groups :: "tenant_entity list option"

datatype policy_error = PeNotFound | PeForbidden | PeOther string

definition tenant_ref_from_entity :: "tenant_entity \<Rightarrow> tenant_ref" where
  "tenant_ref_from_entity e =
     \<lparr>tr_id = or_empty (te_id e), tr_identity = or_empty (Option.bind (te_component_identity e) (\<lambda>i. i)),
      tr_member_count = None\<rparr>"

fun translate_response :: "policy_error + access_policy_component option \<Rightarrow> string \<Rightarrow> axis_outcome" where
  "translate_response (Inr None) requested = AoNone"
| "translate_response (Inr (Some c)) requested =
     (let actual = or_empty (apc_resource c);
          users = map tenant_ref_from_entity (or_empty (apc_users c));
          groups = map tenant_ref_from_entity (or_empty (apc_user_groups c))
      in if actual = requested then AoDirect users groups else AoInherited actual users groups)"
| "translate_response (Inl PeNotFound) requested = AoNone"
| "translate_response (Inl PeForbidden) requested = AoForbidden"
| "translate_response (Inl (PeOther msg)) requested = AoError msg"

text \<open>
  \<open>policies action path\<close> is the answer of the policy endpoint; the leading slashes of the
  resource are stripped for the request.
\<close>

definition fetch_axis ::
  "(string \<Rightarrow> string \<Rightarrow> policy_error + access_policy_component option) \<Rightarrow> axis \<Rightarrow> node_kind \<Rightarrow> string \<Rightarrow> axis_outcome" where
  "fetch_axis policies a kind i =
     (case axis_resource a kind i of
        None \<Rightarrow> AoNotApplicable
      | Some resource \<Rightarrow>
          translate_response (policies (axis_action a) (dropWhile (\<lambda>c. c = CHR ''/'') resource)) resource)"

definition fetch_component_access ::
  "(string \<Rightarrow> string \<Rightarrow> policy_error + access_policy_component option) \<Rightarrow> node_kind \<Rightarrow> string \<Rightarrow> axis \<Rightarrow> axis_outcome option" where
  "fetch_component_access policies kind i a = Some (fetch_axis policies a kind i)"

section \<open>Whether access can be audited\<close>

datatype access_audit_state = AuditUnknown | AuditSupported | AuditUnsupported

definition no_authorizer :: "(string \<Rightarrow> string) \<Rightarrow> string \<Rightarrow> bool" where
  "no_authorizer lc body \<longleftrightarrow>
     str_contains (lc body) ''no authorizer'' \<or> str_contains (lc body) ''not configurable''
     \<or> str_contains (lc body) ''access is denied. contact the system administrator''"

fun observe_audit_state ::
  "(string \<Rightarrow> string) \<Rightarrow> access_audit_state \<Rightarrow> axis_outcome \<Rightarrow> access_audit_state" where
  "observe_audit_state lc current (AoDirect _ _) = AuditSupported"
| "observe_audit_state lc current (AoInherited _ _ _) = AuditSupported"
| "observe_audit_state lc current AoNone = AuditSupported"
| "observe_audit_state lc current (AoError body) =
     (if current = AuditUnknown \<and> no_authorizer lc body then AuditUnsupported else current)"
| "observe_audit_state lc current _ = current"

text \<open>The fold runs over the values of a hash map, so over some permutation \<open>order\<close> of the axes.\<close>

definition fold_audit ::
  "(string \<Rightarrow> string) \<Rightarrow> axis list \<Rightarrow> (axis \<Rightarrow> axis_outcome option) \<Rightarrow> access_audit_state \<Rightarrow> access_audit_state" where
  "fold_audit lc order outcomes current =
     foldl (observe_audit_state lc) current (List.map_filter outcomes order)"

section \<open>The matrix\<close>

datatype matrix_cell = McDirect | McInherited string | McNone | McForbidden | McError | McNotApplicable

record matrix_row =
  mr_tenant :: tenant_ref
  mr_is_group :: bool
  mr_cells :: "axis \<Rightarrow> matrix_cell option"

definition upsert_cell ::
  "bool \<Rightarrow> axis \<Rightarrow> matrix_cell \<Rightarrow> (string \<times> matrix_row) list \<Rightarrow> tenant_ref \<Rightarrow> (string \<times> matrix_row) list" where
  "upsert_cell is_group a cell by_id t =
     (let by_id' = (if map_of by_id (tr_id t) = None
                    then by_id @ [(tr_id t, \<lparr>mr_tenant = t, mr_is_group = is_group, mr_cells = (\<lambda>_. None)\<rparr>)]
                    else by_id)
      in map (\<lambda>(i, r). (i, if i = tr_id t then r\<lparr>mr_cells := (mr_cells r)(a \<mapsto> cell)\<rparr> else r)) by_id')"

fun outcome_tenants :: "axis_outcome \<Rightarrow> (tenant_ref \<times> bool) list" where
  "outcome_tenants (AoDirect users groups) = map (\<lambda>u. (u, False)) users @ map (\<lambda>g. (g, True)) groups"
| "outcome_tenants (AoInherited source users groups) = map (\<lambda>u. (u, False)) users @ map (\<lambda>g. (g, True)) groups"
| "outcome_tenants _ = []"

fun granted_cell :: "axis_outcome \<Rightarrow> matrix_cell" where
  "granted_cell (AoInherited source _ _) = McInherited source"
| "granted_cell _ = McDirect"

fun absent_cell :: "axis_outcome \<Rightarrow> matrix_cell" where
  "absent_cell AoForbidden = McForbidden"
| "absent_cell (AoError _) = McError"
| "absent_cell AoNotApplicable = McNotApplicable"
| "absent_cell _ = McNone"

definition fill_cell :: "axis \<Rightarrow> matrix_cell \<Rightarrow> (string \<times> matrix_row) list \<Rightarrow> (string \<times> matrix_row) list" where
  "fill_cell a cell = map (\<lambda>(i, r).
     (i, if mr_cells r a = None then r\<lparr>mr_cells := (mr_cells r)(a \<mapsto> cell)\<rparr> else r))"

definition outcome_at :: "(axis \<Rightarrow> axis_outcome option) \<Rightarrow> axis \<Rightarrow> axis_outcome" where
  "outcome_at outcomes a = (case outcomes a of None \<Rightarrow> AoNotApplicable | Some oc \<Rightarrow> oc)"

definition apply_axis ::
  "(axis \<Rightarrow> axis_outcome option) \<Rightarrow> (string \<times> matrix_row) list \<Rightarrow> axis \<Rightarrow> (string \<times> matrix_row) list" where
  "apply_axis outcomes by_id a =
     (let oc = outcome_at outcomes a
      in fill_cell a (absent_cell oc)
           (foldl (\<lambda>m (t, is_group). upsert_cell is_group a (granted_cell oc) m t) by_id (outcome_tenants oc)))"

definition build_matrix :: "(axis \<Rightarrow> axis_outcome option) \<Rightarrow> matrix_row list" where
  "build_matrix outcomes =
     sort_key (\<lambda>r. tr_identity (mr_tenant r)) (map snd (foldl (apply_axis outcomes) [] axis_all))"

text \<open>What a cell of the rendered matrix shows for an axis.\<close>

fun glyph :: "matrix_cell \<Rightarrow> string" where
  "glyph McDirect = [CHR 0xE2, CHR 0x9C, CHR 0x93]"
| "glyph (McInherited _) = [CHR 0xE2, CHR 0x86, CHR 0x91]"
| "glyph McForbidden = ''?''"
| "glyph McError = ''?''"
| "glyph _ = [CHR 0xE2, CHR 0x80, CHR 0x94]"

definition shown_glyph :: "matrix_row \<Rightarrow> axis \<Rightarrow> string" where
  "shown_glyph r a = (case mr_cells r a of None \<Rightarrow> [CHR 0xE2, CHR 0x80, CHR 0x94] | Some c \<Rightarrow> glyph c)"

section \<open>Grants of an identity\<close>

datatype resource_bucket =
    BProcessGroups | BProcessors | BControllerServices | BInputPorts | BOutputPorts
  | BRemoteProcessGroups | BConnections | BReportingTasks | BParameterContexts | BGlobal

definition bucket_order :: "resource_bucket list" where
  "bucket_order = [BProcessGroups, BProcessors, BControllerServices, BInputPorts, BOutputPorts,
     BRemoteProcessGroups, BConnections, BReportingTasks, BParameterContexts, BGlobal]"

datatype grant_source = GrantDirect | ViaGroup string

record identity_grant =
  ig_axis :: "axis option"
  ig_resource :: string
  ig_bucket :: resource_bucket
  ig_source :: grant_source

definition strip_prefix :: "string \<Rightarrow> string \<Rightarrow> string option" where
  "strip_prefix pat s = (if starts_with pat s then Some (drop (length pat) s) else None)"

definition strip_axis_prefix :: "string \<Rightarrow> string" where
  "strip_axis_prefix resource =
     (case strip_prefix ''/data'' resource of
        Some t \<Rightarrow> t
      | None \<Rightarrow>
          (case strip_prefix ''/operate'' resource of
             Some t \<Rightarrow> t
           | None \<Rightarrow>
               (case strip_prefix ''/policies'' resource of
                  Some t \<Rightarrow> t
                | None \<Rightarrow>
                    (case strip_prefix ''/provenance-data'' resource of Some t \<Rightarrow> t | None \<Rightarrow> resource))))"

definition bucket_of_segment :: "string \<Rightarrow> resource_bucket" where
  "bucket_of_segment k =
     (if k = ''process-groups'' then BProcessGroups
      else if k = ''processors'' then BProcessors
      else if k = ''controller-services'' then BControllerServices
      else if k = ''input-ports'' then BInputPorts
      else if k = ''output-ports'' then BOutputPorts
      else if k = ''remote-process-groups'' then BRemoteProcessGroups
      else if k = ''connections'' then BConnections
      else if k = ''reporting-tasks'' then BReportingTasks
      else if k = ''parameter-contexts'' then BParameterContexts
      else BGlobal)"

definition bucket_from_resource :: "string \<Rightarrow> resource_bucket" where
  "bucket_from_resource resource =
     (let trimmed = dropWhile (\<lambda>c. c = CHR ''/'') (strip_axis_prefix resource)
      in bucket_of_segment (takeWhile (\<lambda>c. c \<noteq> CHR ''/'') trimmed))"

definition resource_axis_segment :: "string \<Rightarrow> string" where
  "resource_axis_segment resource =
     (if starts_with ''/data/'' resource then ''/data''
      else if starts_with ''/operate/'' resource then ''/operate''
      else if starts_with ''/policies/'' resource then ''/policies''
      else if starts_with ''/provenance-data/'' resource then ''/data''
      else [])"

definition axis_from_action_and_resource :: "string \<Rightarrow> string \<Rightarrow> axis option" where
  "axis_from_action_and_resource action resource =
     (let seg = resource_axis_segment resource in
      if action = ''read'' \<and> seg = [] then Some ViewComponent
      else if action = ''write'' \<and> seg = [] then Some ModifyComponent
      else if action = ''read'' \<and> seg = ''/data'' then Some ViewData
      else if action = ''write'' \<and> seg = ''/operate'' then Some Operate
      else if action = ''write'' \<and> seg = ''/policies'' then Some ManagePolicies
      else None)"

text \<open>\<open>grant_from_summary\<close> and \<open>grant_from_entity\<close> read the same two fields.\<close>

definition grant_from_policy :: "access_policy_component option \<Rightarrow> identity_grant option" where
  "grant_from_policy component =
     Option.bind component (\<lambda>c. Option.bind (apc_resource c) (\<lambda>resource. map_option (\<lambda>action.
       \<lparr>ig_axis = axis_from_action_and_resource action resource, ig_resource = resource,
        ig_bucket = bucket_from_resource resource, ig_source = GrantDirect\<rparr>) (apc_action c)))"

definition bucket_rank :: "identity_grant \<Rightarrow> nat" where
  "bucket_rank g = (case position (\<lambda>b. b = ig_bucket g) bucket_order of None \<Rightarrow> usize_max | Some i \<Rightarrow> i)"

definition grouped_by_bucket :: "identity_grant list \<Rightarrow> (resource_bucket \<times> identity_grant list) list" where
  "grouped_by_bucket grants = List.map_filter
     (\<lambda>b. let g = filter (\<lambda>x. ig_bucket x = b) grants in if g = [] then None else Some (b, g)) bucket_order"

definition uuid_from_resource :: "string \<Rightarrow> string option" where
  "uuid_from_resource resource =
     (let final = rev (takeWhile (\<lambda>c. c \<noteq> CHR ''/'') (rev (strip_axis_prefix resource)))
      in if is_uuid_shape final then Some final else None)"

section \<open>Resources name their axis and component\<close>

fun bucket_of_kind :: "node_kind \<Rightarrow> resource_bucket" where
  "bucket_of_kind ProcessGroup = BProcessGroups"
| "bucket_of_kind Processor = BProcessors"
| "bucket_of_kind ControllerService = BControllerServices"
| "bucket_of_kind InputPort = BInputPorts"
| "bucket_of_kind OutputPort = BOutputPorts"
| "bucket_of_kind RemoteProcessGroup = BRemoteProcessGroups"
| "bucket_of_kind Connection = BConnections"
| "bucket_of_kind (Folder _) = BGlobal"

lemma starts_with_Cons [simp]: "starts_with (c # p) (d # s) \<longleftrightarrow> c = d \<and> starts_with p s"
  by (auto simp: starts_with_def)

lemma starts_with_Nil [simp]: "starts_with [] s" by (simp add: starts_with_def)

lemma is_uuid_no_slash:
  assumes "is_uuid_shape u"
  shows "CHR ''/'' \<notin> set u"
proof
  assume "CHR ''/'' \<in> set u"
  then obtain i where i: "i < length u" "u ! i = CHR ''/''" by (auto simp: in_set_conv_nth)
  then have "(i, CHR ''/'') \<in> set (enumerate 0 u)" by (auto simp: in_set_enumerate_eq)
  with assms have "if i \<in> {8, 13, 18, 23} then CHR ''/'' = CHR ''-'' else is_ascii_hexdigit (CHR ''/'')"
    by (auto simp: is_uuid_shape_def list_all_iff)
  then show False by (auto simp: is_ascii_hexdigit_def is_ascii_digit_def byte_def split: if_splits)
qed

lemma final_segment:
  assumes "CHR ''/'' \<notin> set u"
  shows "takeWhile (\<lambda>c. c \<noteq> CHR ''/'') (rev (s @ CHR ''/'' # u)) = rev u"
proof -
  have "takeWhile (\<lambda>c. c \<noteq> CHR ''/'') (rev u @ (CHR ''/'' # rev s))
      = rev u @ takeWhile (\<lambda>c. c \<noteq> CHR ''/'') (CHR ''/'' # rev s)"
    by (rule takeWhile_append2) (use assms in auto)
  then show ?thesis by simp
qed

lemma segment_of_kind:
  assumes "\<not> is_folder kind"
  shows "takeWhile (\<lambda>c. c \<noteq> CHR ''/'') (dropWhile (\<lambda>c. c = CHR ''/'') (CHR ''/'' # node_kind_resource kind @ CHR ''/'' # i))
      = node_kind_resource kind"
    and "bucket_of_segment (node_kind_resource kind) = bucket_of_kind kind"
proof -
  show "takeWhile (\<lambda>c. c \<noteq> CHR ''/'') (dropWhile (\<lambda>c. c = CHR ''/'') (CHR ''/'' # node_kind_resource kind @ CHR ''/'' # i))
      = node_kind_resource kind"
    using assms by (cases kind) (simp_all add: is_folder_def)
  show "bucket_of_segment (node_kind_resource kind) = bucket_of_kind kind"
    using assms by (cases kind) (simp_all add: bucket_of_segment_def is_folder_def)
qed

text \<open>
  The resource of an axis for a component can be read back: the grant listing maps the
  action and the resource to the same axis and to the section of the component's kind, and a
  cross-link finds the component's id in it.
\<close>

theorem axis_resource_roundtrip:
  assumes "axis_resource a kind i = Some resource"
  shows "axis_from_action_and_resource (axis_action a) resource = Some a
    \<and> bucket_from_resource resource = bucket_of_kind kind
    \<and> (is_uuid_shape i \<longrightarrow> uuid_from_resource resource = Some i)"
proof (intro conjI impI)
  have kind: "\<not> is_folder kind" and r: "resource = resource_prefix a @ ''/'' @ node_kind_resource kind @ ''/'' @ i"
    using assms by (auto simp: axis_resource_def applies_to_def split: if_splits)
  show "axis_from_action_and_resource (axis_action a) resource = Some a"
    unfolding r using kind
    by (cases a; cases kind; simp add: is_folder_def axis_from_action_and_resource_def resource_axis_segment_def axis_action_def)
  have stripped: "strip_axis_prefix resource = ''/'' @ node_kind_resource kind @ ''/'' @ i"
    unfolding r using kind
    by (cases a; cases kind; simp add: is_folder_def strip_axis_prefix_def strip_prefix_def)
  show "bucket_from_resource resource = bucket_of_kind kind"
    unfolding bucket_from_resource_def stripped using segment_of_kind [OF kind] by (simp add: Let_def)
  assume u: "is_uuid_shape i"
  show "uuid_from_resource resource = Some i"
    unfolding uuid_from_resource_def stripped
    using final_segment [OF is_uuid_no_slash [OF u], of "''/'' @ node_kind_resource kind"] u by simp
qed

lemma axis_resource_roundtrip_witness:
  "axis_resource Operate Processor ''0a1b2c3d-0a1b-2c3d-0a1b-0a1b2c3d4e5f''
     = Some ''/operate/processors/0a1b2c3d-0a1b-2c3d-0a1b-0a1b2c3d4e5f''
   \<and> axis_from_action_and_resource ''write'' ''/operate/processors/0a1b2c3d-0a1b-2c3d-0a1b-0a1b2c3d4e5f'' = Some Operate"
proof -
  have h: "axis_resource Operate Processor ''0a1b2c3d-0a1b-2c3d-0a1b-0a1b2c3d4e5f''
     = Some ''/operate/processors/0a1b2c3d-0a1b-2c3d-0a1b-0a1b2c3d4e5f''"
    by (simp add: axis_resource_def applies_to_def is_folder_def)
  show ?thesis using axis_resource_roundtrip [OF h] h by (simp add: axis_action_def)
qed

section \<open>What the audit state says\<close>

definition answered :: "axis_outcome \<Rightarrow> bool" where
  "answered oc \<longleftrightarrow> (case oc of AoDirect _ _ \<Rightarrow> True | AoInherited _ _ _ \<Rightarrow> True | AoNone \<Rightarrow> True | _ \<Rightarrow> False)"

definition denies_auditing :: "(string \<Rightarrow> string) \<Rightarrow> axis_outcome \<Rightarrow> bool" where
  "denies_auditing lc oc \<longleftrightarrow> (case oc of AoError body \<Rightarrow> no_authorizer lc body | _ \<Rightarrow> False)"

lemma observe_cases:
  "observe_audit_state lc current oc =
     (if answered oc then AuditSupported
      else if current = AuditUnknown \<and> denies_auditing lc oc then AuditUnsupported else current)"
  by (cases oc) (simp_all add: answered_def denies_auditing_def)

lemma fold_observe:
  "foldl (observe_audit_state lc) current ocs =
     (if \<exists>oc \<in> set ocs. answered oc then AuditSupported
      else if current = AuditUnknown \<and> (\<exists>oc \<in> set ocs. denies_auditing lc oc) then AuditUnsupported
      else current)"
proof (induction ocs arbitrary: current)
  case (Cons oc ocs)
  have "answered oc \<Longrightarrow> \<not> denies_auditing lc oc"
    by (cases oc) (simp_all add: answered_def denies_auditing_def)
  then show ?case
    by (cases "answered oc"; cases "denies_auditing lc oc"; cases current) (simp_all add: Cons.IH observe_cases [where oc = oc])
qed simp

text \<open>
  Folding the outcomes of a fetch into the audit state does not depend on the order in
  which the hash map yields them, and is this function of the set: one answered axis
  proves the authorizer; else, from the unknown state only, one error that names a missing
  authorizer disproves it; else the state stays.
\<close>

theorem audit_state_order_free:
  "fold_audit lc order outcomes current =
     (let seen = {oc. \<exists>a \<in> set order. outcomes a = Some oc}
      in if \<exists>oc \<in> seen. answered oc then AuditSupported
         else if current = AuditUnknown \<and> (\<exists>oc \<in> seen. denies_auditing lc oc) then AuditUnsupported
         else current)"
proof -
  have "set (List.map_filter outcomes order) = {oc. \<exists>a \<in> set order. outcomes a = Some oc}"
    by (force simp: map_filter_def)
  then show ?thesis unfolding fold_audit_def fold_observe Let_def by (simp only:)
qed

section \<open>What the matrix shows\<close>

definition cell_at :: "(string \<times> matrix_row) list \<Rightarrow> string \<Rightarrow> axis \<Rightarrow> matrix_cell option" where
  "cell_at m i a = Option.bind (map_of m i) (\<lambda>r. mr_cells r a)"

definition rows_ok :: "(string \<times> matrix_row) list \<Rightarrow> bool" where
  "rows_ok m \<longleftrightarrow> distinct (map fst m) \<and> (\<forall>(i, r) \<in> set m. tr_id (mr_tenant r) = i)"

lemma map_of_upd_rows:
  "map_of (map (\<lambda>(i, r). (i, f i r)) m) i = map_option (f i) (map_of m i)"
  by (induction m) auto

lemma upsert_cell_keys: "set (map fst (upsert_cell g a c m t)) = insert (tr_id t) (set (map fst m))"
  by (force simp: upsert_cell_def Let_def map_of_eq_None_iff image_iff)

lemma upsert_cell_at:
  "cell_at (upsert_cell g a c m t) i b = (if i = tr_id t \<and> b = a then Some c else cell_at m i b)"
  by (auto simp: upsert_cell_def Let_def cell_at_def map_of_upd_rows map_add_def split: option.split)

lemma map_fst_rows: "map fst (map (\<lambda>(i, r). (i, f i r)) m) = map fst m"
  by (induction m) auto

lemma upsert_rows_ok: "rows_ok m \<Longrightarrow> rows_ok (upsert_cell g a c m t)"
  unfolding rows_ok_def upsert_cell_def Let_def map_fst_rows
  by (auto simp: map_of_eq_None_iff)

lemma fill_cell_at:
  "cell_at (fill_cell a c m) i b =
     (if i \<in> set (map fst m) \<and> b = a \<and> cell_at m i a = None then Some c else cell_at m i b)"
proof (cases "map_of m i")
  case None
  then have "i \<notin> set (map fst m)" by (simp add: map_of_eq_None_iff)
  with None show ?thesis by (simp add: fill_cell_def cell_at_def map_of_upd_rows del: set_map)
next
  case (Some r)
  then have "i \<in> set (map fst m)" by (force dest: map_of_SomeD)
  with Some show ?thesis by (auto simp: fill_cell_def cell_at_def map_of_upd_rows)
qed

lemma fill_rows_ok: "rows_ok m \<Longrightarrow> rows_ok (fill_cell a c m)"
  unfolding rows_ok_def fill_cell_def map_fst_rows by auto

text \<open>The identities an outcome lists, and the row and cell they get.\<close>

definition listed :: "axis_outcome \<Rightarrow> string set" where
  "listed oc = (\<lambda>(t, g). tr_id t) ` set (outcome_tenants oc)"

lemma upserts:
  fixes ts :: "(tenant_ref \<times> bool) list" and a c
  defines "run \<equiv> foldl (\<lambda>m (t, g). upsert_cell g a c m t)"
  shows "set (map fst (run m ts)) = set (map fst m) \<union> (\<lambda>(t, g). tr_id t) ` set ts"
    and "cell_at (run m ts) i b =
      (if i \<in> (\<lambda>(t, g). tr_id t) ` set ts \<and> b = a then Some c else cell_at m i b)"
    and "rows_ok m \<Longrightarrow> rows_ok (run m ts)"
  unfolding run_def
  by (induction ts arbitrary: m; auto simp: upsert_cell_keys upsert_cell_at upsert_rows_ok simp del: set_map)+

text \<open>
  The cell of an identity after the axes \<open>as\<close>: granted when the axis lists it, the absence
  marker when an earlier axis of the display order had already listed it, else no cell.
\<close>

definition expected_cell ::
  "(axis \<Rightarrow> axis_outcome option) \<Rightarrow> axis list \<Rightarrow> string \<Rightarrow> axis \<Rightarrow> matrix_cell option" where
  "expected_cell outcomes as i a =
     (if a \<notin> set as then None
      else if i \<in> listed (outcome_at outcomes a) then Some (granted_cell (outcome_at outcomes a))
      else if \<exists>b \<in> set (takeWhile (\<lambda>b. b \<noteq> a) as). i \<in> listed (outcome_at outcomes b)
           then Some (absent_cell (outcome_at outcomes a)) else None)"

lemma expected_cell_snoc:
  "a \<notin> set as \<Longrightarrow> expected_cell outcomes (as @ [a]) i b =
     (if b = a then if i \<in> listed (outcome_at outcomes a) then Some (granted_cell (outcome_at outcomes a))
        else if \<exists>b \<in> set as. i \<in> listed (outcome_at outcomes b) then Some (absent_cell (outcome_at outcomes a)) else None
      else expected_cell outcomes as i b)"
proof -
  assume a: "a \<notin> set as"
  have new: "takeWhile (\<lambda>b. b \<noteq> a) (as @ [a]) = as" using a by (subst takeWhile_append2) auto
  have old: "b \<in> set as \<Longrightarrow> takeWhile (\<lambda>x. x \<noteq> b) (as @ [a]) = takeWhile (\<lambda>x. x \<noteq> b) as"
    by (rule takeWhile_append1) auto
  show ?thesis using a new old by (auto simp: expected_cell_def)
qed

lemma matrix_rows:
  fixes outcomes :: "axis \<Rightarrow> axis_outcome option"
  assumes "distinct as"
  defines "m \<equiv> foldl (apply_axis outcomes) [] as"
  shows "rows_ok m \<and> set (map fst m) = (\<Union>a \<in> set as. listed (outcome_at outcomes a))
    \<and> (\<forall>i a. cell_at m i a = expected_cell outcomes as i a)"
  unfolding m_def using assms(1)
proof (induction as rule: rev_induct)
  case Nil
  then show ?case by (simp add: rows_ok_def cell_at_def expected_cell_def)
next
  case (snoc a as)
  let ?oc = "outcome_at outcomes a" and ?m = "foldl (apply_axis outcomes) [] as"
  let ?n = "foldl (\<lambda>m (t, g). upsert_cell g a (granted_cell ?oc) m t) ?m (outcome_tenants ?oc)"
  have IH: "rows_ok ?m" "set (map fst ?m) = (\<Union>a \<in> set as. listed (outcome_at outcomes a))"
    "\<And>i b. cell_at ?m i b = expected_cell outcomes as i b" and a: "a \<notin> set as"
    using snoc by auto
  have keys: "set (map fst ?n) = (\<Union>a \<in> set (as @ [a]). listed (outcome_at outcomes a))"
    unfolding upserts(1) IH(2) by (auto simp: listed_def)
  have cells: "cell_at ?n i b = (if i \<in> listed ?oc \<and> b = a then Some (granted_cell ?oc)
      else expected_cell outcomes as i b)" for i b
    unfolding upserts(2) IH(3) by (simp add: listed_def)
  have "foldl (apply_axis outcomes) [] (as @ [a]) = fill_cell a (absent_cell ?oc) ?n"
    by (simp add: apply_axis_def Let_def)
  moreover have "cell_at (fill_cell a (absent_cell ?oc) ?n) i b = expected_cell outcomes (as @ [a]) i b" for i b
    unfolding fill_cell_at keys cells expected_cell_snoc [OF a] using a by (auto simp: expected_cell_def)
  moreover have "set (map fst (fill_cell a (absent_cell ?oc) ?n)) = set (map fst ?n)"
    unfolding fill_cell_def map_fst_rows ..
  ultimately show ?case using fill_rows_ok [OF upserts(3) [OF IH(1)]] keys by simp
qed

lemma distinct_map_sort: "distinct (map f (sort_key k xs)) = distinct (map f xs)"
  by (simp add: distinct_map)

lemma axis_order: "distinct axis_all" "set axis_all = UNIV"
proof -
  show "distinct axis_all" by (simp add: axis_all_def)
  show "set axis_all = UNIV" by (auto simp: axis_all_def intro: axis.exhaust)
qed

text \<open>
  C12: the access matrix has one row per identity that some axis lists, sorted by name. Its
  cell for an axis is the grant when the axis lists the identity; otherwise it is the
  marker of that axis (no policy, forbidden, failed, not applicable), but only when an
  earlier axis in display order lists the identity: the cells of the axes before the first
  grant stay empty.
\<close>

theorem access_matrix_cells:
  "distinct (map (\<lambda>r. tr_id (mr_tenant r)) (build_matrix outcomes))
   \<and> sorted (map (\<lambda>r. tr_identity (mr_tenant r)) (build_matrix outcomes))
   \<and> (\<lambda>r. tr_id (mr_tenant r)) ` set (build_matrix outcomes) = (\<Union>a. listed (outcome_at outcomes a))
   \<and> {(r, a). r \<in> set (build_matrix outcomes) \<and>
        mr_cells r a \<noteq> expected_cell outcomes axis_all (tr_id (mr_tenant r)) a} = {}"
proof -
  let ?m = "foldl (apply_axis outcomes) [] axis_all"
  have m: "rows_ok ?m" "set (map fst ?m) = (\<Union>a. listed (outcome_at outcomes a))"
    "\<And>i a. cell_at ?m i a = expected_cell outcomes axis_all i a"
    using matrix_rows [OF axis_order(1), of outcomes] by (auto simp: axis_order(2))
  have row: "tr_id (mr_tenant r) = i \<and> map_of ?m i = Some r" if "(i, r) \<in> set ?m" for i r
    using m(1) that by (auto simp: rows_ok_def)
  have ids: "map (\<lambda>r. tr_id (mr_tenant r)) (map snd ?m) = map fst ?m"
    using row by (force simp: map_eq_conv)
  have "distinct (map (\<lambda>r. tr_id (mr_tenant r)) (build_matrix outcomes))"
    unfolding build_matrix_def distinct_map_sort ids using m(1) by (simp add: rows_ok_def)
  moreover have "(\<lambda>r. tr_id (mr_tenant r)) ` set (build_matrix outcomes) = (\<Union>a. listed (outcome_at outcomes a))"
    unfolding m(2) [symmetric] ids [symmetric] by (simp add: build_matrix_def image_image)
  moreover have "mr_cells r a = expected_cell outcomes axis_all (tr_id (mr_tenant r)) a"
    if "r \<in> set (build_matrix outcomes)" for r a
  proof -
    from that obtain i where "(i, r) \<in> set ?m" by (auto simp: build_matrix_def)
    from row [OF this] m(3) [of i a] show ?thesis by (simp add: cell_at_def)
  qed
  moreover have "sorted (map (\<lambda>r. tr_identity (mr_tenant r)) (build_matrix outcomes))"
    by (simp add: build_matrix_def)
  ultimately show ?thesis by auto
qed

text \<open>
  When the caller may not read the view policy of a component, no row of the matrix says
  so: the first axis never gets its marker, and the column shows the dash of "no policy" for
  every identity, not the question mark.
\<close>

theorem forbidden_first_axis_shows_dash:
  assumes "outcome_at outcomes ViewComponent = AoForbidden" and "r \<in> set (build_matrix outcomes)"
  shows "shown_glyph r ViewComponent = glyph McNone \<and> shown_glyph r ViewComponent \<noteq> glyph McForbidden"
proof -
  have "mr_cells r ViewComponent = expected_cell outcomes axis_all (tr_id (mr_tenant r)) ViewComponent"
    using access_matrix_cells [of outcomes] assms(2) by blast
  then show ?thesis using assms(1) by (simp add: expected_cell_def axis_all_def listed_def shown_glyph_def)
qed

section \<open>Grants in rows\<close>

lemma buckets_listed: "b \<in> set bucket_order"
  by (cases b) (simp_all add: bucket_order_def)

lemma bucket_rank_eq: "bucket_rank g = bucket_rank h \<longleftrightarrow> ig_bucket g = ig_bucket h"
  by (cases "ig_bucket g"; cases "ig_bucket h"; simp add: bucket_rank_def bucket_order_def)

definition bucket_rows :: "identity_grant list \<Rightarrow> resource_bucket list \<Rightarrow> identity_grant list" where
  "bucket_rows grants bs = concat (map (\<lambda>b. filter (\<lambda>x. ig_bucket x = b) grants) bs)"

lemma bucket_rows_filter:
  "distinct bs \<Longrightarrow> filter (\<lambda>x. ig_bucket x = k) (bucket_rows grants bs) =
     (if k \<in> set bs then filter (\<lambda>x. ig_bucket x = k) grants else [])"
  by (induction bs) (auto simp: bucket_rows_def filter_empty_conv conj_commute cong: conj_cong)

lemma grouped_rows: "concat (map snd (grouped_by_bucket grants)) = bucket_rows grants bucket_order"
proof -
  have "concat (map snd (List.map_filter
      (\<lambda>b. let g = filter (\<lambda>x. ig_bucket x = b) grants in if g = [] then None else Some (b, g)) bs))
      = bucket_rows grants bs" for bs
    by (induction bs) (auto simp: bucket_rows_def map_filter_def Let_def)
  then show ?thesis by (simp add: grouped_by_bucket_def)
qed

lemma bucket_rows_mset: "distinct bs \<Longrightarrow>
  mset (bucket_rows grants bs) = mset (filter (\<lambda>x. ig_bucket x \<in> set bs) grants)"
proof (induction bs)
  case Nil
  then show ?case by (simp add: bucket_rows_def)
next
  case (Cons b bs)
  have "filter_mset (\<lambda>x. ig_bucket x = b \<or> ig_bucket x \<in> set bs) (mset grants)
      = filter_mset (\<lambda>x. ig_bucket x = b) (mset grants) + filter_mset (\<lambda>x. ig_bucket x \<in> set bs) (mset grants)"
    using Cons.prems by (intro multiset_eqI) auto
  with Cons show ?case by (simp add: bucket_rows_def)
qed

definition rank_of :: "resource_bucket \<Rightarrow> nat" where
  "rank_of b = (case position (\<lambda>x. x = b) bucket_order of None \<Rightarrow> usize_max | Some i \<Rightarrow> i)"

lemma bucket_rank_of: "bucket_rank g = rank_of (ig_bucket g)"
  by (simp add: bucket_rank_def rank_of_def)

lemma ranks_sorted: "sorted (map bucket_rank (bucket_rows grants bucket_order))"
proof -
  have one: "sorted_wrt (\<lambda>g h. bucket_rank g \<le> bucket_rank h) (filter (\<lambda>x. ig_bucket x = b) grants)" for b
    by (induction grants) (auto simp: bucket_rank_of)
  have "sorted_wrt (\<lambda>g h. bucket_rank g \<le> bucket_rank h) (bucket_rows grants bs)"
    if "sorted_wrt (\<lambda>b c. rank_of b \<le> rank_of c) bs" for bs
    using that
  proof (induction bs)
    case (Cons b bs)
    with one [of b] show ?case by (auto simp: bucket_rows_def sorted_wrt_append bucket_rank_of)
  qed (simp add: bucket_rows_def)
  moreover have "sorted_wrt (\<lambda>b c. rank_of b \<le> rank_of c) bucket_order"
    by (simp add: rank_of_def bucket_order_def)
  ultimately show ?thesis by (simp add: sorted_map)
qed

text \<open>
  The sections of the identity modal, read one after another, are the grants in the order
  the cursor counts them, so the highlighted row is the grant the cross-link follows.
\<close>

theorem grouped_grants_match_cursor:
  "concat (map snd (grouped_by_bucket (sort_key bucket_rank grants))) = sort_key bucket_rank grants"
proof -
  let ?rows = "\<lambda>gs. bucket_rows gs bucket_order"
  have dist: "distinct bucket_order" by (simp add: bucket_order_def)
  have "sort_key bucket_rank gs = ?rows gs" for gs
  proof (rule properties_for_sort_key)
    show "mset (?rows gs) = mset gs" using bucket_rows_mset [OF dist, of gs] buckets_listed by simp
    show "sorted (map bucket_rank (?rows gs))" by (rule ranks_sorted)
    fix k assume "k \<in> set (?rows gs)"
    show "filter (\<lambda>x. bucket_rank k = bucket_rank x) (?rows gs) = filter (\<lambda>x. bucket_rank k = bucket_rank x) gs"
      using bucket_rows_filter [OF dist, of "ig_bucket k" gs] buckets_listed
      by (simp add: bucket_rank_eq eq_commute [of "ig_bucket k"])
  qed
  from this [of "sort_key bucket_rank grants"] show ?thesis
    unfolding grouped_rows by (simp add: sort_key_id_if_sorted)
qed

definition sample_outcomes :: "axis \<Rightarrow> axis_outcome option" where
  "sample_outcomes = [ViewComponent \<mapsto> AoForbidden,
     ModifyComponent \<mapsto> AoDirect [\<lparr>tr_id = ''u'', tr_identity = ''alice'', tr_member_count = None\<rparr>] [],
     ViewData \<mapsto> AoForbidden]"

lemma forbidden_first_axis_shows_dash_witness:
  "\<exists>r. build_matrix sample_outcomes = [r] \<and> shown_glyph r ViewComponent = glyph McNone
     \<and> shown_glyph r ViewData = glyph McForbidden"
proof -
  obtain r where r: "build_matrix sample_outcomes = [r]" "shown_glyph r ViewData = glyph McForbidden"
    by (simp add: build_matrix_def axis_all_def apply_axis_def outcome_at_def sample_outcomes_def
      upsert_cell_def fill_cell_def Let_def shown_glyph_def)
  with forbidden_first_axis_shows_dash [of sample_outcomes r] show ?thesis
    by (simp add: outcome_at_def sample_outcomes_def)
qed

end
