(* ===== verification/Modal_Bodies.thy ===== *)
theory Modal_Bodies
  imports Param_Context Access_Audit
begin

text \<open>
  The state of the full-screen modals of the Browser tab and the text each of them is searched
  in: version control (\<open>src/src/view/browser/state/version_control_modal.rs\<close>), parameter
  context (\<open>parameter_context_modal.rs\<close>), action history (\<open>action_history_modal.rs\<close>), access
  (\<open>access_modal.rs\<close>) and identity (\<open>identity_modal.rs\<close>).

  A value that a worker writes to is in one of three load states (\<open>src/src/widget/modal.rs\<close>).
\<close>

datatype 'a load_status = LsLoading | LsLoaded 'a | LsFailed string

section \<open>Text\<close>

text \<open>The first \<open>n\<close> characters of a UTF-8 string: continuation bytes stay with their character.\<close>

fun take_chars :: "nat \<Rightarrow> string \<Rightarrow> string" where
  "take_chars n [] = []"
| "take_chars n (c # s) =
     (if is_cont c then c # take_chars n s
      else case n of 0 \<Rightarrow> [] | Suc m \<Rightarrow> c # take_chars m s)"

definition ellipsis :: string where
  "ellipsis = [CHR 0xE2, CHR 0x80, CHR 0xA6]"

definition truncate_for_body :: "nat \<Rightarrow> string \<Rightarrow> string" where
  "truncate_for_body n s =
     (if n = 0 then [] else if char_count s \<le> n then s else take_chars (n - 1) s @ ellipsis)"

definition newline :: string where
  "newline = [CHR 0x0A]"

section \<open>Parameter contexts\<close>

datatype context_pane = PaneSidebar | PaneBody

record param_modal =
  pm_pg_id :: string
  pm_pg_path :: string
  pm_preselect :: "string option"
  pm_load :: "context_node list load_status"
  pm_pane :: context_pane
  pm_sidebar_index :: nat
  pm_by_context :: bool
  pm_show_shadowed :: bool
  pm_show_used_by :: bool
  pm_scroll :: vertical_scroll
  pm_search :: "search_state option"

definition param_modal_pending :: "string \<Rightarrow> string \<Rightarrow> string option \<Rightarrow> param_modal" where
  "param_modal_pending pg_id path preselect =
     \<lparr>pm_pg_id = pg_id, pm_pg_path = path, pm_preselect = preselect, pm_load = LsLoading,
      pm_pane = PaneSidebar, pm_sidebar_index = 0, pm_by_context = False, pm_show_shadowed = False,
      pm_show_used_by = False, pm_scroll = \<lparr>vs_offset = 0, vs_rows = 0\<rparr>, pm_search = None\<rparr>"

definition flag_chip :: "string \<Rightarrow> string" where
  "flag_chip letters = pad_right 5 (if letters = [] then [] else ''['' @ letters @ '']'')"

definition shown_value :: "parameter_entry \<Rightarrow> string" where
  "shown_value e = truncate_for_body 22
     (if pe_sensitive e then ''(sensitive)'' else case pe_value e of None \<Rightarrow> em_dash | Some v \<Rightarrow> v)"

definition context_row :: "parameter_entry \<Rightarrow> string" where
  "context_row e =
     flag_chip ((if pe_sensitive e then ''S'' else []) @ (if pe_provided e then ''P'' else [])) @ '' ''
     @ pad_right 22 (truncate_for_body 22 (pe_name e)) @ '' '' @ pad_right 22 (shown_value e) @ newline"

definition shadowed_row :: "parameter_entry \<times> string \<Rightarrow> string" where
  "shadowed_row s =
     replicate 5 CHR '' '' @ ''   '' @ pad_right 20 (truncate_for_body 20 (pe_name (fst s))) @ '' ''
     @ pad_right 22 (shown_value (fst s)) @ '' '' @ pad_right 18 (truncate_for_body 18 (snd s)) @ newline"

definition resolved_flags :: "resolved_parameter \<Rightarrow> string" where
  "resolved_flags r =
     (if pe_sensitive (rp_winner r) then ''S'' else []) @ (if pe_provided (rp_winner r) then ''P'' else [])
     @ (if rp_shadowed r \<noteq> [] \<and> \<not> rp_unresolved r then ''O'' else []) @ (if rp_unresolved r then ''!'' else [])"

definition resolved_row :: "bool \<Rightarrow> resolved_parameter \<Rightarrow> string" where
  "resolved_row show_shadowed r =
     flag_chip (resolved_flags r) @ '' '' @ pad_right 22 (truncate_for_body 22 (pe_name (rp_winner r))) @ '' ''
     @ pad_right 22 (shown_value (rp_winner r)) @ '' ''
     @ pad_right 18 (truncate_for_body 18 (if rp_unresolved r then em_dash else rp_winner_context r)) @ newline
     @ (if show_shadowed then concat (map shadowed_row (rp_shadowed r)) else [])"

definition param_body :: "param_modal \<Rightarrow> string" where
  "param_body m =
     (case pm_load m of
        LsLoaded chain \<Rightarrow>
          if pm_by_context m
          then (case get_at chain (pm_sidebar_index m) of
                  None \<Rightarrow> []
                | Some ctx \<Rightarrow>
                    pad_right 5 ''flags'' @ '' '' @ pad_right 22 ''name'' @ '' '' @ pad_right 22 ''value'' @ newline
                    @ newline @ concat (map context_row (cn_parameters ctx)))
          else pad_right 5 ''flags'' @ '' '' @ pad_right 22 ''name'' @ '' '' @ pad_right 22 ''value'' @ '' ''
            @ pad_right 18 ''from'' @ newline @ newline
            @ concat (map (resolved_row (pm_show_shadowed m)) (resolve_params chain (pm_preselect m)))
      | _ \<Rightarrow> [])"

text \<open>What is copied: one line per resolved parameter.\<close>

definition param_copy_text :: "param_modal \<Rightarrow> string option" where
  "param_copy_text m =
     (case pm_load m of
        LsLoaded chain \<Rightarrow>
          (let rows = resolve_params chain (pm_preselect m)
           in if rows = [] then None
              else Some (concat (map (\<lambda>r. pe_name (rp_winner r) @ ''=''
                @ (if pe_sensitive (rp_winner r) then ''(sensitive)'' else or_empty (pe_value (rp_winner r)))
                @ newline) rows)))
      | _ \<Rightarrow> None)"

section \<open>Version control\<close>

record rendered_difference =
  rd_kind :: string
  rd_description :: string
  rd_environmental :: bool

record diff_section =
  dfs_component_id :: string
  dfs_component_name :: string
  dfs_component_type :: string
  dfs_display_label :: string
  dfs_differences :: "rendered_difference list"

record version_modal =
  vm_pg_id :: string
  vm_pg_name :: string
  vm_identity :: "version_control_summary option"
  vm_differences :: "diff_section list load_status"
  vm_show_environmental :: bool
  vm_scroll :: bidi_scroll
  vm_search :: "search_state option"

definition version_modal_pending :: "string \<Rightarrow> string \<Rightarrow> version_control_summary option \<Rightarrow> version_modal" where
  "version_modal_pending pg_id pg_name identity =
     \<lparr>vm_pg_id = pg_id, vm_pg_name = pg_name, vm_identity = identity, vm_differences = LsLoading,
      vm_show_environmental = False,
      vm_scroll = \<lparr>bs_vertical = \<lparr>vs_offset = 0, vs_rows = 0\<rparr>, bs_hoffset = 0, bs_cols = 0\<rparr>, vm_search = None\<rparr>"

text \<open>\<open>&id[..8]\<close> panics (\<open>None\<close>) when byte 8 is inside a character.\<close>

definition short_id :: "string \<Rightarrow> string option" where
  "short_id i =
     (if length i \<le> 8 then Some i else if is_cont (i ! 8) then None else Some (take 8 i @ ellipsis))"

definition kept_differences :: "bool \<Rightarrow> diff_section \<Rightarrow> rendered_difference list" where
  "kept_differences env s = filter (\<lambda>d. env \<or> \<not> rd_environmental d) (dfs_differences s)"

definition middle_dot :: string where
  "middle_dot = [CHR 0xC2, CHR 0xB7]"

definition bar :: string where
  "bar = [CHR 0xE2, CHR 0x94, CHR 0x80]"

definition section_text :: "bool \<Rightarrow> diff_section \<Rightarrow> string option" where
  "section_text env s = map_option (\<lambda>short.
     bar @ '' '' @ dfs_component_type s @ '' '' @ middle_dot @ '' '' @ dfs_display_label s @ '' '' @ middle_dot
     @ '' '' @ short @ '' '' @ bar @ newline
     @ concat (map (\<lambda>d. pad_right 18 (rd_kind d) @ '' '' @ rd_description d @ newline) (kept_differences env s))
     @ newline) (short_id (dfs_component_id s))"

text \<open>\<open>None\<close> when the source panics.\<close>

definition version_body :: "version_modal \<Rightarrow> string option" where
  "version_body m =
     (case vm_differences m of
        LsLoaded sections \<Rightarrow>
          map_option concat (those (map (section_text (vm_show_environmental m))
            (filter (\<lambda>s. kept_differences (vm_show_environmental m) s \<noteq> []) sections)))
      | _ \<Rightarrow> Some [])"

text \<open>What is copied; \<open>dbg\<close> is the derived debug text of the version state.\<close>

definition version_copy_text :: "(string \<Rightarrow> string) \<Rightarrow> version_modal \<Rightarrow> string option" where
  "version_copy_text dbg m =
     (let identity = (case vm_identity m of
            None \<Rightarrow> []
          | Some v \<Rightarrow>
              (case vcs_flow_name v of None \<Rightarrow> [] | Some name \<Rightarrow> ''flow: '' @ name @ newline)
              @ (case vcs_version v of None \<Rightarrow> [] | Some ver \<Rightarrow> ''version: '' @ ver @ newline)
              @ ''state: '' @ dbg (vcs_state v) @ newline @ newline);
          diff = (case vm_differences m of
              LsLoaded sections \<Rightarrow> concat (map (\<lambda>s.
                dfs_component_type s @ '' '' @ middle_dot @ '' '' @ dfs_component_name s @ '' '' @ middle_dot @ '' ''
                @ dfs_component_id s @ newline
                @ concat (map (\<lambda>d. ''  '' @ rd_kind d @ '': '' @ rd_description d @ newline)
                    (kept_differences (vm_show_environmental m) s)) @ newline) sections)
            | _ \<Rightarrow> []);
          out = identity @ diff
      in if out = [] then None else Some out)"

section \<open>Action history\<close>

text \<open>The fields of an action entity that are read; \<open>ac_inner\<close> is its nested action.\<close>

record action_inner =
  ai_user :: "string option"
  ai_operation :: "string option"
  ai_source_type :: "string option"
  ai_source_name :: "string option"

record action_entity =
  ac_id :: "int option"
  ac_timestamp :: "string option"
  ac_inner :: "action_inner option"

text \<open>\<open>fetch_signal.notify_one()\<close> is counted: how often the worker was woken.\<close>

record action_modal =
  am_source_id :: string
  am_label :: string
  am_actions :: "action_entity list"
  am_total :: "nat option"
  am_loading :: bool
  am_error :: "string option"
  am_expanded :: "nat option"
  am_cursor :: cursored_scroll
  am_search :: "search_state option"
  am_signals :: nat

definition cursor_default :: cursored_scroll where
  "cursor_default = \<lparr>cs_scroll = \<lparr>vs_offset = 0, vs_rows = 0\<rparr>, cs_selected = 0\<rparr>"

definition action_modal_pending :: "string \<Rightarrow> string \<Rightarrow> action_modal" where
  "action_modal_pending source label =
     \<lparr>am_source_id = source, am_label = label, am_actions = [], am_total = None, am_loading = True,
      am_error = None, am_expanded = None, am_cursor = cursor_default, am_search = None, am_signals = 0\<rparr>"

text \<open>The actions of a page whose id was not seen; an action without id is always kept.\<close>

fun unseen_actions :: "int set \<Rightarrow> action_entity list \<Rightarrow> action_entity list" where
  "unseen_actions seen [] = []"
| "unseen_actions seen (a # as) =
     (case ac_id a of
        None \<Rightarrow> a # unseen_actions seen as
      | Some i \<Rightarrow> if i \<in> seen then unseen_actions seen as else a # unseen_actions (insert i seen) as)"

definition action_ids :: "action_entity list \<Rightarrow> int list" where
  "action_ids as = List.map_filter ac_id as"

definition apply_page :: "string \<Rightarrow> action_entity list \<Rightarrow> nat option \<Rightarrow> action_modal \<Rightarrow> action_modal" where
  "apply_page source page tot m =
     (if source \<noteq> am_source_id m then m
      else m\<lparr>am_actions := am_actions m @ unseen_actions (set (action_ids (am_actions m))) page,
             am_total := (if tot \<noteq> None then tot else am_total m), am_loading := False\<rparr>)"

definition reset_for_refresh :: "action_modal \<Rightarrow> action_modal" where
  "reset_for_refresh m = m\<lparr>am_actions := [], am_total := None, am_loading := True, am_error := None,
     am_expanded := None, am_cursor := cursor_default\<rparr>"

definition toggle_expanded :: "action_modal \<Rightarrow> action_modal" where
  "toggle_expanded m =
     (let selected = cs_selected (am_cursor m)
      in m\<lparr>am_expanded := (if am_expanded m = Some selected then None else Some selected)\<rparr>)"

definition inner_field :: "(action_inner \<Rightarrow> string option) \<Rightarrow> action_entity \<Rightarrow> string" where
  "inner_field f a = or_empty (Option.bind (ac_inner a) f)"

definition action_line :: "string \<Rightarrow> action_entity \<Rightarrow> string" where
  "action_line sep a =
     or_empty (ac_timestamp a) @ sep @ inner_field ai_user a @ sep @ inner_field ai_operation a @ sep
     @ inner_field ai_source_type a @ sep @ inner_field ai_source_name a"

definition action_body :: "action_modal \<Rightarrow> string" where
  "action_body m = concat (map (\<lambda>a. action_line '' '' a @ newline) (am_actions m))"

definition format_action_tsv :: "action_entity \<Rightarrow> string" where
  "format_action_tsv a = action_line [CHR 0x09] a"

definition autoload_lookahead_rows :: nat where
  "autoload_lookahead_rows = 10"

text \<open>\<open>actions.len() as u32\<close> keeps the low 32 bits of the length.\<close>

definition should_signal_next_page :: "nat \<Rightarrow> nat \<Rightarrow> action_modal \<Rightarrow> bool" where
  "should_signal_next_page bottom threshold m =
     (case am_total m of
        None \<Rightarrow> False
      | Some tot \<Rightarrow> length (am_actions m) mod 2 ^ 32 < tot \<and> am_error m = None \<and> \<not> am_loading m
          \<and> length (am_actions m) \<le> bottom + threshold)"

definition check_signal_next_page :: "action_modal \<Rightarrow> action_modal" where
  "check_signal_next_page m =
     (let bottom = sat_add (vs_offset (cs_scroll (am_cursor m))) (vs_rows (cs_scroll (am_cursor m)))
      in if should_signal_next_page bottom autoload_lookahead_rows m
         then m\<lparr>am_loading := True, am_signals := am_signals m + 1\<rparr> else m)"

section \<open>Access and identity\<close>

datatype modal_status = MsLoading | MsLoaded | MsFailed string

record access_modal =
  xm_component_id :: string
  xm_component_kind :: node_kind
  xm_component_label :: string
  xm_status :: modal_status
  xm_matrix :: "matrix_row list"
  xm_scroll :: cursored_scroll
  xm_search :: "search_state option"

definition access_modal_new :: "string \<Rightarrow> node_kind \<Rightarrow> string \<Rightarrow> access_modal" where
  "access_modal_new i kind label =
     \<lparr>xm_component_id = i, xm_component_kind = kind, xm_component_label = label, xm_status = MsLoading,
      xm_matrix = [], xm_scroll = cursor_default, xm_search = None\<rparr>"

definition clamp_cursor_scroll :: "nat \<Rightarrow> cursored_scroll \<Rightarrow> cursored_scroll" where
  "clamp_cursor_scroll rows c = c\<lparr>cs_scroll := clamp_to_content rows (cs_scroll c)\<rparr>"

definition access_apply_fetch :: "(axis \<Rightarrow> axis_outcome option) \<Rightarrow> access_modal \<Rightarrow> access_modal" where
  "access_apply_fetch outcomes m =
     (let matrix = build_matrix outcomes
      in m\<lparr>xm_matrix := matrix, xm_status := MsLoaded, xm_scroll := clamp_cursor_scroll (length matrix) (xm_scroll m)\<rparr>)"

definition access_body :: "access_modal \<Rightarrow> string" where
  "access_body m = join newline (map (\<lambda>r. tr_identity (mr_tenant r) @ (if mr_is_group r then '' [group]'' else []))
     (xm_matrix m))"

datatype identity_kind = UserIdentity | GroupIdentity

record identity_modal =
  im_identity_id :: string
  im_kind :: identity_kind
  im_identity :: string
  im_status :: modal_status
  im_grants :: "identity_grant list"
  im_memberships :: "string list"
  im_scroll :: cursored_scroll
  im_search :: "search_state option"

definition identity_modal_pending :: "identity_kind \<Rightarrow> string \<Rightarrow> string \<Rightarrow> identity_modal" where
  "identity_modal_pending kind i identity =
     \<lparr>im_identity_id = i, im_kind = kind, im_identity = identity, im_status = MsLoading, im_grants = [],
      im_memberships = [], im_scroll = cursor_default, im_search = None\<rparr>"

record identity_fetch_result =
  ifr_identity :: string
  ifr_grants :: "identity_grant list"
  ifr_memberships :: "string list"

definition identity_apply_fetch :: "identity_fetch_result \<Rightarrow> identity_modal \<Rightarrow> identity_modal" where
  "identity_apply_fetch r m =
     m\<lparr>im_identity := ifr_identity r, im_grants := sort_key bucket_rank (ifr_grants r),
       im_memberships := ifr_memberships r, im_status := MsLoaded,
       im_scroll := clamp_cursor_scroll (length (ifr_grants r)) (im_scroll m)\<rparr>"

definition identity_body :: "identity_modal \<Rightarrow> string" where
  "identity_body m = join newline (map ig_resource (im_grants m))"

text \<open>The answer of a tenant request, flattened; a user also brings its groups.\<close>

record tenant_component =
  tcp_identity :: "string option"
  tcp_policies :: "access_policy_component option list option"
  tcp_group_identities :: "string option list option"

definition fetch_identity_grants :: "identity_kind \<Rightarrow> 'e + tenant_component option \<Rightarrow> 'e + identity_fetch_result" where
  "fetch_identity_grants kind response = bind_result response (\<lambda>component.
     Inr \<lparr>ifr_identity = or_empty (Option.bind component tcp_identity),
          ifr_grants = List.map_filter grant_from_policy (or_empty (Option.bind component tcp_policies)),
          ifr_memberships = (if kind = UserIdentity
             then List.map_filter (\<lambda>g. g) (or_empty (Option.bind component tcp_group_identities)) else [])\<rparr>)"

end
