(* ===== verification/Verbs.thy ===== *)
theory Verbs
  imports Queue_Listing Browser_Types
begin

text \<open>
  The verbs of the input layer (\<open>src/src/input/verb.rs\<close>, \<open>src/src/input/action.rs\<close>): for every view
  and modal the actions a key can trigger, with the chord, the long label of the help modal, the
  short hint of the status line, its priority when the line is narrow, whether it is shown there,
  and the order in which the key map tries them. A definition is named after its enum (two
  letters) and the method of the \<open>Verb\<close> trait it is.

  A key character is a string; \<open>KOther\<close> carries the debug text of the keys no chord uses.
\<close>

section \<open>Chords\<close>

datatype key_code =
    KChar string | KEnter | KEsc | KTab | KBackTab | KBackspace | KUp | KDown | KLeft | KRight
  | KHome | KEnd | KPageUp | KPageDown | KF nat | KOther string

datatype modifier = MShift | MControl | MAlt | MSuper | MHyper | MMeta

record chord =
  ch_key :: key_code
  ch_mods :: "modifier set"
  ch_leader :: "key_code option"

record key_event =
  ke_code :: key_code
  ke_mods :: "modifier set"

definition chord_simple :: "key_code \<Rightarrow> chord" where
  "chord_simple k = \<lparr>ch_key = k, ch_mods = {}, ch_leader = None\<rparr>"

definition chord_shift :: "key_code \<Rightarrow> chord" where
  "chord_shift k = \<lparr>ch_key = k, ch_mods = {MShift}, ch_leader = None\<rparr>"

definition chord_ctrl :: "key_code \<Rightarrow> chord" where
  "chord_ctrl k = \<lparr>ch_key = k, ch_mods = {MControl}, ch_leader = None\<rparr>"

definition chord_matches :: "chord \<Rightarrow> key_event \<Rightarrow> bool" where
  "chord_matches c k \<longleftrightarrow> ch_leader c = None \<and> ch_key c = ke_code k \<and> ch_mods c = ke_mods k"

fun key_name :: "key_code \<Rightarrow> string" where
  "key_name (KChar c) = c"
| "key_name KEnter = ''Enter''"
| "key_name KEsc = ''Esc''"
| "key_name KTab = ''Tab''"
| "key_name KBackTab = ''Shift+Tab''"
| "key_name KBackspace = ''Backspace''"
| "key_name KUp = [CHR 0xE2, CHR 0x86, CHR 0x91]"
| "key_name KDown = [CHR 0xE2, CHR 0x86, CHR 0x93]"
| "key_name KLeft = [CHR 0xE2, CHR 0x86, CHR 0x90]"
| "key_name KRight = [CHR 0xE2, CHR 0x86, CHR 0x92]"
| "key_name KHome = ''Home''"
| "key_name KEnd = ''End''"
| "key_name KPageUp = ''PgUp''"
| "key_name KPageDown = ''PgDn''"
| "key_name (KF n) = ''F'' @ show_nat n"
| "key_name (KOther s) = s"

definition is_char :: "key_code \<Rightarrow> bool" where
  "is_char k \<longleftrightarrow> (case k of KChar _ \<Rightarrow> True | _ \<Rightarrow> False)"

definition render_key :: "key_code \<Rightarrow> modifier set \<Rightarrow> string" where
  "render_key k mods =
     (if k = KBackTab then key_name k
      else (if MControl \<in> mods then ''Ctrl+'' else [])
        @ (if MShift \<in> mods \<and> \<not> is_char k then ''Shift+'' else [])
        @ (if MAlt \<in> mods then ''Alt+'' else []) @ key_name k)"

definition chord_display :: "chord \<Rightarrow> string" where
  "chord_display c =
     (case ch_leader c of
        Some leader \<Rightarrow> render_key leader {} @ '' '' @ render_key (ch_key c) (ch_mods c)
      | None \<Rightarrow> render_key (ch_key c) (ch_mods c))"

section \<open>The verbs\<close>

datatype filter_field = FfTime | FfTypes | FfSource | FfUuid | FfAttr

datatype verb_severity = SvError | SvWarning | SvInfo

datatype common_verb = CvRefresh | CvCopy | CvOpenSearch | CvSearchNext | CvSearchPrev | CvClose

datatype bulletins_verb = BlCommon common_verb | BlToggleSeverity verb_severity | BlCycleTypeFilter
     | BlCycleGroupBy | BlTogglePause | BlMuteSource | BlClearFilters | BlOpenDetail

datatype browser_verb = BwCommon common_verb | BwOpenProperties | BwOpenParameterContext
     | BwOpenActionHistory | BwShowVersionControl | BwWatch | BwOpenAccess

datatype queue_verb = QvCommon common_verb | QvFocusListing | QvPeekAttributes | QvTraceLineage
     | QvCopyUuid | QvFilter

datatype events_verb = EvCommon common_verb | EvEditField filter_field | EvNewQuery | EvReset | EvRaiseCap

datatype watch_verb = WvCommon common_verb | WvEditPredicate | WvPause | WvClearBuffer
     | WvCommitPredicate | WvUnfocusPredicate

datatype tracer_verb = TvCommon common_verb | TvSave | TvToggleDiff | TvOpenContentModal | TvWatch

datatype content_verb = NvCommon common_verb | NvSwitchTabNext | NvSwitchTabPrev | NvJumpInput
     | NvJumpOutput | NvJumpDiff | NvHunkNext | NvHunkPrev | NvSave

datatype version_verb = VvCommon common_verb | VvToggleEnvironmental | VvScrollUp | VvScrollDown
     | VvPageUp | VvPageDown | VvHome | VvEnd

datatype overview_verb = OvOpenReportingTasksModal

datatype reporting_verb = RvCommon common_verb | RvRowUp | RvRowDown | RvPageUp | RvPageDown | RvJumpTop
     | RvJumpBottom | RvFocusDetail | RvNextPane | RvPrevPane

datatype param_verb = PvCommon common_verb | PvRowUp | PvRowDown | PvPageUp | PvPageDown | PvJumpTop
     | PvJumpBottom | PvFocusBody | PvToggleByContext | PvToggleShadowed | PvToggleUsedBy

datatype action_verb = AvCommon common_verb | AvScrollUp | AvScrollDown | AvPageUp | AvPageDown
     | AvJumpTop | AvJumpBottom | AvToggleExpand

datatype peek_verb = KvCommon common_verb | KvCopyAsJson

datatype access_verb = XvCommon common_verb | XvScrollUp | XvScrollDown | XvPageUp | XvPageDown
     | XvJumpTop | XvJumpBottom | XvDrillIdentity

datatype identity_verb = IvCommon common_verb | IvScrollUp | IvScrollDown | IvPageUp | IvPageDown
     | IvJumpTop | IvJumpBottom | IvCrossLink

datatype detail_verb = DvCommon common_verb

datatype history_action = HaBack | HaForward

datatype tab_action = TaGoto nat

datatype app_action = AaQuit | AaHelp | AaContextSwitcher | AaFuzzyFind | AaGoto | AaPaste | AaCut

section \<open>Their tables\<close>

subsection \<open>\<open>CommonVerb\<close>\<close>

definition cv_chord :: "common_verb \<Rightarrow> chord" where
  "cv_chord v = (case v of
       CvRefresh \<Rightarrow> chord_simple (KChar ''r'')
     | CvCopy \<Rightarrow> chord_simple (KChar ''c'')
     | CvOpenSearch \<Rightarrow> chord_simple (KChar ''/'')
     | CvSearchNext \<Rightarrow> chord_simple (KChar ''n'')
     | CvSearchPrev \<Rightarrow> chord_shift (KChar ''N'')
     | CvClose \<Rightarrow> chord_simple KEsc)"

definition cv_label :: "common_verb \<Rightarrow> string" where
  "cv_label v = (case v of
       CvRefresh \<Rightarrow> ''refresh''
     | CvCopy \<Rightarrow> ''copy''
     | CvOpenSearch \<Rightarrow> ''open text search''
     | CvSearchNext \<Rightarrow> ''next match''
     | CvSearchPrev \<Rightarrow> ''previous match''
     | CvClose \<Rightarrow> ''close'')"

definition cv_hint :: "common_verb \<Rightarrow> string" where
  "cv_hint v = (case v of
       CvRefresh \<Rightarrow> ''refresh''
     | CvCopy \<Rightarrow> ''copy''
     | CvOpenSearch \<Rightarrow> ''find''
     | CvSearchNext \<Rightarrow> ''next''
     | CvSearchPrev \<Rightarrow> ''prev''
     | CvClose \<Rightarrow> ''close'')"

definition cv_priority :: "common_verb \<Rightarrow> nat" where
  "cv_priority v = (case v of
       CvClose \<Rightarrow> 100
     | CvOpenSearch \<Rightarrow> 80
     | _ \<Rightarrow> 50)"

definition cv_all :: "common_verb list" where
  "cv_all = [CvRefresh, CvCopy, CvOpenSearch, CvSearchNext, CvSearchPrev, CvClose]"

subsection \<open>\<open>BulletinsVerb\<close>\<close>

definition bl_chord :: "bulletins_verb \<Rightarrow> chord" where
  "bl_chord v = (case v of
       BlCommon c \<Rightarrow> cv_chord c
     | BlToggleSeverity SvError \<Rightarrow> chord_simple (KChar ''1'')
     | BlToggleSeverity SvWarning \<Rightarrow> chord_simple (KChar ''2'')
     | BlToggleSeverity SvInfo \<Rightarrow> chord_simple (KChar ''3'')
     | BlCycleTypeFilter \<Rightarrow> chord_shift (KChar ''T'')
     | BlCycleGroupBy \<Rightarrow> chord_shift (KChar ''G'')
     | BlTogglePause \<Rightarrow> chord_simple (KChar ''p'')
     | BlMuteSource \<Rightarrow> chord_shift (KChar ''M'')
     | BlClearFilters \<Rightarrow> chord_shift (KChar ''R'')
     | BlOpenDetail \<Rightarrow> chord_simple (KChar ''i''))"

definition bl_label :: "bulletins_verb \<Rightarrow> string" where
  "bl_label v = (case v of
       BlCommon c \<Rightarrow> cv_label c
     | BlToggleSeverity SvError \<Rightarrow> ''toggle error filter''
     | BlToggleSeverity SvWarning \<Rightarrow> ''toggle warning filter''
     | BlToggleSeverity SvInfo \<Rightarrow> ''toggle info filter''
     | BlCycleTypeFilter \<Rightarrow> ''cycle component-type filter''
     | BlCycleGroupBy \<Rightarrow> ''cycle group-by mode''
     | BlTogglePause \<Rightarrow> ''pause / resume auto-scroll''
     | BlMuteSource \<Rightarrow> ''mute selected source''
     | BlClearFilters \<Rightarrow> ''clear all filters''
     | BlOpenDetail \<Rightarrow> ''open detail modal'')"

definition bl_hint :: "bulletins_verb \<Rightarrow> string" where
  "bl_hint v = (case v of
       BlCommon c \<Rightarrow> cv_hint c
     | BlToggleSeverity SvError \<Rightarrow> ''err''
     | BlToggleSeverity SvWarning \<Rightarrow> ''warn''
     | BlToggleSeverity SvInfo \<Rightarrow> ''info''
     | BlCycleTypeFilter \<Rightarrow> ''type''
     | BlCycleGroupBy \<Rightarrow> ''group''
     | BlTogglePause \<Rightarrow> ''pause''
     | BlMuteSource \<Rightarrow> ''mute''
     | BlClearFilters \<Rightarrow> ''clear''
     | BlOpenDetail \<Rightarrow> ''info'')"

definition bl_priority :: "bulletins_verb \<Rightarrow> nat" where
  "bl_priority v = (case v of
       BlCommon c \<Rightarrow> cv_priority c
     | BlTogglePause \<Rightarrow> 80
     | BlClearFilters \<Rightarrow> 60
     | _ \<Rightarrow> 40)"

definition bl_hint_bar :: "bulletins_verb \<Rightarrow> bool" where
  "bl_hint_bar v = (case v of BlToggleSeverity _ \<Rightarrow> False | _ \<Rightarrow> True)"

definition bl_all :: "bulletins_verb list" where
  "bl_all = [BlToggleSeverity SvError, BlToggleSeverity SvWarning, BlToggleSeverity SvInfo,
     BlCycleTypeFilter, BlCycleGroupBy, BlTogglePause, BlMuteSource, BlCommon CvCopy, BlClearFilters,
     BlCommon CvOpenSearch, BlOpenDetail, BlCommon CvRefresh, BlCommon CvSearchNext,
     BlCommon CvSearchPrev]"

subsection \<open>\<open>BrowserVerb\<close>\<close>

definition bw_chord :: "browser_verb \<Rightarrow> chord" where
  "bw_chord v = (case v of
       BwCommon c \<Rightarrow> cv_chord c
     | BwOpenProperties \<Rightarrow> chord_simple (KChar ''p'')
     | BwOpenParameterContext \<Rightarrow> chord_simple (KChar ''p'')
     | BwOpenActionHistory \<Rightarrow> chord_simple (KChar ''a'')
     | BwShowVersionControl \<Rightarrow> chord_simple (KChar ''m'')
     | BwWatch \<Rightarrow> chord_simple (KChar ''w'')
     | BwOpenAccess \<Rightarrow> chord_simple (KChar ''u''))"

definition bw_label :: "browser_verb \<Rightarrow> string" where
  "bw_label v = (case v of
       BwCommon c \<Rightarrow> cv_label c
     | BwOpenProperties \<Rightarrow> ''open properties''
     | BwOpenParameterContext \<Rightarrow> ''open parameter context''
     | BwOpenActionHistory \<Rightarrow> ''open action history''
     | BwShowVersionControl \<Rightarrow> ''show version control''
     | BwWatch \<Rightarrow> ''watch this component''
     | BwOpenAccess \<Rightarrow> ''open access'')"

definition bw_hint :: "browser_verb \<Rightarrow> string" where
  "bw_hint v = (case v of
       BwCommon c \<Rightarrow> cv_hint c
     | BwOpenProperties \<Rightarrow> ''props''
     | BwOpenParameterContext \<Rightarrow> ''param''
     | BwOpenActionHistory \<Rightarrow> ''actions''
     | BwShowVersionControl \<Rightarrow> ''version''
     | BwWatch \<Rightarrow> ''watch''
     | BwOpenAccess \<Rightarrow> ''access'')"

definition bw_priority :: "browser_verb \<Rightarrow> nat" where
  "bw_priority v = 50"

definition bw_all :: "browser_verb list" where
  "bw_all = [BwCommon CvRefresh, BwCommon CvCopy, BwOpenProperties, BwOpenParameterContext,
     BwOpenActionHistory, BwShowVersionControl, BwWatch, BwOpenAccess]"

subsection \<open>\<open>BrowserQueueVerb\<close>\<close>

definition qv_chord :: "queue_verb \<Rightarrow> chord" where
  "qv_chord v = (case v of
       QvCommon c \<Rightarrow> cv_chord c
     | QvFocusListing \<Rightarrow> chord_simple KTab
     | QvPeekAttributes \<Rightarrow> chord_simple (KChar ''i'')
     | QvTraceLineage \<Rightarrow> chord_simple (KChar ''t'')
     | QvCopyUuid \<Rightarrow> chord_simple (KChar ''c'')
     | QvFilter \<Rightarrow> chord_simple (KChar ''/''))"

definition qv_label :: "queue_verb \<Rightarrow> string" where
  "qv_label v = (case v of
       QvCommon c \<Rightarrow> cv_label c
     | QvFocusListing \<Rightarrow> ''focus listing''
     | QvPeekAttributes \<Rightarrow> ''peek attributes''
     | QvTraceLineage \<Rightarrow> ''trace flowfile lineage''
     | QvCopyUuid \<Rightarrow> ''copy flowfile uuid''
     | QvFilter \<Rightarrow> ''filter by filename'')"

definition qv_hint :: "queue_verb \<Rightarrow> string" where
  "qv_hint v = (case v of
       QvCommon c \<Rightarrow> cv_hint c
     | QvFocusListing \<Rightarrow> ''focus list''
     | QvPeekAttributes \<Rightarrow> ''peek''
     | QvTraceLineage \<Rightarrow> ''trace''
     | QvCopyUuid \<Rightarrow> ''copy''
     | QvFilter \<Rightarrow> ''filter'')"

definition qv_priority :: "queue_verb \<Rightarrow> nat" where
  "qv_priority v = 50"

definition qv_hint_bar :: "queue_verb \<Rightarrow> bool" where
  "qv_hint_bar v = True"

definition qv_all :: "queue_verb list" where
  "qv_all = [QvFocusListing, QvPeekAttributes, QvTraceLineage, QvCopyUuid, QvCommon CvRefresh, QvFilter,
     QvCommon CvClose]"

subsection \<open>\<open>EventsVerb\<close>\<close>

definition ev_chord :: "events_verb \<Rightarrow> chord" where
  "ev_chord v = (case v of
       EvCommon c \<Rightarrow> cv_chord c
     | EvEditField FfTime \<Rightarrow> chord_shift (KChar ''D'')
     | EvEditField FfTypes \<Rightarrow> chord_shift (KChar ''T'')
     | EvEditField FfSource \<Rightarrow> chord_shift (KChar ''S'')
     | EvEditField FfUuid \<Rightarrow> chord_shift (KChar ''U'')
     | EvEditField FfAttr \<Rightarrow> chord_shift (KChar ''A'')
     | EvNewQuery \<Rightarrow> chord_shift (KChar ''N'')
     | EvReset \<Rightarrow> chord_shift (KChar ''R'')
     | EvRaiseCap \<Rightarrow> chord_shift (KChar ''L''))"

definition ev_label :: "events_verb \<Rightarrow> string" where
  "ev_label v = (case v of
       EvCommon c \<Rightarrow> cv_label c
     | EvEditField FfTime \<Rightarrow> ''edit time filter''
     | EvEditField FfTypes \<Rightarrow> ''edit types filter''
     | EvEditField FfSource \<Rightarrow> ''edit source filter''
     | EvEditField FfUuid \<Rightarrow> ''edit uuid filter''
     | EvEditField FfAttr \<Rightarrow> ''edit attributes filter''
     | EvNewQuery \<Rightarrow> ''clear filters and submit new query''
     | EvReset \<Rightarrow> ''reset filters (no submit)''
     | EvRaiseCap \<Rightarrow> ''raise result cap 500 -> 5000'')"

definition ev_hint :: "events_verb \<Rightarrow> string" where
  "ev_hint v = (case v of
       EvCommon c \<Rightarrow> cv_hint c
     | EvEditField FfTime \<Rightarrow> ''time''
     | EvEditField FfTypes \<Rightarrow> ''types''
     | EvEditField FfSource \<Rightarrow> ''src''
     | EvEditField FfUuid \<Rightarrow> ''uuid''
     | EvEditField FfAttr \<Rightarrow> ''attr''
     | EvNewQuery \<Rightarrow> ''new''
     | EvReset \<Rightarrow> ''reset''
     | EvRaiseCap \<Rightarrow> ''cap'')"

definition ev_priority :: "events_verb \<Rightarrow> nat" where
  "ev_priority v = (case v of
       EvCommon c \<Rightarrow> cv_priority c
     | EvEditField _ \<Rightarrow> 10
     | EvNewQuery \<Rightarrow> 10
     | EvReset \<Rightarrow> 10
     | EvRaiseCap \<Rightarrow> 10)"

definition ev_all :: "events_verb list" where
  "ev_all = [EvEditField FfTime, EvEditField FfTypes, EvEditField FfSource, EvEditField FfUuid,
     EvEditField FfAttr, EvNewQuery, EvReset, EvCommon CvRefresh, EvRaiseCap]"

subsection \<open>\<open>EventsWatchVerb\<close>\<close>

definition wv_chord :: "watch_verb \<Rightarrow> chord" where
  "wv_chord v = (case v of
       WvCommon c \<Rightarrow> cv_chord c
     | WvEditPredicate \<Rightarrow> chord_simple (KChar ''w'')
     | WvPause \<Rightarrow> chord_simple (KChar ''p'')
     | WvClearBuffer \<Rightarrow> chord_shift (KChar ''C'')
     | WvCommitPredicate \<Rightarrow> chord_simple KEnter
     | WvUnfocusPredicate \<Rightarrow> chord_simple KEsc)"

definition wv_label :: "watch_verb \<Rightarrow> string" where
  "wv_label v = (case v of
       WvCommon c \<Rightarrow> cv_label c
     | WvEditPredicate \<Rightarrow> ''edit predicate''
     | WvPause \<Rightarrow> ''pause / resume''
     | WvClearBuffer \<Rightarrow> ''clear buffer''
     | WvCommitPredicate \<Rightarrow> ''commit predicate''
     | WvUnfocusPredicate \<Rightarrow> ''unfocus predicate'')"

definition wv_hint :: "watch_verb \<Rightarrow> string" where
  "wv_hint v = (case v of
       WvCommon c \<Rightarrow> cv_hint c
     | WvEditPredicate \<Rightarrow> ''edit''
     | WvPause \<Rightarrow> ''pause''
     | WvClearBuffer \<Rightarrow> ''clear''
     | WvCommitPredicate \<Rightarrow> ''commit''
     | WvUnfocusPredicate \<Rightarrow> ''back'')"

definition wv_priority :: "watch_verb \<Rightarrow> nat" where
  "wv_priority v = (case v of
       WvCommon c \<Rightarrow> cv_priority c
     | WvEditPredicate \<Rightarrow> 80
     | WvPause \<Rightarrow> 70
     | WvClearBuffer \<Rightarrow> 50
     | _ \<Rightarrow> 40)"

definition wv_hint_bar :: "watch_verb \<Rightarrow> bool" where
  "wv_hint_bar v = (case v of WvCommon CvSearchNext \<Rightarrow> False
     | WvCommon CvSearchPrev \<Rightarrow> False | _ \<Rightarrow> True)"

definition wv_all :: "watch_verb list" where
  "wv_all = [WvEditPredicate, WvPause, WvClearBuffer, WvCommitPredicate, WvCommon CvOpenSearch,
     WvCommon CvSearchNext, WvCommon CvSearchPrev, WvCommon CvRefresh, WvCommon CvCopy,
     WvUnfocusPredicate, WvCommon CvClose]"

subsection \<open>\<open>TracerVerb\<close>\<close>

definition tv_chord :: "tracer_verb \<Rightarrow> chord" where
  "tv_chord v = (case v of
       TvCommon c \<Rightarrow> cv_chord c
     | TvSave \<Rightarrow> chord_simple (KChar ''s'')
     | TvToggleDiff \<Rightarrow> chord_simple (KChar ''d'')
     | TvOpenContentModal \<Rightarrow> chord_simple (KChar ''i'')
     | TvWatch \<Rightarrow> chord_simple (KChar ''w''))"

definition tv_label :: "tracer_verb \<Rightarrow> string" where
  "tv_label v = (case v of
       TvCommon c \<Rightarrow> cv_label c
     | TvSave \<Rightarrow> ''save content to file''
     | TvToggleDiff \<Rightarrow> ''toggle attribute diff''
     | TvOpenContentModal \<Rightarrow> ''open content viewer modal''
     | TvWatch \<Rightarrow> ''watch this component'')"

definition tv_hint :: "tracer_verb \<Rightarrow> string" where
  "tv_hint v = (case v of
       TvCommon c \<Rightarrow> cv_hint c
     | TvSave \<Rightarrow> ''save''
     | TvToggleDiff \<Rightarrow> ''diff''
     | TvOpenContentModal \<Rightarrow> ''view''
     | TvWatch \<Rightarrow> ''watch'')"

definition tv_priority :: "tracer_verb \<Rightarrow> nat" where
  "tv_priority v = (case v of
       TvWatch \<Rightarrow> 60
     | _ \<Rightarrow> 50)"

definition tv_all :: "tracer_verb list" where
  "tv_all = [TvCommon CvRefresh, TvCommon CvCopy, TvSave, TvToggleDiff, TvOpenContentModal, TvWatch]"

subsection \<open>\<open>ContentModalVerb\<close>\<close>

definition nv_chord :: "content_verb \<Rightarrow> chord" where
  "nv_chord v = (case v of
       NvCommon c \<Rightarrow> cv_chord c
     | NvSwitchTabNext \<Rightarrow> chord_simple KTab
     | NvSwitchTabPrev \<Rightarrow> chord_simple KBackTab
     | NvJumpInput \<Rightarrow> chord_simple (KChar ''1'')
     | NvJumpOutput \<Rightarrow> chord_simple (KChar ''2'')
     | NvJumpDiff \<Rightarrow> chord_simple (KChar ''3'')
     | NvHunkNext \<Rightarrow> chord_ctrl KDown
     | NvHunkPrev \<Rightarrow> chord_ctrl KUp
     | NvSave \<Rightarrow> chord_simple (KChar ''s''))"

definition nv_label :: "content_verb \<Rightarrow> string" where
  "nv_label v = (case v of
       NvCommon c \<Rightarrow> cv_label c
     | NvSwitchTabNext \<Rightarrow> ''switch tab forward''
     | NvSwitchTabPrev \<Rightarrow> ''switch tab backward''
     | NvJumpInput \<Rightarrow> ''jump to Input tab''
     | NvJumpOutput \<Rightarrow> ''jump to Output tab''
     | NvJumpDiff \<Rightarrow> ''jump to Diff tab''
     | NvHunkNext \<Rightarrow> ''next change''
     | NvHunkPrev \<Rightarrow> ''previous change''
     | NvSave \<Rightarrow> ''save full content to file'')"

definition nv_hint :: "content_verb \<Rightarrow> string" where
  "nv_hint v = (case v of
       NvCommon c \<Rightarrow> cv_hint c
     | NvSwitchTabNext \<Rightarrow> ''switch''
     | NvHunkNext \<Rightarrow> ''change''
     | NvSave \<Rightarrow> ''save''
     | _ \<Rightarrow> [])"

definition nv_priority :: "content_verb \<Rightarrow> nat" where
  "nv_priority v = 50"

definition nv_hint_bar :: "content_verb \<Rightarrow> bool" where
  "nv_hint_bar v = (case v of NvCommon CvOpenSearch \<Rightarrow> True
     | NvCommon CvSearchNext \<Rightarrow> True | NvCommon CvCopy \<Rightarrow> True
     | NvCommon CvClose \<Rightarrow> True | NvSwitchTabNext \<Rightarrow> True
     | NvHunkNext \<Rightarrow> True | NvSave \<Rightarrow> True | _ \<Rightarrow> False)"

definition nv_all :: "content_verb list" where
  "nv_all = [NvSwitchTabNext, NvSwitchTabPrev, NvJumpInput, NvJumpOutput, NvJumpDiff,
     NvCommon CvOpenSearch, NvCommon CvSearchNext, NvCommon CvSearchPrev, NvHunkNext, NvHunkPrev,
     NvCommon CvCopy, NvSave, NvCommon CvClose]"

subsection \<open>\<open>VersionControlModalVerb\<close>\<close>

definition vv_chord :: "version_verb \<Rightarrow> chord" where
  "vv_chord v = (case v of
       VvCommon c \<Rightarrow> cv_chord c
     | VvToggleEnvironmental \<Rightarrow> chord_simple (KChar ''e'')
     | VvScrollUp \<Rightarrow> chord_simple KUp
     | VvScrollDown \<Rightarrow> chord_simple KDown
     | VvPageUp \<Rightarrow> chord_simple KPageUp
     | VvPageDown \<Rightarrow> chord_simple KPageDown
     | VvHome \<Rightarrow> chord_simple KHome
     | VvEnd \<Rightarrow> chord_simple KEnd)"

definition vv_label :: "version_verb \<Rightarrow> string" where
  "vv_label v = (case v of
       VvCommon c \<Rightarrow> cv_label c
     | VvToggleEnvironmental \<Rightarrow> ''toggle bundle diffs''
     | VvScrollUp \<Rightarrow> ''scroll up''
     | VvScrollDown \<Rightarrow> ''scroll down''
     | VvPageUp \<Rightarrow> ''page up''
     | VvPageDown \<Rightarrow> ''page down''
     | VvHome \<Rightarrow> ''scroll to top''
     | VvEnd \<Rightarrow> ''scroll to bottom'')"

definition vv_hint :: "version_verb \<Rightarrow> string" where
  "vv_hint v = (case v of
       VvCommon c \<Rightarrow> cv_hint c
     | VvToggleEnvironmental \<Rightarrow> ''bundle diffs''
     | _ \<Rightarrow> [])"

definition vv_priority :: "version_verb \<Rightarrow> nat" where
  "vv_priority v = 50"

definition vv_hint_bar :: "version_verb \<Rightarrow> bool" where
  "vv_hint_bar v = (case v of VvCommon CvClose \<Rightarrow> True
     | VvCommon CvOpenSearch \<Rightarrow> True | VvCommon CvCopy \<Rightarrow> True
     | VvCommon CvRefresh \<Rightarrow> True | VvToggleEnvironmental \<Rightarrow> True
     | _ \<Rightarrow> False)"

definition vv_all :: "version_verb list" where
  "vv_all = [VvCommon CvClose, VvCommon CvOpenSearch, VvCommon CvSearchNext, VvCommon CvSearchPrev,
     VvCommon CvCopy, VvToggleEnvironmental, VvCommon CvRefresh, VvScrollUp, VvScrollDown, VvPageUp,
     VvPageDown, VvHome, VvEnd]"

subsection \<open>\<open>OverviewVerb\<close>\<close>

definition ov_chord :: "overview_verb \<Rightarrow> chord" where
  "ov_chord v = (case v of
       OvOpenReportingTasksModal \<Rightarrow> chord_simple (KChar ''t''))"

definition ov_label :: "overview_verb \<Rightarrow> string" where
  "ov_label v = (case v of
       OvOpenReportingTasksModal \<Rightarrow> ''open reporting tasks'')"

definition ov_hint :: "overview_verb \<Rightarrow> string" where
  "ov_hint v = (case v of
       OvOpenReportingTasksModal \<Rightarrow> ''tasks'')"

definition ov_priority :: "overview_verb \<Rightarrow> nat" where
  "ov_priority v = 50"

definition ov_all :: "overview_verb list" where
  "ov_all = [OvOpenReportingTasksModal]"

subsection \<open>\<open>OverviewReportingTasksVerb\<close>\<close>

definition rv_chord :: "reporting_verb \<Rightarrow> chord" where
  "rv_chord v = (case v of
       RvCommon c \<Rightarrow> cv_chord c
     | RvRowUp \<Rightarrow> chord_simple KUp
     | RvRowDown \<Rightarrow> chord_simple KDown
     | RvPageUp \<Rightarrow> chord_simple KPageUp
     | RvPageDown \<Rightarrow> chord_simple KPageDown
     | RvJumpTop \<Rightarrow> chord_simple KHome
     | RvJumpBottom \<Rightarrow> chord_simple KEnd
     | RvFocusDetail \<Rightarrow> chord_simple KEnter
     | RvNextPane \<Rightarrow> chord_simple KTab
     | RvPrevPane \<Rightarrow> chord_simple KBackTab)"

definition rv_label :: "reporting_verb \<Rightarrow> string" where
  "rv_label v = (case v of
       RvCommon c \<Rightarrow> cv_label c
     | RvRowUp \<Rightarrow> ''row up''
     | RvRowDown \<Rightarrow> ''row down''
     | RvPageUp \<Rightarrow> ''page up''
     | RvPageDown \<Rightarrow> ''page down''
     | RvJumpTop \<Rightarrow> ''top''
     | RvJumpBottom \<Rightarrow> ''bottom''
     | RvFocusDetail \<Rightarrow> ''focus detail''
     | RvNextPane \<Rightarrow> ''next section''
     | RvPrevPane \<Rightarrow> ''prev section'')"

definition rv_hint :: "reporting_verb \<Rightarrow> string" where
  "rv_hint v = (case v of
       RvCommon c \<Rightarrow> cv_hint c
     | RvRowUp \<Rightarrow> ''row''
     | RvRowDown \<Rightarrow> ''row''
     | RvPageUp \<Rightarrow> ''page''
     | RvPageDown \<Rightarrow> ''page''
     | RvJumpTop \<Rightarrow> ''top''
     | RvJumpBottom \<Rightarrow> ''bottom''
     | RvFocusDetail \<Rightarrow> ''focus detail''
     | RvNextPane \<Rightarrow> ''section''
     | RvPrevPane \<Rightarrow> ''section'')"

definition rv_hint_bar :: "reporting_verb \<Rightarrow> bool" where
  "rv_hint_bar v = (case v of RvRowUp \<Rightarrow> False | RvRowDown \<Rightarrow> False
     | RvPageUp \<Rightarrow> False | RvPageDown \<Rightarrow> False | RvJumpTop \<Rightarrow> False
     | RvJumpBottom \<Rightarrow> False | RvFocusDetail \<Rightarrow> False
     | RvNextPane \<Rightarrow> False | RvPrevPane \<Rightarrow> False
     | RvCommon CvSearchNext \<Rightarrow> False | RvCommon CvSearchPrev \<Rightarrow> False
     | _ \<Rightarrow> True)"

definition rv_all :: "reporting_verb list" where
  "rv_all = [RvCommon CvClose, RvRowUp, RvRowDown, RvPageUp, RvPageDown, RvJumpTop, RvJumpBottom,
     RvFocusDetail, RvNextPane, RvPrevPane, RvCommon CvOpenSearch, RvCommon CvSearchNext,
     RvCommon CvSearchPrev, RvCommon CvCopy, RvCommon CvRefresh]"

subsection \<open>\<open>ParameterContextModalVerb\<close>\<close>

definition pv_chord :: "param_verb \<Rightarrow> chord" where
  "pv_chord v = (case v of
       PvCommon c \<Rightarrow> cv_chord c
     | PvRowUp \<Rightarrow> chord_simple KUp
     | PvRowDown \<Rightarrow> chord_simple KDown
     | PvPageUp \<Rightarrow> chord_simple KPageUp
     | PvPageDown \<Rightarrow> chord_simple KPageDown
     | PvJumpTop \<Rightarrow> chord_simple KHome
     | PvJumpBottom \<Rightarrow> chord_simple KEnd
     | PvFocusBody \<Rightarrow> chord_simple KEnter
     | PvToggleByContext \<Rightarrow> chord_simple (KChar ''t'')
     | PvToggleShadowed \<Rightarrow> chord_simple (KChar ''s'')
     | PvToggleUsedBy \<Rightarrow> chord_simple (KChar ''u''))"

definition pv_label :: "param_verb \<Rightarrow> string" where
  "pv_label v = (case v of
       PvCommon c \<Rightarrow> cv_label c
     | PvRowUp \<Rightarrow> ''row up''
     | PvRowDown \<Rightarrow> ''row down''
     | PvPageUp \<Rightarrow> ''page up''
     | PvPageDown \<Rightarrow> ''page down''
     | PvJumpTop \<Rightarrow> ''top''
     | PvJumpBottom \<Rightarrow> ''bottom''
     | PvFocusBody \<Rightarrow> ''focus body''
     | PvToggleByContext \<Rightarrow> ''by context''
     | PvToggleShadowed \<Rightarrow> ''show shadowed''
     | PvToggleUsedBy \<Rightarrow> ''used by'')"

definition pv_hint :: "param_verb \<Rightarrow> string" where
  "pv_hint v = (case v of
       PvCommon c \<Rightarrow> cv_hint c
     | PvRowUp \<Rightarrow> ''row''
     | PvRowDown \<Rightarrow> ''row''
     | PvPageUp \<Rightarrow> ''page''
     | PvPageDown \<Rightarrow> ''page''
     | PvJumpTop \<Rightarrow> ''top''
     | PvJumpBottom \<Rightarrow> ''bottom''
     | PvFocusBody \<Rightarrow> ''focus params''
     | PvToggleByContext \<Rightarrow> ''by-ctx''
     | PvToggleShadowed \<Rightarrow> ''shadowed''
     | PvToggleUsedBy \<Rightarrow> ''used-by'')"

definition pv_hint_bar :: "param_verb \<Rightarrow> bool" where
  "pv_hint_bar v = (case v of PvRowUp \<Rightarrow> False | PvRowDown \<Rightarrow> False
     | PvPageUp \<Rightarrow> False | PvPageDown \<Rightarrow> False | PvJumpTop \<Rightarrow> False
     | PvJumpBottom \<Rightarrow> False | PvFocusBody \<Rightarrow> False
     | PvCommon CvSearchNext \<Rightarrow> False | PvCommon CvSearchPrev \<Rightarrow> False
     | _ \<Rightarrow> True)"

definition pv_all :: "param_verb list" where
  "pv_all = [PvCommon CvClose, PvRowUp, PvRowDown, PvPageUp, PvPageDown, PvJumpTop, PvJumpBottom,
     PvFocusBody, PvToggleByContext, PvToggleShadowed, PvToggleUsedBy, PvCommon CvOpenSearch,
     PvCommon CvSearchNext, PvCommon CvSearchPrev, PvCommon CvCopy, PvCommon CvRefresh]"

subsection \<open>\<open>ActionHistoryModalVerb\<close>\<close>

definition av_chord :: "action_verb \<Rightarrow> chord" where
  "av_chord v = (case v of
       AvCommon c \<Rightarrow> cv_chord c
     | AvScrollUp \<Rightarrow> chord_simple KUp
     | AvScrollDown \<Rightarrow> chord_simple KDown
     | AvPageUp \<Rightarrow> chord_simple KPageUp
     | AvPageDown \<Rightarrow> chord_simple KPageDown
     | AvJumpTop \<Rightarrow> chord_simple KHome
     | AvJumpBottom \<Rightarrow> chord_simple KEnd
     | AvToggleExpand \<Rightarrow> chord_simple KEnter)"

definition av_label :: "action_verb \<Rightarrow> string" where
  "av_label v = (case v of
       AvCommon c \<Rightarrow> cv_label c
     | AvScrollUp \<Rightarrow> ''scroll up''
     | AvScrollDown \<Rightarrow> ''scroll down''
     | AvPageUp \<Rightarrow> ''page up''
     | AvPageDown \<Rightarrow> ''page down''
     | AvJumpTop \<Rightarrow> ''scroll to top''
     | AvJumpBottom \<Rightarrow> ''scroll to bottom''
     | AvToggleExpand \<Rightarrow> ''expand / collapse selected action'')"

definition av_hint :: "action_verb \<Rightarrow> string" where
  "av_hint v = (case v of
       AvCommon c \<Rightarrow> cv_hint c
     | AvToggleExpand \<Rightarrow> ''expand''
     | _ \<Rightarrow> [])"

definition av_priority :: "action_verb \<Rightarrow> nat" where
  "av_priority v = 50"

definition av_hint_bar :: "action_verb \<Rightarrow> bool" where
  "av_hint_bar v = (case v of AvCommon CvClose \<Rightarrow> True
     | AvCommon CvOpenSearch \<Rightarrow> True | AvCommon CvCopy \<Rightarrow> True
     | AvCommon CvRefresh \<Rightarrow> True | AvToggleExpand \<Rightarrow> True
     | _ \<Rightarrow> False)"

definition av_all :: "action_verb list" where
  "av_all = [AvCommon CvClose, AvScrollUp, AvScrollDown, AvPageUp, AvPageDown, AvJumpTop, AvJumpBottom,
     AvToggleExpand, AvCommon CvOpenSearch, AvCommon CvSearchNext, AvCommon CvSearchPrev,
     AvCommon CvCopy, AvCommon CvRefresh]"

subsection \<open>\<open>BrowserPeekVerb\<close>\<close>

definition kv_chord :: "peek_verb \<Rightarrow> chord" where
  "kv_chord v = (case v of
       KvCommon c \<Rightarrow> cv_chord c
     | KvCopyAsJson \<Rightarrow> chord_simple (KChar ''c''))"

definition kv_label :: "peek_verb \<Rightarrow> string" where
  "kv_label v = (case v of
       KvCommon c \<Rightarrow> cv_label c
     | KvCopyAsJson \<Rightarrow> ''copy attributes as JSON'')"

definition kv_hint :: "peek_verb \<Rightarrow> string" where
  "kv_hint v = (case v of
       KvCommon c \<Rightarrow> cv_hint c
     | KvCopyAsJson \<Rightarrow> ''copy json'')"

definition kv_priority :: "peek_verb \<Rightarrow> nat" where
  "kv_priority v = 50"

definition kv_hint_bar :: "peek_verb \<Rightarrow> bool" where
  "kv_hint_bar v = True"

definition kv_all :: "peek_verb list" where
  "kv_all = [KvCommon CvClose, KvCommon CvOpenSearch, KvCommon CvSearchNext, KvCommon CvSearchPrev,
     KvCopyAsJson]"

subsection \<open>\<open>AccessModalVerb\<close>\<close>

definition xv_chord :: "access_verb \<Rightarrow> chord" where
  "xv_chord v = (case v of
       XvCommon c \<Rightarrow> cv_chord c
     | XvScrollUp \<Rightarrow> chord_simple KUp
     | XvScrollDown \<Rightarrow> chord_simple KDown
     | XvPageUp \<Rightarrow> chord_simple KPageUp
     | XvPageDown \<Rightarrow> chord_simple KPageDown
     | XvJumpTop \<Rightarrow> chord_simple KHome
     | XvJumpBottom \<Rightarrow> chord_simple KEnd
     | XvDrillIdentity \<Rightarrow> chord_simple KEnter)"

definition xv_label :: "access_verb \<Rightarrow> string" where
  "xv_label v = (case v of
       XvCommon c \<Rightarrow> cv_label c
     | XvScrollUp \<Rightarrow> ''scroll up''
     | XvScrollDown \<Rightarrow> ''scroll down''
     | XvPageUp \<Rightarrow> ''page up''
     | XvPageDown \<Rightarrow> ''page down''
     | XvJumpTop \<Rightarrow> ''scroll to top''
     | XvJumpBottom \<Rightarrow> ''scroll to bottom''
     | XvDrillIdentity \<Rightarrow> ''drill into focused identity'')"

definition xv_hint :: "access_verb \<Rightarrow> string" where
  "xv_hint v = (case v of
       XvCommon c \<Rightarrow> cv_hint c
     | XvDrillIdentity \<Rightarrow> ''drill''
     | _ \<Rightarrow> [])"

definition xv_priority :: "access_verb \<Rightarrow> nat" where
  "xv_priority v = 50"

definition xv_hint_bar :: "access_verb \<Rightarrow> bool" where
  "xv_hint_bar v = (case v of XvCommon CvClose \<Rightarrow> True
     | XvCommon CvOpenSearch \<Rightarrow> True | XvCommon CvCopy \<Rightarrow> True
     | XvCommon CvRefresh \<Rightarrow> True | XvDrillIdentity \<Rightarrow> True
     | _ \<Rightarrow> False)"

definition xv_all :: "access_verb list" where
  "xv_all = [XvCommon CvClose, XvScrollUp, XvScrollDown, XvPageUp, XvPageDown, XvJumpTop, XvJumpBottom,
     XvDrillIdentity, XvCommon CvOpenSearch, XvCommon CvSearchNext, XvCommon CvSearchPrev,
     XvCommon CvCopy, XvCommon CvRefresh]"

subsection \<open>\<open>IdentityModalVerb\<close>\<close>

definition iv_chord :: "identity_verb \<Rightarrow> chord" where
  "iv_chord v = (case v of
       IvCommon c \<Rightarrow> cv_chord c
     | IvScrollUp \<Rightarrow> chord_simple KUp
     | IvScrollDown \<Rightarrow> chord_simple KDown
     | IvPageUp \<Rightarrow> chord_simple KPageUp
     | IvPageDown \<Rightarrow> chord_simple KPageDown
     | IvJumpTop \<Rightarrow> chord_simple KHome
     | IvJumpBottom \<Rightarrow> chord_simple KEnd
     | IvCrossLink \<Rightarrow> chord_simple KEnter)"

definition iv_label :: "identity_verb \<Rightarrow> string" where
  "iv_label v = (case v of
       IvCommon c \<Rightarrow> cv_label c
     | IvScrollUp \<Rightarrow> ''scroll up''
     | IvScrollDown \<Rightarrow> ''scroll down''
     | IvPageUp \<Rightarrow> ''page up''
     | IvPageDown \<Rightarrow> ''page down''
     | IvJumpTop \<Rightarrow> ''scroll to top''
     | IvJumpBottom \<Rightarrow> ''scroll to bottom''
     | IvCrossLink \<Rightarrow> ''cross-link to focused resource'')"

definition iv_hint :: "identity_verb \<Rightarrow> string" where
  "iv_hint v = (case v of
       IvCommon c \<Rightarrow> cv_hint c
     | IvCrossLink \<Rightarrow> ''open''
     | _ \<Rightarrow> [])"

definition iv_priority :: "identity_verb \<Rightarrow> nat" where
  "iv_priority v = 50"

definition iv_hint_bar :: "identity_verb \<Rightarrow> bool" where
  "iv_hint_bar v = (case v of IvCommon CvClose \<Rightarrow> True
     | IvCommon CvOpenSearch \<Rightarrow> True | IvCommon CvCopy \<Rightarrow> True
     | IvCommon CvRefresh \<Rightarrow> True | IvCrossLink \<Rightarrow> True | _ \<Rightarrow> False)"

definition iv_all :: "identity_verb list" where
  "iv_all = [IvCommon CvClose, IvScrollUp, IvScrollDown, IvPageUp, IvPageDown, IvJumpTop, IvJumpBottom,
     IvCrossLink, IvCommon CvOpenSearch, IvCommon CvSearchNext, IvCommon CvSearchPrev, IvCommon CvCopy,
     IvCommon CvRefresh]"

subsection \<open>\<open>BulletinsDetailModalVerb\<close>\<close>

definition dv_chord :: "detail_verb \<Rightarrow> chord" where
  "dv_chord v = (case v of
       DvCommon c \<Rightarrow> cv_chord c)"

definition dv_label :: "detail_verb \<Rightarrow> string" where
  "dv_label v = (case v of
       DvCommon c \<Rightarrow> cv_label c)"

definition dv_hint :: "detail_verb \<Rightarrow> string" where
  "dv_hint v = (case v of
       DvCommon c \<Rightarrow> cv_hint c)"

definition dv_priority :: "detail_verb \<Rightarrow> nat" where
  "dv_priority v = 50"

definition dv_hint_bar :: "detail_verb \<Rightarrow> bool" where
  "dv_hint_bar v = (case v of DvCommon CvClose \<Rightarrow> True
     | DvCommon CvOpenSearch \<Rightarrow> True | DvCommon CvSearchNext \<Rightarrow> True
     | DvCommon CvSearchPrev \<Rightarrow> True | DvCommon CvCopy \<Rightarrow> True
     | _ \<Rightarrow> False)"

definition dv_all :: "detail_verb list" where
  "dv_all = [DvCommon CvClose, DvCommon CvOpenSearch, DvCommon CvSearchNext, DvCommon CvSearchPrev,
     DvCommon CvCopy]"

subsection \<open>\<open>FocusAction\<close>\<close>

definition fa_chord :: "focus_action \<Rightarrow> chord" where
  "fa_chord v = (case v of
       FaUp \<Rightarrow> chord_simple KUp
     | FaDown \<Rightarrow> chord_simple KDown
     | FaLeft \<Rightarrow> chord_simple KLeft
     | FaRight \<Rightarrow> chord_simple KRight
     | FaPageUp \<Rightarrow> chord_simple KPageUp
     | FaPageDown \<Rightarrow> chord_simple KPageDown
     | FaFirst \<Rightarrow> chord_simple KHome
     | FaLast \<Rightarrow> chord_simple KEnd
     | FaDescend \<Rightarrow> chord_simple KEnter
     | FaAscend \<Rightarrow> chord_simple KEsc
     | FaNextPane \<Rightarrow> chord_simple KTab
     | FaPrevPane \<Rightarrow> chord_simple KBackTab)"

definition fa_label :: "focus_action \<Rightarrow> string" where
  "fa_label v = (case v of
       FaUp \<Rightarrow> ''move selection up''
     | FaDown \<Rightarrow> ''move selection down''
     | FaLeft \<Rightarrow> ''move left / collapse tree node''
     | FaRight \<Rightarrow> ''move right / expand tree node''
     | FaPageUp \<Rightarrow> ''page up''
     | FaPageDown \<Rightarrow> ''page down''
     | FaFirst \<Rightarrow> ''goto first''
     | FaLast \<Rightarrow> ''goto last''
     | FaDescend \<Rightarrow> ''drill / activate / submit''
     | FaAscend \<Rightarrow> ''leave focused pane / cancel''
     | FaNextPane \<Rightarrow> ''focus next pane''
     | FaPrevPane \<Rightarrow> ''focus previous pane'')"

definition fa_hint :: "focus_action \<Rightarrow> string" where
  "fa_hint v = (case v of
       FaUp \<Rightarrow> ''nav''
     | FaDown \<Rightarrow> ''nav''
     | FaLeft \<Rightarrow> ''side''
     | FaRight \<Rightarrow> ''side''
     | FaPageUp \<Rightarrow> ''page''
     | FaPageDown \<Rightarrow> ''page''
     | FaFirst \<Rightarrow> ''goto''
     | FaLast \<Rightarrow> ''goto''
     | FaDescend \<Rightarrow> ''drill''
     | FaAscend \<Rightarrow> ''back''
     | FaNextPane \<Rightarrow> ''pane''
     | FaPrevPane \<Rightarrow> ''pane'')"

definition fa_priority :: "focus_action \<Rightarrow> nat" where
  "fa_priority v = (case v of
       FaDescend \<Rightarrow> 100
     | FaAscend \<Rightarrow> 100
     | FaUp \<Rightarrow> 90
     | FaDown \<Rightarrow> 90
     | FaLeft \<Rightarrow> 70
     | FaRight \<Rightarrow> 70
     | FaNextPane \<Rightarrow> 60
     | FaPrevPane \<Rightarrow> 60
     | _ \<Rightarrow> 40)"

definition fa_all :: "focus_action list" where
  "fa_all = [FaUp, FaDown, FaLeft, FaRight, FaPageUp, FaPageDown, FaFirst, FaLast, FaDescend, FaAscend,
     FaNextPane, FaPrevPane]"

subsection \<open>\<open>HistoryAction\<close>\<close>

definition ha_chord :: "history_action \<Rightarrow> chord" where
  "ha_chord v = (case v of
       HaBack \<Rightarrow> chord_shift KLeft
     | HaForward \<Rightarrow> chord_shift KRight)"

definition ha_label :: "history_action \<Rightarrow> string" where
  "ha_label v = (case v of
       HaBack \<Rightarrow> ''history back''
     | HaForward \<Rightarrow> ''history forward'')"

definition ha_hint :: "history_action \<Rightarrow> string" where
  "ha_hint v = (case v of
       HaBack \<Rightarrow> ''back''
     | HaForward \<Rightarrow> ''fwd'')"

definition ha_priority :: "history_action \<Rightarrow> nat" where
  "ha_priority v = 30"

definition ha_all :: "history_action list" where
  "ha_all = [HaBack, HaForward]"

subsection \<open>\<open>TabAction\<close>\<close>

definition ta_chord :: "tab_action \<Rightarrow> chord" where
  "ta_chord v = (case v of
       TaGoto n \<Rightarrow> chord_simple (KF n))"

definition ta_label :: "tab_action \<Rightarrow> string" where
  "ta_label v = (case v of
       TaGoto _ \<Rightarrow> ''goto tab'')"

definition ta_hint :: "tab_action \<Rightarrow> string" where
  "ta_hint v = (case v of
       TaGoto _ \<Rightarrow> ''tab'')"

definition ta_priority :: "tab_action \<Rightarrow> nat" where
  "ta_priority v = 20"

definition ta_all :: "tab_action list" where
  "ta_all = [TaGoto 1, TaGoto 2, TaGoto 3, TaGoto 4, TaGoto 5]"

subsection \<open>\<open>AppAction\<close>\<close>

definition aa_chord :: "app_action \<Rightarrow> chord" where
  "aa_chord v = (case v of
       AaQuit \<Rightarrow> chord_simple (KChar ''q'')
     | AaHelp \<Rightarrow> chord_simple (KChar ''?'')
     | AaContextSwitcher \<Rightarrow> chord_shift (KChar ''K'')
     | AaFuzzyFind \<Rightarrow> chord_shift (KChar ''F'')
     | AaGoto \<Rightarrow> chord_simple (KChar ''g'')
     | AaPaste \<Rightarrow> chord_simple (KChar ''v'')
     | AaCut \<Rightarrow> chord_simple (KChar ''x''))"

definition aa_label :: "app_action \<Rightarrow> string" where
  "aa_label v = (case v of
       AaQuit \<Rightarrow> ''quit''
     | AaHelp \<Rightarrow> ''help''
     | AaContextSwitcher \<Rightarrow> ''switch cluster context''
     | AaFuzzyFind \<Rightarrow> ''fuzzy find component''
     | AaGoto \<Rightarrow> ''goto related tab''
     | AaPaste \<Rightarrow> ''paste from clipboard''
     | AaCut \<Rightarrow> ''cut to clipboard'')"

definition aa_hint :: "app_action \<Rightarrow> string" where
  "aa_hint v = (case v of
       AaQuit \<Rightarrow> ''quit''
     | AaHelp \<Rightarrow> ''help''
     | AaContextSwitcher \<Rightarrow> ''ctx''
     | AaFuzzyFind \<Rightarrow> ''find''
     | AaGoto \<Rightarrow> ''goto''
     | AaPaste \<Rightarrow> ''paste''
     | AaCut \<Rightarrow> ''cut'')"

definition aa_priority :: "app_action \<Rightarrow> nat" where
  "aa_priority v = (case v of
       AaHelp \<Rightarrow> 80
     | AaGoto \<Rightarrow> 60
     | AaPaste \<Rightarrow> 50
     | AaCut \<Rightarrow> 50
     | _ \<Rightarrow> 30)"

definition aa_all :: "app_action list" where
  "aa_all = [AaQuit, AaHelp, AaContextSwitcher, AaFuzzyFind, AaGoto, AaPaste, AaCut]"

end
