(* ===== verification/Browser_Modals.thy ===== *)
theory Browser_Modals
  imports Modal_Bodies Verbs
begin

text \<open>
  The five full-screen modals over the Browser tab as one state: opening and closing them, the
  verbs they handle, the answers of their workers and the routing of typed text
  (\<open>src/src/view/browser/state/mod.rs\<close>, \<open>src/src/app/state/browser/mod.rs\<close> and
  \<open>handle_browser_payload\<close> in \<open>src/src/app/state/mod.rs\<close>).

  Replacing a worker handle aborts the worker it held; a handle is what the worker fetches. A
  verb that spawns a worker sets the handle here, as the dispatcher does next. The clipboard
  and the status line are left out.
\<close>

record modals =
  bm_version :: "version_modal option"
  bm_version_fetch :: "string option"
  bm_param :: "param_modal option"
  bm_param_fetch :: "string option"
  bm_action :: "action_modal option"
  bm_action_fetch :: "string option"
  bm_access :: "access_modal option"
  bm_access_fetch :: "string option"
  bm_identity :: "identity_modal option"
  bm_identity_fetch :: "string option"
  bm_audit :: access_audit_state

definition modals_default :: modals where
  "modals_default = \<lparr>bm_version = None, bm_version_fetch = None, bm_param = None, bm_param_fetch = None,
     bm_action = None, bm_action_fetch = None, bm_access = None, bm_access_fetch = None,
     bm_identity = None, bm_identity_fetch = None, bm_audit = AuditUnknown\<rparr>"

section \<open>The search boxes\<close>

definition map_version :: "(version_modal \<Rightarrow> version_modal) \<Rightarrow> modals \<Rightarrow> modals" where
  "map_version f s = s\<lparr>bm_version := map_option f (bm_version s)\<rparr>"

definition map_param :: "(param_modal \<Rightarrow> param_modal) \<Rightarrow> modals \<Rightarrow> modals" where
  "map_param f s = s\<lparr>bm_param := map_option f (bm_param s)\<rparr>"

definition map_action :: "(action_modal \<Rightarrow> action_modal) \<Rightarrow> modals \<Rightarrow> modals" where
  "map_action f s = s\<lparr>bm_action := map_option f (bm_action s)\<rparr>"

definition map_access :: "(access_modal \<Rightarrow> access_modal) \<Rightarrow> modals \<Rightarrow> modals" where
  "map_access f s = s\<lparr>bm_access := map_option f (bm_access s)\<rparr>"

definition map_identity :: "(identity_modal \<Rightarrow> identity_modal) \<Rightarrow> modals \<Rightarrow> modals" where
  "map_identity f s = s\<lparr>bm_identity := map_option f (bm_identity s)\<rparr>"

lemmas map_modal_defs = map_version_def map_param_def map_action_def map_access_def map_identity_def

text \<open>The body of a version modal that cannot be built counts as empty; see \<open>version_search_push\<close>.\<close>

definition version_host :: "modals search_host" where
  "version_host = \<lparr>sh_open = (\<lambda>s. bm_version s \<noteq> None), sh_search = (\<lambda>s. Option.bind (bm_version s) vm_search),
     sh_set = (\<lambda>q. map_version (\<lambda>m. m\<lparr>vm_search := q\<rparr>)),
     sh_body = (\<lambda>s. case Option.bind (bm_version s) version_body of None \<Rightarrow> [] | Some b \<Rightarrow> b)\<rparr>"

definition param_host :: "modals search_host" where
  "param_host = \<lparr>sh_open = (\<lambda>s. bm_param s \<noteq> None), sh_search = (\<lambda>s. Option.bind (bm_param s) pm_search),
     sh_set = (\<lambda>q. map_param (\<lambda>m. m\<lparr>pm_search := q\<rparr>)),
     sh_body = (\<lambda>s. case bm_param s of None \<Rightarrow> [] | Some m \<Rightarrow> param_body m)\<rparr>"

definition action_host :: "modals search_host" where
  "action_host = \<lparr>sh_open = (\<lambda>s. bm_action s \<noteq> None), sh_search = (\<lambda>s. Option.bind (bm_action s) am_search),
     sh_set = (\<lambda>q. map_action (\<lambda>m. m\<lparr>am_search := q\<rparr>)),
     sh_body = (\<lambda>s. case bm_action s of None \<Rightarrow> [] | Some m \<Rightarrow> action_body m)\<rparr>"

definition access_host :: "modals search_host" where
  "access_host = \<lparr>sh_open = (\<lambda>s. bm_access s \<noteq> None), sh_search = (\<lambda>s. Option.bind (bm_access s) xm_search),
     sh_set = (\<lambda>q. map_access (\<lambda>m. m\<lparr>xm_search := q\<rparr>)),
     sh_body = (\<lambda>s. case bm_access s of None \<Rightarrow> [] | Some m \<Rightarrow> access_body m)\<rparr>"

definition identity_host :: "modals search_host" where
  "identity_host = \<lparr>sh_open = (\<lambda>s. bm_identity s \<noteq> None), sh_search = (\<lambda>s. Option.bind (bm_identity s) im_search),
     sh_set = (\<lambda>q. map_identity (\<lambda>m. m\<lparr>im_search := q\<rparr>)),
     sh_body = (\<lambda>s. case bm_identity s of None \<Rightarrow> [] | Some m \<Rightarrow> identity_body m)\<rparr>"

lemmas modal_host_defs = version_host_def param_host_def action_host_def access_host_def identity_host_def

lemma version_body_search [simp]: "version_body (m\<lparr>vm_search := q\<rparr>) = version_body m"
  by (cases "vm_differences m") (simp_all add: version_body_def)

lemma param_body_search [simp]: "param_body (m\<lparr>pm_search := q\<rparr>) = param_body m"
  by (cases "pm_load m") (simp_all add: param_body_def)

lemma action_body_search [simp]: "action_body (m\<lparr>am_search := q\<rparr>) = action_body m"
  by (simp add: action_body_def)

lemma access_body_search [simp]: "access_body (m\<lparr>xm_search := q\<rparr>) = access_body m"
  by (simp add: access_body_def)

lemma identity_body_search [simp]: "identity_body (m\<lparr>im_search := q\<rparr>) = identity_body m"
  by (simp add: identity_body_def)

interpretation version_search: modal_search version_host
  by unfold_locales (auto simp: modal_host_defs map_modal_defs split: option.splits bind_splits)

interpretation param_search: modal_search param_host
  by unfold_locales (auto simp: modal_host_defs map_modal_defs split: option.splits bind_splits)

interpretation action_search: modal_search action_host
  by unfold_locales (auto simp: modal_host_defs map_modal_defs split: option.splits bind_splits)

interpretation access_search: modal_search access_host
  by unfold_locales (auto simp: modal_host_defs map_modal_defs split: option.splits bind_splits)

interpretation identity_search: modal_search identity_host
  by unfold_locales (auto simp: modal_host_defs map_modal_defs split: option.splits bind_splits)

text \<open>Typing into the version search builds the body first, which may panic.\<close>

definition version_search_edit :: "(modals \<Rightarrow> modals) \<Rightarrow> modals \<Rightarrow> modals option" where
  "version_search_edit f s =
     (case bm_version s of
        None \<Rightarrow> Some s
      | Some m \<Rightarrow> if version_body m = None then None else Some (f s))"

definition version_search_push :: "string \<Rightarrow> modals \<Rightarrow> modals option" where
  "version_search_push ch = version_search_edit (host_push version_host ch)"

definition version_search_pop :: "modals \<Rightarrow> modals option" where
  "version_search_pop = version_search_edit (host_pop version_host)"

text \<open>
  The access and identity searches also move the row cursor to the line of the current match:
  \<open>selected = line_idx.min(rows - 1)\<close>.
\<close>

definition match_row :: "search_state option \<Rightarrow> nat option" where
  "match_row q = Option.bind q (\<lambda>q. Option.bind (ss_current q) (\<lambda>i. map_option ms_line (get_at (ss_matches q) i)))"

definition land_access :: "modals \<Rightarrow> modals" where
  "land_access s = (case match_row (sh_search access_host s) of
     None \<Rightarrow> s
   | Some row \<Rightarrow> map_access (\<lambda>m. m\<lparr>xm_scroll := (xm_scroll m)\<lparr>cs_selected := min row (length (xm_matrix m) - 1)\<rparr>\<rparr>) s)"

definition land_identity :: "modals \<Rightarrow> modals" where
  "land_identity s = (case match_row (sh_search identity_host s) of
     None \<Rightarrow> s
   | Some row \<Rightarrow> map_identity (\<lambda>m. m\<lparr>im_scroll := (im_scroll m)\<lparr>cs_selected := min row (length (im_grants m) - 1)\<rparr>\<rparr>) s)"

definition access_search_commit :: "modals \<Rightarrow> modals" where
  "access_search_commit s = land_access (host_commit access_host s)"

definition identity_search_commit :: "modals \<Rightarrow> modals" where
  "identity_search_commit s = land_identity (host_commit identity_host s)"

text \<open>Cycling returns early, without moving the cursor, unless a search with matches is committed.\<close>

definition can_cycle :: "search_state option \<Rightarrow> bool" where
  "can_cycle q \<longleftrightarrow> (case q of None \<Rightarrow> False | Some q \<Rightarrow> ss_committed q \<and> ss_matches q \<noteq> [])"

definition access_search_next :: "modals \<Rightarrow> modals" where
  "access_search_next s = (if can_cycle (sh_search access_host s) then land_access (host_cycle_next access_host s) else s)"

definition access_search_prev :: "modals \<Rightarrow> modals" where
  "access_search_prev s = (if can_cycle (sh_search access_host s) then land_access (host_cycle_prev access_host s) else s)"

definition identity_search_next :: "modals \<Rightarrow> modals" where
  "identity_search_next s =
     (if can_cycle (sh_search identity_host s) then land_identity (host_cycle_next identity_host s) else s)"

definition identity_search_prev :: "modals \<Rightarrow> modals" where
  "identity_search_prev s =
     (if can_cycle (sh_search identity_host s) then land_identity (host_cycle_prev identity_host s) else s)"

text \<open>The action history cycles without asking for a committed search.\<close>

definition spin_next :: "search_state \<Rightarrow> search_state" where
  "spin_next q =
     (if ss_matches q = [] then q
      else q\<lparr>ss_current := Some (case ss_current q of None \<Rightarrow> 0 | Some c \<Rightarrow> (c + 1) mod length (ss_matches q))\<rparr>)"

definition spin_prev :: "search_state \<Rightarrow> search_state" where
  "spin_prev q =
     (if ss_matches q = [] then q
      else let len = length (ss_matches q)
           in q\<lparr>ss_current := Some (case ss_current q of None \<Rightarrow> len - 1 | Some c \<Rightarrow> (c + len - 1) mod len)\<rparr>)"

section \<open>Opening and closing\<close>

definition close_version :: "modals \<Rightarrow> modals" where
  "close_version s = s\<lparr>bm_version := None, bm_version_fetch := None\<rparr>"

definition close_param :: "modals \<Rightarrow> modals" where
  "close_param s = s\<lparr>bm_param := None, bm_param_fetch := None\<rparr>"

definition close_action :: "modals \<Rightarrow> modals" where
  "close_action s = s\<lparr>bm_action := None, bm_action_fetch := None\<rparr>"

definition close_identity :: "modals \<Rightarrow> modals" where
  "close_identity s = s\<lparr>bm_identity := None, bm_identity_fetch := None\<rparr>"

definition close_access :: "modals \<Rightarrow> modals" where
  "close_access s = close_identity (s\<lparr>bm_access := None, bm_access_fetch := None\<rparr>)"

definition show_version_control :: "cluster_snapshot \<Rightarrow> browser_tree \<Rightarrow> modals \<Rightarrow> modals" where
  "show_version_control snap t s =
     (case selected_node t of
        None \<Rightarrow> s
      | Some n \<Rightarrow>
          if tn_kind n \<noteq> ProcessGroup then s
          else case version_control_for snap (tn_id n) of
              None \<Rightarrow> s
            | Some v \<Rightarrow> s\<lparr>bm_version := Some (version_modal_pending (tn_id n) (tn_name n) (Some v)),
                            bm_version_fetch := Some (tn_id n)\<rparr>)"

definition open_parameter_context :: "browser_tree \<Rightarrow> modals \<Rightarrow> modals" where
  "open_parameter_context t s =
     (case selected_node t of
        None \<Rightarrow> s
      | Some n \<Rightarrow>
          if tn_kind n \<noteq> ProcessGroup \<or> tn_parameter_context_ref n = None then s
          else (let s' = s\<lparr>bm_param := Some (param_modal_pending (tn_id n) (tn_name n) None)\<rparr>
                in if parameter_context_ref_for (tn_id n) t = None then s'
                   else s'\<lparr>bm_param_fetch := Some (tn_id n)\<rparr>))"

definition open_action_history :: "browser_tree \<Rightarrow> modals \<Rightarrow> modals" where
  "open_action_history t s =
     (case selected_node t of
        None \<Rightarrow> s
      | Some n \<Rightarrow> if is_folder (tn_kind n) then s
          else s\<lparr>bm_action := Some (action_modal_pending (tn_id n) (tn_name n)), bm_action_fetch := Some (tn_id n)\<rparr>)"

definition open_access :: "browser_tree \<Rightarrow> modals \<Rightarrow> modals" where
  "open_access t s =
     (case (selected_component_id t, selected_node t) of
        (Some i, Some n) \<Rightarrow> if is_folder (tn_kind n) then s
          else s\<lparr>bm_access := Some (access_modal_new i (tn_kind n) (tn_name n)), bm_access_fetch := Some i\<rparr>
      | _ \<Rightarrow> s)"

section \<open>Verbs\<close>

definition version_scroll :: "(vertical_scroll \<Rightarrow> vertical_scroll) \<Rightarrow> modals \<Rightarrow> modals" where
  "version_scroll f = map_version (\<lambda>m. m\<lparr>vm_scroll := (vm_scroll m)\<lparr>bs_vertical := f (bs_vertical (vm_scroll m))\<rparr>\<rparr>)"

definition toggle_environmental :: "modals \<Rightarrow> modals" where
  "toggle_environmental = map_version (\<lambda>m. m\<lparr>vm_show_environmental := \<not> vm_show_environmental m, vm_search := None\<rparr>)"

definition refresh_version :: "modals \<Rightarrow> modals" where
  "refresh_version s =
     (case bm_version s of
        None \<Rightarrow> s
      | Some m \<Rightarrow> s\<lparr>bm_version := Some (m\<lparr>vm_differences := LsLoading, vm_search := None\<rparr>),
                      bm_version_fetch := Some (vm_pg_id m)\<rparr>)"

text \<open>The handlers scroll by \<open>usize::MAX\<close> rows of content; the renderer clamps.\<close>

fun version_step :: "version_verb \<Rightarrow> modals \<Rightarrow> modals" where
  "version_step (VvCommon CvClose) s =
     (if sh_search version_host s \<noteq> None then host_cancel version_host s else close_version s)"
| "version_step (VvCommon CvOpenSearch) s = host_open version_host s"
| "version_step (VvCommon CvSearchNext) s = host_cycle_next version_host s"
| "version_step (VvCommon CvSearchPrev) s = host_cycle_prev version_host s"
| "version_step (VvCommon CvCopy) s = s"
| "version_step (VvCommon CvRefresh) s = refresh_version s"
| "version_step VvToggleEnvironmental s = toggle_environmental s"
| "version_step VvScrollUp s = version_scroll (scroll_by (-1) usize_max) s"
| "version_step VvScrollDown s = version_scroll (scroll_by 1 usize_max) s"
| "version_step VvPageUp s = version_scroll vpage_up s"
| "version_step VvPageDown s = version_scroll (vpage_down usize_max) s"
| "version_step VvHome s = version_scroll vjump_top s"
| "version_step VvEnd s = version_scroll (vjump_bottom usize_max) s"

definition chain_length :: "param_modal \<Rightarrow> nat" where
  "chain_length m = (case pm_load m of LsLoaded chain \<Rightarrow> length chain | _ \<Rightarrow> 0)"

text \<open>A move in the focused pane: of the sidebar index, or of the scroll of the body.\<close>

definition param_move ::
  "(nat \<Rightarrow> nat \<Rightarrow> nat) \<Rightarrow> (vertical_scroll \<Rightarrow> vertical_scroll) \<Rightarrow> modals \<Rightarrow> modals" where
  "param_move side body = map_param (\<lambda>m.
     case pm_pane m of
       PaneSidebar \<Rightarrow> m\<lparr>pm_sidebar_index := side (chain_length m) (pm_sidebar_index m)\<rparr>
     | PaneBody \<Rightarrow> m\<lparr>pm_scroll := body (pm_scroll m)\<rparr>)"

definition close_param_cascade :: "modals \<Rightarrow> modals" where
  "close_param_cascade s =
     (if sh_search param_host s \<noteq> None then host_cancel param_host s
      else if map_option pm_pane (bm_param s) = Some PaneBody then map_param (\<lambda>m. m\<lparr>pm_pane := PaneSidebar\<rparr>) s
      else close_param s)"

definition param_failed :: "string \<Rightarrow> string \<Rightarrow> modals \<Rightarrow> modals" where
  "param_failed pg err = map_param (\<lambda>m. if pm_pg_id m = pg then m\<lparr>pm_load := LsFailed err\<rparr> else m)"

definition refresh_param :: "browser_tree \<Rightarrow> modals \<Rightarrow> modals" where
  "refresh_param t s =
     (case bm_param s of
        None \<Rightarrow> s
      | Some m \<Rightarrow>
          (let s' = s\<lparr>bm_param := Some (m\<lparr>pm_load := LsLoading, pm_search := None\<rparr>), bm_param_fetch := None\<rparr>
           in if parameter_context_ref_for (pm_pg_id m) t \<noteq> None
              then s'\<lparr>bm_param_fetch := Some (pm_pg_id m)\<rparr>
              else param_failed (pm_pg_id m) ''no bound parameter context found'' s'))"

fun param_step :: "browser_tree \<Rightarrow> param_verb \<Rightarrow> modals \<Rightarrow> modals" where
  "param_step t (PvCommon CvClose) s = close_param_cascade s"
| "param_step t (PvCommon CvRefresh) s = refresh_param t s"
| "param_step t (PvCommon CvOpenSearch) s = host_open param_host s"
| "param_step t (PvCommon CvSearchNext) s = host_cycle_next param_host s"
| "param_step t (PvCommon CvSearchPrev) s = host_cycle_prev param_host s"
| "param_step t (PvCommon CvCopy) s = s"
| "param_step t PvFocusBody s = map_param (\<lambda>m. m\<lparr>pm_pane := PaneBody\<rparr>) s"
| "param_step t PvToggleByContext s =
     map_param (\<lambda>m. m\<lparr>pm_by_context := \<not> pm_by_context m, pm_scroll := vjump_top (pm_scroll m)\<rparr>) s"
| "param_step t PvToggleShadowed s = map_param (\<lambda>m. m\<lparr>pm_show_shadowed := \<not> pm_show_shadowed m\<rparr>) s"
| "param_step t PvToggleUsedBy s =
     map_param (\<lambda>m. m\<lparr>pm_show_used_by := \<not> pm_show_used_by m, pm_scroll := vjump_top (pm_scroll m)\<rparr>) s"
| "param_step t PvRowUp s = param_move (\<lambda>n i. i - 1) (scroll_by (-1) usize_max) s"
| "param_step t PvRowDown s =
     param_move (\<lambda>n i. if n > 0 then min (i + 1) (n - 1) else i) (scroll_by 1 usize_max) s"
| "param_step t PvPageUp s = param_move (\<lambda>n i. 0) vpage_up s"
| "param_step t PvPageDown s = param_move (\<lambda>n i. if n > 0 then n - 1 else i) (vpage_down usize_max) s"
| "param_step t PvJumpTop s = param_move (\<lambda>n i. 0) vjump_top s"
| "param_step t PvJumpBottom s = param_move (\<lambda>n i. if n > 0 then n - 1 else i) (vjump_bottom usize_max) s"

definition close_action_cascade :: "modals \<Rightarrow> modals" where
  "close_action_cascade s =
     (case bm_action s of
        None \<Rightarrow> s
      | Some m \<Rightarrow>
          if am_search m \<noteq> None then s\<lparr>bm_action := Some (m\<lparr>am_search := None\<rparr>)\<rparr>
          else if am_expanded m \<noteq> None then s\<lparr>bm_action := Some (m\<lparr>am_expanded := None\<rparr>)\<rparr>
          else close_action s)"

definition refresh_action :: "modals \<Rightarrow> modals" where
  "refresh_action s =
     (case bm_action s of
        None \<Rightarrow> s
      | Some m \<Rightarrow> s\<lparr>bm_action := Some (reset_for_refresh m), bm_action_fetch := Some (am_source_id m)\<rparr>)"

definition move_action :: "bool \<Rightarrow> (nat \<Rightarrow> cursored_scroll \<Rightarrow> cursored_scroll) \<Rightarrow> modals \<Rightarrow> modals" where
  "move_action signals f = map_action (\<lambda>m.
     let m' = m\<lparr>am_cursor := f (length (am_actions m)) (am_cursor m)\<rparr>
     in if signals then check_signal_next_page m' else m')"

fun action_step :: "action_verb \<Rightarrow> modals \<Rightarrow> modals" where
  "action_step (AvCommon CvClose) s = close_action_cascade s"
| "action_step (AvCommon CvRefresh) s = refresh_action s"
| "action_step (AvCommon CvOpenSearch) s = map_action (\<lambda>m. m\<lparr>am_search := Some search_new\<rparr>) s"
| "action_step (AvCommon CvSearchNext) s = map_action (\<lambda>m. m\<lparr>am_search := map_option spin_next (am_search m)\<rparr>) s"
| "action_step (AvCommon CvSearchPrev) s = map_action (\<lambda>m. m\<lparr>am_search := map_option spin_prev (am_search m)\<rparr>) s"
| "action_step (AvCommon CvCopy) s = s"
| "action_step AvToggleExpand s = map_action toggle_expanded s"
| "action_step AvScrollUp s = move_action False (\<lambda>n. cs_move_up) s"
| "action_step AvScrollDown s = move_action True cs_move_down s"
| "action_step AvPageUp s = move_action False (\<lambda>n. cs_page_up) s"
| "action_step AvPageDown s = move_action True cs_page_down s"
| "action_step AvJumpTop s = move_action False (\<lambda>n. cs_jump_top) s"
| "action_step AvJumpBottom s = move_action True cs_jump_bottom s"

definition move_access :: "(nat \<Rightarrow> cursored_scroll \<Rightarrow> cursored_scroll) \<Rightarrow> modals \<Rightarrow> modals" where
  "move_access f = map_access (\<lambda>m. m\<lparr>xm_scroll := f (length (xm_matrix m)) (xm_scroll m)\<rparr>)"

definition move_identity :: "(nat \<Rightarrow> cursored_scroll \<Rightarrow> cursored_scroll) \<Rightarrow> modals \<Rightarrow> modals" where
  "move_identity f = map_identity (\<lambda>m. m\<lparr>im_scroll := f (length (im_grants m)) (im_scroll m)\<rparr>)"

definition drill_identity :: "modals \<Rightarrow> modals" where
  "drill_identity s =
     (case Option.bind (bm_access s) (\<lambda>m. get_at (xm_matrix m) (cs_selected (xm_scroll m))) of
        None \<Rightarrow> s
      | Some row \<Rightarrow> s\<lparr>bm_identity := Some (identity_modal_pending
            (if mr_is_group row then GroupIdentity else UserIdentity)
            (tr_id (mr_tenant row)) (tr_identity (mr_tenant row))),
          bm_identity_fetch := Some (tr_id (mr_tenant row))\<rparr>)"

definition refresh_access :: "modals \<Rightarrow> modals" where
  "refresh_access s =
     (case bm_access s of
        None \<Rightarrow> s
      | Some m \<Rightarrow> s\<lparr>bm_access := Some (m\<lparr>xm_status := MsLoading, xm_matrix := [], xm_scroll := cursor_default\<rparr>),
                      bm_access_fetch := Some (xm_component_id m)\<rparr>)"

fun access_step :: "access_verb \<Rightarrow> modals \<Rightarrow> modals" where
  "access_step (XvCommon CvClose) s =
     (if sh_search access_host s \<noteq> None then host_cancel access_host s
      else if bm_access s = None then s else close_access s)"
| "access_step (XvCommon CvOpenSearch) s = host_open access_host s"
| "access_step (XvCommon CvSearchNext) s = access_search_next s"
| "access_step (XvCommon CvSearchPrev) s = access_search_prev s"
| "access_step (XvCommon CvRefresh) s = refresh_access s"
| "access_step (XvCommon CvCopy) s = s"
| "access_step XvDrillIdentity s = drill_identity s"
| "access_step XvScrollUp s = move_access (\<lambda>n. cs_move_up) s"
| "access_step XvScrollDown s = move_access cs_move_down s"
| "access_step XvPageUp s = move_access (\<lambda>n. cs_page_up) s"
| "access_step XvPageDown s = move_access cs_page_down s"
| "access_step XvJumpTop s = move_access (\<lambda>n. cs_jump_top) s"
| "access_step XvJumpBottom s = move_access cs_jump_bottom s"

text \<open>A cross-link closes both modals and says which component to open, with its group.\<close>

definition cross_link :: "browser_tree \<Rightarrow> modals \<Rightarrow> modals \<times> (string \<times> string) option" where
  "cross_link t s =
     (case Option.bind (bm_identity s) (\<lambda>m. get_at (im_grants m) (cs_selected (im_scroll m))) of
        None \<Rightarrow> (s, None)
      | Some grant \<Rightarrow>
          (case uuid_from_resource (ig_resource grant) of
             None \<Rightarrow> (s, None)
           | Some uuid \<Rightarrow>
               (case resolve_id uuid t of
                  None \<Rightarrow> (s, None)
                | Some r \<Rightarrow> (close_access s, Some (uuid, rr_group_id r)))))"

fun identity_step :: "browser_tree \<Rightarrow> identity_verb \<Rightarrow> modals \<Rightarrow> modals" where
  "identity_step t (IvCommon CvClose) s =
     (if sh_search identity_host s \<noteq> None then host_cancel identity_host s
      else if bm_identity s = None then s else close_identity s)"
| "identity_step t (IvCommon CvOpenSearch) s = host_open identity_host s"
| "identity_step t (IvCommon CvSearchNext) s = identity_search_next s"
| "identity_step t (IvCommon CvSearchPrev) s = identity_search_prev s"
| "identity_step t (IvCommon CvRefresh) s = s"
| "identity_step t (IvCommon CvCopy) s = s"
| "identity_step t IvCrossLink s = fst (cross_link t s)"
| "identity_step t IvScrollUp s = move_identity (\<lambda>n. cs_move_up) s"
| "identity_step t IvScrollDown s = move_identity cs_move_down s"
| "identity_step t IvPageUp s = move_identity (\<lambda>n. cs_page_up) s"
| "identity_step t IvPageDown s = move_identity cs_page_down s"
| "identity_step t IvJumpTop s = move_identity (\<lambda>n. cs_jump_top) s"
| "identity_step t IvJumpBottom s = move_identity cs_jump_bottom s"

section \<open>Answers\<close>

datatype modal_payload =
    MpVersionLoaded string "version_control_summary option" "diff_section list"
  | MpVersionFailed string string
  | MpParamLoaded string "context_node list"
  | MpParamFailed string string
  | MpActionPage string "action_entity list" "nat option"
  | MpActionError string string
  | MpAccessLoaded string "axis \<Rightarrow> axis_outcome option" access_audit_state
  | MpAccessFailed string string
  | MpIdentityLoaded string identity_fetch_result
  | MpIdentityFailed string string

definition relabel_section :: "browser_tree \<Rightarrow> diff_section \<Rightarrow> diff_section" where
  "relabel_section t s =
     (if eq_ignore_ascii_case (dfs_component_type s) ''Connection''
      then (case resolve_connection_display_label (dfs_component_id s) t of
              Some label \<Rightarrow> s\<lparr>dfs_display_label := label\<rparr>
            | None \<Rightarrow> if dfs_display_label s = [] then s\<lparr>dfs_display_label := ''(unnamed connection)''\<rparr> else s)
      else if dfs_display_label s = [] then s\<lparr>dfs_display_label := ''(unnamed)''\<rparr> else s)"

definition version_loaded ::
  "browser_tree \<Rightarrow> string \<Rightarrow> version_control_summary option \<Rightarrow> diff_section list \<Rightarrow> modals \<Rightarrow> modals" where
  "version_loaded t pg identity sections = map_version (\<lambda>m.
     if vm_pg_id m \<noteq> pg then m
     else m\<lparr>vm_identity := (if identity \<noteq> None then identity else vm_identity m),
            vm_differences := LsLoaded (map (relabel_section t) sections), vm_search := None\<rparr>)"

definition version_failed :: "string \<Rightarrow> string \<Rightarrow> modals \<Rightarrow> modals" where
  "version_failed pg err = map_version (\<lambda>m. if vm_pg_id m = pg then m\<lparr>vm_differences := LsFailed err\<rparr> else m)"

definition param_loaded :: "string \<Rightarrow> context_node list \<Rightarrow> modals \<Rightarrow> modals" where
  "param_loaded pg chain = map_param (\<lambda>m. if pm_pg_id m = pg then m\<lparr>pm_load := LsLoaded chain\<rparr> else m)"

definition action_failed :: "string \<Rightarrow> string \<Rightarrow> modals \<Rightarrow> modals" where
  "action_failed source err s =
     (if map_option am_source_id (bm_action s) = Some source
      then (map_action (\<lambda>m. m\<lparr>am_error := Some err, am_loading := False\<rparr>) s)\<lparr>bm_action_fetch := None\<rparr> else s)"

definition access_answered :: "string \<Rightarrow> (access_modal \<Rightarrow> access_modal) \<Rightarrow> modals \<Rightarrow> modals" where
  "access_answered i f s =
     (if map_option xm_component_id (bm_access s) = Some i
      then (map_access f s)\<lparr>bm_access_fetch := None\<rparr> else s)"

definition identity_answered :: "string \<Rightarrow> (identity_modal \<Rightarrow> identity_modal) \<Rightarrow> modals \<Rightarrow> modals" where
  "identity_answered i f s =
     (if map_option im_identity_id (bm_identity s) = Some i
      then (map_identity f s)\<lparr>bm_identity_fetch := None\<rparr> else s)"

fun modal_payload_step :: "browser_tree \<Rightarrow> modal_payload \<Rightarrow> modals \<Rightarrow> modals" where
  "modal_payload_step t (MpVersionLoaded pg identity sections) s =
     (version_loaded t pg identity sections s)\<lparr>bm_version_fetch := None\<rparr>"
| "modal_payload_step t (MpVersionFailed pg err) s = (version_failed pg err s)\<lparr>bm_version_fetch := None\<rparr>"
| "modal_payload_step t (MpParamLoaded pg chain) s = (param_loaded pg chain s)\<lparr>bm_param_fetch := None\<rparr>"
| "modal_payload_step t (MpParamFailed pg err) s = (param_failed pg err s)\<lparr>bm_param_fetch := None\<rparr>"
| "modal_payload_step t (MpActionPage source page tot) s = map_action (apply_page source page tot) s"
| "modal_payload_step t (MpActionError source err) s = action_failed source err s"
| "modal_payload_step t (MpAccessLoaded i outcomes audit) s =
     access_answered i (access_apply_fetch outcomes) (s\<lparr>bm_audit := audit\<rparr>)"
| "modal_payload_step t (MpAccessFailed i err) s = access_answered i (\<lambda>m. m\<lparr>xm_status := MsFailed err\<rparr>) s"
| "modal_payload_step t (MpIdentityLoaded i result) s = identity_answered i (identity_apply_fetch result) s"
| "modal_payload_step t (MpIdentityFailed i err) s = identity_answered i (\<lambda>m. m\<lparr>im_status := MsFailed err\<rparr>) s"

end
