(* ===== verification/Browser_Focus.thy ===== *)
theory Browser_Focus
  imports Browser_View Queue_Listing
begin

text \<open>
  The movement keys of the Browser tab: \<open>BrowserHandler::handle_focus\<close> of
  \<open>src/src/app/state/browser/mod.rs\<close> with the functions of \<open>AppState\<close> that reconcile the
  sparkline and the queue listing with the selection (\<open>src/src/app/state/mod.rs\<close>).

  A result of the handler is \<open>None\<close> when the source panics; otherwise the new state and what
  the source returns, \<open>None\<close> for a key it leaves to the caller. The ring of the bulletins tab,
  the cadence of the status history and Unicode lower-casing are arguments.
\<close>

section \<open>State and results\<close>

record browser_pane =
  bp_tree :: browser_tree
  bp_listing :: "queue_listing option"
  bp_listing_focused :: bool
  bp_sparkline :: "sparkline_state option"

datatype browser_intent =
    GotoBrowser string string
  | GotoParameterContext string "string option"
  | SpawnSparkline component_kind string nat
  | SpawnQueueListing string string
  | DropQueueListing

record update_result =
  ur_redraw :: bool
  ur_intent :: "browser_intent option"
  ur_sparkline :: "browser_intent option"
  ur_queue_listing :: "browser_intent option"

definition no_update :: update_result where
  "no_update = \<lparr>ur_redraw = False, ur_intent = None, ur_sparkline = None, ur_queue_listing = None\<rparr>"

definition redraw_only :: update_result where
  "redraw_only = \<lparr>ur_redraw = True, ur_intent = None, ur_sparkline = None, ur_queue_listing = None\<rparr>"

definition redraw_with :: "browser_intent \<Rightarrow> update_result" where
  "redraw_with i = \<lparr>ur_redraw = True, ur_intent = Some i, ur_sparkline = None, ur_queue_listing = None\<rparr>"

type_synonym focus_result = "(browser_pane \<times> update_result option) option"

section \<open>Following the selection\<close>

definition refresh_sparkline :: "nat \<Rightarrow> browser_pane \<Rightarrow> browser_pane \<times> browser_intent option" where
  "refresh_sparkline cadence s =
     (let sel = current_selection_for_sparkline (bp_tree s);
          cur = map_option (\<lambda>p. (sp_kind p, sp_id p)) (bp_sparkline s)
      in if sel = cur then (s, None)
         else case sel of
             Some (kind, i) \<Rightarrow>
               (s\<lparr>bp_sparkline := Some (sparkline_pending kind i)\<rparr>, Some (SpawnSparkline kind i cadence))
           | None \<Rightarrow> (s\<lparr>bp_sparkline := None\<rparr>, None))"

definition refresh_queue_listing :: "browser_pane \<Rightarrow> browser_pane \<times> browser_intent option" where
  "refresh_queue_listing s =
     (case current_selection_for_queue_listing (bp_tree s) of
        Some (queue_id, queue_name, queued) \<Rightarrow>
          if map_option ql_queue_id (bp_listing s) = Some queue_id then (s, None)
          else (s\<lparr>bp_listing_focused := False,
                  bp_listing := Some (queue_listing_pending queue_id queue_name)\<rparr>,
                if queued then Some (SpawnQueueListing queue_id queue_name) else None)
      | None \<Rightarrow>
          if bp_listing s \<noteq> None
          then (s\<lparr>bp_listing_focused := False, bp_listing := None\<rparr>, Some DropQueueListing)
          else (s, None))"

definition follow_selection :: "nat \<Rightarrow> browser_pane \<Rightarrow> browser_pane \<times> update_result" where
  "follow_selection cadence s =
     (let (s1, sparkline) = refresh_sparkline cadence s; (s2, listing) = refresh_queue_listing s1
      in (s2, \<lparr>ur_redraw = True, ur_intent = None, ur_sparkline = sparkline, ur_queue_listing = listing\<rparr>))"

text \<open>\<open>browser_selection_changed\<close>: the detail request first, then the two panes.\<close>

definition browser_selection_changed ::
  "nat \<Rightarrow> browser_pane \<Rightarrow> (browser_pane \<times> update_result) option" where
  "browser_selection_changed cadence s =
     map_option (\<lambda>t. follow_selection cadence (s\<lparr>bp_tree := t\<rparr>)) (emit_detail_request (bp_tree s))"

text \<open>A step in the tree followed by \<open>browser_selection_changed\<close>.\<close>

definition tree_step ::
  "nat \<Rightarrow> (browser_tree \<Rightarrow> browser_tree option) \<Rightarrow> browser_pane \<Rightarrow> focus_result" where
  "tree_step cadence move s =
     Option.bind (move (bp_tree s)) (\<lambda>t.
     Option.bind (browser_selection_changed cadence (s\<lparr>bp_tree := t\<rparr>)) (\<lambda>(s', r). Some (s', Some r)))"

section \<open>Sections of a node\<close>

definition sections_for_arena :: "browser_tree \<Rightarrow> nat \<Rightarrow> detail_section list" where
  "sections_for_arena s i =
     (case get_at (bt_nodes s) i of
        None \<Rightarrow> []
      | Some n \<Rightarrow> if tn_kind n = ProcessGroup then for_pg_node (tn_parameter_context_ref n \<noteq> None)
                  else for_node (tn_kind n))"

definition sections_for_arena_with_detail :: "browser_tree \<Rightarrow> nat \<Rightarrow> bool \<Rightarrow> detail_section list" where
  "sections_for_arena_with_detail s i validation =
     (case get_at (bt_nodes s) i of
        None \<Rightarrow> []
      | Some n \<Rightarrow> if tn_kind n = ProcessGroup then for_pg_node (tn_parameter_context_ref n \<noteq> None)
                  else for_node_detail (tn_kind n) validation)"

definition focus_sections :: "browser_tree \<Rightarrow> nat \<Rightarrow> detail_section list" where
  "focus_sections s i = sections_for_arena_with_detail s i (has_validation (bt_details s i))"

section \<open>Keys inside a detail section\<close>

definition set_focus :: "detail_focus \<Rightarrow> browser_pane \<Rightarrow> browser_pane" where
  "set_focus f s = s\<lparr>bp_tree := (bp_tree s)\<lparr>bt_detail_focus := f\<rparr>\<rparr>"

definition answer :: "update_result \<Rightarrow> browser_pane \<Rightarrow> focus_result" where
  "answer r s = Some (s, Some r)"

text \<open>\<open>rows[idx]\<close>: out of range is a panic.\<close>

definition at_row :: "nat list \<Rightarrow> nat \<Rightarrow> (nat \<Rightarrow> focus_result) \<Rightarrow> focus_result" where
  "at_row rows idx k = Option.bind (get_at rows idx) k"

text \<open>Enter on a property row: a component id first, then a parameter reference.\<close>

definition descend_property :: "string option \<Rightarrow> string \<Rightarrow> browser_pane \<Rightarrow> focus_result" where
  "descend_property value owning_pg_id s =
     answer (case value of
         None \<Rightarrow> no_update
       | Some v \<Rightarrow>
           (case resolve_id v (bp_tree s) of
              Some r \<Rightarrow> redraw_with (GotoBrowser (trim v) (rr_group_id r))
            | None \<Rightarrow>
                if parameter_context_ref_for owning_pg_id (bp_tree s) = None then no_update
                else (case scan_param_refs v of
                    SingleRef name \<Rightarrow> redraw_with (GotoParameterContext owning_pg_id (Some name))
                  | MultipleRefs \<Rightarrow> redraw_with (GotoParameterContext owning_pg_id None)
                  | NoRef \<Rightarrow> no_update))) s"

definition descend_into_child :: "nat \<Rightarrow> string \<Rightarrow> browser_pane \<Rightarrow> focus_result" where
  "descend_into_child cadence target_id s =
     Option.bind (drill_into_group target_id (bp_tree s)) (\<lambda>(found, t).
       if found
       then Option.bind (browser_selection_changed cadence (s\<lparr>bp_tree := t\<rparr>)) (\<lambda>(s', r). Some (s', Some r))
       else answer redraw_only (s\<lparr>bp_tree := t\<rparr>))"

definition descend_section ::
  "nat \<Rightarrow> nat \<Rightarrow> detail_section option \<Rightarrow> node_detail option \<Rightarrow> nat \<Rightarrow> nat list \<Rightarrow> browser_pane \<Rightarrow> focus_result"
where
  "descend_section cadence a sec detail idx rows s =
     (case sec of None \<Rightarrow> Some (s, None) | Some sec \<Rightarrow>
     (case sec of
        SecEndpoints \<Rightarrow>
          (case detail of
             Some (DtConnection c) \<Rightarrow> at_row rows idx (\<lambda>row. answer
               (if row = 0 then redraw_with (GotoBrowser (cd_source_id c) (cd_source_group_id c))
                else if row = 1 then redraw_with (GotoBrowser (cd_destination_id c) (cd_destination_group_id c))
                else no_update) s)
           | _ \<Rightarrow> answer no_update s)
      | SecProperties \<Rightarrow>
          (case detail of
             Some (DtProcessor p) \<Rightarrow> at_row rows idx (\<lambda>row.
               descend_property (map_option snd (get_at (pd_properties p) row))
                 (case get_at (bt_nodes (bp_tree s)) a of None \<Rightarrow> [] | Some n \<Rightarrow> tn_group_id n) s)
           | Some (DtControllerService c) \<Rightarrow> at_row rows idx (\<lambda>row.
               descend_property (map_option snd (get_at (csd_properties c) row))
                 (case csd_parent_group_id c of None \<Rightarrow> [] | Some g \<Rightarrow> g) s)
           | _ \<Rightarrow> answer no_update s)
      | SecReferencingComponents \<Rightarrow>
          (case detail of
             Some (DtControllerService c) \<Rightarrow> at_row rows idx (\<lambda>row.
               answer (case get_at (csd_referencing_components c) row of
                   None \<Rightarrow> no_update
                 | Some t \<Rightarrow> redraw_with (GotoBrowser (rc_id t) (rc_group_id t))) s)
           | _ \<Rightarrow> answer no_update s)
      | SecConnections \<Rightarrow>
          (case detail of
             Some (DtProcessor p) \<Rightarrow> at_row rows idx (\<lambda>row.
               answer (case get_at (connections_for_processor (pd_id p) (bp_tree s)) row of
                   None \<Rightarrow> no_update
                 | Some e \<Rightarrow> redraw_with (GotoBrowser (ced_opposite_id e) (ced_opposite_group_id e))) s)
           | _ \<Rightarrow> answer no_update s)
      | SecControllerServices \<Rightarrow>
          (case detail of
             Some (DtProcessGroup d) \<Rightarrow> at_row rows idx (\<lambda>row.
               answer (case get_at (pgt_controller_services d) row of
                   None \<Rightarrow> no_update
                 | Some c \<Rightarrow> redraw_with (GotoBrowser (css_id c) (pgt_id d))) s)
           | _ \<Rightarrow> answer no_update s)
      | SecChildGroups \<Rightarrow>
          (case detail of
             Some (DtProcessGroup d) \<Rightarrow> at_row rows idx (\<lambda>row.
               case get_at (child_process_groups (pgt_id d) (bp_tree s)) row of
                 None \<Rightarrow> answer no_update s
               | Some c \<Rightarrow> descend_into_child cadence (cps_id c) s)
           | _ \<Rightarrow> answer no_update s)
      | SecParameterContext \<Rightarrow>
          (case detail of
             Some (DtProcessGroup d) \<Rightarrow> answer (redraw_with (GotoParameterContext (pgt_id d) None)) s
           | _ \<Rightarrow> answer no_update s)
      | _ \<Rightarrow> Some (s, None)))"

definition section_focus ::
  "nat \<Rightarrow> bulletin_snapshot list \<Rightarrow> nat \<Rightarrow> nat list \<Rightarrow> nat list \<Rightarrow> focus_action \<Rightarrow> browser_pane \<Rightarrow> focus_result"
where
  "section_focus cadence ring idx rows xs action s =
     (case selected_arena (bp_tree s) of
        None \<Rightarrow> answer no_update s
      | Some a \<Rightarrow>
          let sections = focus_sections (bp_tree s) a in
          (case action of
             FaAscend \<Rightarrow> answer redraw_only (set_focus FocusTree s)
           | FaLeft \<Rightarrow> at_row xs idx (\<lambda>x. answer redraw_only (set_focus (FocusSection idx rows (xs[idx := x - 1])) s))
           | FaRight \<Rightarrow> at_row xs idx (\<lambda>x. answer redraw_only (set_focus (FocusSection idx rows (xs[idx := x + 1])) s))
           | FaUp \<Rightarrow> at_row rows idx (\<lambda>r. answer redraw_only (set_focus (FocusSection idx (rows[idx := r - 1]) xs) s))
           | FaDown \<Rightarrow>
               (case get_at sections idx of
                  None \<Rightarrow> None
                | Some sec \<Rightarrow>
                    let rows_max = section_len sec ring (bp_tree s) in
                    if rows_max > 0
                    then at_row rows idx (\<lambda>r. answer redraw_only
                      (set_focus (FocusSection idx (rows[idx := min (r + 1) (rows_max - 1)]) xs) s))
                    else answer redraw_only (set_focus (FocusSection idx rows xs) s))
           | FaDescend \<Rightarrow>
               descend_section cadence a (get_at sections idx) (bt_details (bp_tree s) a) idx rows s
           | FaNextPane \<Rightarrow>
               if sections = [] then answer no_update s
               else if idx + 1 \<ge> length sections
               then (let listing_has_rows = (case bp_listing s of None \<Rightarrow> False | Some l \<Rightarrow> ql_rows l \<noteq> [])
                     in answer redraw_only
                       (if listing_has_rows then (set_focus FocusTree s)\<lparr>bp_listing_focused := True\<rparr>
                        else set_focus FocusTree s))
               else answer redraw_only (set_focus (FocusSection (idx + 1) rows xs) s)
           | FaPrevPane \<Rightarrow>
               if sections = [] then answer no_update s
               else answer redraw_only
                 (set_focus (if idx = 0 then FocusTree else FocusSection (idx - 1) rows xs) s)
           | _ \<Rightarrow> Some (s, None)))"

section \<open>Keys in the tree\<close>

definition fresh_rows :: "nat list" where
  "fresh_rows = replicate max_detail_sections 0"

definition enter_section :: "nat \<Rightarrow> browser_pane \<Rightarrow> browser_pane" where
  "enter_section idx s = set_focus (FocusSection idx fresh_rows fresh_rows) s"

text \<open>A folder row is toggled without touching the panes.\<close>

definition toggle_folder :: "(nat \<Rightarrow> browser_tree \<Rightarrow> browser_tree option) \<Rightarrow> nat \<Rightarrow> browser_pane \<Rightarrow> focus_result" where
  "toggle_folder op i s = Option.bind (op i (bp_tree s)) (\<lambda>t. answer redraw_only (s\<lparr>bp_tree := t\<rparr>))"

definition tree_focus :: "nat \<Rightarrow> focus_action \<Rightarrow> browser_pane \<Rightarrow> focus_result" where
  "tree_focus cadence action s =
     (let total_step = (\<lambda>move. tree_step cadence (\<lambda>t. Some (move t)) s);
          on_row = (\<lambda>k. case selected_arena (bp_tree s) of None \<Rightarrow> answer no_update s | Some a \<Rightarrow> k a);
          kind_at = (\<lambda>a k. case get_at (bt_nodes (bp_tree s)) a of None \<Rightarrow> None | Some n \<Rightarrow> k (tn_kind n))
      in case action of
          FaUp \<Rightarrow> total_step bt_move_up
        | FaDown \<Rightarrow> total_step bt_move_down
        | FaPageUp \<Rightarrow> total_step (bt_page_up 10)
        | FaPageDown \<Rightarrow> total_step (bt_page_down 10)
        | FaFirst \<Rightarrow> total_step bt_goto_first
        | FaLast \<Rightarrow> total_step bt_goto_last
        | FaRight \<Rightarrow> on_row (\<lambda>a. kind_at a (\<lambda>k.
            if is_folder k then toggle_folder expand_row a s else tree_step cadence enter_selection s))
        | FaLeft \<Rightarrow> on_row (\<lambda>a. kind_at a (\<lambda>k.
            if is_folder k then toggle_folder collapse_row a s else tree_step cadence backspace_selection s))
        | FaDescend \<Rightarrow>
            (case selected_arena (bp_tree s) of
               None \<Rightarrow> Some (s, None)
             | Some a \<Rightarrow> kind_at a (\<lambda>k.
                 if is_folder k
                 then toggle_folder (if a \<in> bt_expanded (bp_tree s) then collapse_row else expand_row) a s
                 else if k = ProcessGroup then tree_step cadence enter_selection s
                 else if sections_for_arena (bp_tree s) a \<noteq> [] then answer redraw_only (enter_section 0 s)
                 else Some (s, None)))
        | FaAscend \<Rightarrow> tree_step cadence backspace_selection s
        | FaNextPane \<Rightarrow> on_row (\<lambda>a.
            if sections_for_arena (bp_tree s) a = [] then answer no_update s
            else answer redraw_only (enter_section 0 s))
        | FaPrevPane \<Rightarrow> on_row (\<lambda>a.
            let sections = sections_for_arena (bp_tree s) a in
            if sections = [] then answer no_update s
            else answer redraw_only (enter_section (length sections - 1) s)))"

definition handle_focus ::
  "(string \<Rightarrow> string) \<Rightarrow> nat \<Rightarrow> bulletin_snapshot list \<Rightarrow> focus_action \<Rightarrow> browser_pane \<Rightarrow> focus_result" where
  "handle_focus lc cadence ring action s =
     (if bp_listing_focused s
      then (case bp_listing s of
          None \<Rightarrow> answer no_update s
        | Some l \<Rightarrow>
            (case listing_focus lc action l of
               None \<Rightarrow> answer no_update s
             | Some l' \<Rightarrow> answer redraw_only (s\<lparr>bp_listing := Some l'\<rparr>)))
      else case bt_detail_focus (bp_tree s) of
          FocusSection idx rows xs \<Rightarrow> section_focus cadence ring idx rows xs action s
        | FocusTree \<Rightarrow> tree_focus cadence action s)"

end
