(* ===== verification/Browser_Pane.thy ===== *)
theory Browser_Pane
  imports Browser_Focus
begin

text \<open>
  What the movement keys of the Browser tab guarantee: from a well-formed state no key
  panics, the sparkline and the queue listing always belong to the selected row, and the
  detail focus stays on a section the node has. The last section shows how an answer of the
  detail worker breaks the focus.
\<close>

section \<open>The invariant\<close>

text \<open>
  In two strengths: with \<open>b\<close>, the focus is on a section the selected node has and the panes
  belong to the selected row, which the keys keep; without, what every event keeps.
\<close>

definition focus_ok :: "bool \<Rightarrow> browser_tree \<Rightarrow> bool" where
  "focus_ok b t \<longleftrightarrow> (case bt_detail_focus t of
       FocusTree \<Rightarrow> True
     | FocusSection idx rows xs \<Rightarrow>
         length rows = max_detail_sections \<and> length xs = max_detail_sections \<and>
         idx < max_detail_sections \<and>
         (b \<longrightarrow> (\<forall>a. selected_arena t = Some a \<longrightarrow> idx < length (focus_sections t a))))"

definition panes_synced :: "browser_pane \<Rightarrow> bool" where
  "panes_synced s \<longleftrightarrow>
     map_option (\<lambda>p. (sp_kind p, sp_id p)) (bp_sparkline s) = current_selection_for_sparkline (bp_tree s)
     \<and> map_option ql_queue_id (bp_listing s) =
         map_option fst (current_selection_for_queue_listing (bp_tree s))"

definition tree_ok :: "bool \<Rightarrow> browser_tree \<Rightarrow> bool" where
  "tree_ok b t \<longleftrightarrow> browser_ok t \<and> details_ok t \<and> focus_ok b t"

definition pane_ok :: "bool \<Rightarrow> browser_pane \<Rightarrow> bool" where
  "pane_ok b s \<longleftrightarrow> tree_ok b (bp_tree s) \<and> (b \<longrightarrow> panes_synced s)"

text \<open>The handler does not panic and leaves a good state.\<close>

definition keeps :: "bool \<Rightarrow> focus_result \<Rightarrow> bool" where
  "keeps b r \<longleftrightarrow> (case r of None \<Rightarrow> False | Some (s, _) \<Rightarrow> pane_ok b s)"

named_theorems keeps_intros \<open>one rule per shape of a handler's result\<close>

section \<open>Frames\<close>

lemma rebuild_frame:
  "rebuild_visible s = Some t \<Longrightarrow> bt_nodes t = bt_nodes s \<and> bt_details t = bt_details s \<and>
     bt_detail_focus t = bt_detail_focus s \<and> bt_selected t = bt_selected s"
  by (auto simp: rebuild_visible_def)

lemma expand_frame:
  "expand_row i s = Some t \<Longrightarrow> bt_nodes t = bt_nodes s \<and> bt_details t = bt_details s \<and>
     bt_detail_focus t = bt_detail_focus s \<and> bt_selected t = bt_selected s"
  "collapse_row i s = Some t \<Longrightarrow> bt_nodes t = bt_nodes s \<and> bt_details t = bt_details s \<and>
     bt_detail_focus t = bt_detail_focus s \<and> bt_selected t = bt_selected s"
  by (auto simp: expand_row_def collapse_row_def dest: rebuild_frame)

lemma child_frame [simp]:
  "bt_details (case cs of [] \<Rightarrow> u | c # _ \<Rightarrow> select_row c u) = bt_details u"
  by (cases cs) simp_all

lemma enter_frame:
  assumes "enter_selection s = Some t" and "bt_detail_focus s = FocusTree"
  shows "bt_details t = bt_details s" and "bt_detail_focus t = FocusTree"
proof -
  have "t = s \<or> (\<exists>u cs. (u = s \<or> (\<exists>i. expand_row i s = Some u)) \<and>
      t = reset_detail_focus (case cs of [] \<Rightarrow> u | c # _ \<Rightarrow> select_row c u))"
    using assms(1) by (simp add: enter_selection_def bind_eq_Some_conv split: option.splits if_splits; blast)
  then show "bt_details t = bt_details s" "bt_detail_focus t = FocusTree"
    using assms(2) by (auto dest: expand_frame(1))
qed

lemma backspace_frame:
  assumes "backspace_selection s = Some t" and "bt_detail_focus s = FocusTree"
  shows "bt_details t = bt_details s" and "bt_detail_focus t = FocusTree"
  using assms by (auto simp: backspace_selection_def dest!: expand_frame(2)
      split: option.splits if_splits)

lemma drill_frame:
  "drill_into_group g s = Some (True, t) \<Longrightarrow> bt_details t = bt_details s \<and> bt_detail_focus t = FocusTree"
  by (auto simp: drill_into_group_def bind_eq_Some_conv dest!: rebuild_frame split: option.splits)

lemma emit_frame:
  "emit_detail_request s = Some t \<Longrightarrow> bt_nodes t = bt_nodes s \<and> bt_details t = bt_details s \<and>
     bt_detail_focus t = bt_detail_focus s \<and> bt_visible t = bt_visible s \<and> bt_selected t = bt_selected s"
  by (auto simp: emit_detail_request_def Let_def split: option.splits if_splits)

lemma tree_nav_frame:
  "bt_details (nav_apply browser_nav s c) = bt_details s"
  "bt_nodes (nav_apply browser_nav s c) = bt_nodes s"
  by (cases c; simp add: nav_defs browser_nav_def bt_set_selected_def Let_def split: option.split)+

lemma tree_nav_ok: "browser_ok s \<Longrightarrow> browser_ok (nav_apply browser_nav s c)"
  using browser.run_ok [of s "[c]"] by (simp add: nav_run_def)

section \<open>Moves of the tree\<close>

text \<open>A move that is defined on every good state and leaves the focus in the tree.\<close>

definition good_move :: "(browser_tree \<Rightarrow> browser_tree option) \<Rightarrow> bool" where
  "good_move move \<longleftrightarrow> (\<forall>s. browser_ok s \<and> details_ok s \<and> bt_detail_focus s = FocusTree \<longrightarrow>
     (\<exists>t. move s = Some t \<and> browser_ok t \<and> details_ok t \<and> bt_detail_focus t = FocusTree))"

lemma details_same: "bt_details t = bt_details s \<Longrightarrow> bt_nodes t = bt_nodes s \<Longrightarrow> details_ok t = details_ok s"
  by (simp add: details_ok_def)

lemma nav_move_good: "good_move (\<lambda>s. Some (reset_detail_focus (nav_apply browser_nav s c)))"
  unfolding good_move_def
proof (intro allI impI)
  fix s assume s: "browser_ok s \<and> details_ok s \<and> bt_detail_focus s = FocusTree"
  let ?t = "reset_detail_focus (nav_apply browser_nav s c)"
  have "browser_ok ?t" using s tree_nav_ok [of s c] by simp
  moreover have "details_ok ?t" using s details_same [of ?t s] tree_nav_frame [of s c] by simp
  ultimately show "\<exists>t. Some ?t = Some t \<and> browser_ok t \<and> details_ok t \<and> bt_detail_focus t = FocusTree"
    by simp
qed

lemmas tree_moves = bt_move_up_def bt_move_down_def bt_page_up_def bt_page_down_def
  bt_goto_first_def bt_goto_last_def

lemma moves_good:
  "good_move (\<lambda>s. Some (bt_move_up s))" "good_move (\<lambda>s. Some (bt_move_down s))"
  "good_move (\<lambda>s. Some (bt_page_up k s))" "good_move (\<lambda>s. Some (bt_page_down k s))"
  "good_move (\<lambda>s. Some (bt_goto_first s))" "good_move (\<lambda>s. Some (bt_goto_last s))"
  "good_move enter_selection" "good_move backspace_selection"
  unfolding tree_moves
  using nav_move_good [of MoveUp] nav_move_good [of MoveDown] nav_move_good [of "PageUp k"]
    nav_move_good [of "PageDown k"] nav_move_good [of GotoFirst] nav_move_good [of GotoLast]
proof -
  show "good_move enter_selection" unfolding good_move_def
    using enter_ok enter_frame details_same by metis
  show "good_move backspace_selection" unfolding good_move_def
    using backspace_ok backspace_frame details_same by metis
qed simp_all

section \<open>Following the selection\<close>

lemma follow_tree [simp]: "bp_tree (fst (follow_selection cadence s)) = bp_tree s"
  by (simp add: follow_selection_def refresh_sparkline_def refresh_queue_listing_def Let_def
      split: option.split)

lemma refresh_sparkline_props:
  "map_option (\<lambda>p. (sp_kind p, sp_id p)) (bp_sparkline (fst (refresh_sparkline cadence s))) =
     current_selection_for_sparkline (bp_tree s)"
  "bp_tree (fst (refresh_sparkline cadence s)) = bp_tree s"
  "bp_listing (fst (refresh_sparkline cadence s)) = bp_listing s"
  by (auto simp: refresh_sparkline_def Let_def sparkline_pending_def split: option.split)

lemma refresh_queue_props:
  "map_option ql_queue_id (bp_listing (fst (refresh_queue_listing s))) =
     map_option fst (current_selection_for_queue_listing (bp_tree s))"
  "bp_tree (fst (refresh_queue_listing s)) = bp_tree s"
  "bp_sparkline (fst (refresh_queue_listing s)) = bp_sparkline s"
  by (auto simp: refresh_queue_listing_def queue_listing_pending_def split: option.split)

lemma follow_synced: "panes_synced (fst (follow_selection cadence s))"
proof -
  let ?s = "fst (refresh_sparkline cadence s)"
  have "fst (follow_selection cadence s) = fst (refresh_queue_listing ?s)"
    by (simp add: follow_selection_def Let_def split: prod.split)
  then show ?thesis
    using refresh_sparkline_props [where cadence = cadence and s = s] refresh_queue_props [of ?s]
    by (simp add: panes_synced_def)
qed

lemma focus_tree_ok: "bt_detail_focus t = FocusTree \<Longrightarrow> focus_ok b t"
  by (simp add: focus_ok_def)

lemma selection_changed_ok:
  assumes "browser_ok (bp_tree s)" and "details_ok (bp_tree s)" and "bt_detail_focus (bp_tree s) = FocusTree"
  shows "\<exists>s' r. browser_selection_changed cadence s = Some (s', r) \<and> pane_ok b s'"
proof -
  from emit_ok [OF assms(1)] obtain t where t: "emit_detail_request (bp_tree s) = Some t" "browser_ok t" by blast
  note frame = emit_frame [OF t(1)]
  let ?s = "follow_selection cadence (s\<lparr>bp_tree := t\<rparr>)"
  have "tree_ok b t"
    using t(2) frame assms details_same [of t "bp_tree s"] by (simp add: tree_ok_def focus_tree_ok)
  then have "pane_ok b (fst ?s)" by (simp add: pane_ok_def follow_synced)
  then show ?thesis by (cases ?s) (simp add: browser_selection_changed_def t(1))
qed

lemma tree_step_ok:
  assumes "good_move move" and "pane_ok b s" and "bt_detail_focus (bp_tree s) = FocusTree"
  shows "keeps b (tree_step cadence move s)"
proof -
  obtain t where t: "move (bp_tree s) = Some t" "browser_ok t" "details_ok t" "bt_detail_focus t = FocusTree"
    using assms by (auto simp: good_move_def pane_ok_def tree_ok_def)
  with selection_changed_ok [where s = "s\<lparr>bp_tree := t\<rparr>" and cadence = cadence and b = b] show ?thesis by (auto simp: tree_step_def keeps_def)
qed

text \<open>Toggling the selected row keeps b the cursor on it.\<close>

lemma expand_selected:
  assumes "browser_ok s" and "selected_arena s = Some i"
  shows "\<exists>t. expand_row i s = Some t \<and> browser_ok t \<and> selected_arena t = Some i"
proof (rule expand_row_ok [OF assms])
  fix pre sub post v
  let ?t = "s\<lparr>bt_expanded := insert i (bt_expanded s), bt_visible := v\<rparr>"
  assume a: "expand_row i s = Some ?t" "browser_ok ?t" "length pre = bt_selected s"
    "i \<notin> bt_expanded s \<Longrightarrow> bt_visible s = pre @ i # post \<and> v = pre @ i # sub @ post"
  have "selected_arena ?t = Some i"
  proof (cases "i \<in> bt_expanded s")
    case True
    then have "expand_row i s = Some (s\<lparr>bt_expanded := insert i (bt_expanded s), bt_visible := bt_visible s\<rparr>)"
      using assms(1) by (simp add: expand_row_def rebuild_visible_def insert_absorb browser_ok_def)
    with a(1) have "v = bt_visible s" by (metis browser_tree.ext_inject browser_tree.surjective
        browser_tree.update_convs(2,4) option.inject)
    with assms(2) show ?thesis by (simp add: selected_arena_def)
  next
    case False
    with a(4) have "v = pre @ i # sub @ post" by blast
    with a(3) [symmetric] show ?thesis by (simp add: selected_arena_def nth_append)
  qed
  with a show ?thesis by blast
qed

lemma collapse_selected:
  assumes "browser_ok s" and "selected_arena s = Some i"
  shows "\<exists>t. collapse_row i s = Some t \<and> browser_ok t \<and> selected_arena t = Some i"
proof (cases "i \<in> bt_expanded s")
  case True
  show ?thesis
  proof (rule collapse_row_ok [OF assms True])
    fix pre sub post
    let ?t = "s\<lparr>bt_expanded := bt_expanded s - {i}, bt_visible := pre @ i # post\<rparr>"
    assume "length pre = bt_selected s" "collapse_row i s = Some ?t" "browser_ok ?t"
    moreover from this(1) [symmetric] have "selected_arena ?t = Some i" by (simp add: selected_arena_def)
    ultimately show ?thesis by blast
  qed
next
  case False
  let ?t = "s\<lparr>bt_expanded := bt_expanded s - {i}, bt_visible := bt_visible s\<rparr>"
  have same: "bt_expanded s - {i} = bt_expanded s" using False by simp
  have "collapse_row i s = Some ?t"
    using assms(1) by (simp add: collapse_row_def rebuild_visible_def browser_ok_def same)
  moreover have "browser_ok ?t" using assms(1) by (simp add: browser_ok_def same)
  moreover have "selected_arena ?t = Some i" using assms(2) by (simp add: selected_arena_def)
  ultimately show ?thesis by blast
qed

lemma same_selection:
  assumes "bt_nodes t = bt_nodes s" and "selected_arena t = selected_arena s"
  shows "current_selection_for_sparkline t = current_selection_for_sparkline s"
    and "current_selection_for_queue_listing t = current_selection_for_queue_listing s"
  using assms by (simp_all add: current_selection_for_sparkline_def
      current_selection_for_queue_listing_def selected_node_def)

lemma synced_same:
  assumes "panes_synced s" and "bt_nodes t = bt_nodes (bp_tree s)"
    and "selected_arena t = selected_arena (bp_tree s)"
  shows "panes_synced (s\<lparr>bp_tree := t\<rparr>)"
  using assms(1) same_selection [OF assms(2,3)] by (simp add: panes_synced_def)

lemma toggle_ok:
  assumes "pane_ok b s" and "selected_arena (bp_tree s) = Some a" and "bt_detail_focus (bp_tree s) = FocusTree"
    and "op = expand_row \<or> op = collapse_row"
  shows "keeps b (toggle_folder op a s)"
proof -
  have ok: "browser_ok (bp_tree s)" using assms(1) by (simp add: pane_ok_def tree_ok_def)
  obtain t where t: "op a (bp_tree s) = Some t" "browser_ok t" "selected_arena t = Some a"
    using assms(4) expand_selected [OF ok assms(2)] collapse_selected [OF ok assms(2)] by blast
  have frame: "bt_nodes t = bt_nodes (bp_tree s)" "bt_details t = bt_details (bp_tree s)"
    "bt_detail_focus t = FocusTree"
    using t(1) assms(3,4) by (auto dest!: expand_frame)
  then have "tree_ok b t"
    using t(2) assms(1) details_same [OF frame(2,1)] by (simp add: tree_ok_def pane_ok_def focus_tree_ok)
  with synced_same [of s t] frame t(3) assms(1,2) have "pane_ok b (s\<lparr>bp_tree := t\<rparr>)"
    by (simp add: pane_ok_def)
  with t(1) show ?thesis by (auto simp: toggle_folder_def answer_def keeps_def)
qed

section \<open>Keys\<close>

lemma set_focus_ok:
  assumes "pane_ok b s"
    and "\<And>idx rows xs. f = FocusSection idx rows xs \<Longrightarrow>
      length rows = max_detail_sections \<and> length xs = max_detail_sections \<and> idx < max_detail_sections \<and>
      (b \<longrightarrow> (\<forall>a. selected_arena (bp_tree s) = Some a \<longrightarrow> idx < length (focus_sections (bp_tree s) a)))"
  shows "pane_ok b (set_focus f s)"
proof -
  let ?t = "(bp_tree s)\<lparr>bt_detail_focus := f\<rparr>"
  have sel: "selected_arena ?t = selected_arena (bp_tree s)" by (simp add: selected_arena_def)
  have "focus_sections ?t a = focus_sections (bp_tree s) a" for a
    by (simp add: focus_sections_def sections_for_arena_with_detail_def)
  then have "focus_ok b ?t" using assms(2) sel by (cases f) (simp_all add: focus_ok_def)
  moreover have "browser_ok ?t = browser_ok (bp_tree s)" "details_ok ?t = details_ok (bp_tree s)"
    by (simp_all add: browser_ok_def details_ok_def)
  ultimately show ?thesis
    using assms(1) synced_same [of s ?t] sel by (simp add: pane_ok_def tree_ok_def set_focus_def)
qed

lemma listing_focus_id: "listing_focus lc a l = Some l' \<Longrightarrow> ql_queue_id l' = ql_queue_id l"
  by (auto simp: listing_focus_def Let_def split: if_splits)

lemma listing_update_ok:
  "pane_ok b s \<Longrightarrow> bp_listing s = Some l \<Longrightarrow> ql_queue_id l' = ql_queue_id l \<Longrightarrow>
     pane_ok b (s\<lparr>bp_listing := Some l'\<rparr>)"
  by (simp add: pane_ok_def panes_synced_def)

lemma focused_update_ok: "pane_ok b (s\<lparr>bp_listing_focused := f\<rparr>) = pane_ok b s"
  by (simp add: pane_ok_def panes_synced_def)

lemma answer_ok [keeps_intros]: "pane_ok b s \<Longrightarrow> keeps b (answer r s)"
  by (simp add: answer_def keeps_def)

lemma unhandled_ok [keeps_intros]: "pane_ok b s \<Longrightarrow> keeps b (Some (s, None))"
  by (simp add: keeps_def)

lemma at_row_ok [keeps_intros]: "idx < length rows \<Longrightarrow> keeps b (k (rows ! idx)) \<Longrightarrow> keeps b (at_row rows idx k)"
  by (simp add: at_row_def get_at_lt)

lemma option_ok [keeps_intros]:
  "keeps b r \<Longrightarrow> (\<And>x. v = Some x \<Longrightarrow> keeps b (k x)) \<Longrightarrow> keeps b (case v of None \<Rightarrow> r | Some x \<Rightarrow> k x)"
  by (cases v) simp_all

lemma if_ok [keeps_intros]: "(c \<Longrightarrow> keeps b r) \<Longrightarrow> (\<not> c \<Longrightarrow> keeps b r') \<Longrightarrow> keeps b (if c then r else r')"
  by simp

lemma descend_child_ok:
  assumes "pane_ok b s"
  shows "keeps b (descend_into_child cadence target s)"
proof -
  have ok: "browser_ok (bp_tree s)" "details_ok (bp_tree s)" using assms by (simp_all add: pane_ok_def tree_ok_def)
  show ?thesis
  proof (cases "find_group (bt_nodes (bp_tree s)) target")
    case None
    then have "drill_into_group target (bp_tree s) = Some (False, bp_tree s)" by (simp add: drill_into_group_def)
    with assms show ?thesis by (simp add: descend_into_child_def answer_ok)
  next
    case (Some i)
    with drill_ok [OF ok(1), of target] obtain t where
      t: "drill_into_group target (bp_tree s) = Some (True, t)" "browser_ok t" "bt_nodes t = bt_nodes (bp_tree s)"
      by auto
    with drill_frame [OF t(1)] ok(2) details_same [of t "bp_tree s"]
      selection_changed_ok [where s = "s\<lparr>bp_tree := t\<rparr>" and cadence = cadence and b = b]
    show ?thesis by (auto simp: descend_into_child_def keeps_def)
  qed
qed

lemma descend_property_ok [keeps_intros]: "pane_ok b s \<Longrightarrow> keeps b (descend_property v pg s)"
  unfolding descend_property_def by (rule answer_ok)

lemma descend_section_ok:
  assumes "pane_ok b s" and "idx < length rows"
  shows "keeps b (descend_section cadence a sec d idx rows s)"
  unfolding descend_section_def using assms
  by (cases sec; cases d)
    (auto split: detail_section.split node_detail.split intro!: keeps_intros descend_child_ok)

lemma sections_le: "length (sections_for_arena t a) \<le> length (focus_sections t a)"
proof -
  have "length (for_node k) \<le> length (for_node_detail k v)" for k v
    by (cases "(k, v)" rule: for_node_detail.cases) simp_all
  then show ?thesis
    by (simp add: sections_for_arena_def focus_sections_def sections_for_arena_with_detail_def split: option.split)
qed

lemma sections_bound: "length (focus_sections t a) \<le> max_detail_sections"
  by (simp add: focus_sections_def sections_for_arena_with_detail_def section_count_bounds split: option.split)

text \<open>The focus is past the last section of the selected node.\<close>

definition focus_lost :: "browser_pane \<Rightarrow> bool" where
  "focus_lost s \<longleftrightarrow> (case (bt_detail_focus (bp_tree s), selected_arena (bp_tree s)) of
       (FocusSection idx _ _, Some a) \<Rightarrow> length (focus_sections (bp_tree s) a) \<le> idx
     | _ \<Rightarrow> False)"

lemma strict_not_lost: "pane_ok True s \<Longrightarrow> \<not> focus_lost s"
  by (auto simp: pane_ok_def tree_ok_def focus_ok_def focus_lost_def split: detail_focus.splits option.splits)

lemma enter_section_ok:
  assumes "pane_ok b s" and "selected_arena (bp_tree s) = Some a"
    and "idx < length (sections_for_arena (bp_tree s) a)"
  shows "pane_ok b (enter_section idx s)"
  unfolding enter_section_def
  using assms sections_le [of "bp_tree s" a] sections_bound [of "bp_tree s" a]
  by (intro set_focus_ok) (auto simp: fresh_rows_def)

lemma section_focus_ok:
  assumes ok: "pane_ok b s" and focus: "bt_detail_focus (bp_tree s) = FocusSection idx rows xs"
    and down: "action = FaDown \<Longrightarrow> \<not> focus_lost s"
  shows "keeps b (section_focus cadence ring idx rows xs action s)"
proof (cases "selected_arena (bp_tree s)")
  case None
  with ok show ?thesis by (simp add: section_focus_def answer_ok)
next
  case (Some a)
  let ?secs = "focus_sections (bp_tree s) a"
  have len: "length rows = max_detail_sections" "length xs = max_detail_sections"
    and idx: "idx < max_detail_sections" "b \<Longrightarrow> idx < length ?secs"
    using ok focus Some by (simp_all add: pane_ok_def tree_ok_def focus_ok_def)
  have arr: "idx < length rows" "idx < length xs" using idx len by simp_all
  have moved: "pane_ok b (set_focus (FocusSection i rs ys) s)"
    if "length rs = max_detail_sections" "length ys = max_detail_sections"
      "i < max_detail_sections" "b \<Longrightarrow> i < length ?secs" for i rs ys
    using that Some by (intro set_focus_ok [OF ok]) auto
  have entered: "pane_ok b (set_focus (FocusSection i rows xs) s)" if "i < length ?secs" for i
    using that len sections_bound [of "bp_tree s" a] by (intro moved) simp_all
  note move = answer_ok [OF moved]
  have tree: "pane_ok b (set_focus FocusTree s)" by (rule set_focus_ok [OF ok]) simp
  show ?thesis
  proof (cases action)
    case FaDown
    with down focus Some have "idx < length ?secs" by (simp add: focus_lost_def)
    with FaDown Some show ?thesis
      by (simp add: section_focus_def get_at_lt Let_def)
        (use len idx in \<open>intro conjI impI at_row_ok [OF arr(1)] move; simp\<close>)
  next
    case FaNextPane
    with Some show ?thesis
      by (simp add: section_focus_def Let_def)
        (use ok tree in \<open>auto intro!: answer_ok entered simp: focused_update_ok\<close>)
  next
    case FaPrevPane
    have "pane_ok b (set_focus (FocusSection (idx - Suc 0) rows xs) s)" using len idx by (intro moved) auto
    with FaPrevPane Some ok tree show ?thesis
      by (auto simp: section_focus_def Let_def intro!: answer_ok)
  next
    case FaDescend
    with Some ok arr show ?thesis by (simp add: section_focus_def Let_def descend_section_ok)
  next
    case FaAscend
    with Some tree show ?thesis by (simp add: section_focus_def Let_def answer_ok)
  qed (use Some ok len idx in \<open>auto simp: section_focus_def Let_def intro!: at_row_ok arr move unhandled_ok\<close>)
qed

lemma selected_in_range:
  "pane_ok b s \<Longrightarrow> selected_arena (bp_tree s) = Some a \<Longrightarrow> a < length (bt_nodes (bp_tree s))"
  using selected_arena_Some(3) by (auto simp: pane_ok_def tree_ok_def)

lemma tree_focus_ok:
  assumes ok: "pane_ok b s" and focus: "bt_detail_focus (bp_tree s) = FocusTree"
  shows "keeps b (tree_focus cadence action s)"
proof -
  note step = tree_step_ok [OF _ ok focus] moves_good
  show ?thesis
  proof (cases "selected_arena (bp_tree s)")
    case None
    then show ?thesis
      by (cases action) (simp_all add: tree_focus_def Let_def step answer_ok [OF ok] unhandled_ok [OF ok])
  next
    case (Some a)
    have a: "get_at (bt_nodes (bp_tree s)) a = Some (bt_nodes (bp_tree s) ! a)"
      using selected_in_range [OF ok Some] by simp
    have toggle: "keeps b (toggle_folder op a s)" if "op = expand_row \<or> op = collapse_row" for op
      using toggle_ok [OF ok Some focus that] .
    have enter: "keeps b (answer redraw_only (enter_section i s))"
      if "i < length (sections_for_arena (bp_tree s) a)" for i
      by (rule answer_ok [OF enter_section_ok [OF ok Some that]])
    have move: "keeps b (tree_step cadence move s)" if "good_move move" for move
      by (rule tree_step_ok [OF that ok focus])
    show ?thesis
    proof (cases action)
      case FaDescend
      have "keeps b (toggle_folder (if a \<in> bt_expanded (bp_tree s) then collapse_row else expand_row) a s)"
        by (rule toggle) simp
      with FaDescend Some ok show ?thesis
        unfolding tree_focus_def by (simp add: Let_def a moves_good move enter unhandled_ok)
    next
      case FaPrevPane
      with Some ok show ?thesis by (simp add: tree_focus_def Let_def a enter answer_ok)
    qed (simp_all add: tree_focus_def Let_def Some a toggle enter move moves_good answer_ok [OF ok])
  qed
qed

lemma handle_focus_ok:
  assumes "pane_ok b s" and "action = FaDown \<Longrightarrow> \<not> bp_listing_focused s \<Longrightarrow> \<not> focus_lost s"
  shows "keeps b (handle_focus lc cadence ring action s)"
proof (cases "bp_listing_focused s")
  case True
  then show ?thesis
    using assms(1) by (auto simp: handle_focus_def intro!: keeps_intros intro: listing_update_ok listing_focus_id)
next
  case False
  then show ?thesis
    using tree_focus_ok [OF assms(1)] section_focus_ok [OF assms(1)] assms(2)
    by (simp add: handle_focus_def split: detail_focus.split)
qed

lemma lost_focus_panics:
  assumes "focus_lost s" and "\<not> bp_listing_focused s"
  shows "handle_focus lc cadence ring FaDown s = None"
  using assms by (auto simp: focus_lost_def handle_focus_def section_focus_def Let_def get_at_def
      split: detail_focus.splits option.splits)

text \<open>A run of keys; \<open>None\<close> when one of them panics.\<close>

fun press_keys ::
  "(string \<Rightarrow> string) \<Rightarrow> nat \<Rightarrow> bulletin_snapshot list \<Rightarrow> focus_action list \<Rightarrow> browser_pane \<Rightarrow> browser_pane option"
where
  "press_keys lc cadence ring [] s = Some s"
| "press_keys lc cadence ring (a # as) s =
     Option.bind (handle_focus lc cadence ring a s) (\<lambda>(t, _). press_keys lc cadence ring as t)"

lemma press_keys_ok: "pane_ok True s \<Longrightarrow> \<exists>t. press_keys lc cadence ring as s = Some t \<and> pane_ok True t"
proof (induction "as" arbitrary: s)
  case (Cons a "as")
  from handle_focus_ok [OF Cons.prems, of a lc cadence ring] strict_not_lost [OF Cons.prems] obtain t r where
    "handle_focus lc cadence ring a s = Some (t, r)" "pane_ok True t"
    by (auto simp: keeps_def split: option.splits)
  with Cons.IH show ?case by simp
qed simp

end
