(* ===== verification/Browser_Events.thy ===== *)
theory Browser_Events
  imports Browser_Pane
begin

text \<open>
  The Browser tab under every event that reaches it: cluster snapshots, details, parameter
  bindings, answers for the two panes and keys, in any order. What always holds, the one
  key that can panic, and two runs in which the code does not do what it means to.
\<close>

section \<open>Reachable states\<close>

definition pane_default :: browser_pane where
  "pane_default = \<lparr>bp_tree = browser_default, bp_listing = None, bp_listing_focused = False, bp_sparkline = None\<rparr>"

inductive tab_reach :: "browser_pane \<Rightarrow> bool" where
  start: "tab_reach pane_default"
| snapshot: "tab_reach s \<Longrightarrow> snapshot_fits snap \<Longrightarrow> apply_tree_snapshot (bp_tree s) snap = Some t \<Longrightarrow>
     tab_reach (s\<lparr>bp_tree := t\<rparr>)"
| detail: "tab_reach s \<Longrightarrow> payload_ok p \<Longrightarrow> tab_reach (s\<lparr>bp_tree := apply_node_detail (bp_tree s) p\<rparr>)"
| bindings: "tab_reach s \<Longrightarrow> tab_reach (s\<lparr>bp_tree := apply_parameter_context_bindings m (bp_tree s)\<rparr>)"
| worker: "tab_reach s \<Longrightarrow> tab_reach (s\<lparr>bp_tree := (bp_tree s)\<lparr>bt_detail_tx := tx\<rparr>\<rparr>)"
| listing: "tab_reach s \<Longrightarrow> bp_listing s = Some l \<Longrightarrow> tab_reach (s\<lparr>bp_listing := Some (listing_apply lc l c)\<rparr>)"
| history: "tab_reach s \<Longrightarrow> tab_reach (s\<lparr>bp_sparkline :=
     map_option (sparkline_apply_update clock kind i series) (bp_sparkline s)\<rparr>)"
| key: "tab_reach s \<Longrightarrow> handle_focus lc cadence ring a s = Some (t, r) \<Longrightarrow> tab_reach t"

lemma pane_ok_tree: "pane_ok False s = tree_ok False (bp_tree s)"
  by (simp add: pane_ok_def)

lemma default_tree_ok: "tree_ok False browser_default"
  using browser_default_ok by (simp add: tree_ok_def details_ok_def focus_ok_def browser_default_def)

lemma focus_weak: "bt_detail_focus t = bt_detail_focus s \<or> bt_detail_focus t = FocusTree \<Longrightarrow>
  focus_ok False s \<Longrightarrow> focus_ok False t"
  by (auto simp: focus_ok_def split: detail_focus.splits)

lemma snapshot_tree_ok:
  assumes "tree_ok False s" and "snapshot_fits snap"
  shows "\<exists>t. apply_tree_snapshot s snap = Some t \<and> tree_ok False t"
proof -
  obtain ns v where a: "arena_of (rs_nodes snap) ns" "length ns \<le> usize_max"
    "visible_walk ns (translate_expanded s ns) (roots ns) = Some v"
    "apply_tree_snapshot s snap = Some (tree_after s snap ns v)"
    by (rule apply_tree_snapshot_cases [OF assms(2)])
  moreover have "arena_ok ns" using a(1) by (simp add: arena_of_def)
  moreover have "focus_ok False (tree_after s snap ns v)"
    by (rule focus_weak [of _ s]) (use assms(1) in \<open>simp_all add: tree_ok_def tree_after_def Let_def\<close>)
  ultimately show ?thesis
    using assms(1) tree_after_ok [of ns s v snap] tree_after_details [of s snap ns v]
    by (simp add: tree_ok_def)
qed

lemma detail_tree_ok: "tree_ok False s \<Longrightarrow> payload_ok p \<Longrightarrow> tree_ok False (apply_node_detail s p)"
  using apply_node_detail_ok [of s p] browser_ok_frame [of "apply_node_detail s p" s]
    focus_weak [of "apply_node_detail s p" s] by (simp add: tree_ok_def)

lemma bindings_tree_ok: "tree_ok False s \<Longrightarrow> tree_ok False (apply_parameter_context_bindings m s)"
  using apply_bindings_ok [of s m] focus_weak [of "apply_parameter_context_bindings m s" s]
  by (simp add: tree_ok_def apply_parameter_context_bindings_def)

lemma tx_tree_ok: "tree_ok False (s\<lparr>bt_detail_tx := tx\<rparr>) = tree_ok False s"
  by (simp add: tree_ok_def browser_ok_def details_ok_def focus_ok_def split: detail_focus.split)

lemma focus_key_step:
  assumes "pane_ok False s" and "handle_focus lc cadence ring a s = Some (t, r)"
  shows "pane_ok False t"
proof (cases "a = FaDown \<and> \<not> bp_listing_focused s \<and> focus_lost s")
  case True
  with lost_focus_panics [of s lc cadence ring] assms(2) show ?thesis by simp
next
  case False
  then have "keeps False (handle_focus lc cadence ring a s)"
    by (intro handle_focus_ok [OF assms(1)]) simp
  with assms(2) show ?thesis by (simp add: keeps_def)
qed

lemma tab_reach_ok: "tab_reach s \<Longrightarrow> pane_ok False s"
proof (induction rule: tab_reach.induct)
  case start
  show ?case using default_tree_ok by (simp add: pane_ok_tree pane_default_def)
next
  case (snapshot s snap t)
  with snapshot_tree_ok [of "bp_tree s" snap] show ?case by (auto simp: pane_ok_tree)
next
  case (key s lc cadence ring a t r)
  then show ?case using focus_key_step by blast
qed (simp_all add: pane_ok_tree detail_tree_ok bindings_tree_ok tx_tree_ok)

text \<open>
  C2: whatever snapshots, details, bindings, pane answers and keys the tab receives, in any
  order: the tree stays well formed with the cursor on a row, every stored detail is about
  the node it is stored at, every snapshot is absorbed, and the only key that can panic is
  Down, exactly when the focused section is past the last section of the selected node.
\<close>

theorem tab_events_keep_tree:
  assumes "tab_reach s"
  shows "browser_ok (bp_tree s) \<and> details_ok (bp_tree s)
    \<and> (\<forall>snap. snapshot_fits snap \<longrightarrow> (\<exists>t. apply_tree_snapshot (bp_tree s) snap = Some t))
    \<and> (handle_focus lc cadence ring a s = None \<longleftrightarrow>
         a = FaDown \<and> \<not> bp_listing_focused s \<and> focus_lost s)"
proof -
  have ok: "pane_ok False s" by (rule tab_reach_ok [OF assms])
  then have tree: "tree_ok False (bp_tree s)" by (simp add: pane_ok_tree)
  have "handle_focus lc cadence ring a s \<noteq> None"
    if "\<not> (a = FaDown \<and> \<not> bp_listing_focused s \<and> focus_lost s)"
  proof -
    from that have "keeps False (handle_focus lc cadence ring a s)" by (intro handle_focus_ok [OF ok]) simp
    then show ?thesis by (auto simp: keeps_def split: option.splits)
  qed
  with lost_focus_panics [of s lc cadence ring] have
    "handle_focus lc cadence ring a s = None \<longleftrightarrow> a = FaDown \<and> \<not> bp_listing_focused s \<and> focus_lost s"
    by metis
  with tree snapshot_tree_ok [OF tree] show ?thesis by (auto simp: tree_ok_def)
qed


lemma apply_tree_snapshot_eq:
  assumes "build_arena (rs_nodes snap) = Some ns"
    and "visible_walk ns (translate_expanded s ns) (roots ns) = Some v"
  shows "apply_tree_snapshot s snap = Some (tree_after s snap ns v)"
  using assms by (simp add: apply_tree_snapshot_def rebuild_visible_def tree_after_def Let_def)

section \<open>Two runs\<close>

text \<open>A group with one processor, and the same group after the processor was deleted.\<close>

definition demo_row :: "nat option \<Rightarrow> node_kind \<Rightarrow> string \<Rightarrow> raw_node" where
  "demo_row p k i = \<lparr>rn_parent = p, rn_kind = k, rn_id = i, rn_group_id = ''r'', rn_name = i, rn_status = StPort\<rparr>"

definition demo_node :: "nat option \<Rightarrow> nat list \<Rightarrow> node_kind \<Rightarrow> string \<Rightarrow> tree_node" where
  "demo_node p cs k i = \<lparr>tn_parent = p, tn_children = cs, tn_kind = k, tn_id = i, tn_group_id = ''r'',
     tn_name = i, tn_status = StPort, tn_parameter_context_ref = None\<rparr>"

definition snap_with :: recursive_snapshot where
  "snap_with = \<lparr>rs_nodes = [demo_row None ProcessGroup ''r'', demo_row (Some 0) Processor ''p''], rs_fetched_at = 0\<rparr>"

definition snap_without :: recursive_snapshot where
  "snap_without = \<lparr>rs_nodes = [demo_row None ProcessGroup ''r''], rs_fetched_at = 0\<rparr>"

lemma demo_fits: "snapshot_fits snap_with" "snapshot_fits snap_without"
  by (auto simp: snapshot_fits_def snap_with_def snap_without_def demo_row_def links_back_def
      usize_max_def less_Suc_eq)

definition demo_nodes :: "tree_node list" where
  "demo_nodes = [demo_node None [1] ProcessGroup ''r'', demo_node (Some 0) [] Processor ''p'']"

lemma demo_arenas:
  "build_arena (rs_nodes snap_with) = Some demo_nodes"
  "build_arena (rs_nodes snap_without) = Some [demo_node None [] ProcessGroup ''r'']"
  by (simp_all add: build_arena_def link_children_def link_child_def fresh_node_def demo_nodes_def
      synthesize_folders_def pg_indices_def bucket_group_def add_folder_def Let_def
      snap_with_def snap_without_def demo_row_def demo_node_def upt_rec)

definition demo_tree ::
  "nat \<Rightarrow> (nat \<Rightarrow> node_detail option) \<Rightarrow> detail_focus \<Rightarrow> nat option \<Rightarrow> bool \<Rightarrow> browser_tree" where
  "demo_tree sel ds f pend unsent =
     \<lparr>bt_nodes = demo_nodes, bt_visible = [0, 1], bt_selected = sel, bt_expanded = {0}, bt_details = ds,
      bt_pending_detail = pend, bt_pending_detail_unsent = unsent, bt_last_tree_fetched_at = Some 0,
      bt_detail_tx = None, bt_detail_focus = f\<rparr>"

lemma demo_first: "apply_tree_snapshot browser_default snap_with = Some (demo_tree 0 (\<lambda>_. None) FocusTree None False)"
proof -
  have ex: "translate_expanded browser_default demo_nodes = {0}"
    by (auto simp: translate_expanded_def browser_default_def prev_expanded_keys_def demo_nodes_def)
  have "apply_tree_snapshot browser_default snap_with = Some (tree_after browser_default snap_with demo_nodes [0, 1])"
    by (rule apply_tree_snapshot_eq)
      (simp_all only: ex, simp_all add: demo_arenas roots_def demo_nodes_def demo_node_def upt_rec)
  also have "tree_after browser_default snap_with demo_nodes [0, 1] = demo_tree 0 (\<lambda>_. None) FocusTree None False"
    unfolding tree_after_def ex
    by (simp add: demo_tree_def browser_default_def prev_selected_key_def selected_arena_def Let_def
        get_at_def clamp_selected_def snap_with_def translate_details_def fun_eq_iff prev_detail_keys_def
        collect_map_def List.map_filter_def)
  finally show ?thesis .
qed

lemma demo_second:
  "\<exists>t. apply_tree_snapshot (demo_tree 1 ds f pend u) snap_without = Some t \<and> selected_arena t = Some 0 \<and>
     bt_nodes t = [demo_node None [] ProcessGroup ''r'']"
proof -
  let ?s = "demo_tree 1 ds f pend u" and ?ns = "[demo_node None [] ProcessGroup ''r'']"
  have walk: "visible_walk ?ns ex [0] = Some [0]" for ex by (simp add: demo_node_def)
  have "roots ?ns = [0]" by (simp add: roots_def demo_node_def upt_rec)
  then have "apply_tree_snapshot ?s snap_without = Some (tree_after ?s snap_without ?ns [0])"
    by (intro apply_tree_snapshot_eq) (simp_all only: demo_arenas walk)
  then show ?thesis
    by (simp add: tree_after_def Let_def selected_arena_def get_at_def clamp_selected_def)
qed

definition demo_pane ::
  "nat \<Rightarrow> (nat \<Rightarrow> node_detail option) \<Rightarrow> detail_focus \<Rightarrow> nat option \<Rightarrow> bool \<Rightarrow> sparkline_state option
   \<Rightarrow> browser_pane" where
  "demo_pane sel ds f pend unsent spark =
     \<lparr>bp_tree = demo_tree sel ds f pend unsent, bp_listing = None, bp_listing_focused = False, bp_sparkline = spark\<rparr>"

lemmas demo_defs = demo_pane_def demo_tree_def demo_nodes_def demo_node_def

lemmas key_defs = handle_focus_def tree_focus_def tree_step_def section_focus_def tree_moves nav_defs browser_nav_def
  bt_selected_opt_def bt_set_selected_def reset_detail_focus_def browser_selection_changed_def
  emit_detail_request_def follow_selection_def refresh_sparkline_def refresh_queue_listing_def
  current_selection_for_sparkline_def current_selection_for_queue_listing_def selected_node_def
  selected_arena_def get_at_def sparkline_kind_def is_folder_def sections_for_arena_def enter_section_def
  set_focus_def answer_def focus_sections_def sections_for_arena_with_detail_def has_validation_def Let_def

definition on_processor :: browser_pane where
  "on_processor = demo_pane 1 (\<lambda>_. None) FocusTree (Some 1) True (Some (sparkline_pending CkProcessor ''p''))"

lemma select_processor:
  "\<exists>r. handle_focus lc c ring FaDown (demo_pane 0 (\<lambda>_. None) FocusTree None False None) = Some (on_processor, r)"
  by (simp add: key_defs demo_defs on_processor_def)

lemma on_processor_reached: "tab_reach on_processor"
proof -
  have "tab_reach (pane_default\<lparr>bp_tree := demo_tree 0 (\<lambda>_. None) FocusTree None False\<rparr>)"
    by (rule tab_reach.snapshot [OF tab_reach.start demo_fits(1)]) (simp add: pane_default_def demo_first)
  then have "tab_reach (demo_pane 0 (\<lambda>_. None) FocusTree None False None)"
    by (simp add: pane_default_def demo_pane_def)
  with select_processor show ?thesis by (blast intro: tab_reach.key)
qed

text \<open>
  A snapshot in which the selected component is gone moves the cursor to the root but
  leaves the sparkline of the deleted component in place, to be drawn as the root's, until
  the next key.
\<close>

theorem snapshot_leaves_stale_sparkline:
  "\<exists>s. tab_reach s \<and> current_selection_for_sparkline (bp_tree s) = Some (CkProcessGroup, ''r'')
     \<and> map_option (\<lambda>p. (sp_kind p, sp_id p)) (bp_sparkline s) = Some (CkProcessor, ''p'')"
proof -
  obtain t where t: "apply_tree_snapshot (bp_tree on_processor) snap_without = Some t"
    "selected_arena t = Some 0" "bt_nodes t = [demo_node None [] ProcessGroup ''r'']"
    using demo_second [of "\<lambda>_. None" FocusTree "Some 1" True] by (auto simp: on_processor_def demo_pane_def)
  have "tab_reach (on_processor\<lparr>bp_tree := t\<rparr>)"
    by (rule tab_reach.snapshot [OF on_processor_reached demo_fits(2) t(1)])
  with t(2,3) show ?thesis
    by (intro exI [of _ "on_processor\<lparr>bp_tree := t\<rparr>"])
      (simp add: current_selection_for_sparkline_def selected_node_def get_at_def demo_node_def
        sparkline_kind_def on_processor_def demo_pane_def sparkline_pending_def)
qed

text \<open>A processor with and without a validation error.\<close>

definition demo_processor :: "string list \<Rightarrow> node_detail_snapshot" where
  "demo_processor errs = \<lparr>nds_arena_idx = 1, nds_kind = Processor, nds_id = ''p'', nds_detail = DtProcessor
     \<lparr>pd_id = ''p'', pd_name = ''p'', pd_type_name = [], pd_bundle = [], pd_run_status = [],
      pd_scheduling_strategy = [], pd_scheduling_period = [], pd_concurrent_tasks = 1, pd_run_duration_ms = 0,
      pd_penalty_duration = [], pd_yield_duration = [], pd_bulletin_level = [], pd_properties = [],
      pd_validation_errors = errs\<rparr>\<rparr>"

definition on_detail :: "string list \<Rightarrow> detail_focus \<Rightarrow> browser_pane" where
  "on_detail errs f = demo_pane 1 ((\<lambda>_. None)(1 := Some (nds_detail (demo_processor errs)))) f
     None True (Some (sparkline_pending CkProcessor ''p''))"

lemma demo_payload: "payload_ok (demo_processor errs)"
  by (simp add: payload_ok_def demo_processor_def)

lemma detail_arrives:
  "apply_node_detail (bp_tree on_processor) (demo_processor errs) = bp_tree (on_detail errs FocusTree)"
  "apply_node_detail (bp_tree (on_detail old f)) (demo_processor errs) = bp_tree (on_detail errs f)"
  by (simp_all add: apply_node_detail_def Let_def on_processor_def on_detail_def demo_defs demo_processor_def node_key_def)

lemma enter_first_section:
  "\<exists>r. handle_focus lc c ring FaDescend (on_detail errs FocusTree) =
     Some (on_detail errs (FocusSection 0 fresh_rows fresh_rows), r)"
  by (simp add: key_defs demo_defs on_detail_def)

lemma next_section:
  assumes "errs \<noteq> []" and "i < 3"
  shows "\<exists>r. handle_focus lc c ring FaNextPane (on_detail errs (FocusSection i rows xs)) =
     Some (on_detail errs (FocusSection (Suc i) rows xs), r)"
  using assms by (simp add: key_defs demo_defs on_detail_def demo_processor_def)

lemma on_detail_reached: "tab_reach (on_detail errs FocusTree)"
proof -
  have "tab_reach (on_processor\<lparr>bp_tree := apply_node_detail (bp_tree on_processor) (demo_processor errs)\<rparr>)"
    by (rule tab_reach.detail [OF on_processor_reached demo_payload])
  then show ?thesis by (simp add: detail_arrives) (simp add: on_processor_def on_detail_def demo_pane_def)
qed

lemma last_section_reached: "errs \<noteq> [] \<Longrightarrow> tab_reach (on_detail errs (FocusSection 3 fresh_rows fresh_rows))"
proof -
  assume errs: "errs \<noteq> []"
  have zero: "tab_reach (on_detail errs (FocusSection 0 fresh_rows fresh_rows))"
    using on_detail_reached enter_first_section by (blast intro: tab_reach.key)
  have step: "tab_reach (on_detail errs (FocusSection (Suc i) fresh_rows fresh_rows))"
    if "i < 3" "tab_reach (on_detail errs (FocusSection i fresh_rows fresh_rows))" for i
    using that next_section [OF errs that(1)] by (blast intro: tab_reach.key)
  from step [OF _ step [OF _ step [OF _ zero]]] show ?thesis by (simp add: numeral_3_eq_3)
qed

text \<open>
  With the focus in the last section of a processor that has a validation error, a
  refreshed detail without the error takes that section away, the focus stays behind, and
  the next Down key panics on \<open>sections.0[idx]\<close>.
\<close>

theorem down_panics_when_section_vanishes:
  "\<exists>s. tab_reach s \<and> handle_focus lc cadence ring FaDown s = None"
proof -
  let ?s = "on_detail [''invalid''] (FocusSection 3 fresh_rows fresh_rows)"
  let ?t = "on_detail [] (FocusSection 3 fresh_rows fresh_rows)"
  have "tab_reach (?s\<lparr>bp_tree := apply_node_detail (bp_tree ?s) (demo_processor [])\<rparr>)"
    by (rule tab_reach.detail [OF last_section_reached demo_payload]) simp
  then have "tab_reach ?t"
    by (simp only: detail_arrives) (simp add: on_detail_def demo_pane_def)
  moreover have "focus_lost ?t" "\<not> bp_listing_focused ?t"
    by (simp_all add: focus_lost_def key_defs demo_defs on_detail_def demo_processor_def)
  ultimately show ?thesis using lost_focus_panics by blast
qed

text \<open>Witnesses.\<close>

lemma tab_events_keep_tree_witness:
  "browser_ok (bp_tree on_processor) \<and> handle_focus (\<lambda>x. x) 5 [] FaDescend on_processor \<noteq> None"
  using tab_events_keep_tree [OF on_processor_reached, of "\<lambda>x. x" 5 "[]" FaDescend] by simp

lemma on_processor_ok: "pane_ok True on_processor"
proof -
  have "tree_ok False (bp_tree on_processor)" using tab_reach_ok [OF on_processor_reached] by (simp add: pane_ok_tree)
  then have "tree_ok True (bp_tree on_processor)"
    by (simp add: tree_ok_def focus_ok_def on_processor_def demo_pane_def demo_tree_def)
  then show ?thesis
    by (simp add: pane_ok_def panes_synced_def on_processor_def) (simp add: demo_defs key_defs sparkline_pending_def)
qed


lemma snapshot_builds_tree_witness:
  "\<exists>t. apply_tree_snapshot browser_default snap_with = Some t \<and> browser_ok t \<and> length (bt_nodes t) \<ge> 2"
  using snapshot_builds_tree [OF demo_fits(1), of browser_default]
  by (auto simp: arena_of_def extends_def snap_with_def)

lemma on_processor_tree: "browser_ok (bp_tree on_processor)" "selected_arena (bp_tree on_processor) = Some 1"
  using on_processor_ok by (simp_all add: pane_ok_def tree_ok_def on_processor_def demo_defs selected_arena_def get_at_def)

lemma snapshot_keeps_selection_witness:
  "\<exists>t. apply_tree_snapshot (bp_tree on_processor) snap_without = Some t \<and>
     bt_selected t = 0 \<and> bt_detail_focus t = FocusTree"
proof -
  obtain t where t: "apply_tree_snapshot (bp_tree on_processor) snap_without = Some t"
    "bt_nodes t = [demo_node None [] ProcessGroup ''r'']"
    using demo_second [of "\<lambda>_. None" FocusTree "Some 1" True] by (auto simp: on_processor_def demo_pane_def)
  obtain u where u: "apply_tree_snapshot (bp_tree on_processor) snap_without = Some u" "tree_ok False u"
    using snapshot_tree_ok [of "bp_tree on_processor", OF _ demo_fits(2)] tab_reach_ok [OF on_processor_reached]
    by (auto simp: pane_ok_tree)
  with t(1) have ok: "browser_ok t" by (simp add: tree_ok_def)
  have "set (bt_visible t) \<subseteq> {..<length (bt_nodes t)}"
    using ok visible_shown(3) [of "bt_nodes t" "bt_expanded t" "bt_visible t"] by (simp add: browser_ok_def)
  then have "node_key (bt_nodes t ! j) \<noteq> (''p'', Processor)" if "j \<in> set (bt_visible t)" for j
    using that t(2) by (auto simp: demo_node_def node_key_def)
  moreover have "node_key (bt_nodes (bp_tree on_processor) ! 1) = (''p'', Processor)"
    by (simp add: on_processor_def demo_defs node_key_def)
  ultimately show ?thesis
    using snapshot_keeps_selection [OF on_processor_tree(1) demo_fits(2) on_processor_tree(2) t(1)] t(1)
    by (metis (no_types, lifting))
qed

lemma pg_health_is_worst_descendant_witness: "pg_health_rollup 0 (bp_tree on_processor) = Some Green"
proof -
  let ?ns = "bt_nodes (bp_tree on_processor)"
  have ns: "?ns = demo_nodes" by (simp add: on_processor_def demo_pane_def demo_tree_def)
  have "node_health (?ns ! j) = Green" if "j < length ?ns" for j
    using that by (auto simp: ns demo_nodes_def demo_node_def node_health_def less_Suc_eq)
  moreover have "j < length ?ns" if "(j, 0) \<in> (parent_rel ?ns)\<^sup>+" for j
    using tranclD [OF that] by (auto simp: parent_rel_def)
  ultimately show ?thesis
    using pg_health_is_worst_descendant [OF on_processor_tree(1), of 0] by (auto simp: Let_def)
qed

end
