(* ===== verification/Key_Map.thy ===== *)
theory Key_Map
  imports Verbs App_Types
begin

text \<open>
  From a key to a typed input event (\<open>KeyMap::translate\<close> in \<open>src/src/input/mod.rs\<close>) through the
  gates of the modals (\<open>src/src/input/modal_gate.rs\<close>).

  The application state is read through \<open>input_ctx\<close>: which modal is open, whether the queue
  listing is focused, whether Events is in watch mode, and which Browser verbs are enabled.
\<close>

section \<open>Events\<close>

datatype view_verb =
    VBulletins bulletins_verb | VBulletinsDetail detail_verb | VBrowser browser_verb
  | VBrowserQueue queue_verb | VBrowserPeek peek_verb | VEvents events_verb | VEventsWatch watch_verb
  | VOverview overview_verb | VTracer tracer_verb | VContent content_verb | VReporting reporting_verb
  | VVersion version_verb | VParam param_verb | VAction action_verb | VAccess access_verb
  | VIdentity identity_verb

datatype input_event =
    IeFocus focus_action | IeHistory history_action | IeTab tab_action | IeApp app_action
  | IeView view_verb | IeUnmapped

record input_ctx =
  ic_tab :: view_id
  ic_app_modal :: bool
  ic_content_modal :: bool
  ic_reporting_modal :: bool
  ic_version_modal :: bool
  ic_param_modal :: bool
  ic_action_modal :: bool
  ic_peek_modal :: bool
  ic_access_modal :: bool
  ic_identity_modal :: bool
  ic_detail_modal :: bool
  ic_listing_focused :: bool
  ic_watch :: bool
  ic_enabled :: "browser_verb \<Rightarrow> bool"

section \<open>Gates\<close>

text \<open>A modal gate: its tab, when it is active, its verb table and the keys it lets through.\<close>

record gate =
  g_view :: view_id
  g_active :: "input_ctx \<Rightarrow> bool"
  g_verbs :: "(chord \<times> view_verb) list"
  g_passthrough :: "focus_action list"

definition table :: "('v \<Rightarrow> chord) \<Rightarrow> ('v \<Rightarrow> view_verb) \<Rightarrow> 'v list \<Rightarrow> (chord \<times> view_verb) list" where
  "table chord wrap vs = map (\<lambda>v. (chord v, wrap v)) vs"

definition quits :: "key_event \<Rightarrow> bool" where
  "quits k \<longleftrightarrow> ke_code k \<in> {KChar ''c'', KChar ''q'', KChar ''Q''} \<and> MControl \<in> ke_mods k"

definition lookup :: "(chord \<times> 'e) list \<Rightarrow> key_event \<Rightarrow> 'e option" where
  "lookup t k = map_option snd (find (\<lambda>(c, e). chord_matches c k) t)"

definition focus_table :: "focus_action list \<Rightarrow> (chord \<times> input_event) list" where
  "focus_table as = map (\<lambda>a. (fa_chord a, IeFocus a)) as"

definition or_unmapped :: "input_event option \<Rightarrow> input_event" where
  "or_unmapped r = (case r of None \<Rightarrow> IeUnmapped | Some e \<Rightarrow> e)"

definition try_dispatch :: "input_ctx \<Rightarrow> key_event \<Rightarrow> gate \<Rightarrow> input_event option" where
  "try_dispatch ctx k g =
     (if \<not> g_active g ctx \<or> ic_tab ctx \<noteq> g_view g then None
      else if quits k then Some (IeApp AaQuit)
      else case lookup (g_verbs g) k of
          Some v \<Rightarrow> Some (IeView v)
        | None \<Rightarrow> Some (or_unmapped (lookup (focus_table (g_passthrough g)) k)))"

definition content_gate :: gate where
  "content_gate = \<lparr>g_view = Tracer, g_active = (\<lambda>c. ic_content_modal c \<and> \<not> ic_app_modal c),
     g_verbs = table nv_chord VContent nv_all,
     g_passthrough = [FaUp, FaDown, FaLeft, FaRight, FaPageUp, FaPageDown, FaFirst, FaLast]\<rparr>"

definition reporting_gate :: gate where
  "reporting_gate = \<lparr>g_view = Overview, g_active = (\<lambda>c. ic_reporting_modal c \<and> \<not> ic_app_modal c),
     g_verbs = table rv_chord VReporting rv_all, g_passthrough = []\<rparr>"

definition version_gate :: gate where
  "version_gate = \<lparr>g_view = Browser, g_active = (\<lambda>c. ic_version_modal c \<and> \<not> ic_app_modal c),
     g_verbs = table vv_chord VVersion vv_all, g_passthrough = []\<rparr>"

definition param_gate :: gate where
  "param_gate = \<lparr>g_view = Browser, g_active = (\<lambda>c. ic_param_modal c \<and> \<not> ic_app_modal c),
     g_verbs = table pv_chord VParam pv_all, g_passthrough = []\<rparr>"

definition action_gate :: gate where
  "action_gate = \<lparr>g_view = Browser, g_active = (\<lambda>c. ic_action_modal c \<and> \<not> ic_app_modal c),
     g_verbs = table av_chord VAction av_all, g_passthrough = []\<rparr>"

definition peek_gate :: gate where
  "peek_gate = \<lparr>g_view = Browser, g_active = (\<lambda>c. ic_peek_modal c \<and> \<not> ic_app_modal c),
     g_verbs = table kv_chord VBrowserPeek kv_all, g_passthrough = []\<rparr>"

definition identity_gate :: gate where
  "identity_gate = \<lparr>g_view = Browser, g_active = (\<lambda>c. ic_identity_modal c \<and> \<not> ic_app_modal c),
     g_verbs = table iv_chord VIdentity iv_all, g_passthrough = []\<rparr>"

definition access_gate :: gate where
  "access_gate = \<lparr>g_view = Browser,
     g_active = (\<lambda>c. ic_access_modal c \<and> \<not> ic_identity_modal c \<and> \<not> ic_app_modal c),
     g_verbs = table xv_chord VAccess xv_all, g_passthrough = []\<rparr>"

definition detail_gate :: gate where
  "detail_gate = \<lparr>g_view = Bulletins, g_active = (\<lambda>c. ic_detail_modal c \<and> \<not> ic_app_modal c),
     g_verbs = table dv_chord VBulletinsDetail dv_all,
     g_passthrough = [FaUp, FaDown, FaPageUp, FaPageDown, FaFirst, FaLast, FaAscend]\<rparr>"

definition gates :: "gate list" where
  "gates = [content_gate, reporting_gate, version_gate, param_gate, action_gate, peek_gate,
     identity_gate, access_gate, detail_gate]"

section \<open>The key map\<close>

definition listing_table :: "(chord \<times> input_event) list" where
  "listing_table =
     map (\<lambda>v. (qv_chord v, IeView (VBrowserQueue v))) qv_all
     @ focus_table (filter (\<lambda>a. a \<in> {FaUp, FaDown, FaPageUp, FaPageDown, FaFirst, FaLast}) fa_all)
     @ [(aa_chord AaGoto, IeApp AaGoto), (aa_chord AaHelp, IeApp AaHelp)]"

text \<open>The framework enums, in the order they are tried.\<close>

definition framework_table :: "(chord \<times> input_event) list" where
  "framework_table =
     focus_table fa_all @ map (\<lambda>a. (ha_chord a, IeHistory a)) ha_all
     @ map (\<lambda>a. (ta_chord a, IeTab a)) ta_all @ map (\<lambda>a. (aa_chord a, IeApp a)) aa_all"

definition view_table :: "input_ctx \<Rightarrow> (chord \<times> view_verb) list" where
  "view_table ctx =
     (case ic_tab ctx of
        Bulletins \<Rightarrow> table bl_chord VBulletins bl_all
      | Browser \<Rightarrow> table bw_chord VBrowser (filter (ic_enabled ctx) bw_all)
      | Events \<Rightarrow>
          if ic_watch ctx then table wv_chord VEventsWatch wv_all
          else (wv_chord WvEditPredicate, VEventsWatch WvEditPredicate) # table ev_chord VEvents ev_all
      | Tracer \<Rightarrow> table tv_chord VTracer tv_all
      | Overview \<Rightarrow> table ov_chord VOverview ov_all)"

definition normalize_key :: "key_event \<Rightarrow> key_event" where
  "normalize_key k = (if ke_code k = KBackTab then k\<lparr>ke_mods := ke_mods k - {MShift}\<rparr> else k)"

fun first_some :: "('a \<Rightarrow> 'b option) \<Rightarrow> 'a list \<Rightarrow> 'b option" where
  "first_some f [] = None"
| "first_some f (x # xs) = (case f x of Some y \<Rightarrow> Some y | None \<Rightarrow> first_some f xs)"

definition translate :: "key_event \<Rightarrow> input_ctx \<Rightarrow> input_event" where
  "translate key ctx =
     (let k = normalize_key key in
      case first_some (try_dispatch ctx k) gates of
        Some ev \<Rightarrow> ev
      | None \<Rightarrow>
          if ic_listing_focused ctx \<and> ic_tab ctx = Browser
          then (if quits k then IeApp AaQuit else or_unmapped (lookup listing_table k))
          else case lookup framework_table k of
              Some ev \<Rightarrow> ev
            | None \<Rightarrow>
                if quits k then IeApp AaQuit
                else or_unmapped (map_option IeView (lookup (view_table ctx) k)))"

section \<open>Pressing a chord\<close>

definition pressed :: "chord \<Rightarrow> key_event" where
  "pressed c = \<lparr>ke_code = ch_key c, ke_mods = ch_mods c\<rparr>"

text \<open>What a verb table owes the key map: plain chords, each bound once.\<close>

locale chord_table =
  fixes t :: "(chord \<times> 'e) list"
  assumes plain: "list_all (\<lambda>(c, e). ch_leader c = None \<and> normalize_key (pressed c) = pressed c \<and> \<not> quits (pressed c)) t"
    and once: "distinct (map fst t)"
begin

lemma bound:
  assumes "(c, e) \<in> set t"
  shows "lookup t (pressed c) = Some e" and "normalize_key (pressed c) = pressed c" and "\<not> quits (pressed c)"
proof -
  show "normalize_key (pressed c) = pressed c" and "\<not> quits (pressed c)"
    using assms plain by (auto simp: list_all_iff)
  have "chord_matches d (pressed c) \<longleftrightarrow> d = c" if "(d, x) \<in> set t" for d x
    using that assms plain by (auto simp: list_all_iff chord_matches_def pressed_def)
  then have "find (\<lambda>(d, x). chord_matches d (pressed c)) t = find (\<lambda>(d, x). d = c) t"
    by (intro find_cong) auto
  also have "\<dots> = Some (c, e)"
    using assms once by (induction t) (auto simp: rev_image_eqI)
  finally show "lookup t (pressed c) = Some e" by (simp add: lookup_def)
qed

end

lemmas chord_defs = chord_simple_def chord_shift_def chord_ctrl_def pressed_def normalize_key_def quits_def

lemmas table_defs = table_def
  nv_all_def nv_chord_def rv_all_def rv_chord_def vv_all_def vv_chord_def pv_all_def pv_chord_def
  av_all_def av_chord_def kv_all_def kv_chord_def iv_all_def iv_chord_def xv_all_def xv_chord_def
  dv_all_def dv_chord_def bl_all_def bl_chord_def ev_all_def ev_chord_def tv_all_def tv_chord_def
  ov_all_def ov_chord_def wv_chord_def cv_chord_def

interpretation content_keys: chord_table "table nv_chord VContent nv_all"
  by unfold_locales (simp_all add: table_defs chord_defs)

interpretation reporting_keys: chord_table "table rv_chord VReporting rv_all"
  by unfold_locales (simp_all add: table_defs chord_defs)

interpretation version_keys: chord_table "table vv_chord VVersion vv_all"
  by unfold_locales (simp_all add: table_defs chord_defs)

interpretation param_keys: chord_table "table pv_chord VParam pv_all"
  by unfold_locales (simp_all add: table_defs chord_defs)

interpretation action_keys: chord_table "table av_chord VAction av_all"
  by unfold_locales (simp_all add: table_defs chord_defs)

interpretation peek_keys: chord_table "table kv_chord VBrowserPeek kv_all"
  by unfold_locales (simp_all add: table_defs chord_defs)

interpretation identity_keys: chord_table "table iv_chord VIdentity iv_all"
  by unfold_locales (simp_all add: table_defs chord_defs)

interpretation access_keys: chord_table "table xv_chord VAccess xv_all"
  by unfold_locales (simp_all add: table_defs chord_defs)

interpretation detail_keys: chord_table "table dv_chord VBulletinsDetail dv_all"
  by unfold_locales (simp_all add: table_defs chord_defs)

interpretation bulletins_keys: chord_table "table bl_chord VBulletins bl_all"
  by unfold_locales (simp_all add: table_defs chord_defs)

interpretation events_keys: chord_table
  "(wv_chord WvEditPredicate, VEventsWatch WvEditPredicate) # table ev_chord VEvents ev_all"
  by unfold_locales (simp_all add: table_defs chord_defs)

interpretation tracer_keys: chord_table "table tv_chord VTracer tv_all"
  by unfold_locales (simp_all add: table_defs chord_defs)

interpretation overview_keys: chord_table "table ov_chord VOverview ov_all"
  by unfold_locales (simp_all add: table_defs chord_defs)

interpretation listing_keys: chord_table listing_table
  by unfold_locales (simp_all add: listing_table_def focus_table_def fa_all_def fa_chord_def qv_all_def
    qv_chord_def aa_chord_def cv_chord_def chord_defs)

section \<open>Modals\<close>

definition gate_open :: "input_ctx \<Rightarrow> gate \<Rightarrow> bool" where
  "gate_open ctx g \<longleftrightarrow> g_active g ctx \<and> ic_tab ctx = g_view g"

lemma try_dispatch_closed [simp]: "\<not> gate_open ctx g \<Longrightarrow> try_dispatch ctx k g = None"
  by (auto simp: try_dispatch_def gate_open_def)

lemma first_gate:
  "first_some (try_dispatch ctx k) gs = Option.bind (find (gate_open ctx) gs) (try_dispatch ctx k)"
proof (induction gs)
  case (Cons g gs)
  then show ?case
    by (cases "gate_open ctx g") (auto simp: try_dispatch_def gate_open_def split: option.split)
qed simp

lemma translate_gate:
  assumes "find (gate_open ctx) gates = Some g"
  shows "translate key ctx = (let k = normalize_key key in
     if quits k then IeApp AaQuit
     else case lookup (g_verbs g) k of
         Some v \<Rightarrow> IeView v
       | None \<Rightarrow> or_unmapped (lookup (focus_table (g_passthrough g)) k))"
proof -
  have "gate_open ctx g" using assms by (metis find_Some_iff)
  then show ?thesis
    by (simp add: translate_def first_gate assms try_dispatch_def gate_open_def Let_def split: option.split)
qed

lemma lookup_in: "lookup t k = Some e \<Longrightarrow> e \<in> snd ` set t"
  by (auto simp: lookup_def find_Some_iff intro!: rev_image_eqI nth_mem)

lemma gate_keys:
  assumes "g \<in> set gates" and "(c, v) \<in> set (g_verbs g)"
  shows "lookup (g_verbs g) (pressed c) = Some v \<and> normalize_key (pressed c) = pressed c \<and> \<not> quits (pressed c)"
proof -
  from assms(1) consider "g = content_gate" | "g = reporting_gate" | "g = version_gate" | "g = param_gate"
    | "g = action_gate" | "g = peek_gate" | "g = identity_gate" | "g = access_gate" | "g = detail_gate"
    by (auto simp: gates_def)
  then show ?thesis
  proof cases
    case 1 then show ?thesis using assms(2) content_keys.bound [of c v] by (simp add: content_gate_def)
  next
    case 2 then show ?thesis using assms(2) reporting_keys.bound [of c v] by (simp add: reporting_gate_def)
  next
    case 3 then show ?thesis using assms(2) version_keys.bound [of c v] by (simp add: version_gate_def)
  next
    case 4 then show ?thesis using assms(2) param_keys.bound [of c v] by (simp add: param_gate_def)
  next
    case 5 then show ?thesis using assms(2) action_keys.bound [of c v] by (simp add: action_gate_def)
  next
    case 6 then show ?thesis using assms(2) peek_keys.bound [of c v] by (simp add: peek_gate_def)
  next
    case 7 then show ?thesis using assms(2) identity_keys.bound [of c v] by (simp add: identity_gate_def)
  next
    case 8 then show ?thesis using assms(2) access_keys.bound [of c v] by (simp add: access_gate_def)
  next
    case 9 then show ?thesis using assms(2) detail_keys.bound [of c v] by (simp add: detail_gate_def)
  qed
qed

text \<open>
  C8: an open modal owns the keyboard of its tab: every verb of its table is reached by its own
  chord, and any key yields a verb of that table, a focus action it lets through, quit, or
  nothing. No key reaches the tab behind it.
\<close>

theorem modal_owns_keys:
  assumes "find (gate_open ctx) gates = Some g"
  shows "{(c, v). (c, v) \<in> set (g_verbs g) \<and> translate (pressed c) ctx \<noteq> IeView v} = {}
    \<and> translate key ctx \<in> {IeApp AaQuit, IeUnmapped} \<union> IeView ` snd ` set (g_verbs g)
        \<union> IeFocus ` set (g_passthrough g)"
proof
  have g: "g \<in> set gates" using assms by (auto simp: find_Some_iff)
  show "{(c, v). (c, v) \<in> set (g_verbs g) \<and> translate (pressed c) ctx \<noteq> IeView v} = {}"
    using gate_keys [OF g] by (auto simp: translate_gate [OF assms] Let_def)
  let ?k = "normalize_key key"
  show "translate key ctx \<in> {IeApp AaQuit, IeUnmapped} \<union> IeView ` snd ` set (g_verbs g)
        \<union> IeFocus ` set (g_passthrough g)"
  proof (cases "lookup (g_verbs g) ?k")
    case None
    then show ?thesis
      using lookup_in [of "focus_table (g_passthrough g)" ?k]
      by (auto simp: translate_gate [OF assms] Let_def or_unmapped_def focus_table_def split: option.split)
  next
    case (Some v)
    with lookup_in [OF Some] show ?thesis by (auto simp: translate_gate [OF assms] Let_def)
  qed
qed

definition plain_ctx :: "view_id \<Rightarrow> input_ctx" where
  "plain_ctx tab = \<lparr>ic_tab = tab, ic_app_modal = False, ic_content_modal = False, ic_reporting_modal = False,
     ic_version_modal = False, ic_param_modal = False, ic_action_modal = False, ic_peek_modal = False,
     ic_access_modal = False, ic_identity_modal = False, ic_detail_modal = False, ic_listing_focused = False,
     ic_watch = False, ic_enabled = (\<lambda>_. True)\<rparr>"

lemma modal_owns_keys_witness:
  "translate (pressed (xv_chord XvDrillIdentity)) ((plain_ctx Browser)\<lparr>ic_access_modal := True\<rparr>)
     = IeView (VAccess XvDrillIdentity)"
proof -
  let ?ctx = "(plain_ctx Browser)\<lparr>ic_access_modal := True\<rparr>"
  have g: "find (gate_open ?ctx) gates = Some access_gate"
    by (simp add: gates_def gate_open_def plain_ctx_def content_gate_def reporting_gate_def version_gate_def
        param_gate_def action_gate_def peek_gate_def identity_gate_def access_gate_def)
  have "(xv_chord XvDrillIdentity, VAccess XvDrillIdentity) \<in> set (g_verbs access_gate)"
    by (simp add: access_gate_def table_def xv_all_def)
  with modal_owns_keys [OF g] show ?thesis by blast
qed

section \<open>Quitting and tabs\<close>

lemma lookup_None: "lookup t k = None \<longleftrightarrow> list_all (\<lambda>c. \<not> chord_matches c k) (map fst t)"
  by (auto simp: lookup_def find_None_iff list_all_iff)

lemma chord_matches_simps:
  "chord_matches (chord_simple x) k \<longleftrightarrow> ke_code k = x \<and> ke_mods k = {}"
  "chord_matches (chord_shift x) k \<longleftrightarrow> ke_code k = x \<and> ke_mods k = {MShift}"
  by (auto simp: chord_matches_def chord_simple_def chord_shift_def)

lemma framework_chords:
  "map fst framework_table =
     map chord_simple [KUp, KDown, KLeft, KRight, KPageUp, KPageDown, KHome, KEnd, KEnter, KEsc, KTab, KBackTab]
     @ [chord_shift KLeft, chord_shift KRight] @ map (\<lambda>n. chord_simple (KF n)) [1, 2, 3, 4, 5]
     @ [chord_simple (KChar ''q''), chord_simple (KChar ''?''), chord_shift (KChar ''K''), chord_shift (KChar ''F''),
        chord_simple (KChar ''g''), chord_simple (KChar ''v''), chord_simple (KChar ''x'')]"
  by (simp add: framework_table_def focus_table_def fa_all_def fa_chord_def ha_all_def ha_chord_def
      ta_all_def ta_chord_def aa_all_def aa_chord_def)

lemma framework_no_quit: "quits k \<Longrightarrow> lookup framework_table k = None"
  unfolding lookup_None framework_chords by (auto simp: chord_matches_simps quits_def)

text \<open>Ctrl+C, Ctrl+q and Ctrl+Q quit in every state of the application, whatever is open.\<close>

theorem quit_always_works:
  assumes "ke_code key \<in> {KChar ''c'', KChar ''q'', KChar ''Q''}" and "MControl \<in> ke_mods key"
  shows "translate key ctx = IeApp AaQuit"
proof -
  have norm: "normalize_key key = key" and q: "quits key"
    using assms by (auto simp: normalize_key_def quits_def)
  show ?thesis
  proof (cases "find (gate_open ctx) gates")
    case None
    then show ?thesis
      using q framework_no_quit [OF q] by (simp add: translate_def norm first_gate Let_def)
  next
    case (Some g)
    then show ?thesis using q by (simp add: translate_gate norm Let_def)
  qed
qed

lemma quit_always_works_witness:
  "translate \<lparr>ke_code = KChar ''c'', ke_mods = {MControl, MShift}\<rparr> ((plain_ctx Tracer)\<lparr>ic_content_modal := True\<rparr>)
     = IeApp AaQuit"
  by (rule quit_always_works) simp_all

text \<open>The framework binds no character but these seven, so the other ones are free for the views.\<close>

definition free_key :: "key_code \<Rightarrow> bool" where
  "free_key k \<longleftrightarrow> is_char k \<and> k \<notin> {KChar ''q'', KChar ''?'', KChar ''K'', KChar ''F'', KChar ''g'', KChar ''v'', KChar ''x''}"

lemma free_key_lookup: "free_key (ke_code k) \<Longrightarrow> lookup framework_table k = None"
proof -
  assume free: "free_key (ke_code k)"
  then obtain c where c: "ke_code k = KChar c" by (cases "ke_code k") (auto simp: free_key_def is_char_def)
  then have "c \<noteq> ''q''" "c \<noteq> ''?''" "c \<noteq> ''K''" "c \<noteq> ''F''" "c \<noteq> ''g''" "c \<noteq> ''v''" "c \<noteq> ''x''"
    using free by (simp_all add: free_key_def)
  with c show ?thesis unfolding lookup_None framework_chords by (simp add: chord_matches_simps)
qed

lemma view_keys_free:
  "list_all (\<lambda>(c, v). free_key (ch_key c)) (table bl_chord VBulletins bl_all)"
  "list_all (\<lambda>(c, v). free_key (ch_key c)) (table ev_chord VEvents ev_all)"
  "list_all (\<lambda>(c, v). free_key (ch_key c)) (table tv_chord VTracer tv_all)"
  "list_all (\<lambda>(c, v). free_key (ch_key c)) (table ov_chord VOverview ov_all)"
  "list_all (\<lambda>(c, v). free_key (ch_key c)) (table bw_chord VBrowser bw_all)"
  by code_simp+

lemma translate_tab:
  assumes "find (gate_open ctx) gates = None" and "\<not> ic_listing_focused ctx"
    and "free_key (ke_code k)" and "\<not> quits k" and "lookup (view_table ctx) k = Some v"
  shows "translate k ctx = IeView v"
proof -
  have "ke_code k \<noteq> KBackTab" using assms(3) by (auto simp: free_key_def is_char_def)
  then have "normalize_key k = k" by (simp add: normalize_key_def)
  then show ?thesis
    using assms by (simp add: translate_def first_gate free_key_lookup or_unmapped_def Let_def)
qed

lemma lookup_filtered:
  "lookup (table ch wrap (filter P vs)) k = map_option wrap (find (\<lambda>v. P v \<and> chord_matches (ch v) k) vs)"
  by (induction vs) (auto simp: lookup_def table_def)

lemma pressed_matches:
  "chord_matches (chord_simple x) (pressed (chord_simple y)) \<longleftrightarrow> x = y"
  "chord_matches (chord_shift x) (pressed (chord_shift y)) \<longleftrightarrow> x = y"
  "chord_matches (chord_simple x) (pressed (chord_shift y)) \<longleftrightarrow> False"
  "chord_matches (chord_shift x) (pressed (chord_simple y)) \<longleftrightarrow> False"
  by (auto simp: chord_matches_def chord_defs)

lemma browser_lookup:
  assumes "v \<in> set bw_all" and "en v" and "\<not> (en BwOpenProperties \<and> en BwOpenParameterContext)"
  shows "lookup (table bw_chord VBrowser (filter en bw_all)) (pressed (bw_chord v)) = Some (VBrowser v)"
proof -
  from assms(1) consider "v = BwCommon CvRefresh" | "v = BwCommon CvCopy" | "v = BwOpenProperties"
    | "v = BwOpenParameterContext" | "v = BwOpenActionHistory" | "v = BwShowVersionControl" | "v = BwWatch" | "v = BwOpenAccess"
    by (auto simp: bw_all_def)
  then show ?thesis
    using assms(2,3) unfolding lookup_filtered
    by cases (simp_all add: bw_all_def bw_chord_def cv_chord_def pressed_matches)
qed

lemma watch_lookup:
  assumes "v \<in> set wv_all" and "v \<notin> {WvCommitPredicate, WvUnfocusPredicate, WvCommon CvClose}"
  shows "free_key (ch_key (wv_chord v)) \<and>
    lookup (table wv_chord VEventsWatch wv_all) (pressed (wv_chord v)) = Some (VEventsWatch v)"
proof -
  have keys: "lookup (table wv_chord VEventsWatch wv_all) k
      = map_option VEventsWatch (find (\<lambda>v. chord_matches (wv_chord v) k) wv_all)" for k
    using lookup_filtered [of wv_chord VEventsWatch "\<lambda>_. True" wv_all] by simp
  from assms consider "v = WvEditPredicate" | "v = WvPause" | "v = WvClearBuffer" | "v = WvCommon CvOpenSearch"
    | "v = WvCommon CvSearchNext" | "v = WvCommon CvSearchPrev" | "v = WvCommon CvRefresh" | "v = WvCommon CvCopy"
    by (auto simp: wv_all_def)
  then show ?thesis
    unfolding keys
    by cases (simp_all add: wv_all_def wv_chord_def cv_chord_def pressed_matches free_key_def is_char_def
      chord_simple_def [THEN arg_cong [of _ _ ch_key], simplified] chord_shift_def [THEN arg_cong [of _ _ ch_key], simplified])
qed

lemma framework_enter_esc:
  "lookup framework_table (pressed (chord_simple KEnter)) = Some (IeFocus FaDescend)"
  "lookup framework_table (pressed (chord_simple KEsc)) = Some (IeFocus FaAscend)"
  by (simp_all add: framework_table_def focus_table_def fa_all_def fa_chord_def lookup_def chord_matches_def chord_defs)

text \<open>
  With no modal open and the listing unfocused, every verb of the current tab that is
  enabled is reached by its own chord, as long as properties and parameter context, which
  share a chord, are not both enabled. The only exceptions are Enter and Esc of the watch
  table, which the focus actions take first.
\<close>

theorem tab_verbs_reachable:
  assumes "find (gate_open ctx) gates = None" and "\<not> ic_listing_focused ctx"
    and "(c, v) \<in> set (view_table ctx)"
    and "\<not> (ic_enabled ctx BwOpenProperties \<and> ic_enabled ctx BwOpenParameterContext)"
  shows "translate (pressed c) ctx =
    (if v = VEventsWatch WvCommitPredicate then IeFocus FaDescend
     else if v = VEventsWatch WvUnfocusPredicate \<or> v = VEventsWatch (WvCommon CvClose) then IeFocus FaAscend
     else IeView v)"
proof -
  have go: "translate (pressed c) ctx = IeView v"
    if "free_key (ch_key c)" "\<not> quits (pressed c)" "lookup (view_table ctx) (pressed c) = Some v"
    using translate_tab [OF assms(1,2)] that by (simp add: pressed_def)
  show ?thesis
  proof (cases "ic_tab ctx")
    case Overview
    then show ?thesis
      using go assms(3) overview_keys.bound [of c v] view_keys_free(4)
      by (auto simp: view_table_def list_all_iff table_def)
  next
    case Bulletins
    then show ?thesis
      using go assms(3) bulletins_keys.bound [of c v] view_keys_free(1)
      by (auto simp: view_table_def list_all_iff table_def)
  next
    case Tracer
    then show ?thesis
      using go assms(3) tracer_keys.bound [of c v] view_keys_free(3)
      by (auto simp: view_table_def list_all_iff table_def)
  next
    case Browser
    then obtain b where b: "b \<in> set bw_all" "ic_enabled ctx b" "c = bw_chord b" "v = VBrowser b"
      using assms(3) by (auto simp: view_table_def table_def)
    then have "free_key (ch_key c)" using view_keys_free(5) by (auto simp: list_all_iff table_def)
    moreover have "\<not> quits (pressed c)"
      using b(1,3) by (auto simp: bw_all_def bw_chord_def cv_chord_def chord_defs)
    ultimately show ?thesis
      using go browser_lookup [OF b(1,2) assms(4)] b Browser by (simp add: view_table_def)
  next
    case Events
    show ?thesis
    proof (cases "ic_watch ctx")
      case False
      have "free_key (ch_key (wv_chord WvEditPredicate))"
        by (simp add: wv_chord_def chord_defs free_key_def is_char_def)
      then have "free_key (ch_key c)"
        using assms(3) Events False view_keys_free(2) by (auto simp: view_table_def list_all_iff)
      moreover have "v \<notin> {VEventsWatch WvCommitPredicate, VEventsWatch WvUnfocusPredicate, VEventsWatch (WvCommon CvClose)}"
        using assms(3) Events False by (auto simp: view_table_def table_def)
      ultimately show ?thesis
        using go assms(3) events_keys.bound [of c v] Events False by (simp add: view_table_def)
    next
      case True
      then obtain w where w: "w \<in> set wv_all" "c = wv_chord w" "v = VEventsWatch w"
        using assms(3) Events by (auto simp: view_table_def table_def)
      have norm: "normalize_key (pressed c) = pressed c" and noquit: "\<not> quits (pressed c)"
        using w(1,2) by (auto simp: wv_all_def wv_chord_def cv_chord_def chord_defs)
      show ?thesis
      proof (cases "w \<in> {WvCommitPredicate, WvUnfocusPredicate, WvCommon CvClose}")
        case True
        have "c = (if w = WvCommitPredicate then chord_simple KEnter else chord_simple KEsc)"
          using True w(2) by (auto simp: wv_chord_def cv_chord_def)
        then show ?thesis
          using True w(3) norm framework_enter_esc assms(1,2)
          by (auto simp: translate_def first_gate Let_def)
      next
        case other: False
        with go watch_lookup [OF w(1) other] w Events True noquit show ?thesis by (simp add: view_table_def)
      qed
    qed
  qed
qed

lemma tab_verbs_reachable_witness:
  "translate (pressed (ev_chord EvRaiseCap)) ((plain_ctx Events)\<lparr>ic_enabled := (\<lambda>_. False)\<rparr>) = IeView (VEvents EvRaiseCap)"
proof -
  let ?ctx = "(plain_ctx Events)\<lparr>ic_enabled := (\<lambda>_. False)\<rparr>"
  have none: "find (gate_open ?ctx) gates = None"
    by (simp add: gates_def gate_open_def plain_ctx_def content_gate_def reporting_gate_def version_gate_def
        param_gate_def action_gate_def peek_gate_def identity_gate_def access_gate_def detail_gate_def)
  have "(ev_chord EvRaiseCap, VEvents EvRaiseCap) \<in> set (view_table ?ctx)"
    by (simp add: view_table_def plain_ctx_def table_def ev_all_def)
  from tab_verbs_reachable [OF none _ this] show ?thesis by (simp add: plain_ctx_def)
qed

section \<open>Hints\<close>

definition unhinted :: "('v \<Rightarrow> bool) \<Rightarrow> ('v \<Rightarrow> string) \<Rightarrow> 'v list \<Rightarrow> 'v list" where
  "unhinted bar hint vs = filter (\<lambda>v. bar v \<and> hint v = []) vs"

text \<open>
  No verb is shown without a text: in every modal, each verb the footer advertises has a
  short hint.
\<close>

theorem footers_have_hints:
  "unhinted nv_hint_bar nv_hint nv_all = [] \<and> unhinted rv_hint_bar rv_hint rv_all = []
   \<and> unhinted vv_hint_bar vv_hint vv_all = [] \<and> unhinted pv_hint_bar pv_hint pv_all = []
   \<and> unhinted av_hint_bar av_hint av_all = [] \<and> unhinted kv_hint_bar kv_hint kv_all = []
   \<and> unhinted xv_hint_bar xv_hint xv_all = [] \<and> unhinted iv_hint_bar iv_hint iv_all = []
   \<and> unhinted dv_hint_bar dv_hint dv_all = []"
  by (simp add: unhinted_def nv_hint_bar_def nv_hint_def nv_all_def rv_hint_bar_def rv_hint_def rv_all_def
      vv_hint_bar_def vv_hint_def vv_all_def pv_hint_bar_def pv_hint_def pv_all_def av_hint_bar_def av_hint_def
      av_all_def kv_hint_bar_def kv_hint_def kv_all_def xv_hint_bar_def xv_hint_def xv_all_def iv_hint_bar_def
      iv_hint_def iv_all_def dv_hint_bar_def dv_hint_def dv_all_def cv_hint_def)

end
