(* ===== verification/Browser_Input.thy ===== *)
theory Browser_Input
  imports Browser_Modals Browser_Events Key_Map
begin

text \<open>
  The keyboard of the Browser tab: typed text, the verbs of the queue listing, of the peek modal
  and of the tab itself, and the whole path of a key from text input through the key map to its
  handler (\<open>BrowserHandler\<close> in \<open>src/src/app/state/browser/mod.rs\<close>, \<open>handle_key\<close> in
  \<open>src/src/app/state/mod.rs\<close>).

  No application modal is open and no banner shown. The clipboard and the status line are left
  out; what a handler asks of the application loop is a \<open>browser_effect\<close>.
\<close>

record browser_input =
  bi_pane :: browser_pane
  bi_modals :: modals

datatype browser_effect =
    NoEffect | Redraw | CopyText string | ForceRefresh | OpenPropertiesModal nat | WatchComponent string
  | FetchVersion string | FetchParams string | FetchActions string | FetchAccess string node_kind
  | RefreshListing string | FetchPeek string string "string option" | TraceFlowfile string

section \<open>The queue listing\<close>

definition map_listing :: "(queue_listing \<Rightarrow> queue_listing) \<Rightarrow> browser_pane \<Rightarrow> browser_pane" where
  "map_listing f s = s\<lparr>bp_listing := map_option f (bp_listing s)\<rparr>"

definition selected_flowfile :: "(string \<Rightarrow> string) \<Rightarrow> browser_pane \<Rightarrow> queue_listing_row option" where
  "selected_flowfile lc s = Option.bind (bp_listing s) (\<lambda>l.
     Option.bind (get_at (visible_indices lc l) (ql_selected l)) (get_at (ql_rows l)))"

definition peek_of :: "browser_pane \<Rightarrow> peek_state option" where
  "peek_of s = Option.bind (bp_listing s) ql_peek"

definition close_listing :: "(string \<Rightarrow> string) \<Rightarrow> browser_pane \<Rightarrow> browser_pane \<times> browser_effect" where
  "close_listing lc s =
     (case bp_listing s of
        None \<Rightarrow> (s, NoEffect)
      | Some l \<Rightarrow>
          if ql_filter_prompt l \<noteq> None then (map_listing cancel_filter_prompt s, Redraw)
          else if ql_filter l \<noteq> None then (map_listing (set_filter lc None) s, Redraw)
          else if bp_listing_focused s then (s\<lparr>bp_listing_focused := False\<rparr>, Redraw)
          else (s, NoEffect))"

fun queue_step :: "(string \<Rightarrow> string) \<Rightarrow> queue_verb \<Rightarrow> browser_pane \<Rightarrow> browser_pane \<times> browser_effect" where
  "queue_step lc (QvCommon CvRefresh) s =
     (case bp_listing s of
        None \<Rightarrow> (s, NoEffect)
      | Some l \<Rightarrow> (s\<lparr>bp_listing := Some (refresh_listing l)\<rparr>, RefreshListing (ql_queue_id l)))"
| "queue_step lc QvFocusListing s = (s\<lparr>bp_listing_focused := False\<rparr>, Redraw)"
| "queue_step lc QvPeekAttributes s =
     (let t = map_listing (open_queue_listing_peek_modal lc) s in
      case peek_of t of
        None \<Rightarrow> (t, NoEffect)
      | Some p \<Rightarrow> (t, FetchPeek (pk_queue_id p) (pk_uuid p) (pk_cluster_node_id p)))"
| "queue_step lc QvTraceLineage s =
     (s, case selected_flowfile lc s of None \<Rightarrow> NoEffect | Some row \<Rightarrow> TraceFlowfile (qr_uuid row))"
| "queue_step lc QvCopyUuid s =
     (s, case selected_flowfile lc s of None \<Rightarrow> NoEffect | Some row \<Rightarrow> CopyText (qr_uuid row))"
| "queue_step lc QvFilter s = (map_listing open_filter_prompt s, Redraw)"
| "queue_step lc (QvCommon CvClose) s = close_listing lc s"
| "queue_step lc (QvCommon _) s = (s, NoEffect)"

fun peek_step :: "peek_verb \<Rightarrow> browser_pane \<Rightarrow> browser_pane" where
  "peek_step (KvCommon CvClose) s =
     (case peek_of s of
        None \<Rightarrow> s
      | Some p \<Rightarrow> if pk_search p \<noteq> None then map_listing (map_peek peek_close_search) s
                  else map_listing close_queue_listing_peek_modal s)"
| "peek_step (KvCommon CvOpenSearch) s = map_listing (map_peek peek_open_search) s"
| "peek_step (KvCommon CvSearchNext) s = map_listing (map_peek cycle_search_next) s"
| "peek_step (KvCommon CvSearchPrev) s = map_listing (map_peek cycle_search_prev) s"
| "peek_step (KvCommon CvRefresh) s = s"
| "peek_step (KvCommon CvCopy) s = s"
| "peek_step KvCopyAsJson s = s"

section \<open>The verbs of the tab\<close>

text \<open>\<open>BrowserVerb::enabled\<close>.\<close>

fun browser_enabled :: "cluster_snapshot \<Rightarrow> browser_input \<Rightarrow> browser_verb \<Rightarrow> bool" where
  "browser_enabled snap s BwOpenProperties =
     (case selected_node (bp_tree (bi_pane s)) of None \<Rightarrow> False
      | Some n \<Rightarrow> tn_kind n \<in> {Processor, ControllerService})"
| "browser_enabled snap s BwOpenParameterContext =
     (case selected_node (bp_tree (bi_pane s)) of None \<Rightarrow> False
      | Some n \<Rightarrow> tn_kind n = ProcessGroup \<and> tn_parameter_context_ref n \<noteq> None)"
| "browser_enabled snap s BwOpenActionHistory =
     (case selected_node (bp_tree (bi_pane s)) of None \<Rightarrow> False | Some n \<Rightarrow> \<not> is_folder (tn_kind n))"
| "browser_enabled snap s BwShowVersionControl =
     (case selected_node (bp_tree (bi_pane s)) of None \<Rightarrow> False
      | Some n \<Rightarrow> tn_kind n = ProcessGroup \<and> version_control_for snap (tn_id n) \<noteq> None)"
| "browser_enabled snap s BwWatch = (selected_component_id (bp_tree (bi_pane s)) \<noteq> None)"
| "browser_enabled snap s BwOpenAccess =
     (selected_component_id (bp_tree (bi_pane s)) \<noteq> None \<and> bm_audit (bi_modals s) \<noteq> AuditUnsupported)"
| "browser_enabled snap s (BwCommon _) = True"

text \<open>
  Copy takes the value of the focused row, or the id of the node in the tree; \<open>None\<close> when the
  source indexes out of range.
\<close>

definition copy_effect :: "bulletin_snapshot list \<Rightarrow> browser_tree \<Rightarrow> browser_effect option" where
  "copy_effect ring t =
     (case bt_detail_focus t of
        FocusSection _ _ _ \<Rightarrow>
          map_option (\<lambda>v. case v of None \<Rightarrow> NoEffect | Some value \<Rightarrow> CopyText value) (focused_row_copy_value ring t)
      | FocusTree \<Rightarrow>
          (case selected_arena t of
             None \<Rightarrow> Some NoEffect
           | Some i \<Rightarrow> map_option (\<lambda>n. CopyText (tn_id n)) (get_at (bt_nodes t) i)))"

definition of_selected :: "(tree_node \<Rightarrow> browser_effect) \<Rightarrow> browser_tree \<Rightarrow> browser_effect" where
  "of_selected f t = (case selected_node t of None \<Rightarrow> NoEffect | Some n \<Rightarrow> f n)"

definition opens :: "(browser_tree \<Rightarrow> modals \<Rightarrow> modals) \<Rightarrow> browser_input \<Rightarrow> browser_input" where
  "opens f s = s\<lparr>bi_modals := f (bp_tree (bi_pane s)) (bi_modals s)\<rparr>"

fun browser_verb_step ::
  "bulletin_snapshot list \<Rightarrow> cluster_snapshot \<Rightarrow> browser_verb \<Rightarrow> browser_input
   \<Rightarrow> (browser_input \<times> browser_effect) option" where
  "browser_verb_step ring snap (BwCommon CvRefresh) s = Some (s, ForceRefresh)"
| "browser_verb_step ring snap (BwCommon CvCopy) s = map_option (Pair s) (copy_effect ring (bp_tree (bi_pane s)))"
| "browser_verb_step ring snap (BwCommon _) s = Some (s, Redraw)"
| "browser_verb_step ring snap BwOpenProperties s = Some (s,
     case selected_arena (bp_tree (bi_pane s)) of
       None \<Rightarrow> NoEffect
     | Some i \<Rightarrow> if browser_enabled snap s BwOpenProperties \<and> bt_details (bp_tree (bi_pane s)) i \<noteq> None
                 then OpenPropertiesModal i else NoEffect)"
| "browser_verb_step ring snap BwOpenParameterContext s = Some (opens open_parameter_context s,
     of_selected (\<lambda>n. if browser_enabled snap s BwOpenParameterContext
                        \<and> parameter_context_ref_for (tn_id n) (bp_tree (bi_pane s)) \<noteq> None
                      then FetchParams (tn_id n) else NoEffect) (bp_tree (bi_pane s)))"
| "browser_verb_step ring snap BwOpenActionHistory s = Some (opens open_action_history s,
     of_selected (\<lambda>n. if browser_enabled snap s BwOpenActionHistory then FetchActions (tn_id n) else NoEffect)
       (bp_tree (bi_pane s)))"
| "browser_verb_step ring snap BwShowVersionControl s = Some (opens (show_version_control snap) s,
     of_selected (\<lambda>n. if browser_enabled snap s BwShowVersionControl then FetchVersion (tn_id n) else NoEffect)
       (bp_tree (bi_pane s)))"
| "browser_verb_step ring snap BwWatch s = Some (s,
     case selected_component_id (bp_tree (bi_pane s)) of None \<Rightarrow> NoEffect | Some i \<Rightarrow> WatchComponent i)"
| "browser_verb_step ring snap BwOpenAccess s = Some (opens open_access s,
     of_selected (\<lambda>n. case selected_component_id (bp_tree (bi_pane s)) of
         None \<Rightarrow> NoEffect | Some i \<Rightarrow> FetchAccess i (tn_kind n)) (bp_tree (bi_pane s)))"

section \<open>Typed text\<close>

definition typing :: "search_state option \<Rightarrow> bool" where
  "typing q = (case q of None \<Rightarrow> False | Some q \<Rightarrow> ss_input_active q)"

definition is_text_input_focused :: "browser_input \<Rightarrow> bool" where
  "is_text_input_focused s \<longleftrightarrow>
     typing (sh_search version_host (bi_modals s)) \<or> typing (sh_search param_host (bi_modals s))
   \<or> typing (sh_search action_host (bi_modals s)) \<or> typing (sh_search access_host (bi_modals s))
   \<or> typing (sh_search identity_host (bi_modals s))
   \<or> typing (Option.bind (peek_of (bi_pane s)) pk_search)
   \<or> Option.bind (bp_listing (bi_pane s)) ql_filter_prompt \<noteq> None"

text \<open>The four keys every text input takes; the others are left to the key map.\<close>

fun edit_of :: "key_event \<Rightarrow> search_cmd option" where
  "edit_of k = (case ke_code k of
       KEsc \<Rightarrow> Some SearchCancel
     | KEnter \<Rightarrow> Some SearchCommit
     | KBackspace \<Rightarrow> Some SearchPop
     | KChar ch \<Rightarrow> if MControl \<in> ke_mods k then None else Some (SearchPush ch)
     | _ \<Rightarrow> None)"

fun version_edit :: "search_cmd \<Rightarrow> modals \<Rightarrow> modals option" where
  "version_edit (SearchPush ch) m = version_search_push ch m"
| "version_edit SearchPop m = version_search_pop m"
| "version_edit c m = Some (search_apply version_host m c)"

fun access_edit :: "search_cmd \<Rightarrow> modals \<Rightarrow> modals" where
  "access_edit SearchCommit m = access_search_commit m"
| "access_edit c m = search_apply access_host m c"

fun identity_edit :: "search_cmd \<Rightarrow> modals \<Rightarrow> modals" where
  "identity_edit SearchCommit m = identity_search_commit m"
| "identity_edit c m = search_apply identity_host m c"

fun filter_edit :: "(string \<Rightarrow> string) \<Rightarrow> search_cmd \<Rightarrow> queue_listing \<Rightarrow> queue_listing" where
  "filter_edit lc SearchCancel l = cancel_filter_prompt l"
| "filter_edit lc SearchCommit l = commit_filter_prompt lc l"
| "filter_edit lc SearchPop l = backspace_filter_char l"
| "filter_edit lc (SearchPush ch) l = push_filter_char ch l"
| "filter_edit lc _ l = l"

text \<open>
  The first input that is being typed into takes the edit. \<open>None\<close> is a panic; the flag says
  whether the key was taken.
\<close>

definition handle_text_input ::
  "(string \<Rightarrow> string) \<Rightarrow> key_event \<Rightarrow> browser_input \<Rightarrow> (browser_input \<times> bool) option" where
  "handle_text_input lc k s =
     (let m = bi_modals s;
          to_modals = (\<lambda>e. Some (s\<lparr>bi_modals := e\<rparr>, True));
          to_listing = (\<lambda>f. Some (s\<lparr>bi_pane := map_listing f (bi_pane s)\<rparr>, True))
      in case edit_of k of
           None \<Rightarrow> Some (s, False)
         | Some c \<Rightarrow>
             if typing (sh_search version_host m) then Option.bind (version_edit c m) to_modals
             else if typing (sh_search param_host m) then to_modals (search_apply param_host m c)
             else if typing (sh_search action_host m) then to_modals (search_apply action_host m c)
             else if typing (sh_search access_host m) then to_modals (access_edit c m)
             else if typing (sh_search identity_host m) then to_modals (identity_edit c m)
             else if typing (Option.bind (peek_of (bi_pane s)) pk_search)
             then to_listing (\<lambda>l. search_apply peek_host l c)
             else if Option.bind (bp_listing (bi_pane s)) ql_filter_prompt \<noteq> None
             then to_listing (filter_edit lc c)
             else Some (s, False))"

section \<open>A key\<close>

definition browser_ctx :: "cluster_snapshot \<Rightarrow> browser_input \<Rightarrow> input_ctx" where
  "browser_ctx snap s =
     \<lparr>ic_tab = Browser, ic_app_modal = False, ic_content_modal = False, ic_reporting_modal = False,
      ic_version_modal = (bm_version (bi_modals s) \<noteq> None), ic_param_modal = (bm_param (bi_modals s) \<noteq> None),
      ic_action_modal = (bm_action (bi_modals s) \<noteq> None), ic_peek_modal = (peek_of (bi_pane s) \<noteq> None),
      ic_access_modal = (bm_access (bi_modals s) \<noteq> None), ic_identity_modal = (bm_identity (bi_modals s) \<noteq> None),
      ic_detail_modal = False, ic_listing_focused = bp_listing_focused (bi_pane s), ic_watch = False,
      ic_enabled = browser_enabled snap s\<rparr>"

definition on_modals :: "(modals \<Rightarrow> modals) \<Rightarrow> browser_input \<Rightarrow> browser_input" where
  "on_modals f s = s\<lparr>bi_modals := f (bi_modals s)\<rparr>"

definition on_pane :: "(browser_pane \<Rightarrow> browser_pane) \<Rightarrow> browser_input \<Rightarrow> browser_input" where
  "on_pane f s = s\<lparr>bi_pane := f (bi_pane s)\<rparr>"

fun handle_verb ::
  "(string \<Rightarrow> string) \<Rightarrow> bulletin_snapshot list \<Rightarrow> cluster_snapshot \<Rightarrow> view_verb \<Rightarrow> browser_input
   \<Rightarrow> browser_input option" where
  "handle_verb lc ring snap (VVersion v) s = Some (on_modals (version_step v) s)"
| "handle_verb lc ring snap (VParam v) s = Some (on_modals (param_step (bp_tree (bi_pane s)) v) s)"
| "handle_verb lc ring snap (VAction v) s = Some (on_modals (action_step v) s)"
| "handle_verb lc ring snap (VAccess v) s = Some (on_modals (access_step v) s)"
| "handle_verb lc ring snap (VIdentity v) s = Some (on_modals (identity_step (bp_tree (bi_pane s)) v) s)"
| "handle_verb lc ring snap (VBrowserQueue v) s = Some (on_pane (\<lambda>p. fst (queue_step lc v p)) s)"
| "handle_verb lc ring snap (VBrowserPeek v) s = Some (on_pane (peek_step v) s)"
| "handle_verb lc ring snap (VBrowser v) s = map_option fst (browser_verb_step ring snap v s)"
| "handle_verb lc ring snap _ s = Some s"

text \<open>Quitting, the other tabs, history and the application shortcuts leave the tab as it is.\<close>

definition browser_key ::
  "(string \<Rightarrow> string) \<Rightarrow> nat \<Rightarrow> bulletin_snapshot list \<Rightarrow> cluster_snapshot \<Rightarrow> key_event \<Rightarrow> browser_input
   \<Rightarrow> (browser_input \<times> browser_intent option) option" where
  "browser_key lc cadence ring snap k s =
     (case (if is_text_input_focused s then handle_text_input lc k s else Some (s, False)) of
        None \<Rightarrow> None
      | Some (t, True) \<Rightarrow> Some (t, None)
      | Some (t, False) \<Rightarrow>
          (case translate k (browser_ctx snap s) of
             IeFocus a \<Rightarrow> map_option (\<lambda>(p, r). (s\<lparr>bi_pane := p\<rparr>, Option.bind r ur_intent))
                              (handle_focus lc cadence ring a (bi_pane s))
           | IeView v \<Rightarrow> map_option (\<lambda>t. (t, None)) (handle_verb lc ring snap v s)
           | _ \<Rightarrow> Some (s, None)))"

text \<open>
  The intent of Enter on the parameter-context section, or on a property that refers to a
  parameter, is dispatched on a task of its own and comes back later as
  \<open>OpenParameterContextModalTarget\<close> (\<open>handle_intent_outcome\<close>). The same outcome answers the
  Properties modal and the reporting-tasks modal. Whatever is open by then, it opens the
  parameter modal; a process group without a known binding fails at once.
\<close>

definition pg_name_for :: "string \<Rightarrow> browser_tree \<Rightarrow> string option" where
  "pg_name_for pg_id t =
     find_map (\<lambda>n. if tn_id n = pg_id \<and> tn_kind n = ProcessGroup then Some (tn_name n) else None) (bt_nodes t)"

definition land_parameter_context :: "browser_tree \<Rightarrow> string \<Rightarrow> string option \<Rightarrow> modals \<Rightarrow> modals" where
  "land_parameter_context t pg preselect m =
     (let path = (case pg_name_for pg t of None \<Rightarrow> pg | Some name \<Rightarrow> name);
          opened = m\<lparr>bm_param := Some (param_modal_pending pg path preselect)\<rparr>
      in if parameter_context_ref_for pg t \<noteq> None then opened\<lparr>bm_param_fetch := Some pg\<rparr>
         else param_failed pg ''no bound parameter context found'' opened)"

section \<open>At most one modal\<close>

definition ident_ok :: "modals \<Rightarrow> bool" where
  "ident_ok m \<longleftrightarrow> (bm_identity m \<noteq> None \<longrightarrow> bm_access m \<noteq> None)"

definition open_modals :: "browser_input \<Rightarrow> bool list" where
  "open_modals s = filter (\<lambda>b. b) [bm_version (bi_modals s) \<noteq> None, bm_param (bi_modals s) \<noteq> None,
     bm_action (bi_modals s) \<noteq> None, bm_access (bi_modals s) \<noteq> None, peek_of (bi_pane s) \<noteq> None]"

text \<open>Nothing is open in the first state that is not open in the second.\<close>

definition modals_le :: "modals \<Rightarrow> modals \<Rightarrow> bool" where
  "modals_le m' m \<longleftrightarrow> (bm_version m = None \<longrightarrow> bm_version m' = None) \<and> (bm_param m = None \<longrightarrow> bm_param m' = None)
     \<and> (bm_action m = None \<longrightarrow> bm_action m' = None) \<and> (bm_access m = None \<longrightarrow> bm_access m' = None)
     \<and> (ident_ok m \<longrightarrow> ident_ok m')"

definition peek_le :: "browser_pane \<Rightarrow> browser_pane \<Rightarrow> bool" where
  "peek_le p' p \<longleftrightarrow> (peek_of p = None \<longrightarrow> peek_of p' = None)"

definition one_modal :: "browser_input \<Rightarrow> bool" where
  "one_modal s \<longleftrightarrow> length (open_modals s) \<le> 1 \<and> ident_ok (bi_modals s)"

text \<open>The same, not counting the parameter modal.\<close>

definition own_modals :: "browser_input \<Rightarrow> bool list" where
  "own_modals s = filter (\<lambda>b. b) [bm_version (bi_modals s) \<noteq> None, bm_action (bi_modals s) \<noteq> None,
     bm_access (bi_modals s) \<noteq> None, peek_of (bi_pane s) \<noteq> None]"

definition one_own_modal :: "browser_input \<Rightarrow> bool" where
  "one_own_modal s \<longleftrightarrow> length (own_modals s) \<le> 1 \<and> ident_ok (bi_modals s)"

lemma modals_le_refl [simp]: "modals_le m m"
  by (simp add: modals_le_def)

lemma peek_le_refl [simp]: "peek_le p p"
  by (simp add: peek_le_def)

lemma one_modal_le:
  "modals_le (bi_modals t) (bi_modals s) \<Longrightarrow> peek_le (bi_pane t) (bi_pane s) \<Longrightarrow> one_modal s \<Longrightarrow> one_modal t"
  by (auto simp: one_modal_def open_modals_def modals_le_def peek_le_def split: if_splits)

lemma one_own_modal_le:
  "modals_le (bi_modals t) (bi_modals s) \<Longrightarrow> peek_le (bi_pane t) (bi_pane s) \<Longrightarrow> one_own_modal s \<Longrightarrow> one_own_modal t"
  by (auto simp: one_own_modal_def own_modals_def modals_le_def peek_le_def split: if_splits)

lemma one_modal_own: "one_modal s \<Longrightarrow> one_own_modal s"
  by (auto simp: one_modal_def one_own_modal_def own_modals_def open_modals_def split: if_splits)

subsection \<open>Searching opens nothing\<close>

lemma set_modals_le:
  "modals_le (sh_set version_host q m) m" "modals_le (sh_set param_host q m) m" "modals_le (sh_set action_host q m) m"
  "modals_le (sh_set access_host q m) m" "modals_le (sh_set identity_host q m) m"
  by (auto simp: modal_host_defs map_modal_defs modals_le_def ident_ok_def)

lemma search_modals_le:
  assumes "\<And>q m. modals_le (sh_set H q m) m"
  shows "modals_le (host_open H m) m" "modals_le (host_push H ch m) m" "modals_le (host_pop H m) m"
    "modals_le (host_commit H m) m" "modals_le (host_cancel H m) m" "modals_le (host_cycle_next H m) m"
    "modals_le (host_cycle_prev H m) m" "modals_le (search_apply H m c) m"
proof -
  show all: "modals_le (host_open H m) m" "modals_le (host_push H ch m) m" "modals_le (host_pop H m) m"
    "modals_le (host_commit H m) m" "modals_le (host_cancel H m) m" "modals_le (host_cycle_next H m) m"
    "modals_le (host_cycle_prev H m) m" for ch
    using assms by (simp_all add: host_defs Let_def split: option.split)
  show "modals_le (search_apply H m c) m" by (cases c) (simp_all add: all)
qed

lemmas host_le = search_modals_le [OF set_modals_le(1)] search_modals_le [OF set_modals_le(2)]
  search_modals_le [OF set_modals_le(3)] search_modals_le [OF set_modals_le(4)] search_modals_le [OF set_modals_le(5)]

lemma map_modals_le [simp]:
  "modals_le (map_version f1 m) m" "modals_le (map_param f2 m) m" "modals_le (map_action f3 m) m"
  "modals_le (map_access f4 m) m" "modals_le (map_identity f5 m) m"
  by (auto simp: map_modal_defs modals_le_def ident_ok_def)

lemma modals_le_trans: "modals_le a b \<Longrightarrow> modals_le b c \<Longrightarrow> modals_le a c"
  by (simp add: modals_le_def)

lemma land_le [simp]: "modals_le (land_access m) m" "modals_le (land_identity m) m"
  by (simp_all add: land_access_def land_identity_def split: option.split)

lemma landed_search_le:
  "modals_le (access_search_commit m) m" "modals_le (access_search_next m) m" "modals_le (access_search_prev m) m"
  "modals_le (identity_search_commit m) m" "modals_le (identity_search_next m) m" "modals_le (identity_search_prev m) m"
  by (auto simp: access_search_commit_def access_search_next_def access_search_prev_def
      identity_search_commit_def identity_search_next_def identity_search_prev_def
      intro: modals_le_trans [OF land_le(1)] modals_le_trans [OF land_le(2)] host_le)

subsection \<open>Verbs of a modal\<close>

text \<open>Only whether a field holds a modal matters.\<close>

lemma update_le [simp]:
  "modals_le (m\<lparr>bm_version := v, bm_version_fetch := h1\<rparr>) n \<longleftrightarrow> modals_le (m\<lparr>bm_version := v\<rparr>) n"
  "modals_le (m\<lparr>bm_param := p, bm_param_fetch := h2\<rparr>) n \<longleftrightarrow> modals_le (m\<lparr>bm_param := p\<rparr>) n"
  "modals_le (m\<lparr>bm_action := a, bm_action_fetch := h3\<rparr>) n \<longleftrightarrow> modals_le (m\<lparr>bm_action := a\<rparr>) n"
  "modals_le (m\<lparr>bm_access := x, bm_access_fetch := h4\<rparr>) n \<longleftrightarrow> modals_le (m\<lparr>bm_access := x\<rparr>) n"
  "modals_le (m\<lparr>bm_identity := y, bm_identity_fetch := h5\<rparr>) n \<longleftrightarrow> modals_le (m\<lparr>bm_identity := y\<rparr>) n"
  "modals_le (m\<lparr>bm_version_fetch := h1\<rparr>) n \<longleftrightarrow> modals_le m n" "modals_le (m\<lparr>bm_param_fetch := h2\<rparr>) n \<longleftrightarrow> modals_le m n"
  "modals_le (m\<lparr>bm_action_fetch := h3\<rparr>) n \<longleftrightarrow> modals_le m n" "modals_le (m\<lparr>bm_access_fetch := h4\<rparr>) n \<longleftrightarrow> modals_le m n"
  "modals_le (m\<lparr>bm_identity_fetch := h5\<rparr>) n \<longleftrightarrow> modals_le m n" "modals_le (m\<lparr>bm_audit := d\<rparr>) n \<longleftrightarrow> modals_le m n"
  "modals_le m (n\<lparr>bm_audit := d\<rparr>) \<longleftrightarrow> modals_le m n"
  by (simp_all add: modals_le_def ident_ok_def)

lemma same_le [simp]:
  "modals_le (m\<lparr>bm_version := v\<rparr>) m \<longleftrightarrow> (bm_version m = None \<longrightarrow> v = None)"
  "modals_le (m\<lparr>bm_param := p\<rparr>) m \<longleftrightarrow> (bm_param m = None \<longrightarrow> p = None)"
  "modals_le (m\<lparr>bm_action := a\<rparr>) m \<longleftrightarrow> (bm_action m = None \<longrightarrow> a = None)"
  "modals_le (m\<lparr>bm_identity := None\<rparr>) m" "modals_le (m\<lparr>bm_access := Some x\<rparr>) m \<longleftrightarrow> bm_access m \<noteq> None"
  by (auto simp: modals_le_def ident_ok_def)

lemma close_le [simp]:
  "modals_le (close_version m) m" "modals_le (close_param m) m" "modals_le (close_action m) m"
  "modals_le (close_identity m) m" "modals_le (close_access m) m"
  by (simp_all add: close_version_def close_param_def close_action_def close_identity_def)
    (simp add: close_access_def close_identity_def modals_le_def ident_ok_def)

lemma version_step_le: "modals_le (version_step v m) m"
  by (cases "(v, m)" rule: version_step.cases)
    (simp_all add: host_le version_scroll_def toggle_environmental_def refresh_version_def split: option.split)

lemma refresh_param_le: "modals_le (refresh_param t m) m"
proof (cases "bm_param m")
  case (Some p)
  let ?m = "m\<lparr>bm_param := Some (p\<lparr>pm_load := LsLoading, pm_search := None\<rparr>), bm_param_fetch := None\<rparr>"
  have "modals_le (param_failed (pm_pg_id p) ''no bound parameter context found'' ?m) m"
    by (rule modals_le_trans [of _ ?m]) (simp_all add: param_failed_def Some)
  then show ?thesis using Some by (simp add: refresh_param_def Let_def)
qed (simp add: refresh_param_def)

lemma param_step_le: "modals_le (param_step t v m) m"
  by (cases "(t, v, m)" rule: param_step.cases)
    (simp_all add: host_le param_move_def close_param_cascade_def refresh_param_le)

lemma action_step_le: "modals_le (action_step v m) m"
  by (cases "(v, m)" rule: action_step.cases)
    (simp_all add: close_action_cascade_def refresh_action_def move_action_def split: option.split)

lemma access_step_le: "modals_le (access_step v m) m"
proof -
  have "modals_le (drill_identity m) m"
    by (auto simp: drill_identity_def modals_le_def ident_ok_def bind_eq_Some_conv split: option.split)
  then show ?thesis
    by (cases "(v, m)" rule: access_step.cases)
      (simp_all add: host_le landed_search_le move_access_def refresh_access_def split: option.split)
qed

lemma identity_step_le: "modals_le (identity_step t v m) m"
  by (cases "(t, v, m)" rule: identity_step.cases)
    (simp_all add: host_le landed_search_le move_identity_def cross_link_def split: option.split)

lemma payload_le: "modals_le (modal_payload_step t p m) m"
proof -
  have access: "modals_le (access_answered i f m) m" and identity: "modals_le (identity_answered j g m) m"
    for i f j g and m :: modals
    by (simp_all add: access_answered_def identity_answered_def)
  show ?thesis
    using access [of _ _ "m\<lparr>bm_audit := _\<rparr>"]
    by (cases "(t, p, m)" rule: modal_payload_step.cases)
      (simp_all add: version_loaded_def version_failed_def param_loaded_def param_failed_def action_failed_def
        access identity)
qed

subsection \<open>The peek modal\<close>

lemma peek_listing: "(\<And>l. ql_peek l = None \<Longrightarrow> ql_peek (f l) = None) \<Longrightarrow> peek_le (map_listing f p) p"
  by (auto simp: peek_le_def peek_of_def map_listing_def split: bind_splits)

lemma peek_search_le: "ql_peek l = None \<Longrightarrow> ql_peek (search_apply peek_host l c) = None"
  by (cases c) (simp_all add: host_defs peek_host_def)

lemma filter_edit_le: "ql_peek (filter_edit lc c l) = ql_peek l"
  by (cases "(lc, c, l)" rule: filter_edit.cases)
    (simp_all add: cancel_filter_prompt_def commit_filter_prompt_def set_filter_def clamp_selection_def Let_def
      backspace_filter_char_def push_filter_char_def split: option.split)

lemma peek_step_le: "peek_le (peek_step v p) p"
  by (cases "(v, p)" rule: peek_step.cases)
    (auto intro!: peek_listing simp: map_peek_def close_queue_listing_peek_modal_def split: option.split)

text \<open>The answers of the listing workers.\<close>

fun listing_answer :: "listing_cmd \<Rightarrow> bool" where
  "listing_answer (LProgress _ _) = True"
| "listing_answer (LComplete _ _ _ _ _) = True"
| "listing_answer (LError _ _) = True"
| "listing_answer (LTimeout _) = True"
| "listing_answer (LRequestId _ _) = True"
| "listing_answer (LPeekLoaded _ _ _ _ _) = True"
| "listing_answer (LPeekFailed _ _ _) = True"
| "listing_answer _ = False"

lemma listing_answer_le:
  assumes "listing_answer c"
  shows "ql_peek l = None \<Longrightarrow> ql_peek (listing_apply lc l c) = None"
  using assms
  by (cases c) (simp_all add: apply_progress_def apply_complete_def apply_listing_error_def apply_timeout_def
      assign_request_id_def map_peek_def clamp_selection_def Let_def split: option.split)

subsection \<open>Keys\<close>

lemma gate_event:
  assumes "find (gate_open ctx) gates = Some g"
  shows "translate k ctx = IeView v \<Longrightarrow> v \<in> snd ` set (g_verbs g)"
    and "translate k ctx = IeFocus a \<Longrightarrow> a \<in> set (g_passthrough g)"
  using lookup_in [of "g_verbs g" "normalize_key k"] lookup_in [of "focus_table (g_passthrough g)" "normalize_key k"]
  by (auto simp: translate_gate [OF assms] Let_def or_unmapped_def focus_table_def split: if_splits option.splits)

lemma tab_event:
  assumes "find (gate_open ctx) gates = None" and "ic_tab ctx = Browser" and "translate k ctx = IeView v"
  shows "(\<exists>q. v = VBrowserQueue q) \<or> (\<exists>b. v = VBrowser b)"
proof -
  let ?k = "normalize_key k"
  have lst: "lookup listing_table ?k = Some (IeView v) \<Longrightarrow> \<exists>q. v = VBrowserQueue q"
    using lookup_in [of listing_table ?k] by (auto simp: listing_table_def focus_table_def)
  have frame: "lookup framework_table ?k \<noteq> Some (IeView v)"
    using lookup_in [of framework_table ?k] by (auto simp: framework_table_def focus_table_def)
  have view: "lookup (view_table ctx) ?k = Some v \<Longrightarrow> \<exists>b. v = VBrowser b"
    using lookup_in [of "view_table ctx" ?k] assms(2) by (auto simp: view_table_def table_def)
  show ?thesis
    using assms lst frame view
    by (auto simp: translate_def first_gate or_unmapped_def Let_def split: if_splits option.splits)
qed

lemma browser_gate:
  assumes "find (gate_open (browser_ctx snap s)) gates = Some g"
  shows "g_passthrough g = [] \<and> snd ` set (g_verbs g) \<subseteq> range VVersion \<union> range VParam \<union> range VAction \<union> range VAccess
    \<union> range VIdentity \<union> range VBrowserPeek"
proof -
  have "g \<in> set gates" "g_view g = Browser"
    using assms by (auto simp: find_Some_iff gate_open_def browser_ctx_def)
  then show ?thesis
    by (auto simp: gates_def content_gate_def reporting_gate_def detail_gate_def version_gate_def param_gate_def
        action_gate_def peek_gate_def identity_gate_def access_gate_def table_def)
qed

lemma no_gate:
  assumes "find (gate_open (browser_ctx snap s)) gates = None"
  shows "open_modals s = [] \<and> bm_identity (bi_modals s) = None"
proof -
  have no: "\<not> gate_open (browser_ctx snap s) g" if "g \<in> set gates" for g
    using assms that by (auto simp: find_None_iff)
  note gs = no [of version_gate] no [of param_gate] no [of action_gate] no [of peek_gate] no [of identity_gate]
    no [of access_gate]
  show ?thesis
    using gs
    by (simp add: gates_def gate_open_def browser_ctx_def open_modals_def version_gate_def
        param_gate_def action_gate_def peek_gate_def identity_gate_def access_gate_def)
qed

lemma text_input_le:
  assumes "handle_text_input lc k s = Some (t, b)"
  shows "modals_le (bi_modals t) (bi_modals s) \<and> peek_le (bi_pane t) (bi_pane s)"
proof -
  have version: "version_edit c m = Some m' \<Longrightarrow> modals_le m' m" for c m m'
    by (cases "(c, m)" rule: version_edit.cases)
      (auto simp: version_search_push_def version_search_pop_def version_search_edit_def host_le split: option.splits if_splits)
  have access: "modals_le (access_edit c m) m" for c m
    by (cases "(c, m)" rule: access_edit.cases) (simp_all add: landed_search_le host_le)
  have identity: "modals_le (identity_edit c m) m" for c m
    by (cases "(c, m)" rule: identity_edit.cases) (simp_all add: landed_search_le host_le)
  have listing: "peek_le (map_listing (\<lambda>l. search_apply peek_host l c) p) p" "peek_le (map_listing (filter_edit lc c) p) p" for c p
    by (auto intro!: peek_listing simp: peek_search_le filter_edit_le)
  show ?thesis
    using assms version access identity listing
    by (auto simp: handle_text_input_def Let_def host_le bind_eq_Some_conv simp del: edit_of.simps split: option.splits if_splits)
qed

text \<open>Opening sets one field.\<close>

lemma openers:
  "open_parameter_context t m = m \<or> (\<exists>x h. open_parameter_context t m = m\<lparr>bm_param := Some x, bm_param_fetch := h\<rparr>)"
  "open_action_history t m = m \<or> (\<exists>x h. open_action_history t m = m\<lparr>bm_action := Some x, bm_action_fetch := h\<rparr>)"
  "show_version_control snap t m = m \<or> (\<exists>x h. show_version_control snap t m = m\<lparr>bm_version := Some x, bm_version_fetch := h\<rparr>)"
  "open_access t m = m \<or> (\<exists>x h. open_access t m = m\<lparr>bm_access := Some x, bm_access_fetch := h\<rparr>)"
proof -
  have keep: "m\<lparr>bm_param := x\<rparr> = m\<lparr>bm_param := x, bm_param_fetch := bm_param_fetch m\<rparr>" for x by simp
  show "open_parameter_context t m = m \<or> (\<exists>x h. open_parameter_context t m = m\<lparr>bm_param := Some x, bm_param_fetch := h\<rparr>)"
    unfolding open_parameter_context_def Let_def
    by (auto split: option.split intro: keep)
qed (auto simp: open_action_history_def show_version_control_def open_access_def split: option.split)

lemma one_open:
  assumes "open_modals s = []" and "bm_identity (bi_modals s) = None"
  shows "one_modal (s\<lparr>bi_modals := bi_modals s\<lparr>bm_param := x1, bm_param_fetch := h1\<rparr>\<rparr>)"
    "one_modal (s\<lparr>bi_modals := bi_modals s\<lparr>bm_action := x2, bm_action_fetch := h2\<rparr>\<rparr>)"
    "one_modal (s\<lparr>bi_modals := bi_modals s\<lparr>bm_version := x3, bm_version_fetch := h3\<rparr>\<rparr>)"
    "one_modal (s\<lparr>bi_modals := bi_modals s\<lparr>bm_access := x4, bm_access_fetch := h4\<rparr>\<rparr>)"
    "one_modal (s\<lparr>bi_pane := p\<rparr>)" "one_modal s"
  using assms by (simp_all add: one_modal_def open_modals_def ident_ok_def split: if_splits)

lemma opening_ok:
  assumes "open_modals s = []" and "bm_identity (bi_modals s) = None"
    and "browser_verb_step ring snap v s = Some (t, e)"
  shows "one_modal t"
proof -
  note one = one_open [OF assms(1,2)]
  have same: "s\<lparr>bi_modals := bi_modals s\<rparr> = s" by simp
  have "one_modal (opens open_parameter_context s)" "one_modal (opens open_action_history s)"
    "one_modal (opens (show_version_control snap) s)" "one_modal (opens open_access s)"
    using openers [where t = "bp_tree (bi_pane s)" and m = "bi_modals s"] one same
    unfolding opens_def by metis+
  with assms(3) one(6) show ?thesis
    by (cases "(ring, snap, v, s)" rule: browser_verb_step.cases) auto
qed

text \<open>A key opens nothing, or nothing was open before it.\<close>

lemma key_opens:
  assumes "browser_key lc cadence ring snap k s = Some (t, i)"
  shows "modals_le (bi_modals t) (bi_modals s) \<and> peek_le (bi_pane t) (bi_pane s) \<or> one_modal t"
proof (cases "is_text_input_focused s \<and> (\<exists>u. handle_text_input lc k s = Some (u, True))")
  case True
  then have "handle_text_input lc k s = Some (t, True)" using assms by (auto simp: browser_key_def)
  from text_input_le [OF this] show ?thesis by blast
next
  case False
  let ?ctx = "browser_ctx snap s"
  from False assms have t: "(case translate k ?ctx of
      IeFocus a \<Rightarrow> map_option (\<lambda>(p, r). (s\<lparr>bi_pane := p\<rparr>, Option.bind r ur_intent)) (handle_focus lc cadence ring a (bi_pane s))
    | IeView v \<Rightarrow> map_option (\<lambda>t. (t, None)) (handle_verb lc ring snap v s) | _ \<Rightarrow> Some (s, None)) = Some (t, i)"
    by (auto simp: browser_key_def split: option.splits bool.splits if_splits)
  show ?thesis
  proof (cases "find (gate_open ?ctx) gates")
    case None
    note empty = no_gate [OF None]
    note quiet = one_open(5,6) [OF conjunct1 [OF empty] conjunct2 [OF empty]]
    have view: "translate k ?ctx = IeView v \<Longrightarrow> (\<exists>q. v = VBrowserQueue q) \<or> (\<exists>b. v = VBrowser b)" for v
      by (rule tab_event [OF None]) (simp_all add: browser_ctx_def)
    show ?thesis
    proof (cases "translate k ?ctx")
      case (IeFocus a)
      then show ?thesis using t quiet by auto
    next
      case (IeView v)
      from view [OF this] consider q where "v = VBrowserQueue q" | b where "v = VBrowser b" by blast
      then show ?thesis
      proof cases
        case 1
        then show ?thesis using t IeView quiet by (auto simp: on_pane_def)
      next
        case 2
        then obtain e where "browser_verb_step ring snap b s = Some (t, e)" using t IeView by auto
        then show ?thesis using opening_ok empty by blast
      qed
    qed (use t quiet in auto)
  next
    case (Some g)
    note g = browser_gate [OF Some] gate_event [OF Some, where k = k]
    show ?thesis
    proof (cases "translate k ?ctx")
      case (IeFocus a)
      with g show ?thesis by simp
    next
      case (IeView v)
      from g(1) gate_event(1) [OF Some IeView] have "v \<in> range VVersion \<union> range VParam \<union> range VAction \<union> range VAccess \<union> range VIdentity \<union> range VBrowserPeek"
        by blast
      then show ?thesis
        using t IeView
        by (auto simp: on_modals_def on_pane_def version_step_le param_step_le action_step_le access_step_le
            identity_step_le peek_step_le)
    qed (use t in auto)
  qed
qed

section \<open>Runs\<close>

text \<open>A key, an answer for a modal or for the listing, a new tree, or the landing of a
  parameter-context intent, in any order.\<close>

datatype browser_event =
    BeKey cluster_snapshot "bulletin_snapshot list" key_event | BeAnswer modal_payload | BeListing listing_cmd
  | BeTree browser_tree | BeParamLanding string "string option"

fun browser_event_step ::
  "(string \<Rightarrow> string) \<Rightarrow> nat \<Rightarrow> browser_event \<Rightarrow> browser_input \<Rightarrow> browser_input option" where
  "browser_event_step lc cadence (BeKey snap ring k) s = map_option fst (browser_key lc cadence ring snap k s)"
| "browser_event_step lc cadence (BeAnswer p) s = Some (on_modals (modal_payload_step (bp_tree (bi_pane s)) p) s)"
| "browser_event_step lc cadence (BeListing c) s =
     Some (if listing_answer c then on_pane (map_listing (\<lambda>l. listing_apply lc l c)) s else s)"
| "browser_event_step lc cadence (BeTree t) s = Some (on_pane (\<lambda>p. p\<lparr>bp_tree := t\<rparr>) s)"
| "browser_event_step lc cadence (BeParamLanding pg preselect) s =
     Some (on_modals (land_parameter_context (bp_tree (bi_pane s)) pg preselect) s)"

fun browser_run ::
  "(string \<Rightarrow> string) \<Rightarrow> nat \<Rightarrow> browser_event list \<Rightarrow> browser_input \<Rightarrow> browser_input option" where
  "browser_run lc cadence [] s = Some s"
| "browser_run lc cadence (e # es) s = Option.bind (browser_event_step lc cadence e s) (browser_run lc cadence es)"

definition browser_start :: browser_input where
  "browser_start = \<lparr>bi_pane = pane_default, bi_modals = modals_default\<rparr>"

lemma run_induct:
  assumes "I s" and "\<And>e s t. I s \<Longrightarrow> browser_event_step lc cadence e s = Some t \<Longrightarrow> I t"
  shows "case browser_run lc cadence es s of None \<Rightarrow> True | Some t \<Rightarrow> I t"
  using assms(1)
proof (induction es arbitrary: s)
  case (Cons e es)
  then show ?case using assms(2) [of s e] by (cases "browser_event_step lc cadence e s") auto
qed simp

fun is_landing :: "browser_event \<Rightarrow> bool" where
  "is_landing (BeParamLanding pg preselect) = True"
| "is_landing _ = False"

lemma event_opens:
  assumes "browser_event_step lc cadence e s = Some t" and "\<not> is_landing e"
  shows "modals_le (bi_modals t) (bi_modals s) \<and> peek_le (bi_pane t) (bi_pane s) \<or> one_modal t"
proof (cases e)
  case (BeKey snap ring k)
  then obtain i where "browser_key lc cadence ring snap k s = Some (t, i)" using assms(1) by auto
  then show ?thesis by (rule key_opens)
next
  case (BeAnswer p)
  then show ?thesis using assms by (auto simp: on_modals_def payload_le)
next
  case (BeListing c)
  have "peek_le (map_listing (\<lambda>l. listing_apply lc l c) p) p" if "listing_answer c" for p
    by (rule peek_listing) (rule listing_answer_le [OF that])
  then show ?thesis using BeListing assms by (auto simp: on_pane_def split: if_splits)
next
  case (BeTree u)
  then show ?thesis using assms by (auto simp: on_pane_def peek_le_def peek_of_def)
next
  case (BeParamLanding pg preselect)
  then show ?thesis using assms(2) by simp
qed

lemma event_one_modal:
  "browser_event_step lc cadence e s = Some t \<Longrightarrow> \<not> is_landing e \<Longrightarrow> one_modal s \<Longrightarrow> one_modal t"
  using event_opens one_modal_le by blast

lemma landing_keeps:
  "own_modals (on_modals (land_parameter_context t pg preselect) s) = own_modals s"
  "ident_ok (land_parameter_context t pg preselect m) = ident_ok m"
  by (simp_all add: land_parameter_context_def on_modals_def own_modals_def ident_ok_def param_failed_def
      map_param_def Let_def)

lemma event_one_own_modal:
  assumes "browser_event_step lc cadence e s = Some t" and "one_own_modal s"
  shows "one_own_modal t"
proof (cases "is_landing e")
  case True
  then show ?thesis using assms by (cases e) (auto simp: one_own_modal_def landing_keeps, simp add: on_modals_def landing_keeps)
next
  case False
  then show ?thesis using event_opens [OF assms(1)] one_own_modal_le assms(2) one_modal_own by blast
qed

lemma run_one_modal:
  assumes "browser_run lc cadence es s = Some t" and "\<not> list_ex is_landing es" and "one_modal s"
  shows "one_modal t"
  using assms
proof (induction es arbitrary: s)
  case (Cons e es)
  then obtain u where "browser_event_step lc cadence e s = Some u" "browser_run lc cadence es u = Some t"
    by (auto simp: bind_eq_Some_conv)
  with Cons show ?case using event_one_modal [of lc cadence e s u] by auto
qed simp

lemma start_one_modal: "one_modal browser_start"
  by (simp add: one_modal_def open_modals_def ident_ok_def browser_start_def pane_default_def modals_default_def peek_of_def)

lemma own_modals_open: "length (open_modals s) \<le> length (own_modals s) + 1"
  by (simp add: own_modals_def open_modals_def)

text \<open>
  C4: whatever is typed, answered and landed, at most one of the version, history, access and
  peek modals is open, and the identity modal only over the access modal. Until a
  parameter-context intent lands, the parameter modal counts as well: the keys an open modal
  lets through never open a second one. A landing can put the parameter modal beside another,
  and then two are open.
\<close>

theorem one_modal_at_a_time:
  "case browser_run lc cadence es browser_start of
     None \<Rightarrow> True
   | Some s \<Rightarrow> length (own_modals s) \<le> 1 \<and> (bm_identity (bi_modals s) = None \<or> bm_access (bi_modals s) \<noteq> None)
       \<and> length (open_modals s) \<le> (if list_ex is_landing es then 2 else 1)"
proof -
  have own: "case browser_run lc cadence es browser_start of None \<Rightarrow> True | Some t \<Rightarrow> one_own_modal t"
    by (rule run_induct) (fact one_modal_own [OF start_one_modal], rule event_one_own_modal)
  show ?thesis
  proof (cases "browser_run lc cadence es browser_start")
    case (Some t)
    with own have "one_own_modal t" by simp
    moreover have "\<not> list_ex is_landing es \<Longrightarrow> one_modal t" using run_one_modal [OF Some _ start_one_modal] .
    ultimately show ?thesis
      using Some own_modals_open [of t] by (auto simp: one_own_modal_def one_modal_def ident_ok_def)
  qed simp
qed

text \<open>Two opening keys in a row: the second is not heard.\<close>

definition opening_keys :: "browser_event list" where
  "opening_keys =
     (let cl = with_bulletins_capacity 1 in
      [BeTree (demo_tree 1 (\<lambda>_. None) FocusTree None False),
       BeKey cl [] (pressed (bw_chord BwOpenAccess)), BeKey cl [] (pressed (bw_chord BwOpenActionHistory))])"

lemma opening_keys_run:
  "map_option (\<lambda>s. open_modals s \<noteq> []) (browser_run id 1 opening_keys browser_start) = Some True"
  by code_simp

lemma one_modal_at_a_time_witness:
  "\<exists>s. browser_run id 1 opening_keys browser_start = Some s \<and> length (open_modals s) = 1"
proof -
  obtain s where s: "browser_run id 1 opening_keys browser_start = Some s" and one: "open_modals s \<noteq> []"
    using opening_keys_run by auto
  have "\<not> list_ex is_landing opening_keys" by (simp add: opening_keys_def Let_def)
  with s one_modal_at_a_time [where lc = id and cadence = 1 and es = opening_keys] have "length (open_modals s) \<le> 1" by simp
  with one have "length (open_modals s) = 1" by (cases "open_modals s") auto
  with s show ?thesis by blast
qed

text \<open>
  Enter on the parameter-context section asks for the modal of the group; the access key opens
  the access modal before the answer is there; the landing opens the parameter modal over it.
\<close>

definition bound_group :: tree_node where
  "bound_group = (demo_node None [1] ProcessGroup ''r'')\<lparr>tn_parameter_context_ref := Some \<lparr>pcr_id = ''c'', pcr_name = ''ctx''\<rparr>\<rparr>"

definition demo_group :: process_group_detail where
  "demo_group = \<lparr>pgt_id = ''r'', pgt_name = ''r'', pgt_parent_group_id = None, pgt_running = 0, pgt_stopped = 0,
     pgt_invalid = 0, pgt_disabled = 0, pgt_active_threads = 0, pgt_flow_files_queued = 0, pgt_bytes_queued = 0,
     pgt_queued_display = [], pgt_controller_services = []\<rparr>"

definition on_parameter_section :: browser_tree where
  "on_parameter_section = (demo_tree 0 (\<lambda>i. if i = 0 then Some (DtProcessGroup demo_group) else None)
     (FocusSection 0 fresh_rows fresh_rows) None False)\<lparr>bt_nodes := [bound_group, demo_node (Some 0) [] Processor ''p'']\<rparr>"

lemma landing_opens_second_modal:
  "let cl = with_bulletins_capacity 1; s = browser_start\<lparr>bi_pane := pane_default\<lparr>bp_tree := on_parameter_section\<rparr>\<rparr>
   in map_option snd (browser_key id 1 [] cl (pressed (chord_simple KEnter)) s) = Some (Some (GotoParameterContext ''r'' None))
    \<and> map_option (\<lambda>t. (bm_param (bi_modals t) \<noteq> None, bm_access (bi_modals t) \<noteq> None))
        (browser_run id 1 [BeTree on_parameter_section, BeKey cl [] (pressed (chord_simple KEnter)),
           BeKey cl [] (pressed (bw_chord BwOpenAccess)), BeParamLanding ''r'' None] browser_start) = Some (True, True)"
  by code_simp

section \<open>Typing\<close>

text \<open>
  While a search box or the filter prompt is open, every character, Backspace, Enter and Esc
  goes into it: no verb runs, and the tree and the focus stay. It panics only when the body of
  the version modal cannot be built.
\<close>

theorem typing_stays_in_the_box:
  assumes "is_text_input_focused s" and "edit_of k \<noteq> None"
  shows "browser_key lc cadence ring snap k s = map_option (\<lambda>(t, taken). (t, None)) (handle_text_input lc k s)
    \<and> (case handle_text_input lc k s of
         None \<Rightarrow> Option.bind (bm_version (bi_modals s)) version_body = None
       | Some (t, taken) \<Rightarrow> taken \<and> bp_tree (bi_pane t) = bp_tree (bi_pane s)
           \<and> bp_listing_focused (bi_pane t) = bp_listing_focused (bi_pane s))"
proof -
  have panic: "version_edit c m = None \<Longrightarrow> Option.bind (bm_version m) version_body = None" for c m
    by (cases "(c, m)" rule: version_edit.cases)
      (auto simp: version_search_push_def version_search_pop_def version_search_edit_def split: option.splits if_splits)
  obtain c where "edit_of k = Some c" using assms(2) by blast
  then have shape: "case handle_text_input lc k s of
         None \<Rightarrow> Option.bind (bm_version (bi_modals s)) version_body = None
       | Some (t, taken) \<Rightarrow> taken \<and> bp_tree (bi_pane t) = bp_tree (bi_pane s)
           \<and> bp_listing_focused (bi_pane t) = bp_listing_focused (bi_pane s)"
    using assms(1) panic [of c "bi_modals s"]
    unfolding handle_text_input_def Let_def is_text_input_focused_def
    by (cases "version_edit c (bi_modals s)") (simp_all add: map_listing_def del: edit_of.simps split: if_split, auto)
  with assms(1) show ?thesis
    by (auto simp: browser_key_def simp del: edit_of.simps split: option.splits)
qed

definition filtering :: "string \<Rightarrow> browser_input" where
  "filtering draft = \<lparr>bi_pane = pane_default\<lparr>bp_listing := Some ((queue_listing_pending ''q'' ''n'')
      \<lparr>ql_filter_prompt := Some draft\<rparr>)\<rparr>, bi_modals = modals_default\<rparr>"

lemma typing_stays_in_the_box_witness:
  "browser_key (\<lambda>x. x) 0 [] (with_bulletins_capacity 1) \<lparr>ke_code = KChar ''q'', ke_mods = {}\<rparr> (filtering ''a'')
     = Some (filtering ''aq'', None)"
proof -
  let ?k = "\<lparr>ke_code = KChar ''q'', ke_mods = {}\<rparr>"
  note defs = filtering_def pane_default_def modals_default_def is_text_input_focused_def typing_def modal_host_defs
    peek_of_def queue_listing_pending_def
  have "is_text_input_focused (filtering ''a'')" "edit_of ?k \<noteq> None" by (simp_all add: defs)
  note stay = typing_stays_in_the_box [OF this, of "\<lambda>x. x" 0 "[]" "with_bulletins_capacity 1"]
  have "handle_text_input (\<lambda>x. x) ?k (filtering ''a'') = Some (filtering ''aq'', True)"
    by (simp add: handle_text_input_def defs map_listing_def push_filter_char_def)
  with stay show ?thesis by simp
qed

section \<open>Workers of the modals\<close>

text \<open>An access or identity modal that is loading has a worker that will answer it.\<close>

definition waits :: "modals \<Rightarrow> bool" where
  "waits m \<longleftrightarrow>
     (case bm_access m of None \<Rightarrow> True
      | Some x \<Rightarrow> xm_status x = MsLoading \<longrightarrow> bm_access_fetch m = Some (xm_component_id x))
   \<and> (case bm_identity m of None \<Rightarrow> True
      | Some i \<Rightarrow> im_status i = MsLoading \<longrightarrow> bm_identity_fetch m = Some (im_identity_id i))"

lemma waits_frame [simp]:
  "waits (m\<lparr>bm_version := v\<rparr>) = waits m" "waits (m\<lparr>bm_version_fetch := h\<rparr>) = waits m"
  "waits (m\<lparr>bm_param := p\<rparr>) = waits m" "waits (m\<lparr>bm_param_fetch := h\<rparr>) = waits m"
  "waits (m\<lparr>bm_action := a\<rparr>) = waits m" "waits (m\<lparr>bm_action_fetch := h\<rparr>) = waits m"
  "waits (m\<lparr>bm_audit := d\<rparr>) = waits m"
  by (simp_all add: waits_def split: option.split)

lemma waits_map [simp]:
  "waits (map_version f m) = waits m" "waits (map_param g m) = waits m" "waits (map_action k m) = waits m"
  by (simp_all add: map_version_def map_param_def map_action_def)

lemma waits_access:
  assumes "waits m" and "\<And>x. bm_access m = Some x \<Longrightarrow> xm_status (f x) = xm_status x \<and> xm_component_id (f x) = xm_component_id x"
  shows "waits (map_access f m)"
  using assms by (auto simp: waits_def map_access_def split: option.splits)

lemma waits_identity:
  assumes "waits m" and "\<And>x. bm_identity m = Some x \<Longrightarrow> im_status (f x) = im_status x \<and> im_identity_id (f x) = im_identity_id x"
  shows "waits (map_identity f m)"
  using assms by (auto simp: waits_def map_identity_def split: option.splits)

lemma waits_set:
  "waits m \<Longrightarrow> waits (sh_set version_host q m)" "waits m \<Longrightarrow> waits (sh_set param_host q m)"
  "waits m \<Longrightarrow> waits (sh_set action_host q m)" "waits m \<Longrightarrow> waits (sh_set access_host q m)"
  "waits m \<Longrightarrow> waits (sh_set identity_host q m)"
  by (simp_all add: modal_host_defs waits_access waits_identity)

lemma search_keeps:
  assumes "\<And>q m. I m \<Longrightarrow> I (sh_set H q m)" and "I m"
  shows "I (host_open H m)" "I (host_push H ch m)" "I (host_pop H m)" "I (host_commit H m)" "I (host_cancel H m)"
    "I (host_cycle_next H m)" "I (host_cycle_prev H m)" "I (search_apply H m c)"
proof -
  show all: "I (host_open H m)" "I (host_push H ch m)" "I (host_pop H m)" "I (host_commit H m)" "I (host_cancel H m)"
    "I (host_cycle_next H m)" "I (host_cycle_prev H m)" for ch
    using assms by (simp_all add: host_defs Let_def split: option.split)
  show "I (search_apply H m c)" by (cases c) (simp_all add: all)
qed

lemmas host_waits = search_keeps [of waits, OF waits_set(1)] search_keeps [of waits, OF waits_set(2)]
  search_keeps [of waits, OF waits_set(3)] search_keeps [of waits, OF waits_set(4)] search_keeps [of waits, OF waits_set(5)]

lemma waits_land: "waits m \<Longrightarrow> waits (land_access m)" "waits m \<Longrightarrow> waits (land_identity m)"
  by (simp_all add: land_access_def land_identity_def waits_access waits_identity split: option.split)

lemma waits_landed:
  assumes "waits m"
  shows "waits (access_search_commit m)" "waits (access_search_next m)" "waits (access_search_prev m)"
    "waits (identity_search_commit m)" "waits (identity_search_next m)" "waits (identity_search_prev m)"
  using assms
  by (simp_all add: access_search_commit_def access_search_next_def access_search_prev_def
      identity_search_commit_def identity_search_next_def identity_search_prev_def waits_land host_waits)

lemma waits_close:
  "waits m \<Longrightarrow> waits (close_version m)" "waits m \<Longrightarrow> waits (close_param m)" "waits m \<Longrightarrow> waits (close_action m)"
  "waits m \<Longrightarrow> waits (close_identity m)" "waits m \<Longrightarrow> waits (close_access m)"
  by (simp_all add: close_version_def close_param_def close_action_def)
    (simp_all add: close_access_def close_identity_def waits_def split: option.splits)

lemma waits_version_step: "waits m \<Longrightarrow> waits (version_step v m)"
  by (cases "(v, m)" rule: version_step.cases)
    (simp_all add: host_waits waits_close version_scroll_def toggle_environmental_def refresh_version_def split: option.split)

lemma waits_param_step: "waits m \<Longrightarrow> waits (param_step t v m)"
  by (cases "(t, v, m)" rule: param_step.cases)
    (simp_all add: host_waits waits_close param_move_def close_param_cascade_def refresh_param_def param_failed_def
      Let_def split: option.split)

lemma waits_action_step: "waits m \<Longrightarrow> waits (action_step v m)"
  by (cases "(v, m)" rule: action_step.cases)
    (simp_all add: waits_close close_action_cascade_def refresh_action_def move_action_def split: option.split)

lemma waits_access_step: "waits m \<Longrightarrow> waits (access_step v m)"
proof -
  assume m: "waits m"
  have "waits (drill_identity m)" "waits (refresh_access m)"
    using m by (auto simp: drill_identity_def refresh_access_def waits_def identity_modal_pending_def split: option.splits)
  with m show ?thesis
    by (cases "(v, m)" rule: access_step.cases)
      (simp_all add: host_waits waits_landed waits_close move_access_def waits_access)
qed

lemma waits_identity_step: "waits m \<Longrightarrow> waits (identity_step t v m)"
  by (cases "(t, v, m)" rule: identity_step.cases)
    (simp_all add: host_waits waits_landed waits_close move_identity_def waits_identity cross_link_def split: option.split)

lemma waits_payload: "waits m \<Longrightarrow> waits (modal_payload_step t p m)"
proof -
  have access: "waits (access_answered i f n)" if "waits n" "\<And>x. xm_status (f x) \<noteq> MsLoading" for i f and n :: modals
    using that by (auto simp: access_answered_def waits_def map_access_def split: option.splits)
  have identity: "waits (identity_answered i f n)" if "waits n" "\<And>x. im_status (f x) \<noteq> MsLoading" for i f and n :: modals
    using that by (auto simp: identity_answered_def waits_def map_identity_def split: option.splits)
  assume "waits m"
  then show ?thesis
    by (cases "(t, p, m)" rule: modal_payload_step.cases)
      (simp_all add: version_loaded_def version_failed_def param_loaded_def param_failed_def action_failed_def
        access identity access_apply_fetch_def identity_apply_fetch_def Let_def)
qed

lemma waits_landing: "waits m \<Longrightarrow> waits (land_parameter_context t pg preselect m)"
  by (simp add: land_parameter_context_def param_failed_def Let_def)

lemma waits_key:
  assumes "waits (bi_modals s)" and "browser_key lc cadence ring snap k s = Some (t, i)"
  shows "waits (bi_modals t)"
proof -
  have edits: "version_edit c m = Some m' \<Longrightarrow> waits m'" "waits (access_edit c m)" "waits (identity_edit c m)"
    if "waits m" for c m m'
  proof -
    show "version_edit c m = Some m' \<Longrightarrow> waits m'"
      using that by (cases "(c, m)" rule: version_edit.cases)
        (auto simp: version_search_push_def version_search_pop_def version_search_edit_def host_waits
          split: option.splits if_splits)
    show "waits (access_edit c m)"
      using that by (cases "(c, m)" rule: access_edit.cases) (simp_all add: waits_landed host_waits)
    show "waits (identity_edit c m)"
      using that by (cases "(c, m)" rule: identity_edit.cases) (simp_all add: waits_landed host_waits)
  qed
  have typed: "waits (bi_modals u)" if "handle_text_input lc k s = Some (u, b)" for u b
    using that assms(1) edits
    by (auto simp: handle_text_input_def Let_def host_waits bind_eq_Some_conv simp del: edit_of.simps
        split: option.splits if_splits)
  have opened: "waits (open_parameter_context t m)" "waits (open_action_history t m)"
    "waits (show_version_control sn t m)" "waits (open_access t m)" if "waits m" for t m sn
    using that
    by (auto simp: open_parameter_context_def open_action_history_def show_version_control_def Let_def split: option.split)
      (auto simp: open_access_def waits_def access_modal_new_def split: option.splits)
  have verb: "waits (bi_modals u)" if "browser_verb_step ring snap b s = Some (u, e)" for u b e
    using that assms(1)
    by (cases "(ring, snap, b, s)" rule: browser_verb_step.cases) (auto simp: opens_def opened)
  have "waits (bi_modals u)" if "handle_verb lc ring snap v s = Some u" for u v
    using that assms(1) verb
    by (cases "(lc, ring, snap, v, s)" rule: handle_verb.cases)
      (auto simp: on_modals_def on_pane_def waits_version_step waits_param_step waits_action_step waits_access_step
        waits_identity_step)
  with typed assms show ?thesis
    by (auto simp: browser_key_def split: option.splits bool.splits if_splits input_event.splits)
qed

text \<open>
  In every run, an access or identity modal that shows \<open>loading\<close> has a worker for its own
  component: it is never left waiting for an answer that cannot come.
\<close>

theorem audit_modals_wait_for_worker:
  "case browser_run lc cadence es browser_start of
     None \<Rightarrow> True
   | Some s \<Rightarrow> map_option xm_status (bm_access (bi_modals s)) \<noteq> Some MsLoading
         \<or> bm_access_fetch (bi_modals s) = map_option xm_component_id (bm_access (bi_modals s))"
proof -
  have start: "waits (bi_modals browser_start)"
    by (simp add: waits_def browser_start_def modals_default_def)
  have step: "waits (bi_modals t)" if "waits (bi_modals s)" "browser_event_step lc cadence e s = Some t" for e s t
    using that by (cases e) (auto simp: waits_key waits_payload waits_landing on_modals_def on_pane_def split: if_splits)
  have "case browser_run lc cadence es browser_start of None \<Rightarrow> True | Some t \<Rightarrow> waits (bi_modals t)"
    by (rule run_induct [where I = "\<lambda>s. waits (bi_modals s)"]) (fact start, fact step)
  then show ?thesis by (auto simp: waits_def split: option.splits)
qed

text \<open>
  The version modal has no such guard: the answer that the worker of a closed modal had
  already sent drops the worker of the modal opened since, which then waits for ever.
\<close>

theorem stale_answer_strands_version_modal:
  "let opened = modals_default\<lparr>bm_version := Some (version_modal_pending ''b'' ''B'' None), bm_version_fetch := Some ''b''\<rparr>;
       s = modal_payload_step browser_default (MpVersionFailed ''a'' ''gone'') opened
   in map_option vm_differences (bm_version s) = Some LsLoading \<and> bm_version_fetch s = None"
  by (simp add: modals_default_def version_modal_pending_def version_failed_def map_version_def)

text \<open>
  A query typed while the parameter modal still loads keeps its empty matches when the
  parameters arrive, though the text is there.
\<close>

theorem param_search_misses_loaded_text:
  "let param = \<lparr>pe_name = ''host'', pe_value = Some ''db1'', pe_description = None, pe_sensitive = False, pe_provided = False\<rparr>;
       node = \<lparr>cn_id = ''c'', cn_name = ''ctx'', cn_parameters = [param], cn_inherited_ids = [], cn_fetch_error = None\<rparr>;
       opened = modals_default\<lparr>bm_param := Some (param_modal_pending ''g'' ''G'' None)\<rparr>;
       typed = search_run param_host opened [SearchOpen, SearchPush ''host'', SearchCommit];
       s = modal_payload_step browser_default (MpParamLoaded ''g'' [node]) typed
   in map_option ss_matches (sh_search param_host s) = Some []
    \<and> compute_matches (sh_body param_host s) ''host'' \<noteq> []"
  by code_simp

end
