(* ===== verification/Browser_Landing.thy ===== *)
theory Browser_Landing
  imports Browser_Events Tab_History
begin

text \<open>
  Landing on a component: the cross-links into the Browser tab and the return to a remembered
  selection (\<open>handle_intent_outcome\<close>, \<open>capture_anchor\<close> and \<open>restore_anchor\<close> of
  \<open>src/src/app/state/mod.rs\<close>), and that neither leaves the detail section first.
\<close>

section \<open>Operations\<close>

text \<open>Expand the ancestors of an arena index and move the cursor to its row; \<open>None\<close> is a panic.\<close>

definition reveal :: "nat \<Rightarrow> browser_tree \<Rightarrow> browser_tree option" where
  "reveal i s =
     Option.bind (ancestors (bt_nodes s) (tn_parent (bt_nodes s ! i))) (\<lambda>as.
     Option.bind (rebuild_visible (s\<lparr>bt_expanded := bt_expanded s \<union> set as\<rparr>)) (\<lambda>t. Some (select_row i t)))"

definition find_component :: "string \<Rightarrow> browser_tree \<Rightarrow> nat option" where
  "find_component component_id s = position (\<lambda>n. tn_id n = component_id) (bt_nodes s)"

definition land_on :: "nat \<Rightarrow> nat \<Rightarrow> browser_pane \<Rightarrow> (browser_pane \<times> update_result) option" where
  "land_on cadence i s =
     Option.bind (reveal i (bp_tree s)) (\<lambda>t. browser_selection_changed cadence (s\<lparr>bp_tree := t\<rparr>))"

text \<open>
  A landing: the state of the tab, and whether the component was found; a warning is posted
  when it was not.
\<close>

definition open_in_browser :: "nat \<Rightarrow> string \<Rightarrow> browser_pane \<Rightarrow> (browser_pane \<times> bool) option" where
  "open_in_browser cadence component_id s =
     (case find_component component_id (bp_tree s) of
        None \<Rightarrow> Some (s, False)
      | Some i \<Rightarrow> map_option (\<lambda>(t, r). (t, True)) (land_on cadence i s))"

text \<open>The selection to come back to, of the Browser tab and of the bulletins tab.\<close>

definition capture_anchor :: "view_id \<Rightarrow> browser_tree \<Rightarrow> nat \<Rightarrow> selection_anchor option" where
  "capture_anchor tab tree bulletin_row =
     (case tab of
        Browser \<Rightarrow> map_option (\<lambda>n. ComponentId (tn_id n)) (selected_node tree)
      | Bulletins \<Rightarrow> Some (RowIndex bulletin_row)
      | _ \<Rightarrow> None)"

text \<open>
  Back and forward restore the anchor and then reconcile the queue listing, whether the
  component was found or not.
\<close>

definition relisted :: "browser_pane \<Rightarrow> browser_pane \<times> update_result" where
  "relisted s = (let (t, i) = refresh_queue_listing s in (t, redraw_only\<lparr>ur_queue_listing := i\<rparr>))"

definition restore_browser :: "nat \<Rightarrow> history_entry \<Rightarrow> browser_pane \<Rightarrow> (browser_pane \<times> update_result) option" where
  "restore_browser cadence entry s =
     (case (he_anchor entry, he_tab entry) of
        (Some (ComponentId i), Browser) \<Rightarrow>
          (case find_component i (bp_tree s) of
             None \<Rightarrow> Some (relisted s)
           | Some k \<Rightarrow> land_on cadence k s)
      | _ \<Rightarrow> Some (relisted s))"

definition restore_bulletin_row :: "history_entry \<Rightarrow> nat \<Rightarrow> nat \<Rightarrow> nat" where
  "restore_bulletin_row entry visible selected =
     (case (he_anchor entry, he_tab entry) of
        (Some (RowIndex i), Bulletins) \<Rightarrow> min i (visible - 1)
      | _ \<Rightarrow> selected)"

section \<open>Where a landing arrives\<close>

lemma reveal_ok:
  assumes "browser_ok s" and "i < length (bt_nodes s)"
  shows "\<exists>t. reveal i s = Some t \<and> browser_ok t \<and> bt_nodes t = bt_nodes s \<and> bt_details t = bt_details s
    \<and> bt_detail_focus t = bt_detail_focus s \<and> bt_expanded s \<subseteq> bt_expanded t \<and> selected_arena t = Some i"
proof -
  have ok: "arena_ok (bt_nodes s)" using assms(1) by (simp add: browser_ok_def)
  then obtain d where d: "ranked d (bt_nodes s)" using arena_ranked by blast
  obtain as where as: "ancestors (bt_nodes s) (tn_parent (bt_nodes s ! i)) = Some as"
    and shown: "\<And>ex. set as \<subseteq> ex \<Longrightarrow> shown (bt_nodes s) ex i"
    using ancestors_correct [OF d assms(2)] by (metis option.inject)
  let ?s = "s\<lparr>bt_expanded := bt_expanded s \<union> set as\<rparr>"
  obtain v where v: "rebuild_visible ?s = Some (?s\<lparr>bt_visible := v\<rparr>)"
    "visible_walk (bt_nodes ?s) (bt_expanded ?s) (roots (bt_nodes ?s)) = Some v"
    by (rule rebuild_visible_Some [of ?s]) (use ok in simp_all)
  let ?t = "select_row i (?s\<lparr>bt_visible := v\<rparr>)"
  have "i \<in> set v"
    using visible_shown(2) [of "bt_nodes s" "bt_expanded s \<union> set as" v] ok v(2) shown [of "bt_expanded s \<union> set as"]
    by simp
  then have sel: "selected_arena ?t = Some i" by (intro select_row_selects) simp
  moreover have frame: "bt_nodes ?t = bt_nodes s" "bt_details ?t = bt_details s" "bt_detail_focus ?t = bt_detail_focus s"
    "bt_expanded s \<subseteq> bt_expanded ?t"
    by (auto simp: select_row_def split: option.split)
  moreover have "browser_ok ?t" using assms v(2) sel by (auto simp: browser_ok_def selected_arena_def)
  ultimately show ?thesis by (intro exI [of _ ?t]) (simp add: reveal_def as v(1))
qed

lemma find_component_Some:
  "find_component c s = Some i \<Longrightarrow> i < length (bt_nodes s) \<and> tn_id (bt_nodes s ! i) = c"
  using position_Some by (fastforce simp: find_component_def)

lemma follow_unfocused: "bp_listing_focused (fst (follow_selection cadence s)) \<Longrightarrow> bp_listing_focused s"
  by (auto simp: follow_selection_def refresh_sparkline_def refresh_queue_listing_def Let_def
      split: option.splits if_splits prod.splits)

lemma land_on_ok:
  assumes "browser_ok (bp_tree s)" and "i < length (bt_nodes (bp_tree s))"
  shows "\<exists>t r. land_on cadence i s = Some (t, r) \<and> browser_ok (bp_tree t) \<and> selected_arena (bp_tree t) = Some i
    \<and> bt_nodes (bp_tree t) = bt_nodes (bp_tree s) \<and> bt_details (bp_tree t) = bt_details (bp_tree s)
    \<and> bt_detail_focus (bp_tree t) = bt_detail_focus (bp_tree s) \<and> panes_synced t
    \<and> (bp_listing_focused t \<longrightarrow> bp_listing_focused s)"
proof -
  from reveal_ok [OF assms] obtain u where u: "reveal i (bp_tree s) = Some u" "browser_ok u"
    "selected_arena u = Some i" "bt_nodes u = bt_nodes (bp_tree s)" "bt_details u = bt_details (bp_tree s)"
    "bt_detail_focus u = bt_detail_focus (bp_tree s)" by blast
  from emit_ok [OF u(2)] obtain v where v: "emit_detail_request u = Some v" "browser_ok v" by blast
  note frame = emit_frame [OF v(1)]
  let ?t = "follow_selection cadence (s\<lparr>bp_tree := v\<rparr>)"
  have "selected_arena v = Some i" using u(3) frame by (simp add: selected_arena_def)
  then show ?thesis
    using u v frame follow_synced follow_unfocused [of cadence "s\<lparr>bp_tree := v\<rparr>"]
    by (intro exI [of _ "fst ?t"] exI [of _ "snd ?t"])
      (simp add: land_on_def browser_selection_changed_def)
qed

text \<open>
  C9: a cross-link to a component of the arena never panics, selects the first node with that
  id under expanded ancestors, brings the sparkline and the queue listing to it, and leaves the
  tree well-formed; it also leaves the detail focus as it was.
\<close>

theorem landing_selects_component:
  assumes "browser_ok (bp_tree s)" and "c \<in> tn_id ` set (bt_nodes (bp_tree s))"
  shows "\<exists>t n. open_in_browser cadence c s = Some (t, True) \<and> browser_ok (bp_tree t)
    \<and> selected_node (bp_tree t) = Some n \<and> tn_id n = c \<and> panes_synced t
    \<and> bt_nodes (bp_tree t) = bt_nodes (bp_tree s)
    \<and> bt_detail_focus (bp_tree t) = bt_detail_focus (bp_tree s)"
proof -
  have "find_component c (bp_tree s) \<noteq> None"
    using assms(2) by (auto simp: find_component_def position_None)
  then obtain i where i: "find_component c (bp_tree s) = Some i" by blast
  note at = find_component_Some [OF i]
  from land_on_ok [OF assms(1)] at obtain t r where t: "land_on cadence i s = Some (t, r)"
    "browser_ok (bp_tree t)" "selected_arena (bp_tree t) = Some i"
    "bt_nodes (bp_tree t) = bt_nodes (bp_tree s)"
    "bt_detail_focus (bp_tree t) = bt_detail_focus (bp_tree s)" "panes_synced t" by blast
  then show ?thesis
    using i at by (intro exI [of _ t] exI [of _ "bt_nodes (bp_tree s) ! i"])
      (simp add: open_in_browser_def selected_node_def)
qed

text \<open>
  The focus left behind can be past the last section of the component arrived at. From the
  validation errors of a processor, back to its process group lands on three sections with the
  focus still on the fourth, and the next Down key panics.
\<close>

theorem landing_keeps_stale_focus:
  "\<exists>s t r entry. tab_reach s \<and> restore_browser cadence entry s = Some (t, r)
     \<and> handle_focus lc cadence ring FaDown t = None"
proof -
  let ?s = "on_detail [''invalid''] (FocusSection 3 fresh_rows fresh_rows)"
  let ?entry = "\<lparr>he_tab = Browser, he_anchor = Some (ComponentId ''r'')\<rparr>"
  have reach: "tab_reach ?s" by (rule last_section_reached) simp
  have ok: "browser_ok (bp_tree ?s)" using tab_reach_ok [OF reach] by (simp add: pane_ok_tree tree_ok_def)
  have found: "find_component ''r'' (bp_tree ?s) = Some 0"
    by (simp add: find_component_def on_detail_def demo_defs)
  have nodes: "0 < length (bt_nodes (bp_tree ?s))" by (simp add: on_detail_def demo_defs)
  have unfocused: "\<not> bp_listing_focused ?s" by (simp add: on_detail_def demo_pane_def)
  from land_on_ok [OF ok nodes] unfocused obtain t r where t: "land_on cadence 0 ?s = Some (t, r)"
    "selected_arena (bp_tree t) = Some 0" "bt_nodes (bp_tree t) = bt_nodes (bp_tree ?s)"
    "bt_details (bp_tree t) = bt_details (bp_tree ?s)"
    "bt_detail_focus (bp_tree t) = bt_detail_focus (bp_tree ?s)" "\<not> bp_listing_focused t" by blast
  have focus: "bt_detail_focus (bp_tree t) = FocusSection 3 fresh_rows fresh_rows"
    using t(5) by (simp add: on_detail_def demo_defs)
  have "focus_lost t"
    unfolding focus_lost_def focus t(2)
    by (simp add: focus_sections_def sections_for_arena_with_detail_def t(3,4))
      (simp add: on_detail_def key_defs demo_defs for_pg_node_def)
  then show ?thesis
    using reach t(1) lost_focus_panics t(6) found
    by (intro exI [of _ ?s] exI [of _ t] exI [of _ r] exI [of _ ?entry]) (simp add: restore_browser_def)
qed

text \<open>Witness: from the selected processor back to its root group.\<close>

lemma landing_selects_component_witness:
  "\<exists>t n. open_in_browser 5 ''r'' on_processor = Some (t, True) \<and> browser_ok (bp_tree t)
    \<and> selected_node (bp_tree t) = Some n \<and> tn_id n = ''r''"
proof -
  have "browser_ok (bp_tree on_processor)"
    using tab_reach_ok [OF on_processor_reached] by (simp add: pane_ok_tree tree_ok_def)
  moreover have "''r'' \<in> tn_id ` set (bt_nodes (bp_tree on_processor))"
    by (simp add: on_processor_def demo_defs)
  ultimately show ?thesis using landing_selects_component [of on_processor "''r''" 5] by blast
qed

end
