(* ===== verification/Fuzzy_Find.thy ===== *)
theory Fuzzy_Find
  imports Browser_Rebuild "HOL-Library.Product_Lexorder"
begin

text \<open>
  The fuzzy finder (\<open>src/src/widget/fuzzy_find.rs\<close>): the filter token at the start of the
  query, the ranked matches over the flow index and the cursor in them.

  The matcher of the \<open>nucleo\<close> crate is an argument: the score and the highlighted positions of
  a pattern in a haystack, if it matches. Unicode lower-casing is an argument too. A
  version-control state is the name of its variant.
\<close>

section \<open>The query filter\<close>

datatype drift_filter = DriftAny | DriftStale | DriftModified | DriftSyncErr

datatype query_filter = QfNone | QfKind node_kind | QfDrift drift_filter

fun drift_admits :: "drift_filter \<Rightarrow> string \<Rightarrow> bool" where
  "drift_admits DriftAny st \<longleftrightarrow> st \<noteq> ''UpToDate''"
| "drift_admits DriftStale st \<longleftrightarrow> st = ''Stale'' \<or> st = ''LocallyModifiedAndStale''"
| "drift_admits DriftModified st \<longleftrightarrow> st = ''LocallyModified'' \<or> st = ''LocallyModifiedAndStale''"
| "drift_admits DriftSyncErr st \<longleftrightarrow> st = ''SyncFailure''"

fun filter_matches :: "query_filter \<Rightarrow> flow_index_entry \<Rightarrow> bool" where
  "filter_matches QfNone e = True"
| "filter_matches (QfKind k) e = (fe_kind e = k)"
| "filter_matches (QfDrift d) e =
     (fe_kind e = ProcessGroup \<and> (case fe_version_state e of None \<Rightarrow> False | Some st \<Rightarrow> drift_admits d st))"

definition kind_aliases :: "(string \<times> node_kind) list" where
  "kind_aliases = [('':proc'', Processor), ('':pg'', ProcessGroup), ('':cs'', ControllerService),
     ('':conn'', Connection), ('':in'', InputPort), ('':out'', OutputPort), ('':rpg'', RemoteProcessGroup)]"

definition drift_aliases :: "(string \<times> drift_filter) list" where
  "drift_aliases = [('':drift'', DriftAny), ('':stale'', DriftStale), ('':modified'', DriftModified),
     ('':syncerr'', DriftSyncErr)]"

text \<open>The white-space character a string starts with, and the string up to its first one.\<close>

definition leading_space :: "string \<Rightarrow> string option" where
  "leading_space s = find (\<lambda>w. starts_with w s) white_space"

fun split_space :: "string \<Rightarrow> string \<times> string" where
  "split_space [] = ([], [])"
| "split_space (c # s) =
     (if leading_space (c # s) \<noteq> None then ([], c # s)
      else (c # fst (split_space s), snd (split_space s)))"

definition strip_space :: "string \<Rightarrow> string" where
  "strip_space s = (case leading_space s of None \<Rightarrow> s | Some w \<Rightarrow> drop (length w) s)"

definition alias_of :: "(string \<times> 'a) list \<Rightarrow> string \<Rightarrow> 'a option" where
  "alias_of aliases head = map_option snd (find (\<lambda>(a, x). eq_ignore_ascii_case head a) aliases)"

definition parse_prefix :: "string \<Rightarrow> query_filter \<times> string" where
  "parse_prefix query =
     (let (head, tail) = split_space (trim_start (length query) white_space query)
      in case alias_of kind_aliases head of
           Some k \<Rightarrow> (QfKind k, strip_space tail)
         | None \<Rightarrow>
             (case alias_of drift_aliases head of
                Some d \<Rightarrow> (QfDrift d, strip_space tail)
              | None \<Rightarrow> (QfNone, query)))"

definition kind_plural :: "node_kind \<Rightarrow> string" where
  "kind_plural k =
     (case k of Processor \<Rightarrow> ''processors'' | ProcessGroup \<Rightarrow> ''process groups''
      | ControllerService \<Rightarrow> ''controller services'' | Connection \<Rightarrow> ''connections''
      | InputPort \<Rightarrow> ''input ports'' | OutputPort \<Rightarrow> ''output ports''
      | RemoteProcessGroup \<Rightarrow> ''remote process groups'' | Folder _ \<Rightarrow> ''folders'')"

definition drift_label :: "drift_filter \<Rightarrow> string" where
  "drift_label d = (case d of DriftAny \<Rightarrow> ''PGs with drift'' | DriftStale \<Rightarrow> ''stale PGs''
     | DriftModified \<Rightarrow> ''locally modified PGs'' | DriftSyncErr \<Rightarrow> ''PGs with sync failure'')"

definition empty_state_message :: "query_filter \<Rightarrow> string \<Rightarrow> string" where
  "empty_state_message flt needle =
     (let present = trim needle \<noteq> []
      in case flt of
           QfNone \<Rightarrow> if present then ''no matches'' else ''no entries''
         | QfKind k \<Rightarrow> if present then ''no '' @ kind_plural k @ '' match''
                       else ''no '' @ kind_plural k @ '' in this cluster''
         | QfDrift d \<Rightarrow> if present then ''no '' @ drift_label d @ '' match'' else ''no '' @ drift_label d)"

section \<open>The finder\<close>

record matched_entry =
  me_index :: nat
  me_score :: nat
  me_highlights :: "nat list"

record fuzzy_state =
  ff_query :: string
  ff_filter :: query_filter
  ff_effective :: string
  ff_matches :: "matched_entry list"
  ff_selected :: nat

definition fuzzy_new :: fuzzy_state where
  "fuzzy_new = \<lparr>ff_query = [], ff_filter = QfNone, ff_effective = [], ff_matches = [], ff_selected = 0\<rparr>"

definition kind_priority :: "node_kind \<Rightarrow> nat" where
  "kind_priority k =
     (case k of Processor \<Rightarrow> 0 | ProcessGroup \<Rightarrow> 1 | ControllerService \<Rightarrow> 2 | Connection \<Rightarrow> 3 | InputPort \<Rightarrow> 4
      | OutputPort \<Rightarrow> 5 | RemoteProcessGroup \<Rightarrow> 6 | Folder _ \<Rightarrow> 7)"

type_synonym matcher = "string \<Rightarrow> string \<Rightarrow> (nat \<times> nat list) option"

definition match_entry ::
  "matcher \<Rightarrow> query_filter \<Rightarrow> string \<Rightarrow> nat \<times> flow_index_entry \<Rightarrow> matched_entry option" where
  "match_entry fuzzy flt needle p =
     (if \<not> filter_matches flt (snd p) then None
      else map_option (\<lambda>(score, hl). \<lparr>me_index = fst p, me_score = score, me_highlights = hl\<rparr>)
             (fuzzy (fe_haystack (snd p)) needle))"

text \<open>Better matches first: the higher score, then the more important kind.\<close>

definition rank :: "flow_index_entry list \<Rightarrow> matched_entry \<Rightarrow> int \<times> nat" where
  "rank entries m = (- int (me_score m), kind_priority (fe_kind (entries ! me_index m)))"

definition best_matches ::
  "matcher \<Rightarrow> query_filter \<Rightarrow> string \<Rightarrow> flow_index_entry list \<Rightarrow> matched_entry list" where
  "best_matches fuzzy flt needle entries =
     take 50 (sort_key (rank entries)
       (List.map_filter (match_entry fuzzy flt needle) (zip [0..<length entries] entries)))"

definition rebuild_matches ::
  "matcher \<Rightarrow> (string \<Rightarrow> string) \<Rightarrow> flow_index_entry list \<Rightarrow> fuzzy_state \<Rightarrow> fuzzy_state" where
  "rebuild_matches fuzzy lc entries s =
     (let (flt, eff) = parse_prefix (ff_query s);
          ms = best_matches fuzzy flt (lc eff) entries
      in s\<lparr>ff_filter := flt, ff_effective := eff, ff_matches := ms,
           ff_selected := (if length ms \<le> ff_selected s then 0 else ff_selected s)\<rparr>)"

definition fuzzy_push :: "string \<Rightarrow> fuzzy_state \<Rightarrow> fuzzy_state" where
  "fuzzy_push ch s = s\<lparr>ff_query := ff_query s @ ch\<rparr>"

definition fuzzy_pop :: "fuzzy_state \<Rightarrow> fuzzy_state" where
  "fuzzy_pop s = s\<lparr>ff_query := pop_char (ff_query s)\<rparr>"

definition fuzzy_down :: "fuzzy_state \<Rightarrow> fuzzy_state" where
  "fuzzy_down s =
     (if ff_matches s \<noteq> [] \<and> ff_selected s + 1 < length (ff_matches s) then s\<lparr>ff_selected := ff_selected s + 1\<rparr> else s)"

definition fuzzy_up :: "fuzzy_state \<Rightarrow> fuzzy_state" where
  "fuzzy_up s = (if 0 < ff_selected s then s\<lparr>ff_selected := ff_selected s - 1\<rparr> else s)"

definition selected_entry :: "flow_index_entry list \<Rightarrow> fuzzy_state \<Rightarrow> flow_index_entry option" where
  "selected_entry entries s =
     Option.bind (get_at (ff_matches s) (ff_selected s)) (\<lambda>m. get_at entries (me_index m))"

section \<open>The ranked list\<close>

definition admitted :: "matcher \<Rightarrow> query_filter \<Rightarrow> string \<Rightarrow> flow_index_entry list \<Rightarrow> matched_entry \<Rightarrow> bool" where
  "admitted fuzzy flt needle entries m \<longleftrightarrow>
     me_index m < length entries \<and> filter_matches flt (entries ! me_index m)
   \<and> fuzzy (fe_haystack (entries ! me_index m)) needle = Some (me_score m, me_highlights m)"

lemma map_filter_matches:
  "m \<in> set (List.map_filter (match_entry fuzzy flt needle) (zip [0..<length entries] entries))
     \<longleftrightarrow> admitted fuzzy flt needle entries m"
proof -
  have "match_entry fuzzy flt needle (i, e) = Some m \<longleftrightarrow>
      i = me_index m \<and> filter_matches flt e \<and> fuzzy (fe_haystack e) needle = Some (me_score m, me_highlights m)" for i e
    by (cases m) (auto simp: match_entry_def)
  then show ?thesis
    by (auto simp: List.map_filter_def admitted_def set_zip image_iff) (metis add_0 nth_upt option.sel)+
qed

lemma distinct_indices:
  "distinct (map me_index (List.map_filter (match_entry fuzzy flt needle) (zip [0..<n] es)))"
proof -
  have "map me_index (List.map_filter (match_entry fuzzy flt needle) ps)
      = map fst (filter (\<lambda>p. match_entry fuzzy flt needle p \<noteq> None) ps)" for ps
    by (induction ps) (auto simp: List.map_filter_def match_entry_def split: if_splits)
  moreover have "distinct (map fst (zip [0..<n] es))" by (simp add: map_fst_zip_take)
  ultimately show ?thesis by (simp add: distinct_map_filter)
qed

text \<open>
  C30: the finder lists the best fifty matches: every row is an entry that the filter admits and
  the matcher accepts for the lower-cased needle, no entry twice, best rank first; an entry that
  would match and is not listed is outranked by fifty rows; and the cursor is on a row.
\<close>

theorem finder_lists_best_matches:
  assumes "t = rebuild_matches fuzzy lc entries s" and "ms = ff_matches t" and "parse_prefix (ff_query s) = (flt, eff)"
  shows "length ms \<le> 50 \<and> distinct (map me_index ms) \<and> sorted (map (rank entries) ms)
    \<and> (\<forall>m \<in> set ms. admitted fuzzy flt (lc eff) entries m)
    \<and> (\<forall>m. admitted fuzzy flt (lc eff) entries m \<and> m \<notin> set ms
          \<longrightarrow> length ms = 50 \<and> (\<forall>m' \<in> set ms. rank entries m' \<le> rank entries m))
    \<and> (ms = [] \<or> ff_selected t < length ms)"
proof -
  let ?all = "List.map_filter (match_entry fuzzy flt (lc eff)) (zip [0..<length entries] entries)"
  let ?sorted = "sort_key (rank entries) ?all"
  have ms: "ms = take 50 ?sorted"
    by (simp add: assms rebuild_matches_def best_matches_def Let_def)
  have "distinct (map me_index ?sorted)"
    using distinct_indices [of fuzzy flt "lc eff" "length entries" entries]
    by (metis distinct_map distinct_sort set_sort)
  then have "distinct (map me_index ms)" by (simp add: ms distinct_take flip: take_map)
  moreover have sorted: "sorted (map (rank entries) (take 50 ?sorted @ drop 50 ?sorted))" by simp
  then have "sorted (map (rank entries) ms)" unfolding map_append sorted_append ms by blast
  moreover have "admitted fuzzy flt (lc eff) entries m" if "m \<in> set ms" for m
    using set_take_subset [of 50 ?sorted] that by (auto simp: ms simp flip: map_filter_matches)
  moreover have "length ms = 50 \<and> (\<forall>m' \<in> set ms. rank entries m' \<le> rank entries m)"
    if "admitted fuzzy flt (lc eff) entries m" "m \<notin> set ms" for m
  proof -
    have "m \<in> set (take 50 ?sorted @ drop 50 ?sorted)" using that(1) by (simp add: map_filter_matches)
    then have rest: "m \<in> set (drop 50 ?sorted)" using that(2) unfolding ms set_append by blast
    then have "50 < length ?sorted" by (cases "50 < length ?sorted") auto
    moreover have "rank entries m' \<le> rank entries m" if "m' \<in> set ms" for m'
      using sorted that rest unfolding map_append sorted_append ms by auto
    ultimately show ?thesis unfolding ms by simp
  qed
  moreover have "ms = [] \<or> ff_selected t < length ms"
    by (auto simp: assms rebuild_matches_def Let_def)
  moreover have "length ms \<le> 50" by (simp add: ms)
  ultimately show ?thesis by blast
qed

text \<open>A matcher for examples: the pattern as a substring, better the earlier it starts.\<close>

definition substring_matcher :: matcher where
  "substring_matcher hay needle =
     map_option (\<lambda>i. (100 - i, map (\<lambda>k. i + k) [0..<length needle])) (find_sub needle hay)"

definition sample_entry :: "node_kind \<Rightarrow> string \<Rightarrow> flow_index_entry" where
  "sample_entry kind name = \<lparr>fe_id = name, fe_group_id = ''g'', fe_kind = kind, fe_name = name, fe_group_path = ''root'',
     fe_state = BadgePg 0, fe_haystack = name, fe_version_state = None\<rparr>"

lemma finder_lists_best_matches_witness:
  "let entries = [sample_entry Connection ''log'', sample_entry Processor ''log'', sample_entry Processor ''put''];
       t = rebuild_matches substring_matcher (\<lambda>x. x) entries (fuzzy_new\<lparr>ff_query := ''lo''\<rparr>)
   in map me_index (ff_matches t) = [1, 0] \<and> sorted (map (rank entries) (ff_matches t))"
proof -
  let ?entries = "[sample_entry Connection ''log'', sample_entry Processor ''log'', sample_entry Processor ''put'']"
  let ?s = "fuzzy_new\<lparr>ff_query := ''lo''\<rparr>"
  have p: "parse_prefix (ff_query ?s) = (QfNone, ''lo'')" by code_simp
  have "map me_index (ff_matches (rebuild_matches substring_matcher (\<lambda>x. x) ?entries ?s)) = [1, 0]"
    by code_simp
  with finder_lists_best_matches [OF refl refl p, of substring_matcher "\<lambda>x. x" ?entries] show ?thesis
    by (simp add: Let_def)
qed

text \<open>Text that contains no first byte of a white-space character.\<close>

definition solid :: "string \<Rightarrow> bool" where
  "solid s \<longleftrightarrow> list_all (\<lambda>c. c \<notin> set (map hd white_space)) s"

lemma white_space_nonempty: "w \<in> set white_space \<Longrightarrow> w \<noteq> []"
  by (auto simp: white_space_def)

lemma solid_leading: "c \<notin> set (map hd white_space) \<Longrightarrow> leading_space (c # s) = None"
  unfolding leading_space_def find_None_iff
  using white_space_nonempty by (force simp: starts_with_def neq_Nil_conv)

lemma solid_split: "solid a \<Longrightarrow> leading_space s \<noteq> None \<Longrightarrow> split_space (a @ s) = (a, s)"
proof (induction a)
  case Nil
  then show ?case by (cases s) (simp_all add: leading_space_def white_space_def starts_with_def)
next
  case (Cons c a)
  then show ?case using solid_leading [of c] by (simp add: solid_def)
qed

lemma solid_trim:
  assumes "solid a" and "a \<noteq> []"
  shows "trim_start n white_space (a @ s) = a @ s"
proof (cases n)
  case (Suc m)
  have "leading_space (a @ s) = None" using assms solid_leading by (cases a) (auto simp: solid_def)
  then show ?thesis by (simp add: Suc leading_space_def)
qed simp

lemma parse_alias:
  assumes "solid a" and "a \<noteq> []"
  shows "parse_prefix (a @ '' '' @ needle) =
    (case alias_of kind_aliases a of
       Some k \<Rightarrow> (QfKind k, needle)
     | None \<Rightarrow> (case alias_of drift_aliases a of Some d \<Rightarrow> (QfDrift d, needle)
         | None \<Rightarrow> (QfNone, a @ '' '' @ needle)))"
proof -
  have space: "leading_space ('' '' @ needle) = Some '' ''"
    by (simp add: leading_space_def white_space_def starts_with_def)
  then have "split_space (a @ '' '' @ needle) = (a, '' '' @ needle)" by (intro solid_split assms) simp
  moreover have "strip_space ('' '' @ needle) = needle" using space by (simp add: strip_space_def)
  ultimately show ?thesis
    by (simp add: parse_prefix_def solid_trim [OF assms] del: append.simps split: option.split)
qed

lemma alias_tables:
  "list_all (\<lambda>(a, k). solid a \<and> a \<noteq> [] \<and> alias_of kind_aliases a = Some k) kind_aliases"
  "list_all (\<lambda>(a, d). solid a \<and> a \<noteq> [] \<and> alias_of kind_aliases a = None \<and> alias_of drift_aliases a = Some d) drift_aliases"
  by code_simp+

text \<open>
  Every alias followed by one blank selects its filter and leaves the rest as the needle,
  whatever it is, blanks included.
\<close>

theorem prefix_selects_filter:
  "map (\<lambda>(a, k). parse_prefix (a @ '' '' @ needle)) kind_aliases = map (\<lambda>(a, k). (QfKind k, needle)) kind_aliases
   \<and> map (\<lambda>(a, d). parse_prefix (a @ '' '' @ needle)) drift_aliases = map (\<lambda>(a, d). (QfDrift d, needle)) drift_aliases"
proof -
  have "parse_prefix (a @ '' '' @ needle) = (QfKind k, needle)" if "(a, k) \<in> set kind_aliases" for a k
    using alias_tables(1) that parse_alias [of a needle] by (auto simp: list_all_iff)
  moreover have "parse_prefix (a @ '' '' @ needle) = (QfDrift d, needle)" if "(a, d) \<in> set drift_aliases" for a d
    using alias_tables(2) that parse_alias [of a needle] by (auto simp: list_all_iff)
  ultimately show ?thesis by (auto simp del: append.simps intro!: map_cong)
qed

end
