(* ===== verification/App_State.thy ===== *)
theory App_State
  imports Browser_Input Browser_Landing Fuzzy_Find Bulletins_View
begin

text \<open>
  The state of the application above the tabs (\<open>AppState\<close> in \<open>src/src/app/state/mod.rs\<close>): the
  banner, the application modals and the back/forward history, with the state of the Browser and
  Bulletins tabs. The other three tabs are a type variable.

  A cluster version is its text, and the clipboard is two functions of the environment.
\<close>

section \<open>Banners\<close>

datatype banner_severity = BsError | BsWarning | BsInfo

record banner =
  bn_severity :: banner_severity
  bn_message :: string
  bn_detail :: "string option"

section \<open>The context switcher\<close>

record context_entry =
  ce_name :: string
  ce_url :: string
  ce_is_active :: bool
  ce_version :: "string option"
  ce_connecting :: bool

record context_switcher =
  cx_entries :: "context_entry list"
  cx_cursor :: nat

definition switcher_from_config :: "(string \<times> string) list \<Rightarrow> string \<Rightarrow> string \<Rightarrow> context_switcher" where
  "switcher_from_config contexts active_name active_version =
     (let entries = map (\<lambda>(name, url). \<lparr>ce_name = name, ce_url = url, ce_is_active = (name = active_name),
            ce_version = (if name = active_name then Some active_version else None), ce_connecting = False\<rparr>) contexts
      in \<lparr>cx_entries = entries, cx_cursor = unwrap_or 0 (position ce_is_active entries)\<rparr>)"

definition switcher_down :: "context_switcher \<Rightarrow> context_switcher" where
  "switcher_down c =
     (if cx_entries c = [] then c else c\<lparr>cx_cursor := (cx_cursor c + 1) mod length (cx_entries c)\<rparr>)"

definition switcher_up :: "context_switcher \<Rightarrow> context_switcher" where
  "switcher_up c =
     (if cx_entries c = [] then c
      else c\<lparr>cx_cursor := (if cx_cursor c = 0 then length (cx_entries c) - 1 else cx_cursor c - 1)\<rparr>)"

definition switcher_selected :: "context_switcher \<Rightarrow> context_entry option" where
  "switcher_selected c = get_at (cx_entries c) (cx_cursor c)"

text \<open>Enter marks the first entry with the selected name.\<close>

fun mark_connecting :: "string \<Rightarrow> context_entry list \<Rightarrow> context_entry list" where
  "mark_connecting name [] = []"
| "mark_connecting name (e # es) =
     (if ce_name e = name then e\<lparr>ce_connecting := True\<rparr> # es else e # mark_connecting name es)"

section \<open>The goto menu, the help and the save prompt\<close>

datatype go_target = GtBrowser | GtEvents | GtTracer

datatype goto_subject = SubjComponent string string | SubjFlowfile string

definition subject_unknown :: goto_subject where
  "subject_unknown = SubjComponent ''?'' []"

record goto_menu =
  gm_targets :: "go_target list"
  gm_subjects :: "goto_subject list"
  gm_selected :: nat

definition goto_menu_new :: "go_target list \<Rightarrow> goto_subject list \<Rightarrow> goto_menu" where
  "goto_menu_new targets subjects = \<lparr>gm_targets = targets, gm_subjects = subjects, gm_selected = 0\<rparr>"

definition goto_menu_up :: "goto_menu \<Rightarrow> goto_menu" where
  "goto_menu_up m = (if gm_selected m > 0 then m\<lparr>gm_selected := gm_selected m - 1\<rparr> else m)"

definition goto_menu_down :: "goto_menu \<Rightarrow> goto_menu" where
  "goto_menu_down m =
     (if gm_selected m + 1 < length (gm_targets m) then m\<lparr>gm_selected := gm_selected m + 1\<rparr> else m)"

definition selected_target :: "goto_menu \<Rightarrow> go_target option" where
  "selected_target m = get_at (gm_targets m) (gm_selected m)"

definition selected_subject :: "goto_menu \<Rightarrow> goto_subject option" where
  "selected_subject m = get_at (gm_subjects m) (gm_selected m)"

text \<open>The scroll of the help is kept between 0 and a ceiling.\<close>

definition help_scroll_by :: "int \<Rightarrow> nat \<Rightarrow> nat \<Rightarrow> nat" where
  "help_scroll_by delta max_scroll scroll = nat (max 0 (min (int max_scroll) (int scroll + delta)))"

datatype content_side = SideInput | SideOutput

record save_prompt =
  sv_event_id :: int
  sv_side :: content_side
  sv_path :: string

definition save_prompt_new :: "string \<Rightarrow> int \<Rightarrow> content_side \<Rightarrow> save_prompt" where
  "save_prompt_new home event_id side =
     \<lparr>sv_event_id = event_id, sv_side = side,
      sv_path = home @ ''/nifilens-content-'' @ show_int event_id @ ''-''
        @ (case side of SideInput \<Rightarrow> ''input'' | SideOutput \<Rightarrow> ''output'') @ ''.bin''\<rparr>"

definition save_push :: "string \<Rightarrow> save_prompt \<Rightarrow> save_prompt" where
  "save_push ch s = s\<lparr>sv_path := sv_path s @ ch\<rparr>"

definition save_backspace :: "save_prompt \<Rightarrow> save_prompt" where
  "save_backspace s = s\<lparr>sv_path := pop_char (sv_path s)\<rparr>"

section \<open>Modals and the state\<close>

record properties_modal =
  pp_arena_idx :: nat
  pp_selected :: nat

datatype app_modal =
    AmHelp nat
  | AmSwitcher context_switcher
  | AmErrorDetail
  | AmFuzzy fuzzy_state
  | AmProperties properties_modal
  | AmSave save_prompt
  | AmNodeDetail node_health_row
  | AmGoto goto_menu

record 'o app_state =
  as_tab :: view_id
  as_context_name :: string
  as_version :: string
  as_modal :: "app_modal option"
  as_error_detail :: "string option"
  as_banner :: "banner option"
  as_quit :: bool
  as_flow_index :: "flow_index_entry list option"
  as_history :: tab_history
  as_browser :: browser_input
  as_bulletins :: bulletins_state
  as_others :: 'o

text \<open>What a key asks of the application loop.\<close>

datatype cross_link =
    OpenInBrowser string string
  | TraceComponent string
  | GotoEvents string
  | TraceByUuid string
  | OpenParameterContext string "string option"
  | OpenWatch string
  | OpenBulletins string

datatype 'i app_intent =
    AiQuit
  | AiSwitchContext string
  | AiGoto cross_link
  | AiSave string int content_side
  | AiSpawn browser_intent
  | AiWorker browser_effect
  | AiTab 'i

record 'i app_result =
  ar_redraw :: bool
  ar_intent :: "'i app_intent option"
  ar_sparkline :: "browser_intent option"
  ar_listing :: "browser_intent option"

definition nothing :: "'i app_result" where
  "nothing = \<lparr>ar_redraw = False, ar_intent = None, ar_sparkline = None, ar_listing = None\<rparr>"

definition redraw :: "'i app_result" where
  "redraw = \<lparr>ar_redraw = True, ar_intent = None, ar_sparkline = None, ar_listing = None\<rparr>"

definition asks :: "'i app_intent \<Rightarrow> 'i app_result" where
  "asks i = redraw\<lparr>ar_intent := Some i\<rparr>"

section \<open>Banner operations\<close>

definition post_error :: "string \<Rightarrow> string option \<Rightarrow> 'o app_state \<Rightarrow> 'o app_state" where
  "post_error message detail s =
     s\<lparr>as_banner := Some \<lparr>bn_severity = BsError, bn_message = message, bn_detail = detail\<rparr>\<rparr>"

definition post_warning :: "string \<Rightarrow> 'o app_state \<Rightarrow> 'o app_state" where
  "post_warning message s =
     s\<lparr>as_banner := Some \<lparr>bn_severity = BsWarning, bn_message = message, bn_detail = None\<rparr>\<rparr>"

definition post_info :: "string \<Rightarrow> 'o app_state \<Rightarrow> 'o app_state" where
  "post_info message s =
     s\<lparr>as_banner := Some \<lparr>bn_severity = BsInfo, bn_message = message, bn_detail = None\<rparr>\<rparr>"

definition open_banner_detail :: "'o app_state \<Rightarrow> ('o app_state \<times> bool)" where
  "open_banner_detail s =
     (case Option.bind (as_banner s) bn_detail of
        None \<Rightarrow> (s, False)
      | Some d \<Rightarrow> (s\<lparr>as_error_detail := Some d, as_modal := Some AmErrorDetail\<rparr>, True))"

definition close_modal :: "'o app_state \<Rightarrow> 'o app_state" where
  "close_modal s = s\<lparr>as_modal := None, as_error_detail := None\<rparr>"

text \<open>Copying posts what was copied, or why it failed.\<close>

definition copy_text :: "(string \<Rightarrow> string option) \<Rightarrow> string \<Rightarrow> string \<Rightarrow> 'o app_state \<Rightarrow> 'o app_state" where
  "copy_text clip label value s =
     (case clip value of
        None \<Rightarrow> post_info label s
      | Some err \<Rightarrow> post_warning (''clipboard: '' @ err) s)"

definition copied :: "string \<Rightarrow> string" where
  "copied value = ''copied: '' @ take_chars 40 value"

text \<open>What the keys read besides the state: the configuration, the snapshot, the matcher and the clipboard.\<close>

record app_env =
  en_contexts :: "(string \<times> string) list"
  en_fuzzy :: matcher
  en_lower :: "string \<Rightarrow> string"
  en_cadence :: nat
  en_snapshot :: cluster_snapshot
  en_copy :: "string \<Rightarrow> string option"
  en_paste :: "string + string"
  en_help_ceiling :: nat

end
