(* ===== verification/App_Tabs.thy ===== *)
theory App_Tabs
  imports App_State
begin

text \<open>
  The key handlers of the tabs behind the interface the dispatcher calls (\<open>ViewKeyHandler\<close> in
  \<open>src/src/app/state/mod.rs\<close>): \<open>BulletinsHandler\<close> of \<open>src/src/app/state/bulletins.rs\<close> and
  \<open>BrowserHandler\<close> of \<open>src/src/app/state/browser/mod.rs\<close>, the cross-links of their selections, and
  the record the other tabs supply.

  A handler answers \<open>None\<close> when the source panics; otherwise the new state and the result, no
  result for a key it leaves to the caller.
\<close>

section \<open>The interface\<close>

type_synonym ('o, 'i) answer = "('o app_state \<times> 'i app_result option) option"

record ('o, 'i) tab_handler =
  th_verb :: "view_verb \<Rightarrow> 'o app_state \<Rightarrow> ('o, 'i) answer"
  th_focus :: "focus_action \<Rightarrow> 'o app_state \<Rightarrow> ('o, 'i) answer"
  th_text_input :: "key_event \<Rightarrow> 'o app_state \<Rightarrow> ('o, 'i) answer"
  th_typing :: "'o app_state \<Rightarrow> bool"
  th_blocks :: "'o app_state \<Rightarrow> bool"
  th_default_link :: "'o app_state \<Rightarrow> go_target option"

definition takes :: "'i app_result \<Rightarrow> 'o app_state \<Rightarrow> ('o, 'i) answer" where
  "takes r s = Some (s, Some r)"

definition declines :: "'o app_state \<Rightarrow> ('o, 'i) answer" where
  "declines s = Some (s, None)"

section \<open>Bulletins\<close>

definition map_bulletins :: "(bulletins_state \<Rightarrow> bulletins_state) \<Rightarrow> 'o app_state \<Rightarrow> 'o app_state" where
  "map_bulletins f s = s\<lparr>as_bulletins := f (as_bulletins s)\<rparr>"

definition bulletins_searching :: "bulletins_state \<Rightarrow> bool" where
  "bulletins_searching b = typing (Option.bind (bs_detail_modal b) dm_search)"

definition bulletins_typing :: "bulletins_state \<Rightarrow> bool" where
  "bulletins_typing b \<longleftrightarrow> bs_text_input b \<noteq> None \<or> bulletins_searching b"

fun bulletins_verb_op :: "(string \<Rightarrow> string) \<Rightarrow> bulletins_verb \<Rightarrow> bulletins_state \<Rightarrow> bulletins_state" where
  "bulletins_verb_op lc (BlToggleSeverity SvError) b = toggle_error lc b"
| "bulletins_verb_op lc (BlToggleSeverity SvWarning) b = toggle_warning lc b"
| "bulletins_verb_op lc (BlToggleSeverity SvInfo) b = toggle_info lc b"
| "bulletins_verb_op lc BlCycleTypeFilter b = cycle_component_type lc b"
| "bulletins_verb_op lc BlCycleGroupBy b = cycle_group_mode lc b"
| "bulletins_verb_op lc BlTogglePause b = toggle_pause lc b"
| "bulletins_verb_op lc BlMuteSource b = mute_selected_source lc b"
| "bulletins_verb_op lc BlClearFilters b = clear_filters lc b"
| "bulletins_verb_op lc BlOpenDetail b = snd (open_detail_modal lc b)"
| "bulletins_verb_op lc (BlCommon CvOpenSearch) b = enter_text_input_mode b"
| "bulletins_verb_op lc (BlCommon _) b = b"

definition bulletins_copy_message :: "(string \<Rightarrow> string) \<Rightarrow> bulletins_state \<Rightarrow> string option" where
  "bulletins_copy_message lc b =
     (case modal_copy_message b of
        Some m \<Rightarrow> Some m
      | None \<Rightarrow> map_option gd_raw_message (group_details lc b))"

fun detail_verb_op :: "common_verb \<Rightarrow> bulletins_state \<Rightarrow> bulletins_state" where
  "detail_verb_op CvOpenSearch b = modal_search_open b"
| "detail_verb_op CvSearchNext b = modal_search_cycle_next b"
| "detail_verb_op CvSearchPrev b = modal_search_cycle_prev b"
| "detail_verb_op CvClose b = close_detail_modal b"
| "detail_verb_op CvCopy b = b"
| "detail_verb_op CvRefresh b = b"

definition copy_bulletin :: "app_env \<Rightarrow> string option \<Rightarrow> 'o app_state \<Rightarrow> 'o app_state" where
  "copy_bulletin E msg s = (case msg of None \<Rightarrow> s | Some m \<Rightarrow> copy_text (en_copy E) (copied m) m s)"

definition bulletins_verb :: "app_env \<Rightarrow> view_verb \<Rightarrow> 'o app_state \<Rightarrow> ('o, 'i) answer" where
  "bulletins_verb E v s =
     (case v of
        VBulletinsDetail (DvCommon c) \<Rightarrow>
          takes redraw (map_bulletins (detail_verb_op c)
            (if c = CvCopy then copy_bulletin E (modal_copy_message (as_bulletins s)) s else s))
      | VBulletins b \<Rightarrow>
          if bs_detail_modal (as_bulletins s) \<noteq> None then takes nothing s
          else if b = BlCommon CvCopy
          then (case bulletins_copy_message (en_lower E) (as_bulletins s) of
                  None \<Rightarrow> takes nothing s
                | Some m \<Rightarrow> takes redraw (copy_bulletin E (Some m) s))
          else takes redraw (map_bulletins (bulletins_verb_op (en_lower E) b) s)
      | _ \<Rightarrow> if bs_detail_modal (as_bulletins s) \<noteq> None then takes nothing s else declines s)"

fun detail_focus_op :: "focus_action \<Rightarrow> (bulletins_state \<Rightarrow> bulletins_state) option" where
  "detail_focus_op FaUp = Some (modal_scroll_by (- 1))"
| "detail_focus_op FaDown = Some (modal_scroll_by 1)"
| "detail_focus_op FaPageUp = Some modal_page_up"
| "detail_focus_op FaPageDown = Some modal_page_down"
| "detail_focus_op FaFirst = Some modal_jump_top"
| "detail_focus_op FaLast = Some modal_jump_bottom"
| "detail_focus_op FaAscend = Some close_detail_modal"
| "detail_focus_op _ = None"

fun list_focus_op :: "(string \<Rightarrow> string) \<Rightarrow> focus_action \<Rightarrow> (bulletins_state \<Rightarrow> bulletins_state) option" where
  "list_focus_op lc FaUp = Some (move_selection_up lc)"
| "list_focus_op lc FaDown = Some (move_selection_down lc)"
| "list_focus_op lc FaFirst = Some (goto_oldest lc)"
| "list_focus_op lc FaLast = Some (goto_newest lc)"
| "list_focus_op lc _ = None"

definition bulletins_focus :: "app_env \<Rightarrow> focus_action \<Rightarrow> 'o app_state \<Rightarrow> ('o, 'i) answer" where
  "bulletins_focus E a s =
     (if bs_detail_modal (as_bulletins s) \<noteq> None
      then (case detail_focus_op a of
              Some f \<Rightarrow> takes redraw (map_bulletins f s)
            | None \<Rightarrow> takes nothing s)
      else case list_focus_op (en_lower E) a of
              Some f \<Rightarrow> takes redraw (map_bulletins f s)
            | None \<Rightarrow> declines s)"

text \<open>A pasted text is typed character by character; \<open>chars\<close> splits UTF-8.\<close>

fun chars :: "string \<Rightarrow> string list" where
  "chars [] = []"
| "chars (c # s) =
     (case chars s of
        (d # ds) # rest \<Rightarrow> if is_cont d then (c # d # ds) # rest else [c] # (d # ds) # rest
      | rest \<Rightarrow> [c] # rest)"

definition paste_filter :: "(string \<Rightarrow> string) \<Rightarrow> string \<Rightarrow> bulletins_state \<Rightarrow> bulletins_state" where
  "paste_filter lc pasted b =
     foldl (\<lambda>t ch. push_text_input lc ch (selected_ring_index lc b) t) b (chars pasted)"

fun search_edit :: "key_code \<Rightarrow> (bulletins_state \<Rightarrow> bulletins_state) option" where
  "search_edit KEsc = Some modal_search_cancel"
| "search_edit KEnter = Some modal_search_commit"
| "search_edit KBackspace = Some modal_search_pop"
| "search_edit (KChar ch) = Some (modal_search_push ch)"
| "search_edit _ = None"

text \<open>The keys of the filter prompt; unmodified v pastes and x cuts.\<close>

definition filter_key :: "app_env \<Rightarrow> key_event \<Rightarrow> 'o app_state \<Rightarrow> ('o, 'i) answer" where
  "filter_key E k s =
     (let lc = en_lower E; b = as_bulletins s; prev = selected_ring_index lc b;
          edit = (\<lambda>f. takes redraw (map_bulletins f s))
      in case ke_code k of
           KEsc \<Rightarrow> edit (cancel_text_input lc prev)
         | KEnter \<Rightarrow> edit (commit_text_input lc prev)
         | KBackspace \<Rightarrow> edit (pop_text_input lc prev)
         | KChar ch \<Rightarrow>
             if ch = ''v'' \<and> ke_mods k = {}
             then (case en_paste E of
                     Inr pasted \<Rightarrow> edit (paste_filter lc pasted)
                   | Inl err \<Rightarrow> takes redraw (post_warning (''clipboard paste: '' @ err) s))
             else if ch = ''x'' \<and> ke_mods k = {} then edit (cancel_text_input lc prev)
             else edit (push_text_input lc ch prev)
         | _ \<Rightarrow> takes nothing s)"

definition bulletins_text_input :: "app_env \<Rightarrow> key_event \<Rightarrow> 'o app_state \<Rightarrow> ('o, 'i) answer" where
  "bulletins_text_input E k s =
     (if bulletins_searching (as_bulletins s)
      then (case search_edit (ke_code k) of
              Some f \<Rightarrow> takes redraw (map_bulletins f s)
            | None \<Rightarrow> takes nothing s)
      else if bs_text_input (as_bulletins s) \<noteq> None \<and> (ke_mods k = {} \<or> ke_mods k = {MShift})
      then filter_key E k s
      else declines s)"

definition bulletins_handler :: "app_env \<Rightarrow> ('o, 'i) tab_handler" where
  "bulletins_handler E =
     \<lparr>th_verb = bulletins_verb E, th_focus = bulletins_focus E, th_text_input = bulletins_text_input E,
      th_typing = (\<lambda>s. bulletins_typing (as_bulletins s)), th_blocks = (\<lambda>s. bulletins_typing (as_bulletins s)),
      th_default_link = (\<lambda>s. if selected_ring_index (en_lower E) (as_bulletins s) \<noteq> None then Some GtBrowser else None)\<rparr>"

section \<open>Browser\<close>

definition map_browser :: "(browser_input \<Rightarrow> browser_input) \<Rightarrow> 'o app_state \<Rightarrow> 'o app_state" where
  "map_browser f s = s\<lparr>as_browser := f (as_browser s)\<rparr>"

fun link_of :: "browser_intent \<Rightarrow> 'i app_intent" where
  "link_of (GotoBrowser i g) = AiGoto (OpenInBrowser i g)"
| "link_of (GotoParameterContext g name) = AiGoto (OpenParameterContext g name)"
| "link_of i = AiSpawn i"

definition of_update :: "update_result \<Rightarrow> 'i app_result" where
  "of_update r = \<lparr>ar_redraw = ur_redraw r, ar_intent = map_option link_of (ur_intent r),
     ar_sparkline = ur_sparkline r, ar_listing = ur_queue_listing r\<rparr>"

definition browser_focus :: "app_env \<Rightarrow> focus_action \<Rightarrow> 'o app_state \<Rightarrow> ('o, 'i) answer" where
  "browser_focus E a s =
     map_option (\<lambda>(p, r). (s\<lparr>as_browser := (as_browser s)\<lparr>bi_pane := p\<rparr>\<rparr>, map_option of_update r))
       (handle_focus (en_lower E) (en_cadence E) (bs_ring (as_bulletins s)) a (bi_pane (as_browser s)))"

definition browser_text_input :: "app_env \<Rightarrow> key_event \<Rightarrow> 'o app_state \<Rightarrow> ('o, 'i) answer" where
  "browser_text_input E k s =
     map_option (\<lambda>(b, taken). if taken then (s\<lparr>as_browser := b\<rparr>, Some redraw) else (s, None))
       (handle_text_input (en_lower E) k (as_browser s))"

text \<open>
  What a verb of the tab or of the listing asks for. A copied id in the tree is shown whole, any
  other text by its first forty characters.
\<close>

definition run_effect :: "app_env \<Rightarrow> bool \<Rightarrow> browser_effect \<Rightarrow> 'o app_state \<Rightarrow> 'o app_state \<times> 'i app_result" where
  "run_effect E whole e s =
     (case e of
        NoEffect \<Rightarrow> (s, nothing)
      | Redraw \<Rightarrow> (s, redraw)
      | CopyText t \<Rightarrow> (copy_text (en_copy E) (if whole then ''copied id: '' @ t else copied t) t s, redraw)
      | OpenPropertiesModal i \<Rightarrow> (s\<lparr>as_modal := Some (AmProperties \<lparr>pp_arena_idx = i, pp_selected = 0\<rparr>)\<rparr>, redraw)
      | WatchComponent i \<Rightarrow> (s, asks (AiGoto (OpenWatch i)))
      | TraceFlowfile uuid \<Rightarrow> (s, asks (AiGoto (TraceByUuid uuid)))
      | _ \<Rightarrow> (s, asks (AiWorker e)))"

definition run_taken :: "'o app_state \<times> 'i app_result \<Rightarrow> ('o, 'i) answer" where
  "run_taken x = Some (fst x, Some (snd x))"

fun modal_verb :: "view_verb \<Rightarrow> bool" where
  "modal_verb (VVersion _) = True"
| "modal_verb (VParam _) = True"
| "modal_verb (VAction _) = True"
| "modal_verb (VAccess _) = True"
| "modal_verb (VIdentity _) = True"
| "modal_verb (VBrowserPeek _) = True"
| "modal_verb _ = False"

definition browser_verb :: "app_env \<Rightarrow> view_verb \<Rightarrow> 'o app_state \<Rightarrow> ('o, 'i) answer" where
  "browser_verb E v s =
     (case v of
        VBrowser b \<Rightarrow>
          Option.bind (browser_verb_step (bs_ring (as_bulletins s)) (en_snapshot E) b (as_browser s)) (\<lambda>(t, e).
            run_taken (run_effect E (bt_detail_focus (bp_tree (bi_pane t)) = FocusTree) e (s\<lparr>as_browser := t\<rparr>)))
      | VBrowserQueue q \<Rightarrow>
          (let (p, e) = queue_step (en_lower E) q (bi_pane (as_browser s))
           in run_taken (run_effect E False e (map_browser (on_pane (\<lambda>_. p)) s)))
      | _ \<Rightarrow>
          if modal_verb v
          then map_option (\<lambda>t. (s\<lparr>as_browser := t\<rparr>, Some redraw))
                 (handle_verb (en_lower E) (bs_ring (as_bulletins s)) (en_snapshot E) v (as_browser s))
          else declines s)"

definition browser_handler :: "app_env \<Rightarrow> ('o, 'i) tab_handler" where
  "browser_handler E =
     \<lparr>th_verb = browser_verb E, th_focus = browser_focus E, th_text_input = browser_text_input E,
      th_typing = (\<lambda>s. is_text_input_focused (as_browser s)), th_blocks = (\<lambda>s. is_text_input_focused (as_browser s)),
      th_default_link = (\<lambda>s. None)\<rparr>"

section \<open>Cross-links of the selection\<close>

definition bulletin_selected :: "app_env \<Rightarrow> 'o app_state \<Rightarrow> bulletin_snapshot option" where
  "bulletin_selected E s =
     Option.bind (selected_ring_index (en_lower E) (as_bulletins s)) (get_at (bs_ring (as_bulletins s)))"

text \<open>The detail of the connection whose queue is listed.\<close>

definition listed_connection :: "browser_tree \<Rightarrow> connection_detail option" where
  "listed_connection t =
     Option.bind (selected_arena t) (\<lambda>a. case bt_details t a of Some (DtConnection c) \<Rightarrow> Some c | _ \<Rightarrow> None)"

definition listing_row :: "app_env \<Rightarrow> 'o app_state \<Rightarrow> queue_listing_row option" where
  "listing_row E s = selected_flowfile (en_lower E) (bi_pane (as_browser s))"

definition tree_component :: "browser_tree \<Rightarrow> tree_node option" where
  "tree_component t =
     Option.bind (selected_node t) (\<lambda>n. if is_folder (tn_kind n) then None else Some n)"

text \<open>The cross-link and the subject of the menu entry; the other tabs supply theirs.\<close>

type_synonym 'o link_source = "'o app_state \<Rightarrow> go_target \<Rightarrow> (cross_link \<times> goto_subject) option"

definition bulletins_link :: "app_env \<Rightarrow> 'o link_source" where
  "bulletins_link E s t =
     (case t of
        GtBrowser \<Rightarrow> map_option (\<lambda>b. (OpenInBrowser (bu_source_id b) (bu_group_id b),
            SubjComponent (bu_source_name b) (bu_source_id b))) (bulletin_selected E s)
      | GtEvents \<Rightarrow> map_option (\<lambda>b. (GotoEvents (bu_source_id b),
            SubjComponent (bu_source_name b) (bu_source_id b))) (bulletin_selected E s)
      | GtTracer \<Rightarrow> None)"

definition browser_link :: "app_env \<Rightarrow> 'o link_source" where
  "browser_link E s t =
     (let p = bi_pane (as_browser s) in
      case t of
        GtBrowser \<Rightarrow> None
      | GtEvents \<Rightarrow>
          if bp_listing_focused p
          then Option.bind (listing_row E s) (\<lambda>row. map_option (\<lambda>c. (GotoEvents (cd_source_id c),
                 SubjComponent (unwrap_or (take_chars 8 (qr_uuid row)) (qr_filename row)) (cd_source_id c)))
                 (listed_connection (bp_tree p)))
          else map_option (\<lambda>n. (GotoEvents (tn_id n), SubjComponent (tn_name n) (tn_id n)))
                 (tree_component (bp_tree p))
      | GtTracer \<Rightarrow>
          if bp_listing_focused p
          then map_option (\<lambda>row. (TraceByUuid (qr_uuid row), SubjFlowfile (qr_uuid row))) (listing_row E s)
          else None)"

end
