(* ===== verification/App_Keys.thy ===== *)
theory App_Keys
  imports App_Tabs
begin

text \<open>
  The whole path of a key through the application: \<open>handle_key\<close> of \<open>src/src/app/state/mod.rs\<close>
  with the history, the application shortcuts, the goto menu and every application modal.

  The Overview, Events and Tracer tabs are arguments: their handlers, their part of the input
  context, their cross-links and the save request of the Tracer. The banner texts are kept. Key
  F12, which only logs, answers nothing.
\<close>

section \<open>The tabs together\<close>

record ('o, 'i) others =
  ot_handler :: "view_id \<Rightarrow> ('o, 'i) tab_handler"
  ot_ctx :: "'o \<Rightarrow> input_ctx"
  ot_link :: "view_id \<Rightarrow> 'o link_source"
  ot_save :: "'o \<Rightarrow> string \<Rightarrow> 'i app_intent option"

definition handler_of :: "app_env \<Rightarrow> ('o, 'i) others \<Rightarrow> view_id \<Rightarrow> ('o, 'i) tab_handler" where
  "handler_of E W tab =
     (case tab of
        Bulletins \<Rightarrow> bulletins_handler E
      | Browser \<Rightarrow> browser_handler E
      | _ \<Rightarrow> ot_handler W tab)"

definition link_source :: "app_env \<Rightarrow> ('o, 'i) others \<Rightarrow> 'o link_source" where
  "link_source E W s =
     (case as_tab s of
        Bulletins \<Rightarrow> bulletins_link E s
      | Browser \<Rightarrow> browser_link E s
      | _ \<Rightarrow> ot_link W (as_tab s) s)"

definition build_go_crosslink :: "app_env \<Rightarrow> ('o, 'i) others \<Rightarrow> 'o app_state \<Rightarrow> go_target \<Rightarrow> cross_link option" where
  "build_go_crosslink E W s t = map_option fst (link_source E W s t)"

definition build_goto_subject :: "app_env \<Rightarrow> ('o, 'i) others \<Rightarrow> 'o app_state \<Rightarrow> go_target \<Rightarrow> goto_subject option" where
  "build_goto_subject E W s t = map_option snd (link_source E W s t)"

definition selection_cross_links :: "app_env \<Rightarrow> ('o, 'i) others \<Rightarrow> 'o app_state \<Rightarrow> go_target list" where
  "selection_cross_links E W s =
     filter (\<lambda>t. build_go_crosslink E W s t \<noteq> None) [GtBrowser, GtEvents, GtTracer]"

text \<open>What the key map reads of the state.\<close>

definition app_ctx :: "app_env \<Rightarrow> ('o, 'i) others \<Rightarrow> 'o app_state \<Rightarrow> input_ctx" where
  "app_ctx E W s =
     (let c = browser_ctx (en_snapshot E) (as_browser s) in
      (ot_ctx W (as_others s))
        \<lparr>ic_tab := as_tab s, ic_app_modal := (as_modal s \<noteq> None),
         ic_version_modal := ic_version_modal c, ic_param_modal := ic_param_modal c,
         ic_action_modal := ic_action_modal c, ic_peek_modal := ic_peek_modal c,
         ic_access_modal := ic_access_modal c, ic_identity_modal := ic_identity_modal c,
         ic_detail_modal := (bs_detail_modal (as_bulletins s) \<noteq> None),
         ic_listing_focused := ic_listing_focused c, ic_enabled := ic_enabled c\<rparr>)"

section \<open>History and tabs\<close>

definition app_anchor :: "'o app_state \<Rightarrow> selection_anchor option" where
  "app_anchor s = capture_anchor (as_tab s) (bp_tree (bi_pane (as_browser s))) (bs_selected (as_bulletins s))"

definition current_entry :: "'o app_state \<Rightarrow> history_entry" where
  "current_entry s = \<lparr>he_tab = as_tab s, he_anchor = app_anchor s\<rparr>"

text \<open>Restoring an entry; \<open>None\<close> is a panic.\<close>

definition restore_entry ::
  "app_env \<Rightarrow> history_entry \<Rightarrow> 'o app_state \<Rightarrow> ('o app_state \<times> 'i app_result) option" where
  "restore_entry E entry s =
     map_option (\<lambda>(p, r). (s\<lparr>as_tab := he_tab entry, as_browser := (as_browser s)\<lparr>bi_pane := p\<rparr>,
         as_bulletins := (as_bulletins s)\<lparr>bs_selected := restore_bulletin_row entry
           (length (filtered_indices (en_lower E) (as_bulletins s))) (bs_selected (as_bulletins s))\<rparr>\<rparr>, of_update r))
       (restore_browser (en_cadence E) entry (bi_pane (as_browser s)))"

definition history_key :: "app_env \<Rightarrow> history_action \<Rightarrow> 'o app_state \<Rightarrow> ('o app_state \<times> 'i app_result) option" where
  "history_key E a s =
     (if as_modal s \<noteq> None then Some (s, nothing)
      else case (case a of HaBack \<Rightarrow> pop_back | HaForward \<Rightarrow> pop_forward) (current_entry s) (as_history s) of
          (None, h) \<Rightarrow> Some (s, redraw)
        | (Some entry, h) \<Rightarrow> restore_entry E entry (s\<lparr>as_history := h\<rparr>))"

definition tab_of_number :: "nat \<Rightarrow> view_id option" where
  "tab_of_number n =
     (if n = 1 then Some Overview else if n = 2 then Some Bulletins else if n = 3 then Some Browser
      else if n = 4 then Some Events else if n = 5 then Some Tracer else None)"

definition tab_key :: "bool \<Rightarrow> nat \<Rightarrow> 'o app_state \<Rightarrow> 'o app_state \<times> 'i app_result" where
  "tab_key blocked n s =
     (if as_modal s \<noteq> None \<or> blocked then (s, nothing)
      else case tab_of_number n of
          None \<Rightarrow> (s, nothing)
        | Some tab \<Rightarrow> (s\<lparr>as_tab := tab\<rparr>, redraw))"

section \<open>Application shortcuts\<close>

definition goto_key :: "app_env \<Rightarrow> ('o, 'i) others \<Rightarrow> 'o app_state \<Rightarrow> 'o app_state \<times> 'i app_result" where
  "goto_key E W s =
     (case selection_cross_links E W s of
        [] \<Rightarrow> (s, nothing)
      | [t] \<Rightarrow>
          (s, case build_go_crosslink E W s t of None \<Rightarrow> nothing | Some link \<Rightarrow> asks (AiGoto link))
      | targets \<Rightarrow>
          (s\<lparr>as_modal := Some (AmGoto (goto_menu_new targets
               (map (\<lambda>t. unwrap_or subject_unknown (build_goto_subject E W s t)) targets)))\<rparr>, redraw))"

fun app_key :: "app_env \<Rightarrow> ('o, 'i) others \<Rightarrow> app_action \<Rightarrow> 'o app_state \<Rightarrow> 'o app_state \<times> 'i app_result" where
  "app_key E W AaHelp s = (s\<lparr>as_modal := Some (AmHelp 0)\<rparr>, redraw)"
| "app_key E W AaContextSwitcher s =
     (s\<lparr>as_modal := Some (AmSwitcher (switcher_from_config (en_contexts E) (as_context_name s) (as_version s)))\<rparr>, redraw)"
| "app_key E W AaFuzzyFind s =
     (case as_flow_index s of
        None \<Rightarrow> (post_warning ''fuzzy find: flow not indexed yet, open Browser to seed'' s, redraw)
      | Some entries \<Rightarrow>
          (s\<lparr>as_modal := Some (AmFuzzy (rebuild_matches (en_fuzzy E) (en_lower E) entries fuzzy_new))\<rparr>, redraw))"
| "app_key E W AaGoto s = goto_key E W s"
| "app_key E W AaPaste s = (s, nothing)"
| "app_key E W AaCut s = (s, nothing)"
| "app_key E W AaQuit s = (s\<lparr>as_quit := True\<rparr>, nothing\<lparr>ar_intent := Some AiQuit\<rparr>)"

section \<open>Modals\<close>

definition close_app_modal :: "'o app_state \<Rightarrow> 'o app_state" where
  "close_app_modal s = s\<lparr>as_modal := None\<rparr>"

definition set_modal :: "app_modal \<Rightarrow> 'o app_state \<Rightarrow> 'o app_state" where
  "set_modal m s = s\<lparr>as_modal := Some m\<rparr>"

definition help_key :: "nat \<Rightarrow> key_event \<Rightarrow> nat \<Rightarrow> 'o app_state \<Rightarrow> 'o app_state \<times> 'i app_result" where
  "help_key ceiling k scroll s =
     (let to = (\<lambda>n. (set_modal (AmHelp n) s, redraw)) in
      case ke_code k of
        KEsc \<Rightarrow> (close_app_modal s, redraw)
      | KChar c \<Rightarrow> if c = ''?'' then (close_app_modal s, redraw) else (s, nothing)
      | KUp \<Rightarrow> to (help_scroll_by (- 1) ceiling scroll)
      | KDown \<Rightarrow> to (help_scroll_by 1 ceiling scroll)
      | KPageUp \<Rightarrow> to (help_scroll_by (- 10) ceiling scroll)
      | KPageDown \<Rightarrow> to (help_scroll_by 10 ceiling scroll)
      | KHome \<Rightarrow> to 0
      | KEnd \<Rightarrow> to ceiling
      | _ \<Rightarrow> (s, nothing))"

definition switcher_key :: "key_event \<Rightarrow> context_switcher \<Rightarrow> 'o app_state \<Rightarrow> 'o app_state \<times> 'i app_result" where
  "switcher_key k c s =
     (if \<exists>e \<in> set (cx_entries c). ce_connecting e then (s, nothing)
      else case ke_code k of
        KEsc \<Rightarrow> (close_app_modal s, redraw)
      | KDown \<Rightarrow> (set_modal (AmSwitcher (switcher_down c)) s, redraw)
      | KUp \<Rightarrow> (set_modal (AmSwitcher (switcher_up c)) s, redraw)
      | KEnter \<Rightarrow>
          (case switcher_selected c of
             None \<Rightarrow> (s, nothing)
           | Some e \<Rightarrow>
               (set_modal (AmSwitcher (c\<lparr>cx_entries := mark_connecting (ce_name e) (cx_entries c)\<rparr>)) s,
                asks (AiSwitchContext (ce_name e))))
      | _ \<Rightarrow> (s, nothing))"

text \<open>The matches follow the query; without an index they stay.\<close>

definition refind :: "app_env \<Rightarrow> flow_index_entry list option \<Rightarrow> fuzzy_state \<Rightarrow> fuzzy_state" where
  "refind E index f =
     (case index of None \<Rightarrow> f | Some entries \<Rightarrow> rebuild_matches (en_fuzzy E) (en_lower E) entries f)"

definition finder_enter :: "fuzzy_state \<Rightarrow> 'o app_state \<Rightarrow> 'o app_state \<times> 'i app_result" where
  "finder_enter f s =
     (close_app_modal s,
      case Option.bind (as_flow_index s) (\<lambda>entries. selected_entry entries f) of
        None \<Rightarrow> redraw
      | Some e \<Rightarrow> asks (AiGoto (OpenInBrowser (fe_id e) (fe_group_id e))))"

definition finder_key :: "app_env \<Rightarrow> key_event \<Rightarrow> fuzzy_state \<Rightarrow> 'o app_state \<Rightarrow> 'o app_state \<times> 'i app_result" where
  "finder_key E k f s =
     (let to = (\<lambda>f. (set_modal (AmFuzzy f) s, redraw)); typed = (\<lambda>f. to (refind E (as_flow_index s) f)) in
      case ke_code k of
        KEsc \<Rightarrow> (close_app_modal s, redraw)
      | KUp \<Rightarrow> to (fuzzy_up f)
      | KDown \<Rightarrow> to (fuzzy_down f)
      | KBackspace \<Rightarrow> if ke_mods k = {} then typed (fuzzy_pop f) else (s, nothing)
      | KChar ch \<Rightarrow>
          if ch = ''p'' \<and> ke_mods k = {MControl} then to (fuzzy_up f)
          else if ch = ''n'' \<and> ke_mods k = {MControl} then to (fuzzy_down f)
          else if ke_mods k = {} \<or> ke_mods k = {MShift} then typed (fuzzy_push ch f)
          else (s, nothing)
      | KEnter \<Rightarrow> finder_enter f s
      | _ \<Rightarrow> (s, nothing))"

text \<open>The properties shown by the modal are read from the arena index it was opened with.\<close>

definition shown_properties :: "browser_tree \<Rightarrow> nat \<Rightarrow> (string \<times> string) list" where
  "shown_properties t i =
     (case bt_details t i of
        Some (DtProcessor p) \<Rightarrow> pd_properties p
      | Some (DtControllerService c) \<Rightarrow> csd_properties c
      | _ \<Rightarrow> [])"

definition owning_group :: "browser_tree \<Rightarrow> nat \<Rightarrow> string" where
  "owning_group t i =
     (case bt_details t i of
        Some (DtProcessor p) \<Rightarrow> (case find (\<lambda>n. tn_id n = pd_id p) (bt_nodes t) of None \<Rightarrow> [] | Some n \<Rightarrow> tn_group_id n)
      | Some (DtControllerService c) \<Rightarrow> or_empty (csd_parent_group_id c)
      | _ \<Rightarrow> [])"

definition property_link :: "browser_tree \<Rightarrow> string \<Rightarrow> string \<Rightarrow> cross_link option" where
  "property_link t owning_pg_id v =
     (case resolve_id v t of
        Some r \<Rightarrow> Some (OpenInBrowser (trim v) (rr_group_id r))
      | None \<Rightarrow>
          if parameter_context_ref_for owning_pg_id t = None then None
          else (case scan_param_refs v of
              SingleRef name \<Rightarrow> Some (OpenParameterContext owning_pg_id (Some name))
            | MultipleRefs \<Rightarrow> Some (OpenParameterContext owning_pg_id None)
            | NoRef \<Rightarrow> None))"

definition properties_key :: "app_env \<Rightarrow> key_event \<Rightarrow> properties_modal \<Rightarrow> 'o app_state \<Rightarrow> 'o app_state \<times> 'i app_result" where
  "properties_key E k p s =
     (let t = bp_tree (bi_pane (as_browser s));
          props = shown_properties t (pp_arena_idx p);
          move = (\<lambda>c. (set_modal (AmProperties (p\<lparr>pp_selected := cr_selected
                   (nav_apply cursor_ref_nav \<lparr>cr_len = length props, cr_selected = pp_selected p\<rparr> c)\<rparr>)) s, redraw))
      in case ke_code k of
           KEsc \<Rightarrow> (close_app_modal s, redraw)
         | KUp \<Rightarrow> move MoveUp
         | KDown \<Rightarrow> move MoveDown
         | KPageUp \<Rightarrow> move (PageUp 10)
         | KPageDown \<Rightarrow> move (PageDown 10)
         | KHome \<Rightarrow> move GotoFirst
         | KEnd \<Rightarrow> move GotoLast
         | KChar c \<Rightarrow>
             if c = ''p'' \<and> ke_mods k = {} then (close_app_modal s, redraw)
             else if c = ''c'' \<and> ke_mods k = {}
             then (case get_at props (pp_selected p) of
                     None \<Rightarrow> s
                   | Some (name, value) \<Rightarrow> copy_text (en_copy E) (copied value) value s, redraw)
             else (s, nothing)
         | KEnter \<Rightarrow>
             (case Option.bind (get_at props (pp_selected p)) (\<lambda>(name, v). property_link t (owning_group t (pp_arena_idx p)) v) of
                None \<Rightarrow> (s, nothing)
              | Some link \<Rightarrow> (close_app_modal s, asks (AiGoto link)))
         | _ \<Rightarrow> (s, nothing))"

definition save_key :: "('o, 'i) others \<Rightarrow> key_event \<Rightarrow> save_prompt \<Rightarrow> 'o app_state \<Rightarrow> 'o app_state \<times> 'i app_result" where
  "save_key W k p s =
     (case ke_code k of
        KEsc \<Rightarrow> (close_app_modal s, redraw)
      | KBackspace \<Rightarrow> (set_modal (AmSave (save_backspace p)) s, redraw)
      | KChar ch \<Rightarrow>
          if MControl \<in> ke_mods k then (s, nothing) else (set_modal (AmSave (save_push ch p)) s, redraw)
      | KEnter \<Rightarrow> (close_app_modal s, redraw\<lparr>ar_intent := ot_save W (as_others s) (sv_path p)\<rparr>)
      | _ \<Rightarrow> (s, nothing))"

definition menu_key :: "app_env \<Rightarrow> ('o, 'i) others \<Rightarrow> key_event \<Rightarrow> goto_menu \<Rightarrow> 'o app_state \<Rightarrow> 'o app_state \<times> 'i app_result" where
  "menu_key E W k g s =
     (case ke_code k of
        KEsc \<Rightarrow> (close_app_modal s, redraw)
      | KUp \<Rightarrow> (set_modal (AmGoto (goto_menu_up g)) s, redraw)
      | KDown \<Rightarrow> (set_modal (AmGoto (goto_menu_down g)) s, redraw)
      | KEnter \<Rightarrow>
          (close_app_modal s,
           case Option.bind (selected_target g) (build_go_crosslink E W (close_app_modal s)) of
             None \<Rightarrow> redraw
           | Some link \<Rightarrow> asks (AiGoto link))
      | _ \<Rightarrow> (s, nothing))"

definition modal_key ::
  "app_env \<Rightarrow> ('o, 'i) others \<Rightarrow> key_event \<Rightarrow> 'o app_state \<Rightarrow> 'o app_state \<times> 'i app_result" where
  "modal_key E W k s =
     (case as_modal s of
        None \<Rightarrow> (s, nothing)
      | Some (AmHelp scroll) \<Rightarrow> help_key (en_help_ceiling E) k scroll s
      | Some AmErrorDetail \<Rightarrow> if ke_code k = KEsc then (close_modal s, redraw) else (s, nothing)
      | Some (AmSwitcher c) \<Rightarrow> switcher_key k c s
      | Some (AmFuzzy f) \<Rightarrow> finder_key E k f s
      | Some (AmProperties p) \<Rightarrow> properties_key E k p s
      | Some (AmSave p) \<Rightarrow> save_key W k p s
      | Some (AmNodeDetail r) \<Rightarrow> if ke_code k = KEsc then (close_app_modal s, redraw) else (s, nothing)
      | Some (AmGoto g) \<Rightarrow> menu_key E W k g s)"

section \<open>A key\<close>

text \<open>A banner that is not an error goes with the next key, Esc apart.\<close>

definition clear_toast :: "input_event \<Rightarrow> 'o app_state \<Rightarrow> 'o app_state" where
  "clear_toast ev s =
     (if as_modal s = None \<and> ev \<noteq> IeFocus FaAscend
        \<and> (case as_banner s of None \<Rightarrow> False | Some b \<Rightarrow> bn_severity b \<noteq> BsError)
      then s\<lparr>as_banner := None\<rparr> else s)"

text \<open>What a handler leaves to the caller goes on to the rest of the dispatch.\<close>

definition or_else ::
  "('o, 'i) answer \<Rightarrow> ('o app_state \<Rightarrow> 'o app_state \<times> 'i app_result) \<Rightarrow> ('o app_state \<times> 'i app_result) option" where
  "or_else r rest = map_option (\<lambda>(t, x). case x of Some y \<Rightarrow> (t, y) | None \<Rightarrow> rest t) r"

definition default_link :: "app_env \<Rightarrow> ('o, 'i) others \<Rightarrow> 'o app_state \<Rightarrow> cross_link option" where
  "default_link E W s =
     Option.bind (th_default_link (handler_of E W (as_tab s)) s) (build_go_crosslink E W s)"

definition focus_key ::
  "app_env \<Rightarrow> ('o, 'i) others \<Rightarrow> focus_action \<Rightarrow> key_event \<Rightarrow> 'o app_state
   \<Rightarrow> ('o app_state \<times> 'i app_result) option" where
  "focus_key E W a k s =
     (if a = FaDescend \<and> snd (open_banner_detail s) then Some (fst (open_banner_detail s), redraw)
      else if a = FaAscend \<and> as_banner s \<noteq> None then Some (s\<lparr>as_banner := None\<rparr>, redraw)
      else or_else (th_focus (handler_of E W (as_tab s)) a s) (\<lambda>t.
        case (if a = FaDescend then default_link E W t else None) of
          None \<Rightarrow> modal_key E W k t
        | Some link \<Rightarrow> (t, asks (AiGoto link))))"

definition dispatch_event ::
  "app_env \<Rightarrow> ('o, 'i) others \<Rightarrow> input_event \<Rightarrow> key_event \<Rightarrow> 'o app_state
   \<Rightarrow> ('o app_state \<times> 'i app_result) option" where
  "dispatch_event E W ev k s =
     (let h = handler_of E W (as_tab s); modal = Some (modal_key E W k s) in
      case ev of
        IeUnmapped \<Rightarrow> modal
      | IeHistory a \<Rightarrow> history_key E a s
      | IeTab (TaGoto n) \<Rightarrow> Some (tab_key (th_blocks h s) n s)
      | IeApp a \<Rightarrow>
          if a \<noteq> AaQuit \<and> (as_modal s \<noteq> None \<or> th_blocks h s) then modal else Some (app_key E W a s)
      | IeFocus a \<Rightarrow> if as_modal s = None then focus_key E W a k s else modal
      | IeView v \<Rightarrow>
          if as_modal s = None then or_else (th_verb h v s) (modal_key E W k) else modal)"

definition handle_key ::
  "app_env \<Rightarrow> ('o, 'i) others \<Rightarrow> key_event \<Rightarrow> 'o app_state \<Rightarrow> ('o app_state \<times> 'i app_result) option" where
  "handle_key E W k s =
     (let h = handler_of E W (as_tab s);
          typed = (\<lambda>t. let ev = translate k (app_ctx E W t) in dispatch_event E W ev k (clear_toast ev t))
      in if ke_code k = KF 12 then Some (s, nothing)
         else if as_modal s = None \<and> th_typing h s
         then (case th_text_input h k s of
                 None \<Rightarrow> None
               | Some (t, Some r) \<Rightarrow> Some (t, r)
               | Some (t, None) \<Rightarrow> typed t)
         else typed s)"

section \<open>An open modal keeps the tabs out\<close>

text \<open>Everything but the modal, the banner and the quit flag is as it was.\<close>

definition tabs_same :: "'o app_state \<Rightarrow> 'o app_state \<Rightarrow> bool" where
  "tabs_same t s \<longleftrightarrow> as_tab t = as_tab s \<and> as_browser t = as_browser s \<and> as_bulletins t = as_bulletins s
     \<and> as_others t = as_others s \<and> as_history t = as_history s \<and> as_flow_index t = as_flow_index s
     \<and> as_context_name t = as_context_name s"

lemmas modal_key_defs = help_key_def switcher_key_def finder_key_def finder_enter_def properties_key_def save_key_def
  menu_key_def Let_def

lemma tabs_same_simps [simp]:
  "tabs_same s s" "tabs_same (close_app_modal s) s" "tabs_same (set_modal m s) s" "tabs_same (close_modal s) s"
  "tabs_same (copy_text clip label v s) s" "tabs_same (s\<lparr>as_quit := q\<rparr>) s"
  by (simp_all add: tabs_same_def close_app_modal_def set_modal_def close_modal_def copy_text_def post_info_def
      post_warning_def split: option.split)

lemma modal_key_same: "tabs_same (fst (modal_key E W k s)) s"
  by (simp add: modal_key_def modal_key_defs split: option.split app_modal.split key_code.split prod.split)

lemma clear_toast_modal [simp]: "as_modal s \<noteq> None \<Longrightarrow> clear_toast ev s = s"
  by (auto simp: clear_toast_def)

lemma modal_dispatch:
  assumes "as_modal s \<noteq> None"
  shows "dispatch_event E W ev k s =
     (case ev of
        IeHistory a \<Rightarrow> Some (s, nothing)
      | IeTab t \<Rightarrow> Some (s, nothing)
      | IeApp a \<Rightarrow> Some (if a = AaQuit then app_key E W AaQuit s else modal_key E W k s)
      | _ \<Rightarrow> Some (modal_key E W k s))"
  using assms
  by (cases "as_modal s")
    (simp_all add: dispatch_event_def Let_def history_key_def tab_key_def split: input_event.split tab_action.split)

text \<open>
  C5: while an application modal is open no key panics, and no key reaches the tab behind it: tab,
  selections, filters, history and flow index stay as they are, whatever the handlers of the tabs.
\<close>

theorem app_modal_shields_tabs:
  assumes "as_modal s \<noteq> None"
  shows "\<exists>t r. handle_key E W k s = Some (t, r) \<and> tabs_same t s"
proof -
  have "\<exists>t r. dispatch_event E W ev k s = Some (t, r) \<and> tabs_same t s" for ev
    using modal_key_same [of E W k s]
    by (cases "modal_key E W k s") (auto simp: modal_dispatch [OF assms] split: input_event.split)
  then show ?thesis using assms by (auto simp: handle_key_def Let_def)
qed

section \<open>Esc closes the modal\<close>

lemma lookup_chord: "lookup t k = Some e \<Longrightarrow> \<exists>c. (c, e) \<in> set t \<and> chord_matches c k"
  by (auto simp: lookup_def find_Some_iff intro!: nth_mem) (metis nth_mem)

definition plain_event :: "input_event \<Rightarrow> bool" where
  "plain_event ev \<longleftrightarrow> (case ev of IeHistory _ \<Rightarrow> False | IeTab _ \<Rightarrow> False | IeApp _ \<Rightarrow> False | _ \<Rightarrow> True)"

lemma esc_framework:
  assumes "ke_code k = KEsc" and "lookup framework_table k = Some ev"
  shows "plain_event ev"
proof -
  obtain c where "(c, ev) \<in> set framework_table" "ch_key c = KEsc"
    using lookup_chord [OF assms(2)] assms(1) by (auto simp: chord_matches_def)
  then show ?thesis
    by (auto simp: framework_table_def focus_table_def plain_event_def ha_all_def ha_chord_def ta_all_def ta_chord_def
        aa_all_def aa_chord_def chord_defs)
qed

lemma esc_listing:
  assumes "ke_code k = KEsc" and "lookup listing_table k = Some ev"
  shows "plain_event ev"
proof -
  obtain c where "(c, ev) \<in> set listing_table" "ch_key c = KEsc"
    using lookup_chord [OF assms(2)] assms(1) by (auto simp: chord_matches_def)
  then show ?thesis
    by (auto simp: listing_table_def focus_table_def plain_event_def aa_chord_def chord_defs)
qed

lemma no_gate_under_modal: "ic_app_modal ctx \<Longrightarrow> first_some (try_dispatch ctx k) gates = None"
  by (simp add: gates_def try_dispatch_def content_gate_def reporting_gate_def version_gate_def param_gate_def
      action_gate_def peek_gate_def identity_gate_def access_gate_def detail_gate_def)

lemma esc_event:
  assumes "ke_code k = KEsc" and "ic_app_modal ctx"
  shows "plain_event (translate k ctx)"
proof -
  have k: "normalize_key k = k" "\<not> quits k" using assms(1) by (simp_all add: normalize_key_def quits_def)
  have plain: "plain_event (or_unmapped r)" if "\<And>ev. r = Some ev \<Longrightarrow> plain_event ev" for r
    using that by (cases r) (auto simp: or_unmapped_def plain_event_def)
  have "plain_event (or_unmapped (lookup listing_table k))"
    by (rule plain) (rule esc_listing [OF assms(1)])
  moreover have "plain_event (or_unmapped (map_option IeView (lookup (view_table ctx) k)))"
    by (rule plain) (auto simp: plain_event_def)
  ultimately show ?thesis
    using esc_framework [OF assms(1)]
    by (auto simp: translate_def Let_def no_gate_under_modal [OF assms(2)] k split: option.split)
qed

definition connecting :: "'o app_state \<Rightarrow> bool" where
  "connecting s = (case as_modal s of Some (AmSwitcher c) \<Rightarrow> list_ex ce_connecting (cx_entries c) | _ \<Rightarrow> False)"

text \<open>
  C29: Esc closes whatever application modal is open in any tab, the context switcher included
  until a context has been chosen.
\<close>

theorem esc_closes_app_modal:
  assumes "as_modal s \<noteq> None" and "ke_code k = KEsc" and "\<not> connecting s"
  shows "\<exists>t. handle_key E W k s = Some (t, redraw) \<and> as_modal t = None"
proof -
  have key: "snd (modal_key E W k s) = redraw \<and> as_modal (fst (modal_key E W k s)) = None"
    using assms
    by (auto simp: modal_key_def modal_key_defs close_app_modal_def close_modal_def connecting_def list_ex_iff
        split: app_modal.split)
  have "ic_app_modal (app_ctx E W s)" using assms(1) by (simp add: app_ctx_def Let_def)
  note ev = esc_event [OF assms(2) this]
  have "dispatch_event E W (translate k (app_ctx E W s)) k s = Some (modal_key E W k s)"
    using ev by (simp add: modal_dispatch [OF assms(1)] plain_event_def split: input_event.splits)
  then show ?thesis
    using key assms(1,2) by (cases "modal_key E W k s") (auto simp: handle_key_def Let_def)
qed

section \<open>Cursors of the modals\<close>

definition modal_ok :: "app_env \<Rightarrow> 'o app_state \<Rightarrow> bool" where
  "modal_ok E s \<longleftrightarrow>
     (case as_modal s of
        Some (AmHelp n) \<Rightarrow> n \<le> en_help_ceiling E
      | Some (AmSwitcher c) \<Rightarrow> cx_entries c = [] \<or> cx_cursor c < length (cx_entries c)
      | Some (AmFuzzy f) \<Rightarrow> ff_selected f = 0 \<or> ff_selected f < length (ff_matches f)
      | Some (AmProperties p) \<Rightarrow>
          pp_selected p = 0 \<or> pp_selected p < length (shown_properties (bp_tree (bi_pane (as_browser s))) (pp_arena_idx p))
      | Some (AmGoto g) \<Rightarrow> gm_selected g < length (gm_targets g) \<and> length (gm_subjects g) = length (gm_targets g)
      | _ \<Rightarrow> True)"

text \<open>What the dispatcher asks of a tab: its handlers, called with no modal open, leave a good one.\<close>

locale modal_keeping =
  fixes E :: app_env and h :: "('o, 'i) tab_handler"
  assumes verb_keeps: "as_modal s = None \<Longrightarrow> th_verb h v s = Some (t, r) \<Longrightarrow> modal_ok E t"
    and focus_keeps: "as_modal s = None \<Longrightarrow> th_focus h a s = Some (t, r) \<Longrightarrow> modal_ok E t"
    and typing_keeps: "as_modal s = None \<Longrightarrow> th_text_input h k s = Some (t, r) \<Longrightarrow> modal_ok E t \<and> (r = None \<longrightarrow> as_modal t = None)"

lemma no_modal_ok: "as_modal s = None \<Longrightarrow> modal_ok E s"
  by (simp add: modal_ok_def)

lemma modal_frame [simp]:
  "as_modal (map_bulletins f s) = as_modal s" "as_modal (map_browser g s) = as_modal s"
  "as_modal (copy_text clip label v s) = as_modal s" "as_modal (post_warning m s) = as_modal s"
  "as_modal (copy_bulletin E msg s) = as_modal s"
  by (simp_all add: map_bulletins_def map_browser_def copy_text_def post_info_def post_warning_def copy_bulletin_def
      split: option.split)

lemma effect_ok: "as_modal u = None \<Longrightarrow> modal_ok E (fst (run_effect E w e u))"
  by (simp add: run_effect_def no_modal_ok split: browser_effect.split) (simp add: modal_ok_def)

lemma filter_key_modal: "\<exists>t r. filter_key E k s = takes r t \<and> as_modal t = as_modal s"
proof (cases "ke_code k")
  case (KChar c)
  then show ?thesis
    by (cases "c = ''v'' \<and> ke_mods k = {}"; cases "c = ''x'' \<and> ke_mods k = {}"; cases "en_paste E")
      (auto simp: filter_key_def Let_def intro: modal_frame)
qed (auto simp: filter_key_def Let_def intro: modal_frame)

interpretation bulletins_keep: modal_keeping E "bulletins_handler E" for E
proof
  fix s t :: "'a app_state" and r :: "'b app_result option"
  assume none: "as_modal s = None"
  { fix v assume "th_verb (bulletins_handler E) v s = Some (t, r)"
    then show "modal_ok E t"
      using none by (auto simp: bulletins_handler_def bulletins_verb_def takes_def declines_def no_modal_ok
          split: view_verb.splits detail_verb.splits option.splits if_splits) }
  { fix a assume "th_focus (bulletins_handler E) a s = Some (t, r)"
    then show "modal_ok E t"
      using none by (auto simp: bulletins_handler_def bulletins_focus_def takes_def declines_def no_modal_ok
          split: option.splits if_splits) }
  { fix k assume "th_text_input (bulletins_handler E) k s = Some (t, r)"
    then have "as_modal t = None"
      using none filter_key_modal [of E k s, where 'b = 'b]
      by (auto simp: bulletins_handler_def bulletins_text_input_def takes_def declines_def split: option.splits if_splits)
    then show "modal_ok E t \<and> (r = None \<longrightarrow> as_modal t = None)" by (simp add: no_modal_ok) }
qed

interpretation browser_keep: modal_keeping E "browser_handler E" for E
proof
  fix s t :: "'a app_state" and r :: "'b app_result option"
  assume none: "as_modal s = None"
  { fix v assume "th_verb (browser_handler E) v s = Some (t, r)"
    then show "modal_ok E t"
      using none by (auto simp: browser_handler_def browser_verb_def run_taken_def declines_def no_modal_ok
          bind_eq_Some_conv intro!: effect_ok split: view_verb.splits prod.splits if_splits) }
  { fix a assume "th_focus (browser_handler E) a s = Some (t, r)"
    then show "modal_ok E t" using none by (auto simp: browser_handler_def browser_focus_def no_modal_ok) }
  { fix k assume "th_text_input (browser_handler E) k s = Some (t, r)"
    then have "as_modal t = None"
      using none by (auto simp: browser_handler_def browser_text_input_def split: if_splits)
    then show "modal_ok E t \<and> (r = None \<longrightarrow> as_modal t = None)" by (simp add: no_modal_ok) }
qed

text \<open>Each operation of a modal keeps its cursor in range.\<close>

lemma switcher_ok:
  "cx_entries c = [] \<or> cx_cursor c < length (cx_entries c) \<Longrightarrow>
     cx_entries (f c) = [] \<or> cx_cursor (f c) < length (cx_entries (f c))"
  if "f = switcher_up \<or> f = switcher_down"
  using that mod_less_divisor [of "length (cx_entries c)" "cx_cursor c + 1"]
  by (cases "cx_entries c = []"; cases "cx_cursor c") (auto simp: switcher_up_def switcher_down_def simp del: mod_less_divisor)

lemma mark_connecting_length [simp]: "length (mark_connecting name es) = length es"
  by (induction es) simp_all

lemma mark_connecting_Nil [simp]: "mark_connecting name es = [] \<longleftrightarrow> es = []"
  by (cases es) simp_all

lemma finder_cursor:
  "ff_selected (rebuild_matches fuzzy lc entries f) = 0
   \<or> ff_selected (rebuild_matches fuzzy lc entries f) < length (ff_matches (rebuild_matches fuzzy lc entries f))"
  "ff_selected f = 0 \<or> ff_selected f < length (ff_matches f) \<Longrightarrow>
     ff_selected (fuzzy_up f) = 0 \<or> ff_selected (fuzzy_up f) < length (ff_matches (fuzzy_up f))"
  "ff_selected f = 0 \<or> ff_selected f < length (ff_matches f) \<Longrightarrow>
     ff_selected (fuzzy_down f) = 0 \<or> ff_selected (fuzzy_down f) < length (ff_matches (fuzzy_down f))"
  by (auto simp: rebuild_matches_def fuzzy_up_def fuzzy_down_def Let_def split: prod.split)

lemma finder_edit_cursor:
  "ff_selected (fuzzy_push ch f) = ff_selected f" "ff_matches (fuzzy_push ch f) = ff_matches f"
  "ff_selected (fuzzy_pop f) = ff_selected f" "ff_matches (fuzzy_pop f) = ff_matches f"
  by (simp_all add: fuzzy_push_def fuzzy_pop_def)

lemma refind_cursor:
  "ff_selected f = 0 \<or> ff_selected f < length (ff_matches f) \<Longrightarrow>
     ff_selected (refind E index f) = 0 \<or> ff_selected (refind E index f) < length (ff_matches (refind E index f))"
  using finder_cursor(1) by (auto simp: refind_def split: option.split)

lemma cursor_moves:
  "i = 0 \<or> i < n \<Longrightarrow> cr_selected (nav_apply cursor_ref_nav \<lparr>cr_len = n, cr_selected = i\<rparr> c) = 0
     \<or> cr_selected (nav_apply cursor_ref_nav \<lparr>cr_len = n, cr_selected = i\<rparr> c) < n"
  by (cases c) (auto simp: nav_defs cursor_ref_nav_def cursor_ref_selected_def cursor_ref_set_def Let_def)

lemma help_bound: "help_scroll_by d c n \<le> c"
  by (simp add: help_scroll_by_def)

lemma modal_key_ok:
  assumes "modal_ok E s"
  shows "modal_ok E (fst (modal_key E W k s))"
proof -
  have closed [simp]: "modal_ok E (close_app_modal s)" "modal_ok E (close_modal s)"
    by (simp_all add: no_modal_ok close_app_modal_def close_modal_def)
  have copy [simp]: "modal_ok E (copy_text clip label v s)" for clip label v
    using assms by (simp add: modal_ok_def copy_text_def post_info_def post_warning_def split: option.splits app_modal.splits)
  have set: "modal_ok E (set_modal m s) \<longleftrightarrow> modal_ok E (s\<lparr>as_modal := Some m\<rparr>)" for m by (simp add: set_modal_def)
  show ?thesis
  proof (cases "as_modal s")
    case (Some m)
    show ?thesis
    proof (cases m)
      case (AmHelp n)
      then show ?thesis using assms Some
        by (simp add: modal_key_def help_key_def Let_def set split: key_code.split) (simp add: modal_ok_def help_bound)
    next
      case (AmSwitcher c)
      then show ?thesis using assms Some switcher_ok [of switcher_up c] switcher_ok [of switcher_down c]
        by (simp add: modal_key_def switcher_key_def Let_def set split: key_code.split option.split)
          (simp add: modal_ok_def)
    next
      case (AmFuzzy f)
      then have f: "ff_selected f = 0 \<or> ff_selected f < length (ff_matches f)" using assms Some by (simp add: modal_ok_def)
      have ok: "modal_ok E (set_modal (AmFuzzy g) s)" if "ff_selected g = 0 \<or> ff_selected g < length (ff_matches g)" for g
        using that by (simp add: modal_ok_def set_modal_def)
      show ?thesis using AmFuzzy Some assms
          ok [OF finder_cursor(2) [OF f]] ok [OF finder_cursor(3) [OF f]]
          ok [OF refind_cursor, of "fuzzy_push _ f"] ok [OF refind_cursor, of "fuzzy_pop f"] f
        by (simp add: modal_key_def finder_key_def finder_enter_def Let_def finder_edit_cursor split: key_code.split)
    next
      case (AmProperties p)
      then have p: "pp_selected p = 0 \<or>
          pp_selected p < length (shown_properties (bp_tree (bi_pane (as_browser s))) (pp_arena_idx p))"
        using assms Some by (simp add: modal_ok_def)
      have ok: "modal_ok E (set_modal (AmProperties (p\<lparr>pp_selected := cr_selected (nav_apply cursor_ref_nav
          \<lparr>cr_len = length (shown_properties (bp_tree (bi_pane (as_browser s))) (pp_arena_idx p)),
           cr_selected = pp_selected p\<rparr> c)\<rparr>)) s)" for c
        using cursor_moves [OF p, of c] by (simp add: modal_ok_def set_modal_def)
      show ?thesis using AmProperties Some assms ok
        by (simp add: modal_key_def properties_key_def Let_def split: key_code.split option.split prod.split
            del: nav_apply.simps)
    next
      case (AmSave v)
      then show ?thesis using Some assms
        by (simp add: modal_key_def save_key_def set split: key_code.split) (simp add: modal_ok_def)
    next
      case (AmGoto g)
      then show ?thesis using assms Some
        by (simp add: modal_key_def menu_key_def set split: key_code.split)
          (auto simp: modal_ok_def goto_menu_up_def goto_menu_down_def)
    qed (use Some assms in \<open>simp_all add: modal_key_def\<close>)
  qed (simp add: modal_key_def assms)
qed

lemma app_key_ok: "modal_ok E s \<Longrightarrow> a = AaQuit \<or> as_modal s = None \<Longrightarrow> modal_ok E (fst (app_key E W a s))"
proof (cases a)
  case AaContextSwitcher
  have first: "es = [] \<or> unwrap_or 0 (position p es) < length es" for p and es :: "context_entry list"
    using position_Some [of p es] by (cases "position p es") (auto simp: unwrap_or_def)
  show ?thesis
    using AaContextSwitcher first [of "cx_entries (switcher_from_config (en_contexts E) (as_context_name s) (as_version s))" ce_is_active]
    by (simp add: modal_ok_def switcher_from_config_def Let_def)
next
  case AaFuzzyFind
  moreover have "modal_ok E (post_warning m s) = modal_ok E s" for m
    by (simp add: modal_ok_def post_warning_def split: option.split app_modal.split)
  ultimately show "modal_ok E s \<Longrightarrow> ?thesis" using finder_cursor(1)
    by (auto split: option.split) (auto simp: modal_ok_def)
next
  case AaGoto
  assume "modal_ok E s"
  then have "modal_ok E (fst (goto_key E W s))"
    by (auto simp: goto_key_def goto_menu_new_def split: list.split) (simp_all add: modal_ok_def)
  with AaGoto show ?thesis by simp
qed (auto simp: modal_ok_def split: option.split app_modal.split)

text \<open>A session of keys; \<open>None\<close> is a panic.\<close>

fun press_all ::
  "app_env \<Rightarrow> ('o, 'i) others \<Rightarrow> key_event list \<Rightarrow> 'o app_state \<Rightarrow> 'o app_state option" where
  "press_all E W [] s = Some s"
| "press_all E W (k # ks) s = Option.bind (map_option fst (handle_key E W k s)) (press_all E W ks)"

lemma history_key_ok: "modal_ok E s \<Longrightarrow> history_key E a s = Some (t, r) \<Longrightarrow> modal_ok E t"
proof (cases "as_modal s = None")
  case True
  assume "history_key E a s = Some (t, r)"
  then have "as_modal t = None"
    using True by (auto simp: history_key_def restore_entry_def split: option.splits prod.splits history_action.splits)
  then show ?thesis by (rule no_modal_ok)
qed (auto simp: history_key_def)

lemma or_else_ok:
  assumes "or_else r rest = Some (t, x)" and "\<And>u y. r = Some (u, y) \<Longrightarrow> modal_ok E u"
    and "\<And>u. modal_ok E u \<Longrightarrow> modal_ok E (fst (rest u))"
  shows "modal_ok E t"
proof -
  from assms(1) obtain u y where u: "r = Some (u, y)" "(case y of Some z \<Rightarrow> (u, z) | None \<Rightarrow> rest u) = (t, x)"
    by (auto simp: or_else_def)
  from assms(2) [OF u(1)] assms(3) [of u] u(2) show ?thesis by (cases y) auto
qed

lemma handler_keeps:
  assumes "\<And>tab. modal_keeping E (ot_handler W tab)"
  shows "modal_keeping E (handler_of E W tab)"
  using assms bulletins_keep.modal_keeping_axioms browser_keep.modal_keeping_axioms
  by (cases tab) (simp_all add: handler_of_def)

lemma focus_key_ok:
  assumes W: "\<And>tab. modal_keeping E (ot_handler W tab)" and none: "as_modal s = None"
    and key: "focus_key E W a k s = Some (t, r)"
  shows "modal_ok E t"
proof -
  note keeps = modal_keeping.focus_keeps [OF handler_keeps [OF W] none]
  have rest: "modal_ok E u \<Longrightarrow> modal_ok E (fst (case x of None \<Rightarrow> modal_key E W k u | Some link \<Rightarrow> (u, asks (AiGoto link))))"
    for u x using modal_key_ok by (cases x) auto
  have "modal_ok E (fst (open_banner_detail s))"
    using none by (simp add: open_banner_detail_def no_modal_ok split: option.split) (simp add: modal_ok_def)
  then show ?thesis
    using key none
    by (auto simp: focus_key_def no_modal_ok split: if_splits intro: or_else_ok [OF _ keeps rest])
qed

lemma dispatch_ok:
  assumes W: "\<And>tab. modal_keeping E (ot_handler W tab)" and ok: "modal_ok E s"
    and ev: "dispatch_event E W ev k s = Some (t, r)"
  shows "modal_ok E t"
proof -
  have modal: "modal_key E W k s = (t, r) \<Longrightarrow> modal_ok E t" using modal_key_ok [OF ok, of W k] by auto
  show ?thesis
  proof (cases ev)
    case (IeApp a)
    then show ?thesis using ev modal app_key_ok [OF ok, of a W] by (auto simp: dispatch_event_def Let_def split: if_splits)
  next
    case (IeTab n)
    then show ?thesis using ev ok
      by (cases n) (auto simp: dispatch_event_def Let_def tab_key_def no_modal_ok split: if_splits option.splits)
  next
    case (IeView v)
    then show ?thesis using ev modal
      by (auto simp: dispatch_event_def Let_def split: if_splits
          intro: or_else_ok [OF _ modal_keeping.verb_keeps [OF handler_keeps [OF W]] modal_key_ok])
  next
    case (IeFocus a)
    then show ?thesis using ev modal focus_key_ok [OF W]
      by (auto simp: dispatch_event_def Let_def split: if_splits)
  qed (use ev modal history_key_ok [OF ok] in \<open>auto simp: dispatch_event_def Let_def\<close>)
qed

lemma toast_ok: "modal_ok E s \<Longrightarrow> modal_ok E (clear_toast ev s)"
  by (auto simp: clear_toast_def modal_ok_def)

lemma handle_key_ok:
  assumes W: "\<And>tab. modal_keeping E (ot_handler W tab)" and ok: "modal_ok E s"
    and key: "handle_key E W k s = Some (t, r)"
  shows "modal_ok E t"
proof -
  let ?h = "handler_of E W (as_tab s)"
  have dispatched: "modal_ok E u \<Longrightarrow> dispatch_event E W ev k (clear_toast ev u) = Some (t, r) \<Longrightarrow> modal_ok E t" for u ev
    using dispatch_ok [OF W] toast_ok by blast
  show ?thesis
  proof (cases "as_modal s = None \<and> th_typing ?h s \<and> ke_code k \<noteq> KF 12")
    case True
    then have none: "as_modal s = None" by simp
    show ?thesis
      using key True modal_keeping.typing_keeps [OF handler_keeps [OF W] none, of "as_tab s" k] dispatched
      by (auto simp: handle_key_def Let_def split: option.splits if_splits)
  next
    case False
    then show ?thesis using key ok dispatched [OF ok]
      by (auto simp: handle_key_def Let_def split: if_splits)
  qed
qed

text \<open>
  C15: the cursor of every application modal stays on a row that exists, through any sequence of
  keys: the context switcher and the goto menu never select past their last entry, the finder and
  the properties never past their last row, and the help never scrolls past its ceiling.
\<close>

theorem app_cursors_in_range:
  assumes "\<And>tab. modal_keeping E (ot_handler W tab)" and "as_modal s = None"
  shows "case press_all E W ks s of None \<Rightarrow> True | Some t \<Rightarrow> modal_ok E t"
proof -
  have "modal_ok E s \<Longrightarrow> case press_all E W ks s of None \<Rightarrow> True | Some t \<Rightarrow> modal_ok E t"
  proof (induction ks arbitrary: s)
    case (Cons k ks)
    then show ?case using handle_key_ok [OF assms(1), of s k] by (cases "handle_key E W k s") auto
  qed simp
  then show ?thesis using assms(2) no_modal_ok by blast
qed

section \<open>Back and forward\<close>

lemma relisted_tree [simp]: "bp_tree (fst (relisted s)) = bp_tree s"
  by (simp add: relisted_def refresh_queue_listing_def split: prod.split option.split)

lemma restore_browser_ok:
  assumes "browser_ok (bp_tree s)"
  shows "\<exists>p r. restore_browser cadence entry s = Some (p, r) \<and> browser_ok (bp_tree p)
    \<and> bt_nodes (bp_tree p) = bt_nodes (bp_tree s)
    \<and> (\<forall>c. entry = \<lparr>he_tab = Browser, he_anchor = Some (ComponentId c)\<rparr> \<and> c \<in> tn_id ` set (bt_nodes (bp_tree s))
        \<longrightarrow> map_option tn_id (selected_node (bp_tree p)) = Some c)"
proof -
  have same: "\<exists>p r. Some (relisted s) = Some (p, r) \<and> browser_ok (bp_tree p) \<and> bt_nodes (bp_tree p) = bt_nodes (bp_tree s)"
    using assms by (cases "relisted s") (metis fst_conv relisted_tree)
  show ?thesis
  proof (cases "\<exists>c. he_anchor entry = Some (ComponentId c) \<and> he_tab entry = Browser")
    case False
    then show ?thesis
      using same by (auto simp: restore_browser_def split: option.split selection_anchor.split view_id.split)
  next
    case True
    then obtain c where c: "he_anchor entry = Some (ComponentId c)" "he_tab entry = Browser" by blast
    show ?thesis
    proof (cases "find_component c (bp_tree s)")
      case None
      then have "c \<notin> tn_id ` set (bt_nodes (bp_tree s))" by (auto simp: find_component_def position_None)
      with None c show ?thesis using same by (auto simp: restore_browser_def)
    next
      case (Some i)
      note at = find_component_Some [OF Some]
      from land_on_ok [OF assms, of i cadence] at obtain p r where "land_on cadence i s = Some (p, r)"
        "browser_ok (bp_tree p)" "selected_arena (bp_tree p) = Some i" "bt_nodes (bp_tree p) = bt_nodes (bp_tree s)"
        by blast
      with Some c at show ?thesis
        by (intro exI [of _ p] exI [of _ r]) (auto simp: restore_browser_def selected_node_def)
    qed
  qed
qed

lemma restore_entry_ok:
  assumes "browser_ok (bp_tree (bi_pane (as_browser s)))"
  shows "\<exists>t r. restore_entry E entry s = Some (t, r) \<and> as_tab t = he_tab entry \<and> as_modal t = as_modal s
    \<and> as_history t = as_history s \<and> browser_ok (bp_tree (bi_pane (as_browser t)))
    \<and> bt_nodes (bp_tree (bi_pane (as_browser t))) = bt_nodes (bp_tree (bi_pane (as_browser s)))
    \<and> (\<forall>c. entry = \<lparr>he_tab = Browser, he_anchor = Some (ComponentId c)\<rparr>
          \<and> c \<in> tn_id ` set (bt_nodes (bp_tree (bi_pane (as_browser s))))
        \<longrightarrow> map_option tn_id (selected_node (bp_tree (bi_pane (as_browser t)))) = Some c)"
  using restore_browser_ok [OF assms, of "en_cadence E" entry] by (fastforce simp: restore_entry_def)

lemma forward_top: "trim_front max_history (xs @ [e]) \<noteq> [] \<and> last (trim_front max_history (xs @ [e])) = e"
  by (cases xs) (simp_all add: trim_front_def max_history_def)

text \<open>
  C10: stepping back in the history and forward again returns to the tab one started from and, in
  the Browser tab, to the component that was selected there, wherever the step back had landed.
\<close>

theorem back_then_forward:
  assumes "as_modal s = None" and "th_back (as_history s) \<noteq> []"
    and "browser_ok (bp_tree (bi_pane (as_browser s)))"
  shows "\<exists>t (r :: 'i app_result) u (r' :: 'i app_result). history_key E HaBack s = Some (t, r) \<and> history_key E HaForward t = Some (u, r')
    \<and> as_tab u = as_tab s
    \<and> (as_tab s = Browser \<and> selected_node (bp_tree (bi_pane (as_browser s))) \<noteq> None \<longrightarrow>
         map_option tn_id (selected_node (bp_tree (bi_pane (as_browser u))))
           = map_option tn_id (selected_node (bp_tree (bi_pane (as_browser s)))))"
proof -
  let ?tree = "\<lambda>s. bp_tree (bi_pane (as_browser s))"
  obtain h where h: "pop_back (current_entry s) (as_history s) = (Some (last (th_back (as_history s))), h)"
    "th_forward h = trim_front max_history (th_forward (as_history s) @ [current_entry s])"
    using assms(2) by (simp add: pop_back_def)
  from restore_entry_ok [of "s\<lparr>as_history := h\<rparr>" E "last (th_back (as_history s))"] assms
  obtain t and r :: "'i app_result" where t: "restore_entry E (last (th_back (as_history s))) (s\<lparr>as_history := h\<rparr>) = Some (t, r)"
    "as_modal t = None" "as_history t = h" "browser_ok (?tree t)" "bt_nodes (?tree t) = bt_nodes (?tree s)" by auto
  obtain h' where h': "pop_forward (current_entry t) h = (Some (current_entry s), h')"
    using forward_top [of "th_forward (as_history s)" "current_entry s"] h(2) by (simp add: pop_forward_def)
  have ok: "browser_ok (?tree (t\<lparr>as_history := h'\<rparr>))" using t(4) by simp
  from restore_entry_ok [OF ok, of E "current_entry s"]
  obtain u and r' :: "'i app_result" where u: "restore_entry E (current_entry s) (t\<lparr>as_history := h'\<rparr>) = Some (u, r')"
    "as_tab u = he_tab (current_entry s)"
    "\<forall>c. current_entry s = \<lparr>he_tab = Browser, he_anchor = Some (ComponentId c)\<rparr>
       \<and> c \<in> tn_id ` set (bt_nodes (?tree (t\<lparr>as_history := h'\<rparr>)))
       \<longrightarrow> map_option tn_id (selected_node (?tree u)) = Some c" by blast
  have sel: "map_option tn_id (selected_node (?tree u)) = map_option tn_id (selected_node (?tree s))"
    if tab: "as_tab s = Browser" and n: "selected_node (?tree s) = Some n" for n
  proof -
    have "n \<in> set (bt_nodes (?tree s))"
      using n by (auto simp: selected_node_def bind_eq_Some_conv get_at_def split: if_splits)
    then show ?thesis
      using u(3) t(5) tab n by (simp add: current_entry_def app_anchor_def capture_anchor_def)
  qed
  show ?thesis
    by (intro exI [of _ t] exI [of _ r] exI [of _ u] exI [of _ r'])
      (use assms(1) h(1) h' t u(1,2) sel in \<open>auto simp: history_key_def current_entry_def\<close>)
qed

section \<open>Sessions\<close>

text \<open>Tabs that take no key, and an application on them.\<close>

definition declining :: "('o, 'i) tab_handler" where
  "declining = \<lparr>th_verb = (\<lambda>v. declines), th_focus = (\<lambda>a. declines), th_text_input = (\<lambda>k. declines),
     th_typing = (\<lambda>s. False), th_blocks = (\<lambda>s. False), th_default_link = (\<lambda>s. None)\<rparr>"

definition sample_others :: "(unit, unit) others" where
  "sample_others = \<lparr>ot_handler = (\<lambda>tab. declining), ot_ctx = (\<lambda>u. plain_ctx Overview),
     ot_link = (\<lambda>tab s t. None), ot_save = (\<lambda>u path. None)\<rparr>"

definition sample_env :: app_env where
  "sample_env = \<lparr>en_contexts = [(''dev'', ''http://dev''), (''prod'', ''http://prod'')], en_fuzzy = substring_matcher,
     en_lower = (\<lambda>x. x), en_cadence = 60, en_snapshot = with_bulletins_capacity 1, en_copy = (\<lambda>t. None),
     en_paste = Inr ''pasted'', en_help_ceiling = 40\<rparr>"

definition sample_app :: "view_id \<Rightarrow> unit app_state" where
  "sample_app tab = \<lparr>as_tab = tab, as_context_name = ''dev'', as_version = ''2.0'', as_modal = None,
     as_error_detail = None, as_banner = None, as_quit = False, as_flow_index = None,
     as_history = history_default, as_browser = browser_start, as_bulletins = with_capacity 10, as_others = ()\<rparr>"

definition plain_key :: "key_code \<Rightarrow> key_event" where
  "plain_key c = \<lparr>ke_code = c, ke_mods = {}\<rparr>"

interpretation declining_keep: modal_keeping E declining for E
  by unfold_locales (auto simp: declining_def declines_def no_modal_ok)

lemma quit_event:
  assumes "ic_app_modal ctx" and "\<not> ic_listing_focused ctx"
  shows "translate (plain_key (KChar ''q'')) ctx = IeApp AaQuit" "translate (plain_key KEnter) ctx = IeFocus FaDescend"
  using assms
  by (simp_all add: translate_def no_gate_under_modal lookup_def framework_table_def focus_table_def chord_matches_def
      fa_all_def fa_chord_def ha_all_def ha_chord_def ta_all_def ta_chord_def aa_all_def aa_chord_def chord_defs
      plain_key_def)

lemma sample_ctx:
  "as_modal s \<noteq> None \<Longrightarrow> as_browser s = browser_start \<Longrightarrow> ic_app_modal (app_ctx E W s) \<and> \<not> ic_listing_focused (app_ctx E W s)"
  by (simp add: app_ctx_def Let_def browser_ctx_def browser_start_def pane_default_def)

text \<open>
  The letter q is a shortcut of the application before it is a letter of the finder: typed
  into the query it quits the program, while the queries of the tabs take it.
\<close>

theorem finder_query_quits:
  "map_option (\<lambda>(t, r). as_quit t) (handle_key E W (plain_key (KChar ''q''))
     ((sample_app tab)\<lparr>as_modal := Some (AmFuzzy f)\<rparr>)) = Some True"
proof -
  let ?s = "(sample_app tab)\<lparr>as_modal := Some (AmFuzzy f)\<rparr>"
  have "ic_app_modal (app_ctx E W ?s) \<and> \<not> ic_listing_focused (app_ctx E W ?s)"
    by (rule sample_ctx) (simp_all add: sample_app_def)
  then show ?thesis
    by (simp add: handle_key_def Let_def quit_event dispatch_event_def) (simp add: plain_key_def)
qed

text \<open>
  The finder keeps the positions of its matches when the flow index is rebuilt under it:
  Enter then opens another component than the one that is highlighted.
\<close>

theorem finder_opens_other_component:
  "let a = sample_entry Processor ''put''; b = sample_entry Processor ''get'';
       f = rebuild_matches substring_matcher (\<lambda>x. x) [a, b] fuzzy_new;
       s = (sample_app Browser)\<lparr>as_modal := Some (AmFuzzy f), as_flow_index := Some [b, a]\<rparr>
   in selected_entry [a, b] f = Some a
    \<and> map_option (\<lambda>(t, r). ar_intent r) (handle_key E W (plain_key KEnter) s)
        = Some (Some (AiGoto (OpenInBrowser (fe_id b) (fe_group_id b))))"
proof -
  let ?a = "sample_entry Processor ''put''" and ?b = "sample_entry Processor ''get''"
  let ?f = "rebuild_matches substring_matcher (\<lambda>x. x) [?a, ?b] fuzzy_new"
  let ?s = "(sample_app Browser)\<lparr>as_modal := Some (AmFuzzy ?f), as_flow_index := Some [?b, ?a]\<rparr>"
  have picks: "selected_entry [?a, ?b] ?f = Some ?a" "selected_entry [?b, ?a] ?f = Some ?b" by code_simp+
  have "ic_app_modal (app_ctx E W ?s) \<and> \<not> ic_listing_focused (app_ctx E W ?s)"
    by (rule sample_ctx) (simp_all add: sample_app_def)
  then have "handle_key E W (plain_key KEnter) ?s = Some (modal_key E W (plain_key KEnter) ?s)"
    by (simp add: handle_key_def Let_def quit_event dispatch_event_def) (simp add: plain_key_def)
  then show ?thesis
    by (simp add: Let_def picks modal_key_def finder_key_def plain_key_def) (simp add: finder_enter_def picks asks_def)
qed

text \<open>
  In the filter of the bulletins an unmodified v pastes the clipboard, so that no query with
  a v can be typed, and an x drops the prompt.
\<close>

theorem filter_loses_letters:
  "let typed = (\<lambda>c. map_option (\<lambda>(t, r). bs_text_input (as_bulletins t)) (handle_key sample_env W (plain_key (KChar c))
         ((sample_app Bulletins)\<lparr>as_bulletins := (with_capacity 10)\<lparr>bs_text_input := Some ''in''\<rparr>\<rparr>)))
   in typed ''t'' = Some (Some ''int'') \<and> typed ''v'' = Some (Some ''inpasted'') \<and> typed ''x'' = Some None"
proof -
  have chars: "chars ''pasted'' = [''p'', ''a'', ''s'', ''t'', ''e'', ''d'']" by code_simp
  show ?thesis
    by (simp add: handle_key_def handler_of_def bulletins_handler_def bulletins_typing_def bulletins_text_input_def
        bulletins_searching_def typing_def filter_key_def takes_def map_bulletins_def push_text_input_def
        cancel_text_input_def paste_filter_def set_text_def Let_def plain_key_def sample_app_def sample_env_def
        with_capacity_def chars)
qed

text \<open>Witnesses.\<close>

lemma app_modal_shields_tabs_witness:
  "\<exists>t r. handle_key sample_env sample_others (plain_key KDown) ((sample_app Browser)\<lparr>as_modal := Some (AmHelp 0)\<rparr>)
     = Some (t, r) \<and> as_browser t = browser_start"
  using app_modal_shields_tabs [of "(sample_app Browser)\<lparr>as_modal := Some (AmHelp 0)\<rparr>" sample_env sample_others "plain_key KDown"]
  by (auto simp: tabs_same_def sample_app_def)

lemma esc_closes_app_modal_witness:
  "\<exists>t. handle_key sample_env sample_others (plain_key KEsc) ((sample_app Browser)\<lparr>as_modal := Some (AmHelp 3)\<rparr>)
     = Some (t, redraw) \<and> as_modal t = None"
  using esc_closes_app_modal [of "(sample_app Browser)\<lparr>as_modal := Some (AmHelp 3)\<rparr>" "plain_key KEsc" sample_env sample_others]
  by (simp add: plain_key_def connecting_def)

lemma app_cursors_in_range_witness:
  "case press_all sample_env sample_others [plain_key (KChar ''?''), plain_key KDown] (sample_app Overview) of
     None \<Rightarrow> True | Some t \<Rightarrow> modal_ok sample_env t"
proof -
  have "modal_keeping sample_env (ot_handler sample_others tab)" for tab
    by (simp add: sample_others_def declining_keep.modal_keeping_axioms)
  then show ?thesis
    by (rule app_cursors_in_range) (simp add: sample_app_def)
qed

text \<open>From the Browser tab, entered from the Overview.\<close>

lemma back_then_forward_witness:
  "\<exists>t (r :: unit app_result) u (r' :: unit app_result). history_key sample_env HaBack
       ((sample_app Browser)\<lparr>as_history := history_push \<lparr>he_tab = Overview, he_anchor = None\<rparr> history_default\<rparr>) = Some (t, r)
     \<and> history_key sample_env HaForward t = Some (u, r') \<and> as_tab u = Browser"
proof -
  let ?s = "(sample_app Browser)\<lparr>as_history := history_push \<lparr>he_tab = Overview, he_anchor = None\<rparr> history_default\<rparr>"
  have "browser_ok (bp_tree (bi_pane (as_browser ?s)))"
    using tab_reach_ok [OF tab_reach.start] by (simp add: sample_app_def browser_start_def pane_ok_tree tree_ok_def)
  then show ?thesis
    using back_then_forward [of ?s sample_env]
    by (auto simp: sample_app_def history_push_def history_default_def trim_front_def max_history_def)
qed

text \<open>
  Going back to the bulletins clamps the remembered row with the number of bulletins that
  pass the filters, not with the number of groups: the cursor can be left below the last row.
\<close>

theorem restored_row_dangles:
  "let b = (with_capacity 10)\<lparr>bs_ring := [sample_row 1 ''s'' ''m'', sample_row 2 ''s'' ''m'']\<rparr>;
       row = restore_bulletin_row \<lparr>he_tab = Bulletins, he_anchor = Some (RowIndex 1)\<rparr>
               (length (filtered_indices (\<lambda>x. x) b)) 0
   in length (grouped_view (\<lambda>x. x) b) = 1 \<and> row = 1 \<and> selected_ring_index (\<lambda>x. x) (b\<lparr>bs_selected := row\<rparr>) = None"
  by code_simp

end
