(* ===== verification/Overview_State.thy ===== *)
theory Overview_State
  imports Bulletins_State Param_Refs "HOL-Library.Product_Lexorder"
begin

text \<open>
  The state of the Overview tab (\<open>src/src/view/overview/state.rs\<close>): the mirrors of the cluster
  snapshot, the bulletin-rate sparkline, the leaderboards, and the reporting-tasks modal
  (\<open>src/src/view/overview/reporting_tasks_modal.rs\<close>).

  Parsing an RFC 3339 timestamp, Unicode lower-casing, and the order in which a hash map
  is traversed are arguments. Instants that only date the panels are left out.
\<close>

section \<open>The bulletin-rate sparkline\<close>

record bulletin_bucket =
  bb_count :: nat
  bb_error_count :: nat
  bb_warning_count :: nat
  bb_info_count :: nat
  bb_max_severity :: severity

definition bucket_default :: bulletin_bucket where
  "bucket_default = \<lparr>bb_count = 0, bb_error_count = 0, bb_warning_count = 0, bb_info_count = 0,
     bb_max_severity = SevUnknown\<rparr>"

definition sparkline_minutes :: nat where
  "sparkline_minutes = 15"

text \<open>\<open>saturating_add(1)\<close> on a \<open>u32\<close>.\<close>

definition sat_inc :: "nat \<Rightarrow> nat" where
  "sat_inc n = min u32_max (n + 1)"

definition bump_bucket :: "severity \<Rightarrow> bulletin_bucket \<Rightarrow> bulletin_bucket" where
  "bump_bucket sev b =
     (let b = b\<lparr>bb_count := sat_inc (bb_count b)\<rparr>;
          b = (case sev of
                 SevError \<Rightarrow> b\<lparr>bb_error_count := sat_inc (bb_error_count b)\<rparr>
               | SevWarning \<Rightarrow> b\<lparr>bb_warning_count := sat_inc (bb_warning_count b)\<rparr>
               | SevInfo \<Rightarrow> b\<lparr>bb_info_count := sat_inc (bb_info_count b)\<rparr>
               | SevUnknown \<Rightarrow> b)
      in if sev > bb_max_severity b then b\<lparr>bb_max_severity := sev\<rparr> else b)"

text \<open>The start of the newest minute and the buckets, advanced to the present.\<close>

definition advance_sparkline :: "int \<Rightarrow> int option \<Rightarrow> bulletin_bucket list \<Rightarrow> int \<times> bulletin_bucket list" where
  "advance_sparkline now epoch spark =
     (let e = (case epoch of None \<Rightarrow> (now div 60) * 60 | Some e \<Rightarrow> e);
          elapsed = nat ((now - e) div 60)
      in if elapsed > 0
         then (e + int elapsed * 60,
               drop (min elapsed sparkline_minutes) spark @ replicate (min elapsed sparkline_minutes) bucket_default)
         else (e, spark))"

text \<open>The bucket a bulletin counts in, if it is new, dated, and of the last fifteen minutes.\<close>

definition bucket_of :: "(string \<Rightarrow> int option) \<Rightarrow> int \<Rightarrow> int \<Rightarrow> bulletin_snapshot \<Rightarrow> nat option" where
  "bucket_of parse now cursor b =
     (if bu_id b \<le> cursor then None
      else case parse (bu_timestamp_iso b) of
          None \<Rightarrow> None
        | Some ts \<Rightarrow>
            let age = now - ts; minute = nat (age div 60) in
            if age < 0 \<or> minute \<ge> sparkline_minutes then None else Some (sparkline_minutes - 1 - minute))"

definition count_bulletin ::
  "(string \<Rightarrow> int option) \<Rightarrow> int \<Rightarrow> int \<Rightarrow> bulletin_snapshot \<Rightarrow> bulletin_bucket list \<Rightarrow> bulletin_bucket list" where
  "count_bulletin parse now cursor b spark =
     (case bucket_of parse now cursor b of
        None \<Rightarrow> spark
      | Some i \<Rightarrow> spark[i := bump_bucket (severity_parse (bu_level b)) (spark ! i)])"

definition i64_min :: int where
  "i64_min = - (2 ^ 63)"

section \<open>Noisy components and unhealthy queues\<close>

record noisy_component =
  ny_source_id :: string
  ny_source_name :: string
  ny_group_id :: string
  ny_count :: nat
  ny_max_severity :: severity

definition noisy_entry :: "bulletin_snapshot \<Rightarrow> noisy_component option \<Rightarrow> noisy_component" where
  "noisy_entry b old =
     (let e = (case old of
                 Some e \<Rightarrow> e
               | None \<Rightarrow> \<lparr>ny_source_id = bu_source_id b, ny_source_name = bu_source_name b, ny_group_id = bu_group_id b,
                     ny_count = 0, ny_max_severity = SevUnknown\<rparr>);
          e = e\<lparr>ny_count := sat_inc (ny_count e)\<rparr>;
          sev = severity_parse (bu_level b)
      in if sev > ny_max_severity e then e\<lparr>ny_max_severity := sev\<rparr> else e)"

fun by_source :: "bulletin_snapshot list \<Rightarrow> (string \<times> noisy_component) list \<Rightarrow> (string \<times> noisy_component) list" where
  "by_source [] m = m"
| "by_source (b # bs) m =
     (if bu_source_id b = [] then by_source bs m
      else by_source bs (AList.update (bu_source_id b) (noisy_entry b (map_of m (bu_source_id b))) m))"

text \<open>More bulletins first, then the graver, then by name.\<close>

definition noisy_key :: "noisy_component \<Rightarrow> int \<times> int \<times> string" where
  "noisy_key n = (- int (ny_count n), - int (severity_rank (ny_max_severity n)), ny_source_name n)"

definition top_noisy :: nat where
  "top_noisy = 5"

definition noisy_of ::
  "(noisy_component list \<Rightarrow> noisy_component list) \<Rightarrow> bulletin_snapshot list \<Rightarrow> noisy_component list" where
  "noisy_of traverse bs = take top_noisy (sort_key noisy_key (traverse (map snd (by_source bs []))))"

record unhealthy_queue =
  uq_id :: string
  uq_group_id :: string
  uq_name :: string
  uq_source_name :: string
  uq_destination_name :: string
  uq_fill_percent :: u32
  uq_flow_files_queued :: u32
  uq_bytes_queued :: u64
  uq_queued_display :: string

definition unhealthy_of :: "queue_snapshot \<Rightarrow> unhealthy_queue" where
  "unhealthy_of q =
     \<lparr>uq_id = qs_id q, uq_group_id = qs_group_id q, uq_name = qs_name q, uq_source_name = qs_source_name q,
      uq_destination_name = qs_destination_name q, uq_fill_percent = qs_fill_percent q,
      uq_flow_files_queued = qs_flow_files_queued q, uq_bytes_queued = qs_bytes_queued q,
      uq_queued_display = qs_queued_display q\<rparr>"

definition top_queues :: nat where
  "top_queues = 10"

definition derive_unhealthy :: "root_pg_status \<Rightarrow> unhealthy_queue list" where
  "derive_unhealthy root = map unhealthy_of (take top_queues (rps_connections root))"

section \<open>The reporting-tasks modal\<close>

datatype task_focus = TaskList | TaskDetail nat "nat list"

datatype task_section = TsProperties | TsValidationErrors | TsRecentBulletins

record task_modal =
  tm_selected_id :: "string option"
  tm_selected_ordinal :: nat
  tm_focus :: task_focus
  tm_search :: search_state
  tm_filtered :: "nat list"

definition search_idle :: search_state where
  "search_idle = \<lparr>ss_query = [], ss_input_active = False, ss_committed = False, ss_matches = [], ss_current = None\<rparr>"

definition task_modal_default :: task_modal where
  "task_modal_default = \<lparr>tm_selected_id = None, tm_selected_ordinal = 0, tm_focus = TaskList,
     tm_search = search_idle, tm_filtered = []\<rparr>"

text \<open>The last dot-separated segment of a class name.\<close>

definition short_type :: "string \<Rightarrow> string" where
  "short_type fqcn = rev (takeWhile (\<lambda>c. c \<noteq> CHR ''.'') (rev fqcn))"

fun task_state_name :: "reporting_task_state \<Rightarrow> string" where
  "task_state_name RtRunning = ''Running''"
| "task_state_name RtStopped = ''Stopped''"
| "task_state_name RtDisabled = ''Disabled''"

definition task_haystack :: "(string \<Rightarrow> string) \<Rightarrow> reporting_task_row \<Rightarrow> string" where
  "task_haystack lc t =
     lc (rt_name t) @ '' '' @ lc (short_type (rt_task_type t)) @ '' '' @ task_state_name (rt_state t)"

definition refilter :: "(string \<Rightarrow> string) \<Rightarrow> reporting_tasks_snapshot \<Rightarrow> task_modal \<Rightarrow> task_modal" where
  "refilter lc snap m =
     (let query = lc (ss_query (tm_search m)) in
      m\<lparr>tm_filtered := filter (\<lambda>i. query = [] \<or> str_contains (task_haystack lc (rts_tasks snap ! i)) query)
          [0..<length (rts_tasks snap)]\<rparr>)"

definition task_id_at :: "reporting_tasks_snapshot \<Rightarrow> nat \<Rightarrow> string option" where
  "task_id_at snap i = map_option rt_id (get_at (rts_tasks snap) i)"

definition open_task_modal :: "(string \<Rightarrow> string) \<Rightarrow> reporting_tasks_snapshot \<Rightarrow> task_modal" where
  "open_task_modal lc snap =
     (let m = refilter lc snap task_modal_default in
      m\<lparr>tm_selected_id := Option.bind (get_at (tm_filtered m) 0) (task_id_at snap), tm_selected_ordinal := 0\<rparr>)"

definition task_reconcile :: "(string \<Rightarrow> string) \<Rightarrow> reporting_tasks_snapshot \<Rightarrow> task_modal \<Rightarrow> task_modal" where
  "task_reconcile lc snap m0 =
     (let m = refilter lc snap m0 in
      case Option.bind (tm_selected_id m) (\<lambda>id. position (\<lambda>i. task_id_at snap i = Some id) (tm_filtered m)) of
        Some ord \<Rightarrow> m\<lparr>tm_selected_ordinal := ord\<rparr>
      | None \<Rightarrow>
          if tm_filtered m = [] then m\<lparr>tm_selected_id := None, tm_selected_ordinal := 0\<rparr>
          else let ord = min (tm_selected_ordinal m0) (length (tm_filtered m) - 1)
               in m\<lparr>tm_selected_id := task_id_at snap (tm_filtered m ! ord), tm_selected_ordinal := ord\<rparr>)"

definition selected_task :: "reporting_tasks_snapshot \<Rightarrow> task_modal \<Rightarrow> reporting_task_row option" where
  "selected_task snap m = Option.bind (tm_selected_id m) (\<lambda>id. find (\<lambda>t. rt_id t = id) (rts_tasks snap))"

definition section_list :: "reporting_task_row \<Rightarrow> task_section list" where
  "section_list t =
     (if rt_validation_errors t = [] then [TsProperties, TsRecentBulletins]
      else [TsProperties, TsValidationErrors, TsRecentBulletins])"

text \<open>A parameter reference in a property value; a doubled hash escapes up to the closing brace.\<close>

fun after_brace :: "string \<Rightarrow> string option" where
  "after_brace [] = None"
| "after_brace (c # s) = (if c = CHR 0x7D then Some s else after_brace s)"

lemma after_brace_shorter: "after_brace s = Some r \<Longrightarrow> length r < length s"
  by (induction s) (auto split: if_splits)

function contains_param_ref :: "string \<Rightarrow> bool" where
  "contains_param_ref [] = False"
| "contains_param_ref (c # s) =
     (if c \<noteq> CHR 0x23 then contains_param_ref s
      else case s of
          [] \<Rightarrow> False
        | d # t \<Rightarrow>
            if d = CHR 0x23
            then (case t of
                    [] \<Rightarrow> False
                  | e # u \<Rightarrow>
                      if e = CHR 0x7B
                      then (case after_brace u of Some r \<Rightarrow> contains_param_ref r | None \<Rightarrow> contains_param_ref t)
                      else contains_param_ref t)
            else if d = CHR 0x7B \<and> CHR 0x7D \<in> set t then True
            else contains_param_ref s)"
  by pat_completeness auto
termination
  by (relation "measure length") (auto dest: after_brace_shorter)

section \<open>The tab\<close>

datatype overview_focus = OfNone | OfNodes | OfNoisy | OfQueues

record repositories_summary =
  rep_content_percent :: u32
  rep_flowfile_percent :: u32
  rep_provenance_percent :: u32

record overview_state =
  ov_root_pg :: "root_pg_status option"
  ov_controller :: "controller_status_snapshot option"
  ov_cs_counts :: "cs_counts option"
  ov_task_counts :: "reporting_task_counts option"
  ov_task_modal :: "task_modal option"
  ov_sparkline :: "bulletin_bucket list"
  ov_sparkline_epoch :: "int option"
  ov_unhealthy :: "unhealthy_queue list"
  ov_noisy :: "noisy_component list"
  ov_last_bulletin_id :: "int option"
  ov_nodes :: nodes_state
  ov_repositories :: repositories_summary
  ov_focus :: overview_focus
  ov_noisy_selected :: nat
  ov_queues_selected :: nat

definition overview_new :: overview_state where
  "overview_new = \<lparr>ov_root_pg = None, ov_controller = None, ov_cs_counts = None, ov_task_counts = None,
     ov_task_modal = None, ov_sparkline = replicate sparkline_minutes bucket_default, ov_sparkline_epoch = None,
     ov_unhealthy = [], ov_noisy = [], ov_last_bulletin_id = None,
     ov_nodes = \<lparr>ns_nodes = [], ns_selected = 0\<rparr>,
     ov_repositories = \<lparr>rep_content_percent = 0, rep_flowfile_percent = 0, rep_provenance_percent = 0\<rparr>,
     ov_focus = OfNone, ov_noisy_selected = 0, ov_queues_selected = 0\<rparr>"

section \<open>Mirroring the cluster\<close>

definition redraw_controller_status :: "cluster_snapshot \<Rightarrow> overview_state \<Rightarrow> overview_state" where
  "redraw_controller_status snap s = s\<lparr>ov_controller := es_latest (cl_controller_status snap)\<rparr>"

text \<open>
  The sum, the length and the quotient are \<open>u32\<close>: the sum wraps, and a length that wraps to zero
  divides by zero, \<open>None\<close>.
\<close>

definition avg_repo_percent :: "repo_usage list \<Rightarrow> u32 option" where
  "avg_repo_percent repos =
     (if repos = [] then Some 0
      else let n = of_nat (length repos) in
        if n = 0 then None else Some (sum_list (map ru_utilization_percent repos) div n))"

definition build_repositories_summary :: "system_diag_snapshot \<Rightarrow> repositories_summary option" where
  "build_repositories_summary diag =
     (let agg = sd_aggregate diag in
      Option.bind (avg_repo_percent (sda_content_repos agg)) (\<lambda>content.
      Option.bind (avg_repo_percent (sda_provenance_repos agg)) (\<lambda>provenance.
      Some \<lparr>rep_content_percent = content,
            rep_flowfile_percent = (case sda_flowfile_repo agg of None \<Rightarrow> 0 | Some r \<Rightarrow> ru_utilization_percent r),
            rep_provenance_percent = provenance\<rparr>)))"

text \<open>The nodes panel, and the node count of the top bar.\<close>

definition redraw_sysdiag ::
  "(string \<Rightarrow> string) \<Rightarrow> (string \<Rightarrow> int option) \<Rightarrow> (u64 \<Rightarrow> u64 \<Rightarrow> u32) \<Rightarrow> cluster_snapshot
   \<Rightarrow> overview_state \<times> nat option \<Rightarrow> (overview_state \<times> nat option) option" where
  "redraw_sysdiag lc parse_ts pct snap st =
     (case es_latest (cl_system_diagnostics snap) of
        None \<Rightarrow> Some st
      | Some diag \<Rightarrow>
          map_option (\<lambda>repos.
            ((fst st)\<lparr>ov_nodes := update_nodes lc parse_ts pct (ov_nodes (fst st)) diag
                 (es_latest (cl_cluster_nodes snap)) (es_latest (cl_tls_certs snap)),
               ov_repositories := repos\<rparr>, Some (length (sd_nodes diag))))
            (build_repositories_summary diag))"

definition clamp_row :: "nat \<Rightarrow> nat \<Rightarrow> nat" where
  "clamp_row n i = (if n > 0 then min i (n - 1) else 0)"

definition redraw_components :: "(string \<Rightarrow> string) \<Rightarrow> cluster_snapshot \<Rightarrow> overview_state \<Rightarrow> overview_state" where
  "redraw_components lc snap s0 =
     (let tasks = es_latest (cl_reporting_tasks snap);
          s = s0\<lparr>ov_cs_counts := map_option css_counts (es_latest (cl_controller_services snap)),
                 ov_task_counts := map_option reporting_task_counts tasks,
                 ov_task_modal := (case (ov_task_modal s0, tasks) of
                     (Some m, Some snap) \<Rightarrow> Some (task_reconcile lc snap m) | _ \<Rightarrow> ov_task_modal s0)\<rparr>
      in case es_latest (cl_root_pg_status snap) of
           None \<Rightarrow> s
         | Some root \<Rightarrow>
             s\<lparr>ov_queues_selected := clamp_row (length (derive_unhealthy root)) (ov_queues_selected s),
               ov_unhealthy := derive_unhealthy root, ov_root_pg := Some root\<rparr>)"

definition newest_id :: "bulletin_snapshot list \<Rightarrow> int option \<Rightarrow> int option" where
  "newest_id bs last_id =
     (if bs = [] then last_id
      else let m = Max (set (map bu_id bs)) in Some (case last_id of None \<Rightarrow> m | Some e \<Rightarrow> max e m))"

definition redraw_bulletin_projections ::
  "(string \<Rightarrow> int option) \<Rightarrow> (noisy_component list \<Rightarrow> noisy_component list) \<Rightarrow> int \<Rightarrow> bulletin_ring
   \<Rightarrow> overview_state \<Rightarrow> overview_state" where
  "redraw_bulletin_projections parse traverse now ring s =
     (if br_meta ring = None then s
      else let (epoch, spark) = advance_sparkline now (ov_sparkline_epoch s) (ov_sparkline s);
               cursor = unwrap_or i64_min (ov_last_bulletin_id s);
               noisy = noisy_of traverse (br_buf ring)
           in s\<lparr>ov_sparkline_epoch := Some epoch,
                ov_sparkline := foldl (\<lambda>sp b. count_bulletin parse now cursor b sp) spark (br_buf ring),
                ov_noisy := noisy, ov_noisy_selected := clamp_row (length noisy) (ov_noisy_selected s),
                ov_last_bulletin_id := newest_id (br_buf ring) (ov_last_bulletin_id s)\<rparr>)"

section \<open>The sparkline counts every bulletin once\<close>

text \<open>
  Redrawing from the same ring at the same instant changes nothing: the minutes have already
  been shifted out, and the cursor stands at the newest bulletin.
\<close>

lemma advance_again: "advance_sparkline now epoch sp = (e, sp') \<Longrightarrow> advance_sparkline now (Some e) sp' = (e, sp')"
  by (auto simp: advance_sparkline_def Let_def split: if_splits option.splits)

lemma count_nothing:
  "\<forall>b\<in>set bs. bucket_of parse now cursor b = None \<Longrightarrow> foldl (\<lambda>sp b. count_bulletin parse now cursor b sp) sp bs = sp"
  by (induction bs) (auto simp: count_bulletin_def)

lemma newest_id_covers:
  assumes "b \<in> set bs"
  shows "\<exists>m. newest_id bs old = Some m \<and> bu_id b \<le> m"
proof -
  have "bs \<noteq> []" "bu_id b \<le> Max (bu_id ` set bs)" using assms by auto
  then show ?thesis by (cases old) (simp_all add: newest_id_def Let_def le_max_iff_disj)
qed

lemma nothing_new:
  assumes "b \<in> set bs"
  shows "bucket_of parse now (unwrap_or i64_min (newest_id bs old)) b = None"
  using newest_id_covers [OF assms, of old] by (auto simp: bucket_of_def unwrap_or_def)

lemma newest_id_again: "newest_id bs (newest_id bs old) = newest_id bs old"
  by (cases old) (auto simp: newest_id_def Let_def)

lemma clamp_row_again [simp]: "clamp_row n (clamp_row n i) = clamp_row n i"
  by (simp add: clamp_row_def)

theorem projections_idempotent:
  "redraw_bulletin_projections parse traverse now ring (redraw_bulletin_projections parse traverse now ring s)
   = redraw_bulletin_projections parse traverse now ring s"
proof -
  obtain e sp where adv: "advance_sparkline now (ov_sparkline_epoch s) (ov_sparkline s) = (e, sp)" by fastforce
  have shift: "advance_sparkline now (Some e) sq = (e, sq)" for sq
    using adv by (auto simp: advance_sparkline_def Let_def split: if_splits option.splits)
  show ?thesis
    using adv shift
    by (simp add: redraw_bulletin_projections_def Let_def newest_id_again count_nothing nothing_new)
qed

text \<open>
  The new bulletins of a minute, by their age alone. A bulletin belongs to the minute that ended \<open>k\<close> minutes ago when
  its age is at least \<open>60 * k\<close> seconds and less than \<open>60 * k + 60\<close>; the buckets run from the
  oldest minute to the current one.
\<close>

definition reported_ago :: "(string \<Rightarrow> int option) \<Rightarrow> int \<Rightarrow> nat \<Rightarrow> bulletin_snapshot \<Rightarrow> bool" where
  "reported_ago parse now k b \<longleftrightarrow>
     (case parse (bu_timestamp_iso b) of
        None \<Rightarrow> False
      | Some ts \<Rightarrow> 60 * int k \<le> now - ts \<and> now - ts < 60 * int k + 60)"

definition bulletins_of_minute ::
  "(string \<Rightarrow> int option) \<Rightarrow> int \<Rightarrow> int \<Rightarrow> nat \<Rightarrow> bulletin_snapshot list \<Rightarrow> bulletin_snapshot list" where
  "bulletins_of_minute parse now cursor i bs = filter (\<lambda>b. cursor < bu_id b \<and> reported_ago parse now (14 - i) b) bs"

lemma bucket_of_range: "bucket_of parse now cursor b = Some i \<Longrightarrow> i < sparkline_minutes"
  by (auto simp: bucket_of_def sparkline_minutes_def Let_def split: if_splits option.splits)

lemma minutes_passed: "nat (d div 60) = k \<and> 0 \<le> d \<longleftrightarrow> 60 * int k \<le> d \<and> d < 60 * int k + 60" for d :: int
proof -
  obtain q r where q: "d div 60 = q" "d = 60 * q + r" "0 \<le> r" "r < 60"
    using that [of "d div 60" "d mod 60"] by simp
  show ?thesis
  proof
    assume "nat (d div 60) = k \<and> 0 \<le> d"
    then have "q = int k" using q(1) by (auto simp: pos_imp_zdiv_nonneg_iff)
    then show "60 * int k \<le> d \<and> d < 60 * int k + 60" unfolding q(2) using q(3,4) by simp
  next
    assume "60 * int k \<le> d \<and> d < 60 * int k + 60"
    then have "60 * int k \<le> 60 * q + r" "60 * q + r < 60 * int k + 60" unfolding q(2) by simp_all
    then have "q = int k" using q(3,4) by linarith
    then show "nat (d div 60) = k \<and> 0 \<le> d" using q by simp
  qed
qed

lemma bucket_of_minute:
  assumes "i < sparkline_minutes"
  shows "bucket_of parse now cursor b = Some i \<longleftrightarrow> cursor < bu_id b \<and> reported_ago parse now (14 - i) b"
proof (cases "parse (bu_timestamp_iso b)")
  case (Some ts)
  have mirror: "m < 15 \<and> 14 - m = i \<longleftrightarrow> m = 14 - i" for m
    using assms by (auto simp: sparkline_minutes_def)
  have "bucket_of parse now cursor b = Some i
      \<longleftrightarrow> cursor < bu_id b \<and> (nat ((now - ts) div 60) < 15 \<and> 14 - nat ((now - ts) div 60) = i) \<and> 0 \<le> now - ts"
    using Some unfolding bucket_of_def sparkline_minutes_def Let_def
    by (cases "bu_id b \<le> cursor"; cases "now - ts < 0"; cases "15 \<le> nat ((now - ts) div 60)") simp_all
  then show ?thesis using Some by (simp only: mirror minutes_passed reported_ago_def option.case)
qed (simp add: bucket_of_def reported_ago_def)

lemma count_bulletins_length:
  "length (foldl (\<lambda>sp b. count_bulletin parse now cursor b sp) sp bs) = length sp"
  by (induction bs arbitrary: sp) (auto simp: count_bulletin_def split: option.split)

lemma bucket_fold:
  "length sp = sparkline_minutes \<Longrightarrow> i < sparkline_minutes \<Longrightarrow>
   foldl (\<lambda>sp b. count_bulletin parse now cursor b sp) sp bs ! i
   = foldl (\<lambda>k b. bump_bucket (severity_parse (bu_level b)) k) (sp ! i) (bulletins_of_minute parse now cursor i bs)"
proof (induction bs arbitrary: sp)
  case (Cons b bs)
  show ?case
    using Cons.IH [of "count_bulletin parse now cursor b sp"] Cons.prems
    using bucket_of_minute [OF Cons.prems(2), of parse now cursor b]
    by (cases "bucket_of parse now cursor b")
      (auto simp: bulletins_of_minute_def count_bulletin_def nth_list_update dest: bucket_of_range)
qed (simp add: bulletins_of_minute_def)

lemma bump_bucket_counts:
  "bb_count (bump_bucket sev k) = sat_inc (bb_count k)"
  "bb_error_count (bump_bucket sev k) = (if sev = SevError then sat_inc (bb_error_count k) else bb_error_count k)"
  "bb_warning_count (bump_bucket sev k) = (if sev = SevWarning then sat_inc (bb_warning_count k) else bb_warning_count k)"
  "bb_info_count (bump_bucket sev k) = (if sev = SevInfo then sat_inc (bb_info_count k) else bb_info_count k)"
  by (cases sev; simp add: bump_bucket_def Let_def)+

lemma sat_inc_run: "n \<le> u32_max \<Longrightarrow> min u32_max (sat_inc n + k) = min u32_max (n + Suc k)"
  by (simp add: sat_inc_def min_def)

lemma sat_inc_le [simp]: "sat_inc n \<le> u32_max"
  by (simp add: sat_inc_def)

definition counts_fit :: "bulletin_bucket \<Rightarrow> bool" where
  "counts_fit k \<longleftrightarrow> bb_count k \<le> u32_max \<and> bb_error_count k \<le> u32_max \<and> bb_warning_count k \<le> u32_max
     \<and> bb_info_count k \<le> u32_max"

lemma counts_fit_bump [simp]: "counts_fit k \<Longrightarrow> counts_fit (bump_bucket sev k)"
  by (simp add: counts_fit_def bump_bucket_counts)

definition with_severity :: "severity \<Rightarrow> bulletin_snapshot list \<Rightarrow> nat" where
  "with_severity sev bs = length (filter (\<lambda>b. severity_parse (bu_level b) = sev) bs)"

lemma bucket_counts:
  assumes "counts_fit k"
  defines "k' \<equiv> \<lambda>bs. foldl (\<lambda>k b. bump_bucket (severity_parse (bu_level b)) k) k bs"
  shows "bb_count (k' bs) = min u32_max (bb_count k + length bs)"
    and "bb_error_count (k' bs) = min u32_max (bb_error_count k + with_severity SevError bs)"
    and "bb_warning_count (k' bs) = min u32_max (bb_warning_count k + with_severity SevWarning bs)"
    and "bb_info_count (k' bs) = min u32_max (bb_info_count k + with_severity SevInfo bs)"
  using assms(1) unfolding k'_def
  by (induction bs arbitrary: k)
    (simp_all add: bump_bucket_counts with_severity_def sat_inc_run counts_fit_def)

lemma advance_length: "length sp = sparkline_minutes \<Longrightarrow> length (snd (advance_sparkline now epoch sp)) = sparkline_minutes"
  by (auto simp: advance_sparkline_def Let_def)

lemma advance_fit:
  "list_all counts_fit sp \<Longrightarrow> list_all counts_fit (snd (advance_sparkline now epoch sp))"
  by (auto simp: advance_sparkline_def Let_def list_all_iff counts_fit_def bucket_default_def dest: in_set_dropD)

text \<open>
  C24: the bulletins are counted exactly: in a redraw with data each bucket of a well-formed sparkline
  grows, up to the limit of its counter, by the bulletins above the cursor whose age falls into
  its minute, in all and per severity.
\<close>

theorem sparkline_counts_bulletins:
  assumes "length (ov_sparkline s) = sparkline_minutes" and "list_all counts_fit (ov_sparkline s)"
    and "br_meta ring \<noteq> None" and "i < sparkline_minutes"
  shows "let old = snd (advance_sparkline now (ov_sparkline_epoch s) (ov_sparkline s)) ! i;
             new = ov_sparkline (redraw_bulletin_projections parse traverse now ring s) ! i;
             counted = bulletins_of_minute parse now (unwrap_or i64_min (ov_last_bulletin_id s)) i (br_buf ring)
         in bb_count new = min u32_max (bb_count old + length counted)
            \<and> bb_error_count new = min u32_max (bb_error_count old + with_severity SevError counted)
            \<and> bb_warning_count new = min u32_max (bb_warning_count old + with_severity SevWarning counted)
            \<and> bb_info_count new = min u32_max (bb_info_count old + with_severity SevInfo counted)"
proof -
  obtain e sp where adv: "advance_sparkline now (ov_sparkline_epoch s) (ov_sparkline s) = (e, sp)" by fastforce
  have len: "length sp = sparkline_minutes"
    using advance_length [OF assms(1), of now "ov_sparkline_epoch s"] adv by simp
  have fit: "counts_fit (sp ! i)"
    using advance_fit [OF assms(2), of now "ov_sparkline_epoch s"] adv len assms(4) by (simp add: list_all_length)
  show ?thesis
    using assms(3) adv
    by (auto simp: redraw_bulletin_projections_def Let_def bucket_fold [OF len assms(4)] bucket_counts [OF fit])
qed

section \<open>The leaderboard of noisy components\<close>

definition reports :: "string \<Rightarrow> bulletin_snapshot list \<Rightarrow> nat" where
  "reports src bs = length (filter (\<lambda>b. bu_source_id b = src) bs)"

lemma by_source_lookup:
  "k \<noteq> [] \<Longrightarrow> map_of (by_source bs m) k
     = foldl (\<lambda>e b. Some (noisy_entry b e)) (map_of m k) (filter (\<lambda>b. bu_source_id b = k) bs)"
  by (induction bs arbitrary: m) (auto simp: update_conv')

lemma by_source_keys:
  "fst ` set (by_source bs m) = fst ` set m \<union> (bu_source_id ` set bs - {[]})"
  by (induction bs arbitrary: m) (auto simp: dom_update)

lemma by_source_distinct: "distinct (map fst m) \<Longrightarrow> distinct (map fst (by_source bs m))"
  by (induction bs arbitrary: m) (simp_all add: distinct_update)

lemma noisy_entry_id:
  "ny_source_id (noisy_entry b old) = (case old of Some e \<Rightarrow> ny_source_id e | None \<Rightarrow> bu_source_id b)"
  by (simp add: noisy_entry_def Let_def split: option.split)

lemma noisy_entry_count:
  "ny_count (noisy_entry b old) = sat_inc (case old of Some e \<Rightarrow> ny_count e | None \<Rightarrow> 0)"
  by (simp add: noisy_entry_def Let_def split: option.split)

lemma entries_of_source:
  assumes "\<forall>b\<in>set bs. bu_source_id b = k" and "ny_source_id e = k" and "ny_count e \<le> u32_max"
  shows "\<exists>e'. foldl (\<lambda>e b. Some (noisy_entry b e)) (Some e) bs = Some e' \<and> ny_source_id e' = k
           \<and> ny_count e' = min u32_max (ny_count e + length bs)"
  using assms
proof (induction bs arbitrary: e)
  case (Cons b bs)
  have "ny_source_id (noisy_entry b (Some e)) = k" "ny_count (noisy_entry b (Some e)) \<le> u32_max"
    using Cons.prems by (simp_all add: noisy_entry_id noisy_entry_count)
  from Cons.IH [OF _ this] Cons.prems show ?case
    by (simp add: noisy_entry_count sat_inc_run)
qed simp

lemma by_source_entry:
  assumes "(k, e) \<in> set (by_source bs [])"
  shows "k \<noteq> []" and "ny_source_id e = k" and "ny_count e = min u32_max (reports k bs)" and "0 < ny_count e"
proof -
  have key: "k \<in> bu_source_id ` set bs - {[]}"
  proof -
    have "k \<in> fst ` set (by_source bs [])" using assms by (metis fst_conv imageI)
    then show ?thesis by (simp add: by_source_keys)
  qed
  then show k: "k \<noteq> []" by simp
  have look: "map_of (by_source bs []) k = Some e"
    using assms by_source_distinct [of "[]" bs] by simp
  obtain b cs where cut: "filter (\<lambda>b. bu_source_id b = k) bs = b # cs"
    using key by (cases "filter (\<lambda>b. bu_source_id b = k) bs") (auto simp: filter_empty_conv)
  have mem: "\<forall>c\<in>set (b # cs). bu_source_id c = k" by (simp only: cut [symmetric]) simp
  have first: "ny_source_id (noisy_entry b None) = k" "ny_count (noisy_entry b None) = 1"
    using mem by (simp_all add: noisy_entry_id noisy_entry_count sat_inc_def u32_max_def)
  have "ny_count (noisy_entry b None) \<le> u32_max" using first(2) by (simp add: u32_max_def)
  from entries_of_source [OF _ first(1) this, of cs] mem
  obtain e' where e': "foldl (\<lambda>e b. Some (noisy_entry b e)) (Some (noisy_entry b None)) cs = Some e'"
    "ny_source_id e' = k" "ny_count e' = min u32_max (1 + length cs)" by (auto simp: first(2))
  have "e = e'" using look by_source_lookup [OF k, of bs "[]"] cut e'(1) by simp
  then show "ny_source_id e = k" and "ny_count e = min u32_max (reports k bs)" and "0 < ny_count e"
    using e' cut by (simp_all add: reports_def u32_max_def)
qed

lemma sorted_drop_take:
  "sorted (map f xs) \<Longrightarrow> x \<in> set (take n xs) \<Longrightarrow> y \<in> set (drop n xs) \<Longrightarrow> f x \<le> f y"
  using sorted_append [of "map f (take n xs)" "map f (drop n xs)"]
  by (metis append_take_drop_id image_eqI list.set_map map_append)

text \<open>
  C25: in whatever order the hash map is traversed, the leaderboard has at most five components, each
  with the number of its bulletins, ordered by that number, the gravest severity and the name;
  a component that is left out has no more bulletins than any listed one.
\<close>

theorem noisy_leaderboard_correct:
  assumes "\<And>xs. mset (traverse xs) = mset xs"
  shows "let board = noisy_of traverse bs in
     length board \<le> top_noisy \<and> sorted (map noisy_key board) \<and> distinct (map ny_source_id board)
     \<and> (\<forall>n\<in>set board. ny_source_id n \<noteq> [] \<and> ny_count n = min u32_max (reports (ny_source_id n) bs))
     \<and> (\<forall>src\<in>bu_source_id ` set bs - {[]} - ny_source_id ` set board.
          length board = top_noisy \<and> (\<forall>n\<in>set board. min u32_max (reports src bs) \<le> ny_count n))"
proof -
  define all where "all = sort_key noisy_key (traverse (map snd (by_source bs [])))"
  have same: "mset all = mset (map snd (by_source bs []))" using assms by (simp add: all_def)
  have members: "set all = snd ` set (by_source bs [])" using mset_eq_setD [OF same] by simp
  have ids: "map ny_source_id (map snd (by_source bs [])) = map fst (by_source bs [])"
    by (auto dest: by_source_entry(2))
  have sortd: "sorted (map noisy_key all)" by (simp add: all_def)
  have "mset (map ny_source_id all) = mset (map fst (by_source bs []))"
    using same ids by (metis mset_map)
  then have dist: "distinct (map ny_source_id all)"
    using by_source_distinct [of "[]" bs] by (metis distinct.simps(1) list.simps(8) mset_eq_imp_distinct_iff)
  have entry: "ny_source_id n \<noteq> [] \<and> ny_count n = min u32_max (reports (ny_source_id n) bs)"
    if "n \<in> set all" for n
  proof -
    from that members obtain k where "(k, n) \<in> set (by_source bs [])" by auto
    then show ?thesis using by_source_entry [of k n bs] by simp
  qed
  have rest: "length (take top_noisy all) = top_noisy
      \<and> (\<forall>n\<in>set (take top_noisy all). min u32_max (reports src bs) \<le> ny_count n)"
    if src: "src \<in> bu_source_id ` set bs - {[]}" "src \<notin> ny_source_id ` set (take top_noisy all)" for src
  proof -
    from src(1) have "src \<in> fst ` set (by_source bs [])" by (simp add: by_source_keys)
    then obtain e where e: "(src, e) \<in> set (by_source bs [])" by auto
    then have "e \<in> set all" using members by (metis imageI snd_conv)
    moreover have "e \<notin> set (take top_noisy all)" using src(2) by_source_entry(2) [OF e] by (metis imageI)
    ultimately have out: "e \<in> set (drop top_noisy all)" by (metis Un_iff append_take_drop_id set_append)
    then have "length (take top_noisy all) = top_noisy" by (cases "top_noisy \<le> length all") auto
    moreover have "noisy_key n \<le> noisy_key e" if "n \<in> set (take top_noisy all)" for n
      by (rule sorted_drop_take [OF sortd that out])
    ultimately show ?thesis
      using by_source_entry(3) [OF e] by (fastforce simp: noisy_key_def less_eq_prod_def)
  qed
  have board: "noisy_of traverse bs = take top_noisy all" by (simp add: noisy_of_def all_def)
  have "sorted (map noisy_key (take top_noisy all))" "distinct (map ny_source_id (take top_noisy all))"
    using sortd dist by (simp_all add: take_map [symmetric] sorted_wrt_take)
  then show ?thesis
    unfolding board Let_def using entry rest by (intro conjI ballI) (auto dest: in_set_takeD)
qed

definition reported :: "int \<Rightarrow> string \<Rightarrow> string \<Rightarrow> bulletin_snapshot" where
  "reported i level source = \<lparr>bu_id = i, bu_level = level, bu_message = ''m'', bu_source_id = source,
     bu_source_name = source, bu_source_type = ''PROCESSOR'', bu_group_id = ''g'',
     bu_timestamp_iso = ''t'', bu_timestamp_human = ''t''\<rparr>"

lemma noisy_leaderboard_correct_witness:
  "noisy_of rev [reported 1 ''INFO'' ''a'', reported 2 ''ERROR'' ''b'', reported 3 ''INFO'' ''b'']
     = [\<lparr>ny_source_id = ''b'', ny_source_name = ''b'', ny_group_id = ''g'', ny_count = 2, ny_max_severity = SevError\<rparr>,
        \<lparr>ny_source_id = ''a'', ny_source_name = ''a'', ny_group_id = ''g'', ny_count = 1, ny_max_severity = SevInfo\<rparr>]
   \<and> sorted (map noisy_key (noisy_of rev [reported 1 ''INFO'' ''a'', reported 2 ''ERROR'' ''b'', reported 3 ''INFO'' ''b'']))"
proof -
  let ?bs = "[reported 1 ''INFO'' ''a'', reported 2 ''ERROR'' ''b'', reported 3 ''INFO'' ''b'']"
  have "sorted (map noisy_key (noisy_of rev ?bs))"
    using noisy_leaderboard_correct [of rev ?bs] unfolding Let_def by simp
  moreover have "severity_parse ''INFO'' = SevInfo" "severity_parse ''ERROR'' = SevError" by code_simp+
  then have "by_source ?bs []
      = [(''a'', \<lparr>ny_source_id = ''a'', ny_source_name = ''a'', ny_group_id = ''g'', ny_count = 1, ny_max_severity = SevInfo\<rparr>),
         (''b'', \<lparr>ny_source_id = ''b'', ny_source_name = ''b'', ny_group_id = ''g'', ny_count = 2, ny_max_severity = SevError\<rparr>)]"
    by (simp add: reported_def noisy_entry_def sat_inc_def u32_max_def less_severity_def)
  ultimately show ?thesis
    by (simp add: noisy_of_def noisy_key_def top_noisy_def)
qed

definition first_fetch :: fetch_meta where
  "first_fetch = \<lparr>fm_fetched_at = 0, fm_fetch_duration = 0, fm_next_interval = 0\<rparr>"

definition ring_of :: "bulletin_snapshot list \<Rightarrow> bulletin_ring" where
  "ring_of bs = (ring_new 100)\<lparr>br_buf := bs, br_meta := Some first_fetch\<rparr>"

lemma sparkline_counts_bulletins_witness:
  "bb_count (ov_sparkline (redraw_bulletin_projections (\<lambda>_. Some 840) rev 900
     (ring_of [reported 1 ''INFO'' ''a'', reported 2 ''ERROR'' ''b'']) overview_new) ! 13) = 2"
proof -
  let ?r = "ring_of [reported 1 ''INFO'' ''a'', reported 2 ''ERROR'' ''b'']"
  have start: "length (ov_sparkline overview_new) = sparkline_minutes" "list_all counts_fit (ov_sparkline overview_new)"
    "br_meta ?r \<noteq> None" "13 < sparkline_minutes"
    by (simp_all add: overview_new_def sparkline_minutes_def bucket_default_def counts_fit_def ring_of_def list_all_iff)
  have old: "snd (advance_sparkline 900 (ov_sparkline_epoch overview_new) (ov_sparkline overview_new)) ! 13 = bucket_default"
    by (simp add: overview_new_def advance_sparkline_def sparkline_minutes_def)
  have counted: "bulletins_of_minute (\<lambda>_. Some 840) 900 (unwrap_or i64_min (ov_last_bulletin_id overview_new)) 13 (br_buf ?r)
      = [reported 1 ''INFO'' ''a'', reported 2 ''ERROR'' ''b'']"
    by (simp add: bulletins_of_minute_def reported_ago_def ring_of_def reported_def overview_new_def unwrap_or_def
        i64_min_def)
  show ?thesis
    using sparkline_counts_bulletins [OF start, of 900 "\<lambda>_. Some 840" rev] unfolding Let_def old counted
    by (simp add: bucket_default_def u32_max_def)
qed

text \<open>
  A bulletin dated ahead of the local clock is passed over, and the cursor moves beyond it:
  it is not counted when its minute comes either.
\<close>

lemma ahead_bulletin_lost:
  "let ring = ring_of [reported 1 ''INFO'' ''a''];
       s = redraw_bulletin_projections (\<lambda>_. Some 130) rev 120 ring overview_new
   in map bb_count (ov_sparkline (redraw_bulletin_projections (\<lambda>_. Some 130) rev 180 ring s)) = replicate 15 0"
  by (simp add: redraw_bulletin_projections_def Let_def ring_of_def overview_new_def advance_sparkline_def
      sparkline_minutes_def count_bulletin_def bucket_of_def reported_def newest_id_def unwrap_or_def i64_min_def
      bucket_default_def numeral_eq_Suc)

section \<open>The nodes panel\<close>

text \<open>
  Joining the same diagnostics again, as a change of the cluster nodes or of the certificates
  does, compares every node with itself: the garbage-collection deltas of the panel are lost.
\<close>

lemma same_keys: "mset ps = mset qs \<Longrightarrow> mset (map fst ps) = mset (map fst qs)"
  by simp

lemma joined_deltas:
  assumes "distinct (map nd_address (sd_nodes diag))" and "n \<in> set (ns_nodes (update_nodes lc ts pct
      (update_nodes lc ts pct st diag c0 t0) diag c t))"
  shows "nh_gc_delta n = Some 0"
proof -
  let ?first = "update_nodes lc ts pct st diag c0 t0"
  let ?pairs = "map (\<lambda>n. (nh_node_address n, nh_gc_collection_count n)) (ns_nodes ?first)"
  let ?row = "health_row ts pct
     (collect_map (map (\<lambda>n. (nh_node_address n, nh_gc_collection_count n)) (ns_nodes st))) c0 t0"
  have "mset (ns_nodes ?first) = mset (map ?row (sd_nodes diag))" by (simp add: update_nodes_def Let_def)
  then have "mset ?pairs = mset (map (\<lambda>n. (nh_node_address n, nh_gc_collection_count n)) (map ?row (sd_nodes diag)))"
    by (simp only: mset_map)
  also have "map (\<lambda>n. (nh_node_address n, nh_gc_collection_count n)) (map ?row (sd_nodes diag))
      = map (\<lambda>d. (nd_address d, gc_total (nd_gc d))) (sd_nodes diag)"
    by (simp add: health_row_def Let_def)
  finally have perm: "mset ?pairs = mset (map (\<lambda>d. (nd_address d, gc_total (nd_gc d))) (sd_nodes diag))" .
  from same_keys [OF this] have "mset (map fst ?pairs) = mset (map nd_address (sd_nodes diag))"
    by (simp only: map_map o_def fst_conv)
  from mset_eq_imp_distinct_iff [OF this] have dist: "distinct (map fst (rev ?pairs))"
    using assms(1) by (simp only: rev_map [symmetric] distinct_rev)
  have look: "collect_map ?pairs (nd_address d) = Some (gc_total (nd_gc d))" if "d \<in> set (sd_nodes diag)" for d
  proof -
    have "(nd_address d, gc_total (nd_gc d)) \<in> set (rev ?pairs)"
      using that mset_eq_setD [OF perm] by (simp only: set_rev) force
    then show ?thesis unfolding collect_map_def using dist by (simp only: map_of_is_SomeI)
  qed
  from assms(2) obtain d where "d \<in> set (sd_nodes diag)" "n = health_row ts pct (collect_map ?pairs) c t d"
    by (auto simp: update_nodes_def [of lc ts pct ?first] Let_def)
  with look show ?thesis by (simp add: health_row_def Let_def)
qed

text \<open>
  C26: two redraws of the nodes panel from the same diagnostics, whose node addresses are distinct,
  leave a delta of zero on every node, whatever the first redraw had found.
\<close>

theorem gc_delta_lost_on_redraw:
  assumes "distinct (map nd_address (sd_nodes diag))"
    and "es_latest (cl_system_diagnostics snap) = Some diag" "es_latest (cl_system_diagnostics snap') = Some diag"
    and "redraw_sysdiag lc ts pct snap st = Some t" "redraw_sysdiag lc ts pct snap' t = Some u"
  shows "list_all (\<lambda>n. nh_gc_delta n = Some 0) (ns_nodes (ov_nodes (fst u)))"
  using assms(2-) joined_deltas [OF assms(1)] by (auto simp: redraw_sysdiag_def list_all_iff)

definition diag_snapshot :: "u64 \<Rightarrow> cluster_snapshot" where
  "diag_snapshot n =
     (with_bulletins_capacity 10)\<lparr>cl_system_diagnostics := Ready (sample_diag [sample_node ''a:1'' n]) first_fetch\<rparr>"

text \<open>The counter went from 2 to 5; the redraw for a change of the nodes forgets it.\<close>

lemma gc_delta_lost_on_redraw_witness:
  "let redraw = redraw_sysdiag (\<lambda>x. x) (\<lambda>_. None) (\<lambda>_ _. 0); deltas = map nh_gc_delta \<circ> ns_nodes \<circ> ov_nodes \<circ> fst;
       polled = Option.bind (redraw (diag_snapshot 2) (overview_new, None)) (redraw (diag_snapshot 5))
   in map_option deltas polled = Some [Some 3]
      \<and> map_option deltas (Option.bind polled (redraw (diag_snapshot 5))) = Some [Some 0]"
proof -
  let ?redraw = "redraw_sysdiag (\<lambda>x. x) (\<lambda>_. None) (\<lambda>_ _. 0)"
  let ?polled = "Option.bind (?redraw (diag_snapshot 2) (overview_new, None)) (?redraw (diag_snapshot 5))"
  have first: "map_option (map nh_gc_delta \<circ> ns_nodes \<circ> ov_nodes \<circ> fst) ?polled = Some [Some 3]" by code_simp
  then obtain t1 t where run: "?redraw (diag_snapshot 2) (overview_new, None) = Some t1"
      "?redraw (diag_snapshot 5) t1 = Some t" by (auto simp: bind_eq_Some_conv)
  have again: "map_option (length \<circ> ns_nodes \<circ> ov_nodes \<circ> fst) (Option.bind ?polled (?redraw (diag_snapshot 5))) = Some 1"
    by code_simp
  with run obtain u where u: "?redraw (diag_snapshot 5) t = Some u" "length (ns_nodes (ov_nodes (fst u))) = 1"
    by (auto simp: bind_eq_Some_conv)
  have diag: "es_latest (cl_system_diagnostics (diag_snapshot 5)) = Some (sample_diag [sample_node ''a:1'' 5])"
    "distinct (map nd_address (sd_nodes (sample_diag [sample_node ''a:1'' 5])))"
    by (simp_all add: diag_snapshot_def sample_diag_def)
  have "list_all (\<lambda>n. nh_gc_delta n = Some 0) (ns_nodes (ov_nodes (fst u)))"
    by (rule gc_delta_lost_on_redraw [OF diag(2,1,1) run(2) u(1)])
  then have "map nh_gc_delta (ns_nodes (ov_nodes (fst u))) = [Some 0]" using u(2) by (auto simp: length_Suc_conv)
  with first run u(1) show ?thesis by (cases t; cases u) (simp add: Let_def)
qed

end
