(* ===== verification/Overview_Keys.thy ===== *)
theory Overview_Keys
  imports App_Keys Overview_State
begin

text \<open>
  The keys of the Overview tab (\<open>OverviewHandler\<close> in \<open>src/src/app/state/overview.rs\<close>), the
  cross-links of its leaderboards, and its redraws when the cluster changes (the
  \<open>ClusterChanged\<close> arm of \<open>src/src/app/mod.rs\<close>).

  Indexing the rows of a section out of range panics and is \<open>None\<close>. What a key asks of the
  application is a value; a forced fetch is recorded.
\<close>

section \<open>The sections of a task\<close>

definition task_bulletins :: "cluster_snapshot \<Rightarrow> reporting_task_row \<Rightarrow> bulletin_snapshot list" where
  "task_bulletins snap t = take 10 (filter (\<lambda>b. bu_source_id b = rt_id t) (rev (br_buf (cl_bulletins snap))))"

definition modal_task :: "cluster_snapshot \<Rightarrow> task_modal \<Rightarrow> reporting_task_row option" where
  "modal_task snap m = Option.bind (es_latest (cl_reporting_tasks snap)) (\<lambda>ts. selected_task ts m)"

definition section_rows :: "cluster_snapshot \<Rightarrow> reporting_task_row \<Rightarrow> task_section \<Rightarrow> nat" where
  "section_rows snap t sec =
     (case sec of
        TsProperties \<Rightarrow> length (rt_properties t)
      | TsValidationErrors \<Rightarrow> length (rt_validation_errors t)
      | TsRecentBulletins \<Rightarrow> length (task_bulletins snap t))"

definition detail_row_count :: "cluster_snapshot \<Rightarrow> task_modal \<Rightarrow> nat \<Rightarrow> nat option" where
  "detail_row_count snap m idx =
     Option.bind (modal_task snap m) (\<lambda>t. map_option (section_rows snap t) (get_at (section_list t) idx))"

text \<open>The text that is copied; an unset property reads as a sensitive one.\<close>

definition property_text :: "reporting_task_row \<Rightarrow> string \<times> string option \<Rightarrow> string" where
  "property_text t p =
     (let d = map_of (rt_descriptors t) (fst p);
          sensitive = (case d of Some d \<Rightarrow> rtd_sensitive d | None \<Rightarrow> False)
      in (case d of Some d \<Rightarrow> rtd_display_name d | None \<Rightarrow> fst p) @ [CHR 0x09] @
         (if sensitive \<or> snd p = None then ''[sensitive]'' else unwrap_or [] (snd p)))"

definition row_text :: "cluster_snapshot \<Rightarrow> reporting_task_row \<Rightarrow> task_section \<Rightarrow> nat \<Rightarrow> string option" where
  "row_text snap t sec row =
     (case sec of
        TsProperties \<Rightarrow> map_option (property_text t) (get_at (rt_properties t) row)
      | TsValidationErrors \<Rightarrow> get_at (rt_validation_errors t) row
      | TsRecentBulletins \<Rightarrow>
          map_option (\<lambda>b. bu_timestamp_iso b @ [CHR 0x09] @ bu_level b @ [CHR 0x09] @ bu_message b)
            (get_at (task_bulletins snap t) row))"

definition copy_text_for_focus :: "cluster_snapshot \<Rightarrow> task_modal \<Rightarrow> string option option" where
  "copy_text_for_focus snap m =
     (case modal_task snap m of
        None \<Rightarrow> Some None
      | Some t \<Rightarrow>
          (case tm_focus m of
             TaskList \<Rightarrow>
               Some (Some (rt_id t @ [CHR 0x09] @ rt_name t @ [CHR 0x09] @ short_type (rt_task_type t) @ [CHR 0x09]
                 @ rt_scheduling_period t @ [CHR 0x09] @ show_nat (unat (rt_active_thread_count t))))
           | TaskDetail idx rows \<Rightarrow>
               (case get_at (section_list t) idx of
                  None \<Rightarrow> Some None
                | Some sec \<Rightarrow> if idx < length rows then Some (row_text snap t sec (rows ! idx)) else None)))"

section \<open>Moving in the modal\<close>

text \<open>The list and the sections move alike over their rows.\<close>

definition row_after :: "reporting_verb \<Rightarrow> nat \<Rightarrow> nat \<Rightarrow> nat" where
  "row_after v n row =
     (case v of
        RvRowUp \<Rightarrow> row - 1
      | RvRowDown \<Rightarrow> if row < n - 1 then row + 1 else row
      | RvPageUp \<Rightarrow> row - 10
      | RvPageDown \<Rightarrow> min (row + 10) (n - 1)
      | RvJumpTop \<Rightarrow> 0
      | RvJumpBottom \<Rightarrow> n - 1
      | _ \<Rightarrow> row)"

definition list_row :: "cluster_snapshot \<Rightarrow> nat \<Rightarrow> task_modal \<Rightarrow> task_modal" where
  "list_row snap ord m0 =
     (let m = m0\<lparr>tm_selected_ordinal := ord\<rparr> in
      case get_at (tm_filtered m) ord of
        None \<Rightarrow> m
      | Some raw \<Rightarrow>
          m\<lparr>tm_selected_id := Option.bind (es_latest (cl_reporting_tasks snap)) (\<lambda>ts. task_id_at ts raw)\<rparr>)"

definition set_row :: "(nat \<Rightarrow> nat \<Rightarrow> nat) \<Rightarrow> cluster_snapshot \<Rightarrow> nat \<Rightarrow> nat list \<Rightarrow> task_modal \<Rightarrow> task_modal option" where
  "set_row f snap idx rows m =
     (if idx < length rows
      then Some (m\<lparr>tm_focus := TaskDetail idx (rows[idx := f (unwrap_or 0 (detail_row_count snap m idx)) (rows ! idx)])\<rparr>)
      else None)"

definition move_row :: "cluster_snapshot \<Rightarrow> reporting_verb \<Rightarrow> task_modal \<Rightarrow> task_modal option" where
  "move_row snap v m =
     (case tm_focus m of
        TaskList \<Rightarrow> Some (list_row snap (row_after v (length (tm_filtered m)) (tm_selected_ordinal m)) m)
      | TaskDetail idx rows \<Rightarrow> set_row (row_after v) snap idx rows m)"

definition clamp_to :: "nat \<Rightarrow> nat \<Rightarrow> nat" where
  "clamp_to n row = min row (n - 1)"

definition next_pane :: "cluster_snapshot \<Rightarrow> task_modal \<Rightarrow> task_modal option" where
  "next_pane snap m =
     (case tm_focus m of
        TaskList \<Rightarrow> Some m
      | TaskDetail idx rows \<Rightarrow>
          (case modal_task snap m of
             None \<Rightarrow> Some m
           | Some t \<Rightarrow>
               if idx + 1 \<ge> length (section_list t) then Some (m\<lparr>tm_focus := TaskList\<rparr>)
               else set_row clamp_to snap (idx + 1) rows m))"

definition prev_pane :: "cluster_snapshot \<Rightarrow> task_modal \<Rightarrow> task_modal option" where
  "prev_pane snap m =
     (case tm_focus m of
        TaskList \<Rightarrow> Some m
      | TaskDetail idx rows \<Rightarrow>
          if idx = 0 then Some (m\<lparr>tm_focus := TaskList\<rparr>) else set_row clamp_to snap (idx - 1) rows m)"

section \<open>The verbs of the modal\<close>

datatype overview_effect =
    OeDeclines
  | OeRedraw
  | OeCopy string
  | OeGoto cross_link
  | OeForce cluster_endpoint
  | OeNodeDetail node_health_row

text \<open>Esc leaves the detail, then clears the query, then closes the modal.\<close>

definition close_step :: "(string \<Rightarrow> string) \<Rightarrow> cluster_snapshot \<Rightarrow> task_modal \<Rightarrow> task_modal option" where
  "close_step lc snap m =
     (case tm_focus m of
        TaskDetail idx rows \<Rightarrow> Some (m\<lparr>tm_focus := TaskList\<rparr>)
      | TaskList \<Rightarrow>
          if ss_query (tm_search m) = [] then None
          else let m = m\<lparr>tm_search := (tm_search m)\<lparr>ss_query := []\<rparr>\<rparr>
               in Some (case es_latest (cl_reporting_tasks snap) of None \<Rightarrow> m | Some ts \<Rightarrow> refilter lc ts m))"

definition root_pg_id :: "cluster_snapshot \<Rightarrow> string" where
  "root_pg_id snap =
     unwrap_or [] (Option.bind (es_latest (cl_root_pg_status snap)) (\<lambda>r. get_at (rps_process_group_ids r) 0))"

text \<open>The parameter context a property value leads to.\<close>

definition property_target :: "cluster_snapshot \<Rightarrow> string option \<Rightarrow> cross_link option" where
  "property_target snap v =
     Option.bind v (\<lambda>s.
       if contains_param_ref s
       then (case scan_param_refs s of
               SingleRef name \<Rightarrow> Some (OpenParameterContext (root_pg_id snap) (Some name))
             | MultipleRefs \<Rightarrow> Some (OpenParameterContext (root_pg_id snap) None)
             | NoRef \<Rightarrow> None)
       else None)"

definition row_link :: "cluster_snapshot \<Rightarrow> reporting_task_row \<Rightarrow> task_section \<Rightarrow> nat \<Rightarrow> cross_link option" where
  "row_link snap t sec row =
     (case sec of
        TsProperties \<Rightarrow> Option.bind (get_at (rt_properties t) row) (\<lambda>p. property_target snap (snd p))
      | TsValidationErrors \<Rightarrow> None
      | TsRecentBulletins \<Rightarrow> Some (OpenBulletins (rt_id t)))"

definition focus_detail :: "cluster_snapshot \<Rightarrow> task_modal \<Rightarrow> (task_modal option \<times> overview_effect) option" where
  "focus_detail snap m =
     (case tm_focus m of
        TaskList \<Rightarrow> Some (Some (m\<lparr>tm_focus := TaskDetail 0 [0, 0, 0]\<rparr>), OeRedraw)
      | TaskDetail idx rows \<Rightarrow>
          (case Option.bind (modal_task snap m) (\<lambda>t. map_option (Pair t) (get_at (section_list t) idx)) of
             None \<Rightarrow> Some (Some m, OeDeclines)
           | Some (t, sec) \<Rightarrow>
               if sec = TsProperties \<and> \<not> idx < length rows then None
               else (case row_link snap t sec (rows ! idx) of
                       None \<Rightarrow> Some (Some m, OeRedraw)
                     | Some link \<Rightarrow> Some (None, OeGoto link))))"

definition task_verb ::
  "(string \<Rightarrow> string) \<Rightarrow> cluster_snapshot \<Rightarrow> reporting_verb \<Rightarrow> task_modal \<Rightarrow> (task_modal option \<times> overview_effect) option" where
  "task_verb lc snap v m =
     (let kept = map_option (\<lambda>m. (Some m, OeRedraw)) in
      case v of
        RvCommon CvClose \<Rightarrow> Some (close_step lc snap m, OeRedraw)
      | RvCommon CvCopy \<Rightarrow>
          map_option (\<lambda>txt. (Some m, case txt of None \<Rightarrow> OeRedraw | Some s \<Rightarrow> OeCopy s)) (copy_text_for_focus snap m)
      | RvCommon CvOpenSearch \<Rightarrow> Some (Some (m\<lparr>tm_search := (tm_search m)\<lparr>ss_input_active := True\<rparr>\<rparr>), OeRedraw)
      | RvCommon CvRefresh \<Rightarrow> Some (Some m, OeForce EpReportingTasks)
      | RvCommon _ \<Rightarrow> Some (Some m, OeRedraw)
      | RvFocusDetail \<Rightarrow> focus_detail snap m
      | RvNextPane \<Rightarrow> kept (next_pane snap m)
      | RvPrevPane \<Rightarrow> kept (prev_pane snap m)
      | _ \<Rightarrow> kept (move_row snap v m))"

text \<open>Refresh and the search cycle answer without a modal too.\<close>

definition closed_verb :: "reporting_verb \<Rightarrow> overview_effect" where
  "closed_verb v =
     (case v of
        RvCommon CvRefresh \<Rightarrow> OeForce EpReportingTasks
      | RvCommon CvSearchNext \<Rightarrow> OeRedraw
      | RvCommon CvSearchPrev \<Rightarrow> OeRedraw
      | _ \<Rightarrow> OeDeclines)"

definition overview_verb_step ::
  "(string \<Rightarrow> string) \<Rightarrow> cluster_snapshot \<Rightarrow> view_verb \<Rightarrow> overview_state \<Rightarrow> (overview_state \<times> overview_effect) option" where
  "overview_verb_step lc snap v s =
     (case v of
        VOverview OvOpenReportingTasksModal \<Rightarrow>
          Some (s\<lparr>ov_task_modal := Some (case es_latest (cl_reporting_tasks snap) of
            Some ts \<Rightarrow> open_task_modal lc ts | None \<Rightarrow> task_modal_default)\<rparr>, OeRedraw)
      | VReporting r \<Rightarrow>
          (case ov_task_modal s of
             None \<Rightarrow> Some (s, closed_verb r)
           | Some m \<Rightarrow> map_option (\<lambda>(m', e). (s\<lparr>ov_task_modal := m'\<rparr>, e)) (task_verb lc snap r m))
      | _ \<Rightarrow> Some (s, OeDeclines))"

section \<open>Focus\<close>

fun focus_next :: "overview_focus \<Rightarrow> overview_focus" where
  "focus_next OfNone = OfNodes"
| "focus_next OfNodes = OfNoisy"
| "focus_next OfNoisy = OfQueues"
| "focus_next OfQueues = OfNone"

fun focus_prev :: "overview_focus \<Rightarrow> overview_focus" where
  "focus_prev OfNone = OfQueues"
| "focus_prev OfNodes = OfNone"
| "focus_prev OfNoisy = OfNodes"
| "focus_prev OfQueues = OfNoisy"

text \<open>The leaderboards move through a \<open>CursorRef\<close>.\<close>

definition move_cursor :: "nav_cmd \<Rightarrow> nat \<Rightarrow> nat \<Rightarrow> nat" where
  "move_cursor c n i = cr_selected (nav_apply cursor_ref_nav \<lparr>cr_len = n, cr_selected = i\<rparr> c)"

definition move_panel :: "nav_cmd \<Rightarrow> overview_state \<Rightarrow> overview_state" where
  "move_panel c s =
     (case ov_focus s of
        OfNone \<Rightarrow> s
      | OfNodes \<Rightarrow> s\<lparr>ov_nodes := nav_apply nodes_nav (ov_nodes s) c\<rparr>
      | OfNoisy \<Rightarrow> s\<lparr>ov_noisy_selected := move_cursor c (length (ov_noisy s)) (ov_noisy_selected s)\<rparr>
      | OfQueues \<Rightarrow> s\<lparr>ov_queues_selected := move_cursor c (length (ov_unhealthy s)) (ov_queues_selected s)\<rparr>)"

definition overview_focus_step :: "focus_action \<Rightarrow> overview_state \<Rightarrow> overview_state \<times> overview_effect" where
  "overview_focus_step a s =
     (case a of
        FaNextPane \<Rightarrow> (s\<lparr>ov_focus := focus_next (ov_focus s)\<rparr>, OeRedraw)
      | FaPrevPane \<Rightarrow> (s\<lparr>ov_focus := focus_prev (ov_focus s)\<rparr>, OeRedraw)
      | FaDescend \<Rightarrow>
          (case ov_focus s of
             OfNone \<Rightarrow> (s\<lparr>ov_focus := OfNodes\<rparr>, OeRedraw)
           | OfNodes \<Rightarrow>
               (s, case get_at (ns_nodes (ov_nodes s)) (ns_selected (ov_nodes s)) of
                     None \<Rightarrow> OeRedraw | Some row \<Rightarrow> OeNodeDetail row)
           | _ \<Rightarrow> (s, OeDeclines))
      | FaAscend \<Rightarrow> if ov_focus s = OfNone then (s, OeDeclines) else (s\<lparr>ov_focus := OfNone\<rparr>, OeRedraw)
      | FaUp \<Rightarrow> if ov_focus s = OfNone then (s, OeDeclines) else (move_panel MoveUp s, OeRedraw)
      | FaDown \<Rightarrow> if ov_focus s = OfNone then (s, OeDeclines) else (move_panel MoveDown s, OeRedraw)
      | _ \<Rightarrow> (s, OeDeclines))"

section \<open>Cross-links\<close>

text \<open>A queue leads to the process group that owns it.\<close>

definition overview_target :: "go_target \<Rightarrow> overview_state \<Rightarrow> (cross_link \<times> goto_subject) option" where
  "overview_target t s =
     (case (ov_focus s, t) of
        (OfNoisy, GtBrowser) \<Rightarrow> map_option (\<lambda>n. (OpenInBrowser (ny_source_id n) (ny_group_id n),
            SubjComponent (ny_source_name n) (ny_source_id n))) (get_at (ov_noisy s) (ov_noisy_selected s))
      | (OfQueues, GtBrowser) \<Rightarrow> map_option (\<lambda>q. (OpenInBrowser (uq_group_id q) (uq_group_id q),
            SubjComponent (uq_source_name q) (uq_group_id q))) (get_at (ov_unhealthy s) (ov_queues_selected s))
      | (OfNoisy, GtEvents) \<Rightarrow> map_option (\<lambda>n. (GotoEvents (ny_source_id n),
            SubjComponent (ny_source_name n) (ny_source_id n))) (get_at (ov_noisy s) (ov_noisy_selected s))
      | _ \<Rightarrow> None)"

section \<open>The tab under the dispatcher\<close>

record 'p overview_slot =
  os_overview :: overview_state
  os_forced :: "cluster_endpoint list"
  os_rest :: 'p

text \<open>A copied row is shown whole in the banner.\<close>

definition overview_answer ::
  "app_env \<Rightarrow> overview_state \<times> overview_effect \<Rightarrow> 'p overview_slot app_state
   \<Rightarrow> 'p overview_slot app_state \<times> 'i app_result option" where
  "overview_answer E x s0 =
     (let s = s0\<lparr>as_others := (as_others s0)\<lparr>os_overview := fst x\<rparr>\<rparr> in
      case snd x of
        OeDeclines \<Rightarrow> (s, None)
      | OeRedraw \<Rightarrow> (s, Some redraw)
      | OeCopy t \<Rightarrow> (copy_text (en_copy E) (''copied: '' @ t) t s, Some redraw)
      | OeGoto link \<Rightarrow> (s, Some (asks (AiGoto link)))
      | OeForce e \<Rightarrow> (s\<lparr>as_others := (as_others s)\<lparr>os_forced := os_forced (as_others s) @ [e]\<rparr>\<rparr>, Some redraw)
      | OeNodeDetail row \<Rightarrow> (s\<lparr>as_modal := Some (AmNodeDetail row)\<rparr>, Some redraw))"

definition overview_handler :: "app_env \<Rightarrow> ('p overview_slot, 'i) tab_handler" where
  "overview_handler E =
     \<lparr>th_verb = (\<lambda>v s. map_option (\<lambda>x. overview_answer E x s)
        (overview_verb_step (en_lower E) (en_snapshot E) v (os_overview (as_others s)))),
      th_focus = (\<lambda>a s. Some (overview_answer E (overview_focus_step a (os_overview (as_others s))) s)),
      th_text_input = (\<lambda>k s. declines s), th_typing = (\<lambda>s. False), th_blocks = (\<lambda>s. False),
      th_default_link = (\<lambda>s. None)\<rparr>"

definition overview_link :: "'p overview_slot link_source" where
  "overview_link s t = overview_target t (os_overview (as_others s))"

text \<open>Opening details keeps the modals of the application good.\<close>

lemma overview_answer_ok:
  assumes "overview_answer E x s = (t, r)" and "as_modal s = None"
  shows "modal_ok E t"
  using assms
  by (cases "snd x") (auto simp: overview_answer_def Let_def no_modal_ok, simp add: modal_ok_def)

interpretation overview_keep: modal_keeping E "overview_handler E" for E
  by unfold_locales
    (auto simp: overview_handler_def declines_def no_modal_ok elim: overview_answer_ok)

section \<open>When the cluster changes\<close>

text \<open>What the redraws read besides the snapshot.\<close>

record overview_env =
  oe_lower :: "string \<Rightarrow> string"
  oe_parse_iso :: "string \<Rightarrow> int option"
  oe_parse_ts :: "string \<Rightarrow> int option"
  oe_percent :: "u64 \<Rightarrow> u64 \<Rightarrow> u32"
  oe_traverse :: "noisy_component list \<Rightarrow> noisy_component list"

definition cluster_changed ::
  "overview_env \<Rightarrow> cluster_snapshot \<Rightarrow> int \<Rightarrow> cluster_endpoint \<Rightarrow> overview_state \<times> nat option
   \<Rightarrow> (overview_state \<times> nat option) option" where
  "cluster_changed V snap now e st =
     (let sysdiag = redraw_sysdiag (oe_lower V) (oe_parse_ts V) (oe_percent V) snap st;
          components = redraw_components (oe_lower V) snap in
      case e of
        EpRootPgStatus \<Rightarrow> Some (components (fst st), snd st)
      | EpControllerServices \<Rightarrow> Some (components (fst st), snd st)
      | EpReportingTasks \<Rightarrow> Some (components (fst st), snd st)
      | EpControllerStatus \<Rightarrow> Some (components (redraw_controller_status snap (fst st)), snd st)
      | EpSystemDiagnostics \<Rightarrow> sysdiag
      | EpClusterNodes \<Rightarrow> sysdiag
      | EpTlsCerts \<Rightarrow> sysdiag
      | EpBulletins \<Rightarrow>
          Some (redraw_bulletin_projections (oe_parse_iso V) (oe_traverse V) now (cl_bulletins snap) (fst st), snd st)
      | _ \<Rightarrow> Some st)"

datatype overview_event =
    OvVerb view_verb
  | OvFocus focus_action
  | OvChanged cluster_endpoint int

definition overview_step ::
  "overview_env \<Rightarrow> cluster_snapshot \<times> overview_event \<Rightarrow> overview_state \<times> nat option \<Rightarrow> (overview_state \<times> nat option) option" where
  "overview_step V se st =
     (case se of
        (snap, OvVerb v) \<Rightarrow>
          map_option (\<lambda>x. (fst x, snd st)) (overview_verb_step (oe_lower V) snap v (fst st))
      | (snap, OvFocus a) \<Rightarrow> Some (fst (overview_focus_step a (fst st)), snd st)
      | (snap, OvChanged e now) \<Rightarrow> cluster_changed V snap now e st)"

fun overview_run ::
  "overview_env \<Rightarrow> (cluster_snapshot \<times> overview_event) list \<Rightarrow> overview_state \<times> nat option
   \<Rightarrow> (overview_state \<times> nat option) option" where
  "overview_run V [] st = Some st"
| "overview_run V (e # es) st = Option.bind (overview_step V e st) (overview_run V es)"

section \<open>The selections stay in range and no key panics\<close>

definition in_rows :: "nat \<Rightarrow> nat \<Rightarrow> bool" where
  "in_rows n i \<longleftrightarrow> (if n = 0 then i = 0 else i < n)"

definition task_modal_ok :: "task_modal \<Rightarrow> bool" where
  "task_modal_ok m \<longleftrightarrow> in_rows (length (tm_filtered m)) (tm_selected_ordinal m)
     \<and> (case tm_focus m of TaskList \<Rightarrow> True | TaskDetail idx rows \<Rightarrow> idx < 3 \<and> length rows = 3)
     \<and> ss_query (tm_search m) = []"

definition overview_ok :: "overview_state \<Rightarrow> bool" where
  "overview_ok s \<longleftrightarrow>
     length (ov_sparkline s) = sparkline_minutes \<and> list_all counts_fit (ov_sparkline s)
     \<and> length (ns_nodes (ov_nodes s)) \<le> usize_max \<and> in_rows (length (ns_nodes (ov_nodes s))) (ns_selected (ov_nodes s))
     \<and> length (ov_noisy s) \<le> top_noisy \<and> in_rows (length (ov_noisy s)) (ov_noisy_selected s)
     \<and> length (ov_unhealthy s) \<le> top_queues \<and> in_rows (length (ov_unhealthy s)) (ov_queues_selected s)
     \<and> (case ov_task_modal s of None \<Rightarrow> True | Some m \<Rightarrow> task_modal_ok m)"

lemma clamp_in_rows [simp]: "in_rows n (clamp_row n i)"
  by (auto simp: in_rows_def clamp_row_def)

lemma in_rows_0 [simp]: "in_rows n 0"
  by (simp add: in_rows_def)

text \<open>Keys in the panels.\<close>

lemma move_cursor_in_rows:
  assumes "in_rows n i" and "n \<le> usize_max"
  shows "in_rows n (move_cursor c n i)"
proof (cases "n = 0")
  case True
  then show ?thesis
    using assms by (cases c) (auto simp: in_rows_def move_cursor_def nav_defs cursor_ref_nav_def)
next
  case False
  with assms have ok: "cursor_ref_ok \<lparr>cr_len = n, cr_selected = i\<rparr>" by (simp add: cursor_ref_ok_def in_rows_def)
  have "cursor_ref_ok (nav_run cursor_ref_nav \<lparr>cr_len = n, cr_selected = i\<rparr> [c])"
    "cr_len (nav_run cursor_ref_nav \<lparr>cr_len = n, cr_selected = i\<rparr> [c]) = n"
    using cursor.run_ok [OF ok, of "[c]"] by (simp_all add: cursor_ref_nav_def)
  with False show ?thesis by (simp add: in_rows_def move_cursor_def nav_run_def cursor_ref_ok_def)
qed

lemma nodes_in_rows:
  assumes "length (ns_nodes s) \<le> usize_max" and "in_rows (length (ns_nodes s)) (ns_selected s)"
  shows "length (ns_nodes (nav_apply nodes_nav s c)) \<le> usize_max
    \<and> in_rows (length (ns_nodes (nav_apply nodes_nav s c))) (ns_selected (nav_apply nodes_nav s c))"
proof (cases "ns_nodes s = []")
  case True
  then have "nav_apply nodes_nav s c = s" by (intro nodes.apply_empty) (simp add: nodes_nav_def)
  with assms show ?thesis by simp
next
  case False
  with assms have ok: "nodes_ok s" by (simp add: nodes_ok_def in_rows_def)
  from nodes.run_ok [OF ok, of "[c]"] have "nodes_ok (nav_apply nodes_nav s c)"
    "length (ns_nodes (nav_apply nodes_nav s c)) = length (ns_nodes s)"
    by (simp_all add: nav_run_def nodes_nav_def)
  with False show ?thesis by (auto simp: nodes_ok_def in_rows_def)
qed

lemma small_boards: "top_noisy \<le> usize_max" "top_queues \<le> usize_max"
  by (simp_all add: top_noisy_def top_queues_def usize_max_def)

lemma move_panel_ok: "overview_ok s \<Longrightarrow> overview_ok (move_panel c s)"
  using small_boards
  by (cases "ov_focus s") (auto simp: move_panel_def overview_ok_def nodes_in_rows intro: move_cursor_in_rows)

lemma focus_fields [simp]: "overview_ok (s\<lparr>ov_focus := f\<rparr>) = overview_ok s"
  by (simp add: overview_ok_def)

lemma focus_step_ok: "overview_ok s \<Longrightarrow> overview_ok (fst (overview_focus_step a s))"
  by (auto simp: overview_focus_step_def move_panel_ok split: focus_action.split overview_focus.split)

text \<open>Keys in the modal.\<close>

lemma row_after_in_rows: "in_rows n i \<Longrightarrow> in_rows n (row_after v n i)"
  by (cases v) (auto simp: row_after_def in_rows_def)

lemma section_count: "length (section_list t) \<le> 3"
  by (simp add: section_list_def)

lemma get_at_bound: "get_at xs i = Some x \<Longrightarrow> i < length xs"
  by (simp add: get_at_def split: if_splits)

lemma set_row_ok:
  "task_modal_ok m \<Longrightarrow> idx < 3 \<Longrightarrow> length rows = 3 \<Longrightarrow> \<exists>m'. set_row f snap idx rows m = Some m' \<and> task_modal_ok m'"
  by (simp add: set_row_def task_modal_ok_def)

lemma to_list_ok [simp]: "task_modal_ok m \<Longrightarrow> task_modal_ok (m\<lparr>tm_focus := TaskList\<rparr>)"
  by (simp add: task_modal_ok_def)

lemma detail_bounds: "task_modal_ok m \<Longrightarrow> tm_focus m = TaskDetail idx rows \<Longrightarrow> idx < 3 \<and> length rows = 3"
  by (simp add: task_modal_ok_def)

lemma list_row_ok:
  "task_modal_ok m \<Longrightarrow> task_modal_ok (list_row snap (row_after v (length (tm_filtered m)) (tm_selected_ordinal m)) m)"
  by (auto simp: list_row_def Let_def task_modal_ok_def row_after_in_rows split: option.split)

lemma moves_ok:
  assumes "task_modal_ok m"
  shows "\<exists>m'. move_row snap v m = Some m' \<and> task_modal_ok m'"
    and "\<exists>m'. next_pane snap m = Some m' \<and> task_modal_ok m'"
    and "\<exists>m'. prev_pane snap m = Some m' \<and> task_modal_ok m'"
proof -
  show "\<exists>m'. move_row snap v m = Some m' \<and> task_modal_ok m'"
    using assms detail_bounds [OF assms] list_row_ok [OF assms, of snap v] set_row_ok [OF assms]
    by (cases "tm_focus m") (auto simp: move_row_def)
  show "\<exists>m'. next_pane snap m = Some m' \<and> task_modal_ok m'"
  proof (cases "tm_focus m")
    case (TaskDetail idx rows)
    have inside: "idx + 1 < 3" if "idx + 1 < length (section_list t)" for t
      using that section_count [of t] by simp
    show ?thesis
      using assms TaskDetail detail_bounds [OF assms TaskDetail] inside
      by (cases "modal_task snap m") (auto simp: next_pane_def not_le intro!: set_row_ok)
  qed (use assms in \<open>simp add: next_pane_def\<close>)
  show "\<exists>m'. prev_pane snap m = Some m' \<and> task_modal_ok m'"
    using assms detail_bounds [OF assms] by (cases "tm_focus m") (auto simp: prev_pane_def intro!: set_row_ok)
qed

definition opt_ok :: "task_modal option \<Rightarrow> bool" where
  "opt_ok m \<longleftrightarrow> (case m of None \<Rightarrow> True | Some m \<Rightarrow> task_modal_ok m)"

lemma copy_defined: "task_modal_ok m \<Longrightarrow> \<exists>r. copy_text_for_focus snap m = Some r"
  using detail_bounds [of m]
  by (auto simp: copy_text_for_focus_def split: option.split task_focus.split)

lemma focus_detail_ok:
  assumes "task_modal_ok m"
  shows "\<exists>m' e. focus_detail snap m = Some (m', e) \<and> opt_ok m'"
proof (cases "tm_focus m")
  case TaskList
  with assms show ?thesis by (auto simp: focus_detail_def opt_ok_def task_modal_ok_def)
next
  case (TaskDetail idx rows)
  with assms detail_bounds [OF assms TaskDetail] show ?thesis
    by (auto simp: focus_detail_def opt_ok_def split: option.split)
qed

lemma close_step_ok: "task_modal_ok m \<Longrightarrow> opt_ok (close_step lc snap m)"
  by (cases "tm_focus m") (simp_all add: close_step_def opt_ok_def task_modal_ok_def)

lemma task_verb_ok:
  assumes "task_modal_ok m"
  shows "\<exists>m' e. task_verb lc snap v m = Some (m', e) \<and> opt_ok m'"
proof (cases v)
  case (RvCommon c)
  with assms close_step_ok [OF assms, of lc snap] copy_defined [OF assms, of snap] show ?thesis
    by (cases c) (auto simp: task_verb_def opt_ok_def task_modal_ok_def)
next
  case RvFocusDetail
  with focus_detail_ok [OF assms, of snap] show ?thesis by (simp add: task_verb_def)
qed (use moves_ok [OF assms, of snap] in \<open>fastforce simp: task_verb_def opt_ok_def\<close>)+

lemma overview_ok_modal:
  "overview_ok s \<Longrightarrow> opt_ok (ov_task_modal s)"
  "overview_ok s \<Longrightarrow> opt_ok m \<Longrightarrow> overview_ok (s\<lparr>ov_task_modal := m\<rparr>)"
  by (simp_all add: overview_ok_def opt_ok_def)

lemma open_modal_ok: "task_modal_ok (open_task_modal lc ts)" "task_modal_ok task_modal_default"
  by (simp_all add: open_task_modal_def Let_def refilter_def task_modal_ok_def task_modal_default_def search_idle_def)

lemma verb_step_ok:
  assumes "overview_ok s"
  shows "\<exists>t e. overview_verb_step lc snap v s = Some (t, e) \<and> overview_ok t"
proof (cases "\<exists>r m. v = VReporting r \<and> ov_task_modal s = Some m")
  case True
  then obtain r m where v: "v = VReporting r" "ov_task_modal s = Some m" by auto
  then have "task_modal_ok m" using overview_ok_modal(1) [OF assms] by (simp add: opt_ok_def)
  from task_verb_ok [OF this, of lc snap r] v show ?thesis
    using overview_ok_modal(2) [OF assms] by (auto simp: overview_verb_step_def)
next
  case False
  with assms show ?thesis
    by (cases v) (auto simp: overview_verb_step_def opt_ok_def open_modal_ok overview_ok_modal
        split: overview_verb.split option.split)
qed

text \<open>The redraws.\<close>

lemma refilter_fields:
  "tm_search (refilter lc ts m) = tm_search m" "tm_focus (refilter lc ts m) = tm_focus m"
  "tm_selected_ordinal (refilter lc ts m) = tm_selected_ordinal m" "tm_selected_id (refilter lc ts m) = tm_selected_id m"
  by (simp_all add: refilter_def Let_def)

lemma ov_reconcile_ok: "task_modal_ok m \<Longrightarrow> task_modal_ok (task_reconcile lc ts m)"
  unfolding task_reconcile_def Let_def
  by (auto simp: task_modal_ok_def refilter_fields in_rows_def bind_eq_Some_conv min_less_iff_disj dest!: position_Some
      split: option.split)

lemma components_ok: "overview_ok s \<Longrightarrow> overview_ok (redraw_components lc snap s)"
  by (auto simp: redraw_components_def Let_def overview_ok_def ov_reconcile_ok derive_unhealthy_def
      split: option.split)

lemma controller_ok: "overview_ok s \<Longrightarrow> overview_ok (redraw_controller_status snap s)"
  by (simp add: redraw_controller_status_def overview_ok_def)

lemma counted_fit:
  "list_all counts_fit sp \<Longrightarrow> length sp = sparkline_minutes \<Longrightarrow>
   list_all counts_fit (foldl (\<lambda>sp b. count_bulletin parse now cursor b sp) sp bs)"
proof (induction bs arbitrary: sp)
  case (Cons b bs)
  have "list_all counts_fit (count_bulletin parse now cursor b sp)"
    using Cons.prems by (auto simp: count_bulletin_def list_all_length nth_list_update dest: bucket_of_range split: option.split)
  moreover have "length (count_bulletin parse now cursor b sp) = sparkline_minutes"
    using Cons.prems by (simp add: count_bulletin_def split: option.split)
  ultimately show ?case using Cons.IH by simp
qed simp

lemma noisy_short: "length (noisy_of traverse bs) \<le> top_noisy"
  by (simp add: noisy_of_def)

lemma projections_ok: "overview_ok s \<Longrightarrow> overview_ok (redraw_bulletin_projections parse traverse now ring s)"
proof -
  assume ok: "overview_ok s"
  obtain e sp where adv: "advance_sparkline now (ov_sparkline_epoch s) (ov_sparkline s) = (e, sp)" by fastforce
  have "length sp = sparkline_minutes" "list_all counts_fit sp"
    using ok advance_length [of "ov_sparkline s" now "ov_sparkline_epoch s"]
      advance_fit [of "ov_sparkline s" now "ov_sparkline_epoch s"] adv by (auto simp: overview_ok_def)
  then show ?thesis
    using ok adv noisy_short [of traverse "br_buf ring"]
    by (simp add: redraw_bulletin_projections_def Let_def overview_ok_def counted_fit count_bulletins_length)
qed

text \<open>What a snapshot must fit: the lengths of its lists, in \<open>usize\<close> and in \<open>u32\<close>.\<close>

definition repos_fit :: "repo_usage list \<Rightarrow> bool" where
  "repos_fit rs \<longleftrightarrow> length rs \<le> u32_max"

definition diag_fits :: "cluster_snapshot \<Rightarrow> bool" where
  "diag_fits snap \<longleftrightarrow>
     (case es_latest (cl_system_diagnostics snap) of
        None \<Rightarrow> True
      | Some d \<Rightarrow> length (sd_nodes d) \<le> usize_max \<and> repos_fit (sda_content_repos (sd_aggregate d))
          \<and> repos_fit (sda_provenance_repos (sd_aggregate d)))"

lemma repos_average: "repos_fit rs \<Longrightarrow> \<exists>p. avg_repo_percent rs = Some p"
  by (cases "rs = []")
    (auto simp: avg_repo_percent_def repos_fit_def u32_max_def Let_def word_of_nat_eq_0_iff dest: dvd_imp_le)

lemma sysdiag_ok:
  assumes "overview_ok (fst st)" and "diag_fits snap"
  shows "\<exists>t. redraw_sysdiag lc ts pct snap st = Some t \<and> overview_ok (fst t)"
proof (cases "es_latest (cl_system_diagnostics snap)")
  case None
  with assms show ?thesis by (simp add: redraw_sysdiag_def)
next
  case (Some d)
  with assms(2) have "repos_fit (sda_content_repos (sd_aggregate d))" "repos_fit (sda_provenance_repos (sd_aggregate d))"
    by (simp_all add: diag_fits_def)
  from this [THEN repos_average] obtain r where r: "build_repositories_summary d = Some r"
    by (auto simp: build_repositories_summary_def Let_def)
  have "nodes_ok (update_nodes lc ts pct (ov_nodes (fst st)) d c t)" for c t
    using assms(2) Some by (intro update_nodes_ok) (simp add: diag_fits_def)
  moreover have "ns_nodes (update_nodes lc ts pct (ov_nodes (fst st)) d c t) = [] \<Longrightarrow>
      ns_selected (update_nodes lc ts pct (ov_nodes (fst st)) d c t) = 0" for c t
    by (auto simp: update_nodes_def Let_def split: if_splits)
  ultimately show ?thesis
    using assms(1) Some r by (auto simp: redraw_sysdiag_def overview_ok_def in_rows_def nodes_ok_def)
qed

lemma changed_ok:
  "overview_ok (fst st) \<Longrightarrow> diag_fits snap \<Longrightarrow> \<exists>t. cluster_changed V snap now e st = Some t \<and> overview_ok (fst t)"
  using sysdiag_ok [of st snap] by (cases e) (simp_all add: cluster_changed_def components_ok controller_ok projections_ok)

lemma overview_step_ok:
  assumes "overview_ok (fst st)" and "diag_fits (fst se)"
  shows "\<exists>t. overview_step V se st = Some t \<and> overview_ok (fst t)"
proof (cases se)
  case (Pair snap ev)
  show ?thesis
  proof (cases ev)
    case (OvVerb v)
    with Pair verb_step_ok [OF assms(1), of "oe_lower V" snap v] show ?thesis by (auto simp: overview_step_def)
  next
    case (OvFocus a)
    with Pair focus_step_ok [OF assms(1), of a] show ?thesis by (simp add: overview_step_def)
  next
    case (OvChanged e now)
    with Pair assms(2) changed_ok [OF assms(1), of snap V now e] show ?thesis by (simp add: overview_step_def)
  qed
qed

lemma overview_run_ok:
  "overview_ok (fst st) \<Longrightarrow> list_all diag_fits (map fst es) \<Longrightarrow> \<exists>t. overview_run V es st = Some t \<and> overview_ok (fst t)"
proof (induction es arbitrary: st)
  case (Cons e es)
  then obtain t where "overview_step V e st = Some t" "overview_ok (fst t)" using overview_step_ok [of st e V] by auto
  with Cons show ?case by simp
qed simp

lemma new_ok: "overview_ok overview_new"
  by (simp add: overview_ok_def overview_new_def sparkline_minutes_def counts_fit_def bucket_default_def list_all_iff)

text \<open>
  The cursors of the detail sections are not reconciled when the cluster changes the task, but
  from a state in which they stand on rows no key moves them off.
\<close>

definition detail_in_range :: "cluster_snapshot \<Rightarrow> task_modal option \<Rightarrow> bool" where
  "detail_in_range snap modal =
     (case modal of
        None \<Rightarrow> True
      | Some m \<Rightarrow>
          (case (tm_focus m, modal_task snap m) of
             (TaskDetail idx rows, Some t) \<Rightarrow> idx < length (section_list t)
               \<and> list_all (\<lambda>j. in_rows (section_rows snap t (section_list t ! j)) (rows ! j)) [0..<length (section_list t)]
           | _ \<Rightarrow> True))"

lemma modal_task_focus [simp]:
  "modal_task snap (m\<lparr>tm_focus := f\<rparr>) = modal_task snap m" "modal_task snap (m\<lparr>tm_search := q\<rparr>) = modal_task snap m"
  by (simp_all add: modal_task_def selected_task_def cong: option.case_cong)

lemma section_list_bounds: "0 < length (section_list t)" "length (section_list t) \<le> 3"
  by (simp_all add: section_list_def)

lemma detail_at_list [simp]: "tm_focus m = TaskList \<Longrightarrow> detail_in_range snap (Some m)"
  by (simp add: detail_in_range_def)

lemma detail_closed [simp]: "detail_in_range snap None"
  by (simp add: detail_in_range_def)

lemma set_row_in_range:
  assumes "set_row f snap j rows m = Some m'" and "tm_focus m = TaskDetail idx rows" and "detail_in_range snap (Some m)"
    and "\<And>t. modal_task snap m = Some t \<Longrightarrow> j < length (section_list t)"
    and "\<And>n. in_rows n (rows ! j) \<Longrightarrow> in_rows n (f n (rows ! j))"
  shows "detail_in_range snap (Some m')"
  using assms
  by (auto simp: set_row_def detail_in_range_def detail_row_count_def get_at_def unwrap_or_def list_all_iff nth_list_update
      split: if_splits option.splits)

lemma clamp_to_in_rows: "in_rows n (clamp_to n i)"
  by (auto simp: in_rows_def clamp_to_def)

lemma pane_moves_in_range:
  assumes "detail_in_range snap (Some m)"
  shows "move_row snap v m = Some m1 \<Longrightarrow> detail_in_range snap (Some m1)"
    and "next_pane snap m = Some m2 \<Longrightarrow> detail_in_range snap (Some m2)"
    and "prev_pane snap m = Some m3 \<Longrightarrow> detail_in_range snap (Some m3)"
proof -
  have here: "idx < length (section_list t)" if "tm_focus m = TaskDetail idx rows" "modal_task snap m = Some t" for idx rows t
    using assms that by (simp add: detail_in_range_def)
  show "move_row snap v m = Some m1 \<Longrightarrow> detail_in_range snap (Some m1)"
  proof (cases "tm_focus m")
    case TaskList
    then show "move_row snap v m = Some m1 \<Longrightarrow> ?thesis"
      by (auto simp: move_row_def list_row_def Let_def split: option.split)
  next
    case (TaskDetail idx rows)
    then show "move_row snap v m = Some m1 \<Longrightarrow> ?thesis"
      using set_row_in_range [OF _ TaskDetail assms here row_after_in_rows] by (simp add: move_row_def)
  qed
  show "next_pane snap m = Some m2 \<Longrightarrow> detail_in_range snap (Some m2)"
  proof (cases "tm_focus m")
    case TaskList
    with assms show "next_pane snap m = Some m2 \<Longrightarrow> ?thesis" by (simp add: next_pane_def)
  next
    case (TaskDetail idx rows)
    then show "next_pane snap m = Some m2 \<Longrightarrow> ?thesis"
      using assms set_row_in_range [where j = "idx + 1" and m' = m2, OF _ TaskDetail assms _ clamp_to_in_rows]
      by (auto simp: next_pane_def not_le split: option.splits if_splits)
  qed
  show "prev_pane snap m = Some m3 \<Longrightarrow> detail_in_range snap (Some m3)"
  proof (cases "tm_focus m")
    case TaskList
    with assms show "prev_pane snap m = Some m3 \<Longrightarrow> ?thesis" by (simp add: prev_pane_def)
  next
    case (TaskDetail idx rows)
    then show "prev_pane snap m = Some m3 \<Longrightarrow> ?thesis"
      using set_row_in_range [where j = "idx - 1" and m' = m3, OF _ TaskDetail assms _ clamp_to_in_rows] here [OF TaskDetail]
      by (fastforce simp: prev_pane_def split: if_splits)
  qed
qed

lemma fresh_detail_in_range: "detail_in_range snap (Some (m\<lparr>tm_focus := TaskDetail 0 [0, 0, 0]\<rparr>))"
proof -
  have "[0, 0, 0] ! j = (0 :: nat)" if "j < length (section_list t)" for j and t
    using that section_list_bounds(2) [of t] by (auto simp: nth_Cons split: nat.split)
  then show ?thesis
    using section_list_bounds by (auto simp: detail_in_range_def list_all_iff split: option.split)
qed

lemma task_verb_in_range:
  assumes "detail_in_range snap (Some m)" and "task_verb lc snap v m = Some (m', e)"
  shows "detail_in_range snap m'"
proof (cases v)
  case (RvCommon c)
  have "detail_in_range snap (Some (m\<lparr>tm_search := q\<rparr>))" for q using assms(1) by (simp add: detail_in_range_def)
  moreover have "detail_in_range snap (close_step lc snap m)"
    using assms(1) by (auto simp: close_step_def Let_def refilter_def split: task_focus.split option.split)
  ultimately show ?thesis using assms RvCommon by (cases c) (auto simp: task_verb_def)
next
  case RvFocusDetail
  then show ?thesis
    using assms fresh_detail_in_range [of snap m]
    by (auto simp: task_verb_def focus_detail_def split: task_focus.splits option.splits if_splits)
qed (use assms pane_moves_in_range [OF assms(1)] in \<open>auto simp: task_verb_def\<close>)

lemma verb_in_range:
  assumes "detail_in_range snap (ov_task_modal s)" and "overview_verb_step lc snap v s = Some (t, e)"
  shows "detail_in_range snap (ov_task_modal t)"
proof (cases "\<exists>r m. v = VReporting r \<and> ov_task_modal s = Some m")
  case True
  then show ?thesis
    using assms task_verb_in_range by (fastforce simp: overview_verb_step_def)
next
  case False
  have "tm_focus (open_task_modal lc ts) = TaskList" "tm_focus task_modal_default = TaskList" for ts
    by (simp_all add: open_task_modal_def refilter_def task_modal_default_def Let_def)
  with False assms show ?thesis
    by (cases v) (auto simp: overview_verb_step_def split: overview_verb.splits option.splits)
qed

lemma focus_in_range: "ov_task_modal (fst (overview_focus_step a s)) = ov_task_modal s"
  by (simp add: overview_focus_step_def move_panel_def split: focus_action.split overview_focus.split)

datatype overview_input = InVerb view_verb | InFocus focus_action

fun typed :: "overview_input \<Rightarrow> overview_event" where
  "typed (InVerb v) = OvVerb v"
| "typed (InFocus a) = OvFocus a"

lemma keys_in_range:
  "overview_ok (fst st) \<Longrightarrow> detail_in_range snap (ov_task_modal (fst st)) \<Longrightarrow>
   \<exists>u. overview_run V (map (\<lambda>k. (snap, typed k)) ks) st = Some u \<and> overview_ok (fst u)
     \<and> detail_in_range snap (ov_task_modal (fst u))"
proof (induction ks arbitrary: st)
  case (Cons k ks)
  have "\<exists>u. overview_step V (snap, typed k) st = Some u \<and> overview_ok (fst u) \<and> detail_in_range snap (ov_task_modal (fst u))"
  proof (cases k)
    case (InVerb v)
    obtain t e where t: "overview_verb_step (oe_lower V) snap v (fst st) = Some (t, e)" "overview_ok t"
      using verb_step_ok [OF Cons.prems(1)] by blast
    with verb_in_range [OF Cons.prems(2) t(1)] InVerb show ?thesis by (simp add: overview_step_def)
  next
    case (InFocus a)
    with Cons.prems show ?thesis by (simp add: overview_step_def focus_step_ok focus_in_range)
  qed
  then obtain u where "overview_step V (snap, typed k) st = Some u" "overview_ok (fst u)"
    "detail_in_range snap (ov_task_modal (fst u))" by blast
  with Cons.IH [of u] show ?case by simp
qed simp

text \<open>
  C23: whatever keys are pressed and whatever the cluster reports, the tab never panics; the cursors
  of its panels and of the task list stay on a row, and the three cursors of the detail sections
  can be indexed. Once the detail cursors stand on rows of their sections, as they do when the
  detail is entered, every key keeps them there until the cluster changes.
\<close>

theorem overview_selections_valid:
  assumes "list_all diag_fits (map fst es)"
  shows "case overview_run V es (overview_new, n) of
      None \<Rightarrow> False
    | Some st \<Rightarrow> overview_ok (fst st)
        \<and> (detail_in_range snap (ov_task_modal (fst st)) \<longrightarrow>
             (case overview_run V (map (\<lambda>k. (snap, typed k)) ks) st of
                None \<Rightarrow> False
              | Some u \<Rightarrow> detail_in_range snap (ov_task_modal (fst u))))"
proof -
  obtain st where st: "overview_run V es (overview_new, n) = Some st" "overview_ok (fst st)"
    using overview_run_ok [of "(overview_new, n)" es V] assms new_ok by auto
  with keys_in_range [OF st(2), of snap V ks] show ?thesis by auto
qed

definition plain_env :: overview_env where
  "plain_env = \<lparr>oe_lower = (\<lambda>x. x), oe_parse_iso = (\<lambda>_. None), oe_parse_ts = (\<lambda>_. None), oe_percent = (\<lambda>_ _. 0),
     oe_traverse = rev\<rparr>"

definition task_snapshot :: "reporting_task_row list \<Rightarrow> cluster_snapshot" where
  "task_snapshot ts =
     (with_bulletins_capacity 10)\<lparr>cl_reporting_tasks := Ready \<lparr>rts_tasks = ts, rts_fetched_at = 0\<rparr> first_fetch\<rparr>"

definition sample_reporting :: "string \<Rightarrow> reporting_task_row" where
  "sample_reporting i = \<lparr>rt_id = i, rt_name = i, rt_task_type = ''org.T'', rt_state = RtRunning, rt_scheduling_strategy = [],
     rt_scheduling_period = ''5 s'', rt_active_thread_count = 0, rt_validation_status = Valid, rt_validation_errors = [],
     rt_comments = None, rt_properties = [(''p'', Some ''#{x}'')], rt_descriptors = []\<rparr>"

lemma fits_without_diag: "cl_system_diagnostics snap = Loading \<Longrightarrow> diag_fits snap"
  by (simp add: diag_fits_def)

text \<open>The detail is entered, and a property row down from the only one is refused.\<close>

lemma overview_selections_valid_witness:
  "let snap = task_snapshot [sample_reporting ''a'']; ks = [InVerb (VReporting RvFocusDetail), InVerb (VReporting RvRowDown)] in
   case overview_run plain_env [(snap, OvVerb (VOverview OvOpenReportingTasksModal))] (overview_new, None) of
     None \<Rightarrow> False
   | Some st \<Rightarrow> overview_ok (fst st) \<and> (case overview_run plain_env (map (\<lambda>k. (snap, typed k)) ks) st of
        None \<Rightarrow> False | Some u \<Rightarrow> detail_in_range snap (ov_task_modal (fst u)))"
proof -
  let ?snap = "task_snapshot [sample_reporting ''a'']" and ?open = "OvVerb (VOverview OvOpenReportingTasksModal)"
  have fits: "list_all diag_fits (map fst [(?snap, ?open)])"
    by (simp add: fits_without_diag task_snapshot_def with_bulletins_capacity_def)
  have listed: "detail_in_range ?snap (ov_task_modal (fst st))"
    if "overview_run plain_env [(?snap, ?open)] (overview_new, None) = Some st" for st
    using that by (auto simp: overview_step_def overview_verb_step_def open_task_modal_def refilter_def
        task_modal_default_def Let_def task_snapshot_def)
  show ?thesis
    using overview_selections_valid [OF fits, where V = plain_env and n = None and snap = ?snap
        and ks = "[InVerb (VReporting RvFocusDetail), InVerb (VReporting RvRowDown)]"] listed
    unfolding Let_def by (auto split: option.splits)
qed

text \<open>A report that drops a property leaves the cursor below the last row.\<close>

lemma detail_cursor_left_behind:
  "let two = (sample_reporting ''a'')\<lparr>rt_properties := [(''p'', None), (''q'', None)]\<rparr>; one = sample_reporting ''a'';
       run = overview_run plain_env
         [(task_snapshot [two], OvVerb (VOverview OvOpenReportingTasksModal)), (task_snapshot [two], OvVerb (VReporting RvFocusDetail)),
          (task_snapshot [two], OvVerb (VReporting RvRowDown)), (task_snapshot [one], OvChanged EpReportingTasks 0)] (overview_new, None)
   in map_option (\<lambda>st. detail_in_range (task_snapshot [one]) (ov_task_modal (fst st))) run = Some False"
  by code_simp

text \<open>
  The search prompt of the reporting-tasks modal takes no text: the tab answers no key that is
  typed, so the query stays empty and every task stays listed.
\<close>

lemma empty_query_lists_all:
  "ss_query (tm_search m) = [] \<Longrightarrow> lc [] = [] \<Longrightarrow> tm_filtered (refilter lc ts m) = [0..<length (rts_tasks ts)]"
  by (simp add: refilter_def)

theorem reporting_search_never_filters:
  assumes "list_all diag_fits (map fst es)" and "overview_run V es (overview_new, n) = Some (s, k)"
    and "ov_task_modal s = Some m" and "oe_lower V [] = []"
    and "th_text_input (overview_handler E :: ('p overview_slot, 'i) tab_handler) key u = Some (u', r)"
  shows "tm_filtered (refilter (oe_lower V) ts m) = [0..<length (rts_tasks ts)] \<and> u' = u \<and> r = None"
proof -
  have "overview_ok s" using overview_run_ok [of "(overview_new, n)" es V] assms(1,2) new_ok by auto
  then have "ss_query (tm_search m) = []" using assms(3) by (simp add: overview_ok_def task_modal_ok_def)
  then show ?thesis
    using empty_query_lists_all assms(4,5) by (auto simp: overview_handler_def declines_def)
qed

definition empty_slot :: "unit overview_slot" where
  "empty_slot = \<lparr>os_overview = overview_new, os_forced = [], os_rest = ()\<rparr>"

lemma reporting_search_never_filters_witness:
  "\<exists>s k m. overview_run plain_env
     [(task_snapshot [sample_reporting ''a''], OvVerb (VOverview OvOpenReportingTasksModal)),
      (task_snapshot [sample_reporting ''a''], OvVerb (VReporting (RvCommon CvOpenSearch)))] (overview_new, None) = Some (s, k)
     \<and> ov_task_modal s = Some m \<and> ss_input_active (tm_search m)
     \<and> tm_filtered (refilter (\<lambda>x. x) \<lparr>rts_tasks = [sample_reporting ''b''], rts_fetched_at = 1\<rparr> m) = [0]"
proof -
  let ?es = "[(task_snapshot [sample_reporting ''a''], OvVerb (VOverview OvOpenReportingTasksModal)),
      (task_snapshot [sample_reporting ''a''], OvVerb (VReporting (RvCommon CvOpenSearch)))]"
  let ?lower = "oe_lower plain_env"
  have lower: "?lower = (\<lambda>x. x)" by (simp add: plain_env_def)
  then have empty: "?lower [] = []" by simp
  have fits: "list_all diag_fits (map fst ?es)"
    by (simp add: fits_without_diag task_snapshot_def with_bulletins_capacity_def)
  obtain s m where run: "overview_run plain_env ?es (overview_new, None) = Some (s, None)" "ov_task_modal s = Some m"
      "ss_input_active (tm_search m)"
    by (simp add: overview_step_def overview_verb_step_def task_verb_def task_snapshot_def)
  have typed: "th_text_input (overview_handler sample_env :: (unit overview_slot, unit) tab_handler) key u = Some (u, None)" for key u
    by (simp add: overview_handler_def declines_def)
  have "tm_filtered (refilter ?lower \<lparr>rts_tasks = [sample_reporting ''b''], rts_fetched_at = 1\<rparr> m)
      = [0..<length (rts_tasks \<lparr>rts_tasks = [sample_reporting ''b''], rts_fetched_at = 1\<rparr>)]"
    by (rule reporting_search_never_filters [OF fits run(1,2) empty typed, THEN conjunct1])
  with run lower show ?thesis by auto
qed

end
