(* ===== verification/Events_State.thy ===== *)
theory Events_State
  imports Watch_Predicate Verbs Node_Health
begin

text \<open>
  The state of the Events tab (\<open>src/src/view/events/state.rs\<close>, \<open>src/src/view/events/mod.rs\<close>): the
  filter form, the provenance query and its results, and the watch mode with its rolling buffer.

  The start date of a time window (the arithmetic and the format of the \<open>time\<close> crate) is an
  argument; it is \<open>None\<close> where the crate panics. Instants, latencies and rates that are only shown
  are left out. The regular expressions of a predicate are those of \<open>Watch_Predicate\<close>.
\<close>

section \<open>Filters\<close>

record events_filters =
  ef_time :: string
  ef_types :: string
  ef_source :: string
  ef_uuid :: string
  ef_attr :: string

definition filters_default :: events_filters where
  "filters_default = \<lparr>ef_time = ''last 15m'', ef_types = [], ef_source = [], ef_uuid = [], ef_attr = []\<rparr>"

fun filter_get :: "filter_field \<Rightarrow> events_filters \<Rightarrow> string" where
  "filter_get FfTime f = ef_time f"
| "filter_get FfTypes f = ef_types f"
| "filter_get FfSource f = ef_source f"
| "filter_get FfUuid f = ef_uuid f"
| "filter_get FfAttr f = ef_attr f"

fun filter_set :: "filter_field \<Rightarrow> string \<Rightarrow> events_filters \<Rightarrow> events_filters" where
  "filter_set FfTime v f = f\<lparr>ef_time := v\<rparr>"
| "filter_set FfTypes v f = f\<lparr>ef_types := v\<rparr>"
| "filter_set FfSource v f = f\<lparr>ef_source := v\<rparr>"
| "filter_set FfUuid v f = f\<lparr>ef_uuid := v\<rparr>"
| "filter_set FfAttr v f = f\<lparr>ef_attr := v\<rparr>"

section \<open>Queries and events\<close>

record provenance_event =
  pe_id :: int
  pe_time_iso :: string
  pe_type :: string
  pe_component_id :: string
  pe_component_name :: string
  pe_component_type :: string
  pe_group_id :: string
  pe_flow_file_uuid :: string
  pe_relationship :: "string option"
  pe_details :: "string option"

record provenance_query =
  pq_component_id :: "string option"
  pq_flow_file_uuid :: "string option"
  pq_event_types :: "string list"
  pq_start_time_iso :: "string option"
  pq_end_time_iso :: "string option"
  pq_max_results :: nat

definition default_result_cap :: nat where
  "default_result_cap = 500"

definition expanded_result_cap :: nat where
  "expanded_result_cap = 5000"

text \<open>The status of the query; a running one has no id until the server accepted it.\<close>

datatype query_status =
    QsIdle
  | QsRunning "string option" nat
  | QsDone bool
  | QsFailed string

section \<open>The watch\<close>

record matched_event =
  me_summary :: provenance_event
  me_attrs :: "attribute_triple list"

datatype watch_status = WsTailing | WsPaused | WsNarrowRequired | WsWaiting | WsFailed string nat

text \<open>The id and the time, in milliseconds, of the newest event scanned.\<close>

record tail_cursor =
  tc_last_event_id :: int
  tc_last_event_time :: int

record 'r watch_session =
  ws_narrow :: provenance_query
  ws_predicate :: "'r predicate"
  ws_predicate_input :: string
  ws_buffer :: "matched_event list"
  ws_buffer_cap :: nat
  ws_cursor :: "tail_cursor option"
  ws_status :: watch_status
  ws_trimmed_total :: nat
  ws_detail_fetch_errors :: nat
  ws_last_parse_error :: "parse_error option"

definition query_default :: provenance_query where
  "query_default = \<lparr>pq_component_id = None, pq_flow_file_uuid = None, pq_event_types = [], pq_start_time_iso = None,
     pq_end_time_iso = None, pq_max_results = 0\<rparr>"

definition session_new :: "provenance_query \<Rightarrow> nat \<Rightarrow> watch_status \<Rightarrow> 'r watch_session" where
  "session_new narrow cap status =
     \<lparr>ws_narrow = narrow, ws_predicate = [], ws_predicate_input = [], ws_buffer = [], ws_buffer_cap = cap,
      ws_cursor = None, ws_status = status, ws_trimmed_total = 0, ws_detail_fetch_errors = 0,
      ws_last_parse_error = None\<rparr>"

definition new_for_component :: "string \<Rightarrow> nat \<Rightarrow> 'r watch_session" where
  "new_for_component component_id watch_buffer_size =
     session_new (query_default\<lparr>pq_component_id := Some component_id, pq_max_results := 1000\<rparr>) watch_buffer_size WsWaiting"

definition can_start :: "provenance_query \<Rightarrow> bool" where
  "can_start narrow \<longleftrightarrow>
     pq_component_id narrow \<noteq> None \<or> pq_flow_file_uuid narrow \<noteq> None \<or> pq_event_types narrow \<noteq> []
     \<or> (case pq_start_time_iso narrow of Some s \<Rightarrow> trim s \<noteq> [] | None \<Rightarrow> False)"

definition from_query :: "provenance_query \<Rightarrow> nat \<Rightarrow> 'r watch_session" where
  "from_query narrow cap = session_new narrow cap (if can_start narrow then WsWaiting else WsNarrowRequired)"

definition remove_at :: "nat \<Rightarrow> 'a list \<Rightarrow> 'a list" where
  "remove_at i xs = take i xs @ drop (i + 1) xs"

definition u64_max :: nat where
  "u64_max = 2 ^ 64 - 1"

definition push_event :: "matched_event \<Rightarrow> nat option \<Rightarrow> 'r watch_session \<Rightarrow> 'r watch_session" where
  "push_event ev focused_row w =
     (let w' = (if length (ws_buffer w) \<ge> ws_buffer_cap w
                then let trim_idx = (if focused_row = Some 0 \<and> length (ws_buffer w) \<ge> 2 then 1 else 0)
                     in w\<lparr>ws_buffer := remove_at trim_idx (ws_buffer w),
                          ws_trimmed_total := min u64_max (ws_trimmed_total w + 1)\<rparr>
                else w)
      in w'\<lparr>ws_buffer := ws_buffer w' @ [ev]\<rparr>)"

section \<open>The state\<close>

datatype 'r events_mode = OneShot | Watch "'r watch_session"

record 'r events_state =
  es_filters :: events_filters
  es_status :: query_status
  es_events :: "provenance_event list"
  es_selected_row :: "nat option"
  es_cap :: nat
  es_filter_edit :: "(filter_field \<times> string) option"
  es_pre_edit_value :: "string option"
  es_mode :: "'r events_mode"
  es_predicate_focus :: bool
  es_exit_watch_pending :: bool

definition events_new :: "'r events_state" where
  "events_new = \<lparr>es_filters = filters_default, es_status = QsIdle, es_events = [], es_selected_row = None,
     es_cap = default_result_cap, es_filter_edit = None, es_pre_edit_value = None, es_mode = OneShot,
     es_predicate_focus = False, es_exit_watch_pending = False\<rparr>"

definition clear_failed_status :: "'r events_state \<Rightarrow> 'r events_state" where
  "clear_failed_status s = (case es_status s of QsFailed e \<Rightarrow> s\<lparr>es_status := QsIdle\<rparr> | _ \<Rightarrow> s)"

fun mode_watch :: "'r events_mode \<Rightarrow> 'r watch_session option" where
  "mode_watch (Watch w) = Some w"
| "mode_watch OneShot = None"

definition watch :: "'r events_state \<Rightarrow> 'r watch_session option" where
  "watch s = mode_watch (es_mode s)"

definition enter_watch_mode :: "'r watch_session \<Rightarrow> 'r events_state \<Rightarrow> 'r events_state" where
  "enter_watch_mode w s = s\<lparr>es_mode := Watch w\<rparr>"

definition exit_watch_mode :: "'r events_state \<Rightarrow> 'r events_state" where
  "exit_watch_mode s = s\<lparr>es_mode := OneShot\<rparr>"

text \<open>Changes through \<open>watch_mut\<close>.\<close>

definition on_watch :: "('r watch_session \<Rightarrow> 'r watch_session) \<Rightarrow> 'r events_state \<Rightarrow> 'r events_state" where
  "on_watch f s = (case watch s of None \<Rightarrow> s | Some w \<Rightarrow> s\<lparr>es_mode := Watch (f w)\<rparr>)"

definition focus_predicate :: "'r events_state \<Rightarrow> 'r events_state" where
  "focus_predicate s = (if watch s \<noteq> None then s\<lparr>es_predicate_focus := True\<rparr> else s)"

definition unfocus_predicate :: "'r events_state \<Rightarrow> 'r events_state" where
  "unfocus_predicate s = s\<lparr>es_predicate_focus := False\<rparr>"

definition push_predicate_char :: "string \<Rightarrow> 'r events_state \<Rightarrow> 'r events_state" where
  "push_predicate_char ch s =
     (if es_predicate_focus s
      then on_watch (\<lambda>w. w\<lparr>ws_predicate_input := ws_predicate_input w @ ch\<rparr>) s else s)"

definition pop_predicate_char :: "'r events_state \<Rightarrow> 'r events_state" where
  "pop_predicate_char s =
     (if es_predicate_focus s
      then on_watch (\<lambda>w. w\<lparr>ws_predicate_input := pop_char (ws_predicate_input w)\<rparr>) s else s)"

text \<open>Whether the predicate was accepted.\<close>

definition commit_predicate :: "(string \<Rightarrow> string + 'r) \<Rightarrow> 'r events_state \<Rightarrow> 'r events_state \<times> bool" where
  "commit_predicate compile s =
     (case watch s of
        None \<Rightarrow> (s, True)
      | Some w \<Rightarrow>
          (case predicate_parse compile (ws_predicate_input w) of
             Inr parsed \<Rightarrow> (on_watch (\<lambda>w. w\<lparr>ws_predicate := parsed, ws_last_parse_error := None\<rparr>) s, True)
           | Inl err \<Rightarrow> (on_watch (\<lambda>w. w\<lparr>ws_last_parse_error := Some err\<rparr>) s, False)))"

definition request_exit_watch :: "'r events_state \<Rightarrow> 'r events_state \<times> bool" where
  "request_exit_watch s =
     (if (case watch s of Some w \<Rightarrow> ws_buffer w = [] | None \<Rightarrow> True)
      then ((exit_watch_mode s)\<lparr>es_exit_watch_pending := False\<rparr>, False)
      else (s\<lparr>es_exit_watch_pending := True\<rparr>, True))"

definition confirm_exit_watch :: "'r events_state \<Rightarrow> 'r events_state" where
  "confirm_exit_watch s = exit_watch_mode (s\<lparr>es_exit_watch_pending := False\<rparr>)"

definition cancel_exit_watch :: "'r events_state \<Rightarrow> 'r events_state" where
  "cancel_exit_watch s = s\<lparr>es_exit_watch_pending := False\<rparr>"

section \<open>Editing a filter\<close>

definition commit_filter_edit :: "'r events_state \<Rightarrow> 'r events_state" where
  "commit_filter_edit s = s\<lparr>es_filter_edit := None, es_pre_edit_value := None\<rparr>"

definition enter_filter_edit :: "filter_field \<Rightarrow> 'r events_state \<Rightarrow> 'r events_state" where
  "enter_filter_edit field s0 =
     (let s = (if es_filter_edit s0 \<noteq> None then commit_filter_edit s0 else s0);
          current = filter_get field (es_filters s)
      in s\<lparr>es_pre_edit_value := Some current, es_filter_edit := Some (field, current)\<rparr>)"

definition edit_filter :: "(string \<Rightarrow> string) \<Rightarrow> 'r events_state \<Rightarrow> 'r events_state" where
  "edit_filter f s =
     (case es_filter_edit s of
        None \<Rightarrow> s
      | Some (field, buf) \<Rightarrow>
          s\<lparr>es_filter_edit := Some (field, f buf), es_filters := filter_set field (f buf) (es_filters s)\<rparr>)"

definition push_filter_char :: "string \<Rightarrow> 'r events_state \<Rightarrow> 'r events_state" where
  "push_filter_char ch s = edit_filter (\<lambda>buf. buf @ ch) s"

definition pop_filter_char :: "'r events_state \<Rightarrow> 'r events_state" where
  "pop_filter_char s = edit_filter pop_char s"

definition current_filter_value :: "'r events_state \<Rightarrow> string option" where
  "current_filter_value s = map_option snd (es_filter_edit s)"

definition cancel_filter_edit :: "'r events_state \<Rightarrow> 'r events_state" where
  "cancel_filter_edit s =
     (case es_filter_edit s of
        None \<Rightarrow> s
      | Some (field, buf) \<Rightarrow>
          s\<lparr>es_filter_edit := None, es_pre_edit_value := None,
            es_filters := filter_set field (unwrap_or [] (es_pre_edit_value s)) (es_filters s)\<rparr>)"

definition reset_filters :: "'r events_state \<Rightarrow> 'r events_state" where
  "reset_filters s = s\<lparr>es_filters := filters_default\<rparr>"

definition new_query :: "'r events_state \<Rightarrow> 'r events_state" where
  "new_query s = s\<lparr>es_filters := filters_default, es_events := [], es_selected_row := None, es_status := QsIdle,
     es_cap := default_result_cap, es_filter_edit := None, es_pre_edit_value := None\<rparr>"

definition raise_cap :: "'r events_state \<Rightarrow> 'r events_state" where
  "raise_cap s = (if es_cap s < expanded_result_cap then s\<lparr>es_cap := expanded_result_cap\<rparr> else s)"

section \<open>Rows\<close>

definition current_row_count :: "'r events_state \<Rightarrow> nat" where
  "current_row_count s = (case watch s of Some w \<Rightarrow> length (ws_buffer w) | None \<Rightarrow> length (es_events s))"

definition enter_row_nav :: "'r events_state \<Rightarrow> 'r events_state" where
  "enter_row_nav s = (if current_row_count s > 0 then s\<lparr>es_selected_row := Some 0\<rparr> else s)"

definition leave_row_nav :: "'r events_state \<Rightarrow> 'r events_state" where
  "leave_row_nav s = s\<lparr>es_selected_row := None\<rparr>"

definition row_down :: "'r events_state \<Rightarrow> 'r events_state" where
  "row_down s =
     (case es_selected_row s of None \<Rightarrow> s | Some i \<Rightarrow> s\<lparr>es_selected_row := Some (min (i + 1) (current_row_count s - 1))\<rparr>)"

definition row_up :: "'r events_state \<Rightarrow> 'r events_state" where
  "row_up s = (case es_selected_row s of None \<Rightarrow> s | Some i \<Rightarrow> s\<lparr>es_selected_row := Some (i - 1)\<rparr>)"

text \<open>The watch shows its newest event first.\<close>

definition selected_event :: "'r events_state \<Rightarrow> provenance_event option" where
  "selected_event s =
     Option.bind (es_selected_row s) (\<lambda>i.
       case watch s of
         Some w \<Rightarrow> if i < length (ws_buffer w) then Some (me_summary (ws_buffer w ! (length (ws_buffer w) - (i + 1)))) else None
       | None \<Rightarrow> get_at (es_events s) i)"

section \<open>The query of the filters\<close>

text \<open>\<open>str::parse\<close> of an \<open>i64\<close>: an optional sign, digits, and the range of the type.\<close>

fun digits_value :: "nat \<Rightarrow> string \<Rightarrow> nat option" where
  "digits_value acc [] = Some acc"
| "digits_value acc (c # s) = (if is_ascii_digit c then digits_value (acc * 10 + (byte c - 48)) s else None)"

definition parse_i64 :: "string \<Rightarrow> int option" where
  "parse_i64 s =
     (let (negative, ds) = (case s of c # r \<Rightarrow> if c = CHR ''-'' then (True, r) else if c = CHR ''+'' then (False, r) else (False, s)
            | [] \<Rightarrow> (False, []))
      in if ds = [] then None
         else Option.bind (digits_value 0 ds) (\<lambda>n.
           let v = (if negative then - int n else int n) in if - (2 ^ 63) \<le> v \<and> v < 2 ^ 63 then Some v else None))"

text \<open>The unit in seconds and the number of a window \<open>last <n><unit>\<close>.\<close>

definition unit_seconds :: "char \<Rightarrow> int option" where
  "unit_seconds c = (if c = CHR ''m'' then Some 60 else if c = CHR ''h'' then Some 3600
     else if c = CHR ''d'' then Some 86400 else None)"

definition parse_time_window :: "string \<Rightarrow> (int \<times> int) option" where
  "parse_time_window s =
     (let s = trim s in
      if take 5 s \<noteq> ''last '' \<or> length s \<le> 5 then None
      else let rest = drop 5 s in
        Option.bind (parse_i64 (trim (butlast rest))) (\<lambda>n. map_option (\<lambda>u. (u, n)) (unit_seconds (List.last rest))))"

type_synonym start_date = "int \<Rightarrow> int \<Rightarrow> string option option"

definition or_none :: "string \<Rightarrow> string option" where
  "or_none s = (if s = [] then None else Some s)"

definition build_query :: "start_date \<Rightarrow> 'r events_state \<Rightarrow> provenance_query option" where
  "build_query start_date s =
     (let f = es_filters s in
      map_option (\<lambda>start. \<lparr>pq_component_id = or_none (ef_source f), pq_flow_file_uuid = or_none (ef_uuid f),
          pq_event_types = [], pq_start_time_iso = start, pq_end_time_iso = None, pq_max_results = es_cap s\<rparr>)
        (case parse_time_window (ef_time f) of None \<Rightarrow> Some None | Some (u, n) \<Rightarrow> start_date u n))"

section \<open>What the workers report\<close>

datatype events_payload =
    QueryStarted string
  | QueryProgress string nat
  | QueryDone string "provenance_event list" bool
  | QueryFailed "string option" string
  | WatchMatch provenance_event "attribute_triple list"
  | WatchTick nat
  | WatchFailed string nat

definition handle_watch_payload :: "events_payload \<Rightarrow> nat option \<Rightarrow> 'r events_state \<Rightarrow> 'r events_state" where
  "handle_watch_payload p selected_row s =
     (case p of
        WatchMatch summary attrs \<Rightarrow> on_watch (push_event \<lparr>me_summary = summary, me_attrs = attrs\<rparr> selected_row) s
      | WatchTick errors \<Rightarrow>
          on_watch (\<lambda>w. w\<lparr>ws_detail_fetch_errors := errors,
            ws_status := (if ws_status w = WsWaiting then WsTailing else ws_status w)\<rparr>) s
      | WatchFailed error retry_in \<Rightarrow> on_watch (\<lambda>w. w\<lparr>ws_status := WsFailed error retry_in\<rparr>) s
      | _ \<Rightarrow> s)"

fun running_id :: "query_status \<Rightarrow> string option" where
  "running_id (QsRunning q p) = q"
| "running_id _ = None"

fun is_running :: "query_status \<Rightarrow> bool" where
  "is_running (QsRunning q p) = True"
| "is_running _ = False"

definition apply_payload :: "events_payload \<Rightarrow> 'r events_state \<Rightarrow> 'r events_state" where
  "apply_payload p s =
     (case p of
        QueryStarted q \<Rightarrow> s\<lparr>es_status := QsRunning (Some q) 0, es_events := [], es_selected_row := None\<rparr>
      | QueryProgress q percent \<Rightarrow>
          if running_id (es_status s) = Some q then s\<lparr>es_status := QsRunning (Some q) percent\<rparr> else s
      | QueryDone q events truncated \<Rightarrow>
          if running_id (es_status s) = Some q
          then s\<lparr>es_events := events, es_status := QsDone truncated, es_selected_row := None\<rparr> else s
      | QueryFailed q error \<Rightarrow>
          if is_running (es_status s) \<and> (case q of Some q \<Rightarrow> running_id (es_status s) = Some q | None \<Rightarrow> True)
          then s\<lparr>es_status := QsFailed error\<rparr> else s
      | _ \<Rightarrow> handle_watch_payload p (es_selected_row s) s)"

definition pause_watch :: "'r events_state \<Rightarrow> 'r events_state" where
  "pause_watch s = on_watch (\<lambda>w. w\<lparr>ws_status := WsPaused\<rparr>) s"

definition resume_watch :: "'r events_state \<Rightarrow> 'r events_state" where
  "resume_watch s = on_watch (\<lambda>w. if ws_status w = WsPaused then w\<lparr>ws_status := WsWaiting\<rparr> else w) s"

end
