(* ===== verification/Events_Keys.thy ===== *)
theory Events_Keys
  imports Overview_Keys Events_State
begin

text \<open>
  The keys of the Events tab (\<open>EventsHandler\<close> in \<open>src/src/app/state/events.rs\<close>), the cross-links of
  its rows, and when the worker registry starts and stops the watch worker (\<open>src/src/app/worker.rs\<close>).

  \<open>None\<close> is a panic of the date arithmetic. What a key asks of the application is a value.
\<close>

section \<open>The handlers\<close>

record 'r events_env =
  ee_start_date :: start_date
  ee_compile :: "string \<Rightarrow> string + 'r"

datatype events_effect =
    EeDeclines
  | EeIgnored
  | EeRedraw
  | EeQuery provenance_query
  | EeWarn string
  | EeCut string
  | EeRestart

type_synonym 'r events_answer = "('r events_state \<times> events_effect) option"

definition changed :: "'r events_state \<Rightarrow> 'r events_answer" where
  "changed s = Some (s, EeRedraw)"

definition submit_query :: "'r events_env \<Rightarrow> 'r events_state \<Rightarrow> 'r events_answer" where
  "submit_query V s0 =
     (let s = s0\<lparr>es_status := QsRunning None 0, es_events := [], es_selected_row := None\<rparr> in
      map_option (\<lambda>q. (s, EeQuery q)) (build_query (ee_start_date V) s))"

definition events_verb_op :: "'r events_env \<Rightarrow> events_verb \<Rightarrow> 'r events_state \<Rightarrow> 'r events_answer" where
  "events_verb_op V v s =
     (case v of
        EvEditField field \<Rightarrow>
          changed (enter_filter_edit field (if es_selected_row s \<noteq> None then leave_row_nav s else s))
      | EvNewQuery \<Rightarrow> changed (new_query s)
      | EvReset \<Rightarrow> changed (reset_filters s)
      | EvRaiseCap \<Rightarrow> changed (raise_cap s)
      | EvCommon CvRefresh \<Rightarrow> submit_query V s
      | EvCommon _ \<Rightarrow> changed s)"

definition default_transition_buffer_cap :: nat where
  "default_transition_buffer_cap = 2000"

fun toggle_pause_status :: "watch_status \<Rightarrow> watch_status" where
  "toggle_pause_status WsTailing = WsPaused"
| "toggle_pause_status WsWaiting = WsPaused"
| "toggle_pause_status WsPaused = WsWaiting"
| "toggle_pause_status other = other"

text \<open>An accepted predicate restarts the worker; a rejected one keeps the focus.\<close>

definition commit_and_restart :: "'r events_env \<Rightarrow> 'r events_state \<Rightarrow> 'r events_answer" where
  "commit_and_restart V s =
     (let (t, accepted) = commit_predicate (ee_compile V) s
      in if accepted then Some (unfocus_predicate t, EeRestart) else changed t)"

definition watch_verb_op :: "'r events_env \<Rightarrow> watch_verb \<Rightarrow> 'r events_state \<Rightarrow> 'r events_answer" where
  "watch_verb_op V v s =
     (case v of
        WvEditPredicate \<Rightarrow>
          if watch s = None
          then map_option (\<lambda>narrow. (focus_predicate (enter_watch_mode (from_query narrow default_transition_buffer_cap) s),
                 EeRedraw)) (build_query (ee_start_date V) s)
          else changed (focus_predicate s)
      | WvCommitPredicate \<Rightarrow> if es_predicate_focus s then commit_and_restart V s else changed s
      | WvUnfocusPredicate \<Rightarrow> changed (unfocus_predicate s)
      | WvPause \<Rightarrow> changed (on_watch (\<lambda>w. w\<lparr>ws_status := toggle_pause_status (ws_status w)\<rparr>) s)
      | WvClearBuffer \<Rightarrow>
          changed (leave_row_nav (on_watch (\<lambda>w. w\<lparr>ws_buffer := [], ws_trimmed_total := 0\<rparr>) s))
      | WvCommon _ \<Rightarrow> changed s)"

definition events_verb_step :: "'r events_env \<Rightarrow> view_verb \<Rightarrow> 'r events_state \<Rightarrow> 'r events_answer" where
  "events_verb_step V v s =
     (if es_exit_watch_pending s then Some (s, EeIgnored)
      else case v of
          VEvents e \<Rightarrow> events_verb_op V e s
        | VEventsWatch w \<Rightarrow> watch_verb_op V w s
        | _ \<Rightarrow> Some (s, EeDeclines))"

text \<open>Ten steps that stop at the end of the list.\<close>

fun page_up :: "nat \<Rightarrow> 'r events_state \<Rightarrow> 'r events_state" where
  "page_up 0 s = s"
| "page_up (Suc n) s = (if es_selected_row s = Some 0 then s else page_up n (row_up s))"

fun page_down :: "nat \<Rightarrow> 'r events_state \<Rightarrow> 'r events_state" where
  "page_down 0 s = s"
| "page_down (Suc n) s = (if es_selected_row s = Some (current_row_count s - 1) then s else page_down n (row_down s))"

definition row_focus :: "focus_action \<Rightarrow> 'r events_state \<Rightarrow> 'r events_answer" where
  "row_focus a s =
     (case a of
        FaUp \<Rightarrow> changed (if es_selected_row s = Some 0 then leave_row_nav s else row_up s)
      | FaDown \<Rightarrow> changed (row_down s)
      | FaAscend \<Rightarrow> changed (leave_row_nav s)
      | FaPageUp \<Rightarrow> changed (page_up 10 s)
      | FaPageDown \<Rightarrow> changed (page_down 10 s)
      | FaNextPane \<Rightarrow> changed (leave_row_nav s)
      | FaPrevPane \<Rightarrow> changed (leave_row_nav s)
      | _ \<Rightarrow> Some (s, EeDeclines))"

definition events_focus_step :: "'r events_env \<Rightarrow> focus_action \<Rightarrow> 'r events_state \<Rightarrow> 'r events_answer" where
  "events_focus_step V a s =
     (if es_exit_watch_pending s then Some (s, EeIgnored)
      else if es_filter_edit s \<noteq> None
      then (if a = FaDescend then changed (commit_filter_edit s)
            else if a = FaAscend then changed (cancel_filter_edit s) else Some (s, EeDeclines))
      else if es_selected_row s \<noteq> None then row_focus a s
      else if a = FaDown \<or> a = FaNextPane then changed (enter_row_nav s)
      else if a = FaDescend \<and> watch s = None then submit_query V s
      else Some (s, EeDeclines))"

section \<open>Typing\<close>

definition events_typing :: "'r events_state \<Rightarrow> bool" where
  "events_typing s \<longleftrightarrow> es_filter_edit s \<noteq> None \<or> es_predicate_focus s \<or> es_exit_watch_pending s"

text \<open>
  Unmodified v pastes and x cuts, in both prompts: the push, the text that is cut, and the way
  out are those of the prompt.
\<close>

definition paste_into :: "(string \<Rightarrow> 'r events_state \<Rightarrow> 'r events_state) \<Rightarrow> string + string \<Rightarrow> 'r events_state \<Rightarrow> 'r events_answer" where
  "paste_into push clip s =
     (case clip of
        Inr pasted \<Rightarrow> changed (foldl (\<lambda>t ch. push ch t) s (chars pasted))
      | Inl err \<Rightarrow> Some (s, EeWarn (''clipboard paste: '' @ err)))"

definition cut_text :: "string \<Rightarrow> events_effect" where
  "cut_text t = (if t = [] then EeRedraw else EeCut t)"

definition filter_edit_key :: "string + string \<Rightarrow> key_event \<Rightarrow> 'r events_state \<Rightarrow> 'r events_answer" where
  "filter_edit_key clip k s =
     (case ke_code k of
        KEsc \<Rightarrow> changed (cancel_filter_edit s)
      | KEnter \<Rightarrow> changed (commit_filter_edit s)
      | KBackspace \<Rightarrow> changed (pop_filter_char s)
      | KChar ch \<Rightarrow>
          if ch = ''v'' \<and> ke_mods k = {} then paste_into push_filter_char clip s
          else if ch = ''x'' \<and> ke_mods k = {}
          then Some (cancel_filter_edit s, cut_text (unwrap_or [] (current_filter_value s)))
          else changed (push_filter_char ch s)
      | _ \<Rightarrow> Some (s, EeIgnored))"

definition predicate_edit_key :: "'r events_env \<Rightarrow> string + string \<Rightarrow> key_event \<Rightarrow> 'r events_state \<Rightarrow> 'r events_answer" where
  "predicate_edit_key V clip k s =
     (case ke_code k of
        KEsc \<Rightarrow> changed (unfocus_predicate s)
      | KEnter \<Rightarrow> commit_and_restart V s
      | KBackspace \<Rightarrow> changed (pop_predicate_char s)
      | KChar ch \<Rightarrow>
          if ch = ''v'' \<and> ke_mods k = {} then paste_into push_predicate_char clip s
          else if ch = ''x'' \<and> ke_mods k = {}
          then Some (unfocus_predicate s, cut_text (case watch s of Some w \<Rightarrow> ws_predicate_input w | None \<Rightarrow> []))
          else changed (push_predicate_char ch s)
      | _ \<Rightarrow> Some (s, EeIgnored))"

definition exit_confirm_key :: "key_event \<Rightarrow> 'r events_state \<Rightarrow> 'r events_answer" where
  "exit_confirm_key k s =
     (if ke_code k = KChar ''y'' \<or> ke_code k = KChar ''Y'' then changed (confirm_exit_watch s)
      else if ke_code k = KChar ''n'' \<or> ke_code k = KChar ''N'' \<or> ke_code k = KEsc then changed (cancel_exit_watch s)
      else Some (s, EeIgnored))"

definition events_text_step :: "'r events_env \<Rightarrow> string + string \<Rightarrow> key_event \<Rightarrow> 'r events_state \<Rightarrow> 'r events_answer" where
  "events_text_step V clip k s =
     (if \<not> (ke_mods k = {} \<or> ke_mods k = {MShift}) then Some (s, EeDeclines)
      else if es_exit_watch_pending s then exit_confirm_key k s
      else if es_predicate_focus s then predicate_edit_key V clip k s
      else if es_filter_edit s \<noteq> None then filter_edit_key clip k s
      else Some (s, EeDeclines))"

section \<open>Cross-links\<close>

definition events_target :: "go_target \<Rightarrow> 'r events_state \<Rightarrow> (cross_link \<times> goto_subject) option" where
  "events_target t s =
     (case t of
        GtBrowser \<Rightarrow> map_option (\<lambda>e. (OpenInBrowser (pe_component_id e) (pe_group_id e),
            SubjComponent (pe_component_name e) (pe_component_id e))) (selected_event s)
      | GtTracer \<Rightarrow> map_option (\<lambda>e. (TraceByUuid (pe_flow_file_uuid e), SubjFlowfile (pe_flow_file_uuid e)))
            (selected_event s)
      | GtEvents \<Rightarrow> None)"

section \<open>Landing on the tab\<close>

text \<open>A cross-link to the events of a component fills the filter and runs the query.\<close>

definition events_landing :: "'r events_env \<Rightarrow> string \<Rightarrow> 'r events_state \<Rightarrow> 'r events_answer" where
  "events_landing V component_id s =
     submit_query V (s\<lparr>es_filters := (es_filters s)\<lparr>ef_source := component_id, ef_time := ''last 15m''\<rparr>\<rparr>)"

definition watch_landing :: "nat \<Rightarrow> string \<Rightarrow> 'r events_state \<Rightarrow> 'r events_state" where
  "watch_landing watch_buffer_size component_id s =
     focus_predicate (enter_watch_mode (new_for_component component_id watch_buffer_size) s)"

section \<open>The tab under the dispatcher\<close>

record ('r, 'p) events_slot =
  ep_events :: "'r events_state"
  ep_restart :: bool
  ep_rest :: 'p

type_synonym ('r, 'p) app_slot = "('r, 'p) events_slot overview_slot"

datatype 'i events_intent = RunProvenanceQuery provenance_query | OtherIntent 'i

definition part :: "('r, 'p) app_slot app_state \<Rightarrow> ('r, 'p) events_slot" where
  "part s = os_rest (as_others s)"

definition set_part :: "(('r, 'p) events_slot \<Rightarrow> ('r, 'p) events_slot) \<Rightarrow> ('r, 'p) app_slot app_state \<Rightarrow> ('r, 'p) app_slot app_state" where
  "set_part f s = s\<lparr>as_others := (as_others s)\<lparr>os_rest := f (part s)\<rparr>\<rparr>"

definition events_reply ::
  "app_env \<Rightarrow> 'r events_state \<times> events_effect \<Rightarrow> ('r, 'p) app_slot app_state
   \<Rightarrow> ('r, 'p) app_slot app_state \<times> 'i events_intent app_result option" where
  "events_reply E x s0 =
     (let s = set_part (\<lambda>p. p\<lparr>ep_events := fst x\<rparr>) s0 in
      case snd x of
        EeDeclines \<Rightarrow> (s, None)
      | EeIgnored \<Rightarrow> (s, Some nothing)
      | EeRedraw \<Rightarrow> (s, Some redraw)
      | EeQuery q \<Rightarrow> (s, Some (asks (AiTab (RunProvenanceQuery q))))
      | EeWarn m \<Rightarrow> (post_warning m s, Some redraw)
      | EeCut t \<Rightarrow> (s, Some redraw)
      | EeRestart \<Rightarrow> (set_part (\<lambda>p. p\<lparr>ep_restart := True\<rparr>) s, Some redraw))"

definition events_handler :: "app_env \<Rightarrow> 'r events_env \<Rightarrow> (('r, 'p) app_slot, 'i events_intent) tab_handler" where
  "events_handler E V =
     \<lparr>th_verb = (\<lambda>v s. map_option (\<lambda>x. events_reply E x s) (events_verb_step V v (ep_events (part s)))),
      th_focus = (\<lambda>a s. map_option (\<lambda>x. events_reply E x s) (events_focus_step V a (ep_events (part s)))),
      th_text_input = (\<lambda>k s. map_option (\<lambda>x. events_reply E x s) (events_text_step V (en_paste E) k (ep_events (part s)))),
      th_typing = (\<lambda>s. events_typing (ep_events (part s))), th_blocks = (\<lambda>s. events_typing (ep_events (part s))),
      th_default_link = (\<lambda>s. None)\<rparr>"

definition events_link :: "('r, 'p) app_slot link_source" where
  "events_link s t = events_target t (ep_events (part s))"

lemma events_reply_ok:
  assumes "events_reply E x s = (t, r)" and "as_modal s = None"
  shows "modal_ok E t \<and> as_modal t = None"
  using assms
  by (cases "snd x") (auto simp: events_reply_def Let_def set_part_def no_modal_ok)

interpretation events_keep: modal_keeping E "events_handler E V" for E V
  by unfold_locales (auto simp: events_handler_def dest!: events_reply_ok)

text \<open>All tabs but the Tracer.\<close>

definition with_tabs ::
  "app_env \<Rightarrow> 'r events_env \<Rightarrow> (('r, 'p) app_slot, 'i events_intent) others \<Rightarrow> (('r, 'p) app_slot, 'i events_intent) others" where
  "with_tabs E V W = W
     \<lparr>ot_handler := (\<lambda>tab. if tab = Overview then overview_handler E else if tab = Events then events_handler E V
         else ot_handler W tab),
      ot_ctx := (\<lambda>sl. (ot_ctx W sl)\<lparr>ic_reporting_modal := (ov_task_modal (os_overview sl) \<noteq> None),
         ic_watch := (watch (ep_events (os_rest sl)) \<noteq> None)\<rparr>),
      ot_link := (\<lambda>tab. if tab = Overview then overview_link else if tab = Events then events_link else ot_link W tab)\<rparr>"

section \<open>The watch worker\<close>

text \<open>What the registry spawns: the narrowing, the predicate and the cursor of the session.\<close>

definition spawn_of :: "'r events_state \<Rightarrow> (provenance_query \<times> 'r predicate \<times> tail_cursor option) option" where
  "spawn_of s = map_option (\<lambda>w. (ws_narrow w, ws_predicate w, ws_cursor w)) (watch s)"

text \<open>Entering and leaving the tab (\<open>ensure\<close>), and the restart after a new predicate.\<close>

definition tab_entered :: "'r events_state \<Rightarrow> 'r events_state \<times> (provenance_query \<times> 'r predicate \<times> tail_cursor option) option" where
  "tab_entered s = (if watch s \<noteq> None then resume_watch s else s, spawn_of s)"

definition tab_left :: "'r events_state \<Rightarrow> 'r events_state" where
  "tab_left s = pause_watch s"

definition restart_events_watch ::
  "bool \<Rightarrow> 'r events_state \<Rightarrow> (provenance_query \<times> 'r predicate \<times> tail_cursor option) option" where
  "restart_events_watch active s = (if active then spawn_of s else None)"

section \<open>Runs of the tab\<close>

datatype tab_event =
    TeVerb view_verb
  | TeFocus focus_action
  | TeKey "string + string" key_event
  | TePayload events_payload
  | TeEventsLanding string
  | TeWatchLanding nat string
  | TeEntered
  | TeLeft

text \<open>Leaving the tab clears a failed query and pauses the watch.\<close>

definition tab_step :: "'r events_env \<Rightarrow> tab_event \<Rightarrow> 'r events_state \<Rightarrow> 'r events_state option" where
  "tab_step V e s =
     (case e of
        TeVerb v \<Rightarrow> map_option fst (events_verb_step V v s)
      | TeFocus a \<Rightarrow> map_option fst (events_focus_step V a s)
      | TeKey clip k \<Rightarrow> map_option fst (events_text_step V clip k s)
      | TePayload p \<Rightarrow> Some (apply_payload p s)
      | TeEventsLanding c \<Rightarrow> map_option fst (events_landing V c s)
      | TeWatchLanding cap c \<Rightarrow> Some (watch_landing cap c s)
      | TeEntered \<Rightarrow> Some (fst (tab_entered s))
      | TeLeft \<Rightarrow> Some (tab_left (clear_failed_status s)))"

fun tab_run :: "'r events_env \<Rightarrow> tab_event list \<Rightarrow> 'r events_state \<Rightarrow> 'r events_state option" where
  "tab_run V [] s = Some s"
| "tab_run V (e # es) s = Option.bind (tab_step V e s) (tab_run V es)"

lemma tab_run_snoc: "tab_run V (es @ [e]) s = Option.bind (tab_run V es s) (tab_step V e)"
proof (induction es arbitrary: s)
  case (Cons e' es)
  then show ?case by (cases "tab_step V e' s") simp_all
next
  case Nil
  then show ?case by (cases "tab_step V e s") simp_all
qed

text \<open>What a key can do to the results: leave the query alone, or forget it.\<close>

definition query_kept :: "'r events_state \<Rightarrow> 'r events_state \<Rightarrow> bool" where
  "query_kept s t \<longleftrightarrow>
     (running_id (es_status t) = running_id (es_status s) \<or> running_id (es_status t) = None)
     \<and> (es_events t = es_events s \<or> es_events t = [])"

lemma kept_refl [simp]: "query_kept s s"
  by (simp add: query_kept_def)

lemma kept_trans: "query_kept s t \<Longrightarrow> query_kept t u \<Longrightarrow> query_kept s u"
  by (auto simp: query_kept_def)

named_theorems query_frame

lemma frames [query_frame]:
  "es_status (on_watch f s) = es_status s" "es_events (on_watch f s) = es_events s"
  "es_status (focus_predicate s) = es_status s" "es_events (focus_predicate s) = es_events s"
  "es_status (unfocus_predicate s) = es_status s" "es_events (unfocus_predicate s) = es_events s"
  "es_status (enter_watch_mode w s) = es_status s" "es_events (enter_watch_mode w s) = es_events s"
  "es_status (exit_watch_mode s) = es_status s" "es_events (exit_watch_mode s) = es_events s"
  "es_status (commit_filter_edit s) = es_status s" "es_events (commit_filter_edit s) = es_events s"
  "es_status (cancel_filter_edit s) = es_status s" "es_events (cancel_filter_edit s) = es_events s"
  "es_status (leave_row_nav s) = es_status s" "es_events (leave_row_nav s) = es_events s"
  "es_status (enter_row_nav s) = es_status s" "es_events (enter_row_nav s) = es_events s"
  "es_status (row_up s) = es_status s" "es_events (row_up s) = es_events s"
  "es_status (row_down s) = es_status s" "es_events (row_down s) = es_events s"
  "es_status (edit_filter g s) = es_status s" "es_events (edit_filter g s) = es_events s"
  "es_status (reset_filters s) = es_status s" "es_events (reset_filters s) = es_events s"
  "es_status (raise_cap s) = es_status s" "es_events (raise_cap s) = es_events s"
  by (simp_all add: on_watch_def focus_predicate_def unfocus_predicate_def enter_watch_mode_def exit_watch_mode_def
      commit_filter_edit_def cancel_filter_edit_def leave_row_nav_def enter_row_nav_def row_up_def row_down_def
      edit_filter_def reset_filters_def raise_cap_def split: option.split prod.split)

lemma frames_more [query_frame]:
  "es_status (enter_filter_edit d s) = es_status s" "es_events (enter_filter_edit d s) = es_events s"
  "es_status (push_filter_char ch s) = es_status s" "es_events (push_filter_char ch s) = es_events s"
  "es_status (pop_filter_char s) = es_status s" "es_events (pop_filter_char s) = es_events s"
  "es_status (push_predicate_char ch s) = es_status s" "es_events (push_predicate_char ch s) = es_events s"
  "es_status (pop_predicate_char s) = es_status s" "es_events (pop_predicate_char s) = es_events s"
  "es_status (fst (commit_predicate compile s)) = es_status s" "es_events (fst (commit_predicate compile s)) = es_events s"
  "es_status (confirm_exit_watch s) = es_status s" "es_events (confirm_exit_watch s) = es_events s"
  "es_status (cancel_exit_watch s) = es_status s" "es_events (cancel_exit_watch s) = es_events s"
  by (simp_all add: enter_filter_edit_def push_filter_char_def pop_filter_char_def push_predicate_char_def
      pop_predicate_char_def commit_predicate_def confirm_exit_watch_def cancel_exit_watch_def query_frame Let_def
      split: option.split sum.split)

lemma fold_kept: "(\<And>ch s. query_kept s (push ch s)) \<Longrightarrow> query_kept s (foldl (\<lambda>t ch. push ch t) s cs)"
  by (induction cs arbitrary: s) (auto intro: kept_trans)

lemma paste_kept:
  assumes "\<And>ch s. query_kept s (push ch s)" and "paste_into push clip s = Some (t, e)"
  shows "query_kept s t"
  using assms(2) fold_kept [OF assms(1), of s] by (auto simp: paste_into_def changed_def split: sum.splits)

lemma submit_kept: "submit_query V s = Some (t, e) \<Longrightarrow> query_kept s t"
  by (auto simp: submit_query_def Let_def query_kept_def)

lemma page_kept [query_frame]:
  "es_status (page_up n s) = es_status s" "es_events (page_up n s) = es_events s"
  "es_status (page_down n s) = es_status s" "es_events (page_down n s) = es_events s"
  by (induction n arbitrary: s; simp add: query_frame)+

lemma commit_kept: "commit_and_restart V s = Some (t, e) \<Longrightarrow> query_kept s t"
  using frames_more(11,12) [of "ee_compile V" s]
  by (cases "commit_predicate (ee_compile V) s")
    (auto simp: commit_and_restart_def changed_def query_kept_def query_frame split: if_splits)

lemma verb_kept: "events_verb_step V v s = Some (t, e) \<Longrightarrow> query_kept s t"
  by (auto simp: events_verb_step_def events_verb_op_def watch_verb_op_def changed_def query_kept_def query_frame new_query_def
      dest: submit_kept commit_kept
      split: if_splits view_verb.splits events_verb.splits common_verb.splits watch_verb.splits)

lemma focus_kept: "events_focus_step V a s = Some (t, e) \<Longrightarrow> query_kept s t"
  by (auto simp: events_focus_step_def row_focus_def changed_def query_kept_def query_frame dest: submit_kept
      split: if_splits focus_action.splits)

lemma push_kept: "query_kept s (push_filter_char ch s)" "query_kept s (push_predicate_char ch s)"
  by (simp_all add: query_kept_def query_frame)

lemma changed_kept: "changed u = Some (t, e) \<Longrightarrow> query_kept s u \<Longrightarrow> query_kept s t"
  by (simp add: changed_def)

lemma edits_kept [query_frame]:
  "query_kept s (cancel_filter_edit s)" "query_kept s (commit_filter_edit s)" "query_kept s (pop_filter_char s)"
  "query_kept s (push_filter_char ch s)" "query_kept s (unfocus_predicate s)" "query_kept s (pop_predicate_char s)"
  "query_kept s (push_predicate_char ch s)" "query_kept s (confirm_exit_watch s)" "query_kept s (cancel_exit_watch s)"
  by (simp_all add: query_kept_def query_frame)

lemma filter_key_kept:
  assumes "filter_edit_key clip k s = Some (t, e)"
  shows "query_kept s t"
  using assms
  by (cases "ke_code k")
    (auto simp: filter_edit_key_def edits_kept dest: changed_kept [OF _ edits_kept(1)] changed_kept [OF _ edits_kept(2)]
      changed_kept [OF _ edits_kept(3)] changed_kept [OF _ edits_kept(4)] paste_kept [OF push_kept(1)] split: if_splits)

lemma predicate_key_kept:
  assumes "predicate_edit_key V clip k s = Some (t, e)"
  shows "query_kept s t"
  using assms
  by (cases "ke_code k")
    (auto simp: predicate_edit_key_def edits_kept dest: changed_kept [OF _ edits_kept(5)] changed_kept [OF _ edits_kept(6)]
      changed_kept [OF _ edits_kept(7)] commit_kept paste_kept [OF push_kept(2)] split: if_splits)

lemma text_kept:
  assumes "events_text_step V clip k s = Some (t, e)"
  shows "query_kept s t"
proof -
  have "query_kept s t" if "exit_confirm_key k s = Some (t, e)"
    using that by (auto simp: exit_confirm_key_def dest: changed_kept [OF _ edits_kept(8)] changed_kept [OF _ edits_kept(9)]
        split: if_splits)
  then show ?thesis
    using assms filter_key_kept predicate_key_kept by (auto simp: events_text_step_def split: if_splits)
qed

section \<open>The rows answer the last query that started\<close>

definition next_started :: "string option \<Rightarrow> tab_event \<Rightarrow> string option" where
  "next_started q e = (case e of TePayload (QueryStarted q') \<Rightarrow> Some q' | _ \<Rightarrow> q)"

definition started :: "tab_event list \<Rightarrow> string option" where
  "started es = foldl next_started None es"

definition starts :: "tab_event \<Rightarrow> bool" where
  "starts e \<longleftrightarrow> (\<exists>q. e = TePayload (QueryStarted q))"

lemma started_snoc: "started (es @ [e]) = next_started (started es) e"
  by (simp add: started_def)

lemma started_same: "\<not> starts e \<Longrightarrow> started (es @ [e]) = started es"
  by (auto simp: started_snoc next_started_def starts_def split: tab_event.split events_payload.split)

text \<open>The rows were delivered by the query that started last, and no query started since.\<close>

definition answered :: "tab_event list \<Rightarrow> provenance_event list \<Rightarrow> bool" where
  "answered es rows \<longleftrightarrow>
     (\<exists>pre q truncated post. es = pre @ TePayload (QueryDone q rows truncated) # post
        \<and> started pre = Some q \<and> list_all (\<lambda>e. \<not> starts e) post)"

definition query_inv :: "tab_event list \<Rightarrow> 'r events_state \<Rightarrow> bool" where
  "query_inv es s \<longleftrightarrow>
     (running_id (es_status s) = None \<or> running_id (es_status s) = started es)
     \<and> (es_events s = [] \<or> answered es (es_events s))"

lemma answered_snoc: "answered es rows \<Longrightarrow> \<not> starts e \<Longrightarrow> answered (es @ [e]) rows"
  unfolding answered_def
proof (elim exE conjE)
  fix pre q b post
  assume "\<not> starts e" "es = pre @ TePayload (QueryDone q rows b) # post" "started pre = Some q"
    "list_all (\<lambda>e. \<not> starts e) post"
  then show "\<exists>pre q b post'. es @ [e] = pre @ TePayload (QueryDone q rows b) # post' \<and> started pre = Some q
      \<and> list_all (\<lambda>e. \<not> starts e) post'"
    by (intro exI [of _ pre] exI [of _ q] exI [of _ b] exI [of _ "post @ [e]"]) simp
qed

lemma kept_inv: "query_inv es s \<Longrightarrow> query_kept s t \<Longrightarrow> \<not> starts e \<Longrightarrow> query_inv (es @ [e]) t"
  by (auto simp: query_inv_def query_kept_def started_same intro: answered_snoc)

lemma other_payload_kept:
  assumes "\<And>q. p \<noteq> QueryStarted q" and "\<And>q rows b. p \<noteq> QueryDone q rows b"
  shows "query_kept s (apply_payload p s)"
  using assms
  by (cases p) (auto simp: apply_payload_def query_kept_def handle_watch_payload_def query_frame)

lemma payload_inv:
  assumes "query_inv es s"
  shows "query_inv (es @ [TePayload p]) (apply_payload p s)"
proof (cases "(\<exists>q. p = QueryStarted q) \<or> (\<exists>q rows b. p = QueryDone q rows b)")
  case False
  then have "query_kept s (apply_payload p s)" by (intro other_payload_kept) auto
  moreover have "\<not> starts (TePayload p)" using False by (auto simp: starts_def)
  ultimately show ?thesis by (rule kept_inv [OF assms])
next
  case True
  then show ?thesis
  proof
    assume "\<exists>q. p = QueryStarted q"
    then show ?thesis by (auto simp: apply_payload_def query_inv_def started_snoc next_started_def)
  next
    assume "\<exists>q rows b. p = QueryDone q rows b"
    then obtain q rows b where p: "p = QueryDone q rows b" by blast
    have quiet: "\<not> starts (TePayload p)" by (simp add: p starts_def)
    show ?thesis
    proof (cases "running_id (es_status s) = Some q")
      case True
      with assms have "started es = Some q" by (auto simp: query_inv_def)
      then have "answered (es @ [TePayload p]) rows" unfolding answered_def p
        by (intro exI [of _ es] exI [of _ q] exI [of _ b] exI [of _ "[]"]) simp
      with True show ?thesis by (simp add: p apply_payload_def query_inv_def)
    next
      case False
      then show ?thesis using kept_inv [OF assms kept_refl quiet] by (simp add: p apply_payload_def)
    qed
  qed
qed

lemma step_inv:
  assumes "query_inv es s" and "tab_step V e s = Some t"
  shows "query_inv (es @ [e]) t"
proof (cases "\<exists>p. e = TePayload p")
  case True
  then show ?thesis using assms payload_inv by (auto simp: tab_step_def)
next
  case False
  have "query_kept s t"
    using assms(2) False
    by (cases e) (auto simp: tab_step_def events_landing_def watch_landing_def tab_entered_def tab_left_def resume_watch_def
        pause_watch_def clear_failed_status_def query_frame query_kept_def kept_refl
        dest!: verb_kept focus_kept text_kept submit_kept split: query_status.splits if_splits)
  moreover have "\<not> starts e" using False by (auto simp: starts_def)
  ultimately show ?thesis by (rule kept_inv [OF assms(1)])
qed

text \<open>
  C16: whatever keys, edits and payloads the tab receives from a fresh state, in any interleaving,
  rows that it shows were delivered by the query that started last, and no query started since.
\<close>

theorem rows_answer_last_query:
  assumes "tab_run V es events_new = Some s" and "es_events s \<noteq> []"
  shows "answered es (es_events s)"
proof -
  have "query_inv es t" if "tab_run V es events_new = Some t" for t
    using that
  proof (induction es arbitrary: t rule: rev_induct)
    case Nil
    then show ?case by (auto simp: query_inv_def events_new_def started_def)
  next
    case (snoc e es)
    then obtain u where "tab_run V es events_new = Some u" "tab_step V e u = Some t"
      by (auto simp: tab_run_snoc bind_eq_Some_conv)
    then show ?case using snoc.IH step_inv by blast
  qed
  from this [OF assms(1)] assms(2) show ?thesis by (simp add: query_inv_def)
qed

definition sample_event :: "int \<Rightarrow> provenance_event" where
  "sample_event i = \<lparr>pe_id = i, pe_time_iso = ''t'', pe_type = ''SEND'', pe_component_id = ''c'', pe_component_name = ''c'',
     pe_component_type = ''P'', pe_group_id = ''g'', pe_flow_file_uuid = ''u'', pe_relationship = None, pe_details = None\<rparr>"

definition sample_events_env :: "unit events_env" where
  "sample_events_env = \<lparr>ee_start_date = (\<lambda>u n. if n * u < 2 ^ 63 then Some (Some ''start'') else None),
     ee_compile = (\<lambda>_. Inr ())\<rparr>"

text \<open>Two queries overlap; the rows of the older one come too late.\<close>

lemma rows_answer_last_query_witness:
  "let es = [TeFocus FaDescend, TePayload (QueryStarted ''q1''), TeFocus FaDescend, TePayload (QueryStarted ''q2''),
       TePayload (QueryDone ''q1'' [sample_event 1] False), TePayload (QueryDone ''q2'' [sample_event 2] False)]
   in map_option es_events (tab_run sample_events_env es events_new) = Some [sample_event 2] \<and> answered es [sample_event 2]"
proof -
  let ?es = "[TeFocus FaDescend, TePayload (QueryStarted ''q1''), TeFocus FaDescend, TePayload (QueryStarted ''q2''),
       TePayload (QueryDone ''q1'' [sample_event 1] False), TePayload (QueryDone ''q2'' [sample_event 2] False)]"
  have window: "parse_time_window ''last 15m'' = Some (60, 15)" by code_simp
  have run: "map_option es_events (tab_run sample_events_env ?es events_new) = Some [sample_event 2]"
    by (simp add: tab_step_def events_focus_step_def submit_query_def build_query_def apply_payload_def events_new_def
        filters_default_def window sample_events_env_def watch_def Let_def)
  then obtain s where s: "tab_run sample_events_env ?es events_new = Some s" "es_events s = [sample_event 2]" by auto
  from rows_answer_last_query [OF s(1)] s run show ?thesis by (simp only: Let_def) simp
qed

section \<open>The life of a watch\<close>

named_theorems watch_frame

lemma watch_frames [watch_frame]:
  "watch (on_watch f s) = map_option f (watch s)" "watch (focus_predicate s) = watch s"
  "watch (unfocus_predicate s) = watch s" "watch (enter_watch_mode w s) = Some w"
  "watch (commit_filter_edit s) = watch s" "watch (cancel_filter_edit s) = watch s"
  "watch (leave_row_nav s) = watch s" "watch (enter_row_nav s) = watch s" "watch (row_up s) = watch s"
  "watch (row_down s) = watch s" "watch (edit_filter g s) = watch s" "watch (reset_filters s) = watch s"
  "watch (raise_cap s) = watch s" "watch (new_query s) = watch s" "watch (cancel_exit_watch s) = watch s"
  "watch (clear_failed_status s) = watch s"
  by (simp_all add: watch_def on_watch_def focus_predicate_def unfocus_predicate_def enter_watch_mode_def
      commit_filter_edit_def cancel_filter_edit_def leave_row_nav_def enter_row_nav_def row_up_def row_down_def
      edit_filter_def reset_filters_def raise_cap_def new_query_def cancel_exit_watch_def clear_failed_status_def
      split: option.split prod.split query_status.split)

lemma watch_updates [watch_frame]:
  "watch (s\<lparr>es_status := st\<rparr>) = watch s" "watch (s\<lparr>es_events := rows\<rparr>) = watch s"
  "watch (s\<lparr>es_selected_row := r\<rparr>) = watch s" "watch (s\<lparr>es_filters := fs\<rparr>) = watch s"
  by (simp_all add: watch_def)

lemma new_pending [simp]: "\<not> es_exit_watch_pending events_new"
  by (simp add: events_new_def)

lemma pending_frames [watch_frame]:
  "es_exit_watch_pending (on_watch f s) = es_exit_watch_pending s"
  "es_exit_watch_pending (focus_predicate s) = es_exit_watch_pending s"
  "es_exit_watch_pending (unfocus_predicate s) = es_exit_watch_pending s"
  "es_exit_watch_pending (enter_watch_mode w s) = es_exit_watch_pending s"
  "es_exit_watch_pending (commit_filter_edit s) = es_exit_watch_pending s"
  "es_exit_watch_pending (cancel_filter_edit s) = es_exit_watch_pending s"
  "es_exit_watch_pending (leave_row_nav s) = es_exit_watch_pending s"
  "es_exit_watch_pending (enter_row_nav s) = es_exit_watch_pending s"
  "es_exit_watch_pending (row_up s) = es_exit_watch_pending s"
  "es_exit_watch_pending (row_down s) = es_exit_watch_pending s"
  "es_exit_watch_pending (edit_filter g s) = es_exit_watch_pending s"
  "es_exit_watch_pending (reset_filters s) = es_exit_watch_pending s"
  "es_exit_watch_pending (raise_cap s) = es_exit_watch_pending s"
  "es_exit_watch_pending (new_query s) = es_exit_watch_pending s"
  "es_exit_watch_pending (clear_failed_status s) = es_exit_watch_pending s"
  by (simp_all add: on_watch_def focus_predicate_def unfocus_predicate_def enter_watch_mode_def
      commit_filter_edit_def cancel_filter_edit_def leave_row_nav_def enter_row_nav_def row_up_def row_down_def
      edit_filter_def reset_filters_def raise_cap_def new_query_def clear_failed_status_def
      split: option.split prod.split query_status.split)

lemma page_frames [watch_frame]:
  "watch (page_up n s) = watch s" "es_exit_watch_pending (page_up n s) = es_exit_watch_pending s"
  "watch (page_down n s) = watch s" "es_exit_watch_pending (page_down n s) = es_exit_watch_pending s"
  by (induction n arbitrary: s; simp add: watch_frame)+

text \<open>What a key leaves of the session: the status is kept or toggled, the buffer kept or cleared.\<close>

definition session_kept :: "'r watch_session \<Rightarrow> 'r watch_session \<Rightarrow> bool" where
  "session_kept w w' \<longleftrightarrow>
     (ws_status w' = ws_status w \<or> ws_status w' = toggle_pause_status (ws_status w))
     \<and> (ws_buffer w' = ws_buffer w \<or> ws_buffer w' = [])
     \<and> ws_buffer_cap w' = ws_buffer_cap w \<and> ws_cursor w' = ws_cursor w \<and> ws_narrow w' = ws_narrow w"

definition watch_kept :: "'r events_state \<Rightarrow> 'r events_state \<Rightarrow> bool" where
  "watch_kept s t \<longleftrightarrow>
     es_exit_watch_pending t = es_exit_watch_pending s
     \<and> (case watch s of None \<Rightarrow> (\<forall>w. watch t = Some w \<longrightarrow> ws_cursor w = None \<and> ws_buffer w = [])
        | Some w \<Rightarrow> \<exists>w'. watch t = Some w' \<and> session_kept w w')"

lemma session_refl [simp]: "session_kept w w"
  by (simp add: session_kept_def)

lemma watch_kept_same: "watch t = watch s \<Longrightarrow> es_exit_watch_pending t = es_exit_watch_pending s \<Longrightarrow> watch_kept s t"
  by (simp add: watch_kept_def split: option.split)

lemma watch_kept_on: "(\<And>w. session_kept w (f w)) \<Longrightarrow> watch_kept s (on_watch f s)"
  by (simp add: watch_kept_def watch_frame split: option.split)

lemma watch_kept_mono: "watch_kept s t \<Longrightarrow> watch u = watch t \<Longrightarrow> es_exit_watch_pending u = es_exit_watch_pending t \<Longrightarrow> watch_kept s u"
  by (simp add: watch_kept_def split: option.splits)

lemma watch_kept_edit:
  "watch_kept s (push_predicate_char ch s)" "watch_kept s (pop_predicate_char s)"
  "watch_kept s (push_filter_char ch s)" "watch_kept s (pop_filter_char s)"
  "watch_kept s (commit_filter_edit s)" "watch_kept s (cancel_filter_edit s)" "watch_kept s (unfocus_predicate s)"
  by (auto simp: push_predicate_char_def pop_predicate_char_def push_filter_char_def pop_filter_char_def watch_frame
      session_kept_def intro!: watch_kept_same watch_kept_on)

lemma typed_same:
  "es_exit_watch_pending (push_predicate_char ch s) = es_exit_watch_pending s"
  "es_exit_watch_pending (push_filter_char ch s) = es_exit_watch_pending s"
  by (simp_all add: push_predicate_char_def push_filter_char_def watch_frame)

lemma session_trans:
  "session_kept u v \<Longrightarrow> ws_status v = ws_status u \<Longrightarrow> session_kept v w \<Longrightarrow> session_kept u w"
  by (auto simp: session_kept_def)

text \<open>Pasting pushes characters; each keeps the session but for its input.\<close>

lemma pasted_watch:
  "\<exists>input. watch (foldl (\<lambda>t ch. push_predicate_char ch t) s cs) = map_option (\<lambda>w. w\<lparr>ws_predicate_input := input w\<rparr>) (watch s)"
  "es_exit_watch_pending (foldl (\<lambda>t ch. push_predicate_char ch t) s cs) = es_exit_watch_pending s"
proof (induction cs arbitrary: s)
  case Nil
  { case 1 show ?case by (rule exI [of _ ws_predicate_input]) (simp add: option.map_ident_strong) }
  { case 2 show ?case by simp }
next
  case (Cons c cs)
  { case 1
    obtain input where "watch (foldl (\<lambda>t ch. push_predicate_char ch t) (push_predicate_char c s) cs)
        = map_option (\<lambda>w. w\<lparr>ws_predicate_input := input w\<rparr>) (watch (push_predicate_char c s))"
      using Cons.IH(1) by blast
    moreover obtain input' where "watch (push_predicate_char c s) = map_option (\<lambda>w. w\<lparr>ws_predicate_input := input' w\<rparr>) (watch s)"
      by (cases "es_predicate_focus s")
        (force simp: push_predicate_char_def watch_frame option.map_ident_strong
          intro: that [of "\<lambda>w. ws_predicate_input w @ c"] that [of ws_predicate_input])+
    ultimately show ?case by (auto simp: option.map_comp o_def intro!: exI) }
  { case 2 show ?case using Cons.IH(2) by (simp add: typed_same) }
qed

lemma pasted_filter:
  "watch (foldl (\<lambda>t ch. push_filter_char ch t) s cs) = watch s"
  "es_exit_watch_pending (foldl (\<lambda>t ch. push_filter_char ch t) s cs) = es_exit_watch_pending s"
  by (induction cs arbitrary: s) (simp_all add: push_filter_char_def watch_frame)

lemma paste_keeps_watch:
  "paste_into push_predicate_char clip s = Some (t, e) \<Longrightarrow> watch_kept s t"
  "paste_into push_filter_char clip s = Some (t, e) \<Longrightarrow> watch_kept s t"
proof -
  assume "paste_into push_predicate_char clip s = Some (t, e)"
  then show "watch_kept s t"
    using pasted_watch [of s] by (cases clip; cases "watch s")
      (fastforce simp: paste_into_def changed_def watch_kept_def session_kept_def intro: watch_kept_same)+
next
  assume "paste_into push_filter_char clip s = Some (t, e)"
  then show "watch_kept s t"
    by (cases clip) (auto simp: paste_into_def changed_def pasted_filter intro!: watch_kept_same)
qed

lemma submit_same:
  assumes "submit_query V s = Some (t, e)"
  shows "watch t = watch s" and "es_exit_watch_pending t = es_exit_watch_pending s"
  using assms by (auto simp: submit_query_def Let_def watch_def)

lemmas submit_keeps_watch = watch_kept_same [OF submit_same]

lemma enter_edit_frames [watch_frame]:
  "watch (enter_filter_edit d s) = watch s" "es_exit_watch_pending (enter_filter_edit d s) = es_exit_watch_pending s"
  using watch_frames(5) [of s] pending_frames(5) [of s] by (simp_all add: enter_filter_edit_def Let_def watch_def)

lemma commit_keeps_watch: "commit_and_restart V s = Some (t, e) \<Longrightarrow> watch_kept s t"
  by (auto simp: commit_and_restart_def commit_predicate_def changed_def watch_frame watch_kept_def session_kept_def
      split: option.splits sum.splits if_splits)

lemma verb_keeps_watch:
  assumes "events_verb_step V v s = Some (t, e)"
  shows "watch_kept s t"
proof -
  have events: "watch_kept s t" if "events_verb_op V ev s = Some (t, e)" for ev
    using that
    by (cases ev) (auto simp: events_verb_op_def changed_def watch_frame submit_same intro!: watch_kept_same
        split: common_verb.splits if_splits)
  have watched: "watch_kept s t" if "watch_verb_op V wv s = Some (t, e)" for wv
    using that
    by (cases wv) (auto simp: watch_verb_op_def changed_def watch_frame watch_kept_def session_kept_def from_query_def
        session_new_def dest!: commit_keeps_watch split: option.splits if_splits)
  show ?thesis
    using assms events watched by (auto simp: events_verb_step_def intro: watch_kept_same split: if_splits view_verb.splits)
qed

lemma focus_keeps_watch:
  assumes "events_focus_step V a s = Some (t, e)"
  shows "watch_kept s t"
  using assms
  by (cases a) (auto simp: events_focus_step_def row_focus_def changed_def watch_frame submit_same
      intro!: watch_kept_same split: if_splits)

lemma text_keeps_watch:
  assumes "events_text_step V clip k s = Some (t, e)" and "\<not> es_exit_watch_pending s"
  shows "watch_kept s t"
proof -
  have "watch_kept s t" if "filter_edit_key clip k s = Some (t, e)"
    using that by (cases "ke_code k")
      (auto simp: filter_edit_key_def changed_def watch_kept_edit dest: paste_keeps_watch intro: watch_kept_same split: if_splits)
  moreover have "watch_kept s t" if "predicate_edit_key V clip k s = Some (t, e)"
    using that by (cases "ke_code k")
      (auto simp: predicate_edit_key_def changed_def watch_kept_edit dest: paste_keeps_watch commit_keeps_watch
        intro: watch_kept_same split: if_splits)
  ultimately show ?thesis
    using assms by (auto simp: events_text_step_def intro: watch_kept_same split: if_splits)
qed

text \<open>
  Nothing arms the confirmation, so no key ever leaves the watch: once in the watch mode, the
  tab stays in it.
\<close>

lemma watch_kept_mode: "watch_kept s t \<Longrightarrow> watch s \<noteq> None \<Longrightarrow> watch t \<noteq> None"
  by (auto simp: watch_kept_def)

lemma payload_frames [watch_frame]:
  "es_exit_watch_pending (apply_payload p s) = es_exit_watch_pending s"
  "watch (apply_payload p s) = None \<longleftrightarrow> watch s = None"
  by (cases p; simp add: apply_payload_def handle_watch_payload_def watch_frame)+

lemma landing_frames [watch_frame]:
  "watch (watch_landing n c s) = Some (new_for_component c n)"
  "es_exit_watch_pending (watch_landing n c s) = es_exit_watch_pending s"
  by (simp_all add: watch_landing_def watch_frame)

lemma tab_frames [watch_frame]:
  "watch (tab_left s) = map_option (\<lambda>w. w\<lparr>ws_status := WsPaused\<rparr>) (watch s)"
  "es_exit_watch_pending (tab_left s) = es_exit_watch_pending s"
  "watch (fst (tab_entered s)) = map_option (\<lambda>w. if ws_status w = WsPaused then w\<lparr>ws_status := WsWaiting\<rparr> else w) (watch s)"
  "es_exit_watch_pending (fst (tab_entered s)) = es_exit_watch_pending s"
  by (simp_all add: tab_left_def tab_entered_def pause_watch_def resume_watch_def watch_frame)

lemma landed_watch: "events_landing V c s = Some (t, e) \<Longrightarrow> watch_kept s t"
  using submit_same [of V "s\<lparr>es_filters := (es_filters s)\<lparr>ef_source := c, ef_time := ''last 15m''\<rparr>\<rparr>" t e]
  by (intro watch_kept_same) (simp_all add: events_landing_def watch_def)

lemma key_step_kept:
  assumes "tab_step V e s = Some t" and "\<not> es_exit_watch_pending s"
    and "\<And>p. e \<noteq> TePayload p" "\<And>n c. e \<noteq> TeWatchLanding n c" "e \<noteq> TeEntered" "e \<noteq> TeLeft"
  shows "watch_kept s t"
  using assms
  by (cases e) (auto simp: tab_step_def dest: verb_keeps_watch focus_keeps_watch text_keeps_watch landed_watch)

lemma step_watching:
  assumes "tab_step V e s = Some t" and "\<not> es_exit_watch_pending s"
  shows "\<not> es_exit_watch_pending t \<and> (watch s \<noteq> None \<longrightarrow> watch t \<noteq> None)"
proof (cases "\<exists>p. e = TePayload p")
  case True
  then obtain p where "e = TePayload p" by blast
  with assms payload_frames [of p s] show ?thesis by (auto simp: tab_step_def)
next
  case payload: False
  show ?thesis
  proof (cases "(\<exists>n c. e = TeWatchLanding n c) \<or> e = TeEntered \<or> e = TeLeft")
    case True
    then show ?thesis using assms by (auto simp: tab_step_def watch_frame)
  next
    case False
    with key_step_kept [OF assms] payload have "watch_kept s t" by blast
    with assms(2) show ?thesis by (auto simp: watch_kept_def)
  qed
qed

text \<open>
  C39: once a run of keys and payloads from a fresh tab is in watch mode, no further keys or payloads
  leave it, and the exit confirmation is never armed.
\<close>

theorem watch_mode_never_left:
  assumes "tab_run V before events_new = Some s" and "watch s \<noteq> None" and "tab_run V after s = Some t"
  shows "watch t \<noteq> None \<and> \<not> es_exit_watch_pending t"
proof -
  have run: "\<not> es_exit_watch_pending t \<and> (watch s \<noteq> None \<longrightarrow> watch t \<noteq> None)"
    if "tab_run V es s = Some t" "\<not> es_exit_watch_pending s" for es s t
    using that
  proof (induction es arbitrary: s)
    case (Cons e es)
    then obtain u where "tab_step V e s = Some u" "tab_run V es u = Some t" by (auto simp: bind_eq_Some_conv)
    with Cons show ?case using step_watching [of V e s u] by blast
  qed simp
  have "\<not> es_exit_watch_pending s" using run [OF assms(1)] by (simp add: events_new_def)
  with run [OF assms(3)] assms(2) show ?thesis by blast
qed

text \<open>The buffer never outgrows its limit, and the session never learns how far the worker got.\<close>

definition session_ok :: "'r watch_session \<Rightarrow> bool" where
  "session_ok w \<longleftrightarrow> length (ws_buffer w) \<le> max 1 (ws_buffer_cap w) \<and> ws_cursor w = None"

lemma push_event_ok: "session_ok w \<Longrightarrow> session_ok (push_event m sel w)"
  by (auto simp: session_ok_def push_event_def Let_def remove_at_def)

lemma kept_ok: "session_kept w w' \<Longrightarrow> session_ok w \<Longrightarrow> session_ok w'"
  by (auto simp: session_kept_def session_ok_def)

definition watch_ok :: "'r events_state \<Rightarrow> bool" where
  "watch_ok s \<longleftrightarrow> \<not> es_exit_watch_pending s \<and> (case watch s of None \<Rightarrow> True | Some w \<Rightarrow> session_ok w)"

lemma watch_kept_ok: "watch_kept s t \<Longrightarrow> watch_ok s \<Longrightarrow> watch_ok t"
  by (auto simp: watch_kept_def watch_ok_def session_ok_def session_kept_def split: option.splits)

lemma payload_ok: "watch_ok s \<Longrightarrow> watch_ok (apply_payload p s)"
  by (cases p; cases "watch s")
    (auto simp: watch_ok_def watch_frame apply_payload_def handle_watch_payload_def push_event_ok, auto simp: watch_def session_ok_def)

lemma step_watch_ok:
  assumes "tab_step V e s = Some t" and "watch_ok s"
  shows "watch_ok t"
proof (cases "\<exists>p. e = TePayload p")
  case True
  with assms payload_ok show ?thesis by (auto simp: tab_step_def)
next
  case payload: False
  show ?thesis
  proof (cases "(\<exists>n c. e = TeWatchLanding n c) \<or> e = TeEntered \<or> e = TeLeft")
    case True
    then show ?thesis
      using assms
      by (auto simp: tab_step_def watch_ok_def watch_frame session_ok_def new_for_component_def session_new_def
          split: option.splits)
  next
    case False
    have "\<not> es_exit_watch_pending s" using assms(2) by (simp add: watch_ok_def)
    with key_step_kept [OF assms(1)] False payload show ?thesis using watch_kept_ok assms(2) by blast
  qed
qed

text \<open>
  C20: through any keys and payloads the watch buffer stays within its limit, or holds one event when
  the limit is zero; and the session that the worker would be started from never has a cursor.
\<close>

theorem watch_buffer_bounded:
  assumes "tab_run V es events_new = Some s" and "watch s = Some w"
  shows "length (ws_buffer w) \<le> max 1 (ws_buffer_cap w) \<and> spawn_of s = Some (ws_narrow w, ws_predicate w, None)"
proof -
  have run: "watch_ok t" if "tab_run V es s = Some t" "watch_ok s" for s t :: "'a events_state" and es
    using that
  proof (induction es arbitrary: s)
    case (Cons e es)
    then obtain u where "tab_step V e s = Some u" "tab_run V es u = Some t" by (auto simp: bind_eq_Some_conv)
    with Cons show ?case using step_watch_ok [of V e s u] by blast
  qed simp
  have "watch_ok s" by (rule run [OF assms(1)]) (simp add: watch_ok_def events_new_def watch_def)
  with assms(2) show ?thesis by (simp add: watch_ok_def session_ok_def spawn_of_def)
qed

lemma watch_mode_never_left_witness:
  "\<exists>s t. tab_run sample_events_env [TeWatchLanding 100 ''c''] events_new = Some s
     \<and> tab_run sample_events_env [TeKey (Inr []) (plain_key KEsc), TeFocus FaAscend, TeFocus FaAscend] s = Some t
     \<and> watch t \<noteq> None \<and> \<not> es_exit_watch_pending t"
proof -
  obtain s where s: "tab_run sample_events_env [TeWatchLanding 100 ''c''] events_new = Some s" by (simp add: tab_step_def)
  then have w: "watch s \<noteq> None" by (auto simp: tab_step_def watch_frame)
  have focus: "es_predicate_focus s" "\<not> es_exit_watch_pending s" "es_filter_edit s = None" "es_selected_row s = None"
    using s by (auto simp: tab_step_def watch_landing_def focus_predicate_def watch_def enter_watch_mode_def events_new_def)
  then obtain t where t: "tab_run sample_events_env [TeKey (Inr []) (plain_key KEsc), TeFocus FaAscend, TeFocus FaAscend] s = Some t"
    by (simp add: tab_step_def events_text_step_def predicate_edit_key_def plain_key_def changed_def events_focus_step_def
        unfocus_predicate_def)
  from watch_mode_never_left [OF s w t] s t show ?thesis by blast
qed

lemma watch_buffer_bounded_witness:
  "\<exists>s w. tab_run sample_events_env [TeWatchLanding 100 ''c'', TePayload (WatchMatch (sample_event 1) [])] events_new = Some s
     \<and> watch s = Some w \<and> length (ws_buffer w) = 1 \<and> spawn_of s = Some (ws_narrow w, ws_predicate w, None)"
proof -
  let ?es = "[TeWatchLanding 100 ''c'', TePayload (WatchMatch (sample_event 1) [])]"
  obtain s w where s: "tab_run sample_events_env ?es events_new = Some s" "watch s = Some w" "length (ws_buffer w) = 1"
    by (simp add: tab_step_def apply_payload_def handle_watch_payload_def watch_frame new_for_component_def session_new_def
        push_event_def Let_def)
  from watch_buffer_bounded [OF s(1,2)] s show ?thesis by blast
qed

section \<open>What a match does to the selection\<close>

text \<open>
  The rows show the newest event first, and the selected row keeps its number: a match below the
  limit moves the selection to the event one row above, the first row to the new event.
\<close>

theorem match_moves_selection:
  assumes "watch s = Some w" and "es_selected_row s = Some r" and "r < length (ws_buffer w)"
    and "length (ws_buffer w) < ws_buffer_cap w"
  shows "selected_event (apply_payload (WatchMatch e attrs) s)
    = (if r = 0 then Some e else selected_event (s\<lparr>es_selected_row := Some (r - 1)\<rparr>))"
proof -
  let ?b = "ws_buffer w" and ?m = "\<lparr>me_summary = e, me_attrs = attrs\<rparr>"
  have after: "watch (apply_payload (WatchMatch e attrs) s) = Some (push_event ?m (Some r) w)"
    "es_selected_row (apply_payload (WatchMatch e attrs) s) = Some r"
    using assms(1,2)
    by (simp_all add: apply_payload_def handle_watch_payload_def watch_frame) (simp add: on_watch_def)
  have "ws_buffer (push_event ?m (Some r) w) = ?b @ [?m]" using assms(4) by (simp add: push_event_def Let_def)
  then have "selected_event (apply_payload (WatchMatch e attrs) s) = Some (me_summary ((?b @ [?m]) ! (length ?b - r)))"
    using after assms(3) by (simp add: selected_event_def)
  moreover have "selected_event (s\<lparr>es_selected_row := Some (r - 1)\<rparr>) = Some (me_summary (?b ! (length ?b - r)))" if "0 < r"
    using assms(1,3) that by (simp add: selected_event_def watch_def)
  ultimately show ?thesis using assms(3) by (simp add: nth_append)
qed

lemma match_moves_selection_witness:
  "\<exists>s :: unit events_state. map_option pe_id (selected_event s) = Some 1
     \<and> map_option pe_id (selected_event (apply_payload (WatchMatch (sample_event 2) []) s)) = Some 2"
proof -
  let ?w = "(new_for_component ''c'' 100 :: unit watch_session)\<lparr>ws_buffer := [\<lparr>me_summary = sample_event 1, me_attrs = []\<rparr>]\<rparr>"
  let ?s = "(enter_watch_mode ?w events_new)\<lparr>es_selected_row := Some 0\<rparr>"
  have w: "watch ?s = Some ?w" by (simp add: watch_def enter_watch_mode_def)
  have "selected_event (apply_payload (WatchMatch (sample_event 2) []) ?s) = Some (sample_event 2)"
    using match_moves_selection [OF w, of 0 "sample_event 2" "[]"]
    by (simp add: new_for_component_def session_new_def)
  moreover have "map_option pe_id (selected_event ?s) = Some 1"
    by (simp add: selected_event_def w) (simp add: sample_event_def)
  moreover have "pe_id (sample_event 2) = 2" by (simp add: sample_event_def)
  ultimately show ?thesis by (intro exI [of _ ?s] conjI) simp_all
qed

text \<open>
  A full buffer with the first row selected protects its oldest event, not the one on the row:
  however many events match, the oldest stays.
\<close>

lemma oldest_is_pinned:
  "length (ws_buffer w) \<ge> 2 \<Longrightarrow> length (ws_buffer w) \<ge> ws_buffer_cap w \<Longrightarrow>
   hd (ws_buffer (foldl (\<lambda>w m. push_event m (Some 0) w) w ms)) = hd (ws_buffer w)"
proof (induction ms arbitrary: w)
  case (Cons m ms)
  let ?w = "push_event m (Some 0) w"
  obtain a b bs where buf: "ws_buffer w = a # b # bs"
    using Cons.prems(1) by (cases "ws_buffer w"; cases "tl (ws_buffer w)") auto
  have "ws_buffer ?w = a # bs @ [m]" "ws_buffer_cap ?w = ws_buffer_cap w"
    using Cons.prems buf by (simp_all add: push_event_def Let_def remove_at_def)
  with Cons.IH [of ?w] Cons.prems buf show ?case by simp
qed simp

text \<open>The event on the row is trimmed when the buffer holds two.\<close>

lemma selected_row_trimmed:
  "let m = (\<lambda>i. \<lparr>me_summary = sample_event i, me_attrs = []\<rparr>);
       w = (session_new query_default 2 WsTailing)\<lparr>ws_buffer := [m 1, m 2]\<rparr>;
       s = (enter_watch_mode w events_new)\<lparr>es_selected_row := Some 0\<rparr>
   in selected_event s = Some (sample_event 2)
      \<and> map_option ws_buffer (watch (apply_payload (WatchMatch (sample_event 3) []) s)) = Some [m 1, m 3]"
  by (simp add: Let_def selected_event_def watch_def enter_watch_mode_def apply_payload_def handle_watch_payload_def
      on_watch_def push_event_def session_new_def remove_at_def)

section \<open>Pausing and failing\<close>

text \<open>
  Pause only relabels the watch: the worker is neither stopped nor restarted, and the matches
  are collected as before.
\<close>

definition payloads :: "events_payload list \<Rightarrow> 'r events_state \<Rightarrow> 'r events_state" where
  "payloads ps s = foldl (\<lambda>s p. apply_payload p s) s ps"

definition same_matches :: "'r events_state \<Rightarrow> 'r events_state \<Rightarrow> bool" where
  "same_matches s t \<longleftrightarrow>
     es_selected_row t = es_selected_row s \<and> es_status t = es_status s \<and> es_events t = es_events s
     \<and> (case watch s of None \<Rightarrow> watch t = None
        | Some w \<Rightarrow> \<exists>w'. watch t = Some w' \<and> ws_buffer w' = ws_buffer w \<and> ws_buffer_cap w' = ws_buffer_cap w
            \<and> ws_narrow w' = ws_narrow w \<and> ws_predicate w' = ws_predicate w \<and> ws_cursor w' = ws_cursor w)"

lemma selected_frames:
  "es_selected_row (on_watch f s) = es_selected_row s" "es_selected_row (row_up s) = map_option (\<lambda>i. i - 1) (es_selected_row s)"
  by (simp_all add: on_watch_def row_up_def split: option.split)

lemma push_event_fields:
  "ws_buffer_cap (push_event m sel w) = ws_buffer_cap w" "ws_narrow (push_event m sel w) = ws_narrow w"
  "ws_predicate (push_event m sel w) = ws_predicate w" "ws_cursor (push_event m sel w) = ws_cursor w"
  "ws_status (push_event m sel w) = ws_status w"
  by (simp_all add: push_event_def Let_def)

lemma push_event_buffer:
  "ws_buffer w' = ws_buffer w \<Longrightarrow> ws_buffer_cap w' = ws_buffer_cap w \<Longrightarrow>
   ws_buffer (push_event m sel w') = ws_buffer (push_event m sel w)"
  by (simp add: push_event_def Let_def)

lemma same_matches_payload:
  assumes "same_matches s t"
  shows "same_matches (apply_payload p s) (apply_payload p t)"
proof (cases "watch s")
  case None
  with assms show ?thesis
    by (cases p) (auto simp: same_matches_def apply_payload_def handle_watch_payload_def on_watch_def watch_def
        split: option.splits)
next
  case (Some w)
  with assms obtain w' where w': "watch t = Some w'" "ws_buffer w' = ws_buffer w" "ws_buffer_cap w' = ws_buffer_cap w"
      "ws_narrow w' = ws_narrow w" "ws_predicate w' = ws_predicate w" "ws_cursor w' = ws_cursor w"
    by (auto simp: same_matches_def)
  with assms Some show ?thesis
    by (cases p) (auto simp: same_matches_def apply_payload_def handle_watch_payload_def watch_frame query_frame
        selected_frames push_event_fields push_event_buffer [OF w'(2,3)] cong: option.case_cong)
qed

lemma same_matches_run: "same_matches s t \<Longrightarrow> same_matches (payloads ps s) (payloads ps t)"
  by (induction ps arbitrary: s t) (simp_all add: payloads_def same_matches_payload)

text \<open>
  C22: pause only relabels the watch: whatever the worker sends afterwards, the buffer fills as it
  would have without the pause, and the worker is started from the same session.
\<close>

theorem pause_only_relabels:
  "\<exists>t. watch_verb_op V WvPause s = Some (t, EeRedraw)
     \<and> map_option ws_buffer (watch (payloads ps t)) = map_option ws_buffer (watch (payloads ps s))
     \<and> spawn_of (payloads ps t) = spawn_of (payloads ps s)"
proof -
  let ?t = "on_watch (\<lambda>w. w\<lparr>ws_status := toggle_pause_status (ws_status w)\<rparr>) s"
  have "same_matches s ?t"
    by (simp add: same_matches_def watch_frame query_frame selected_frames split: option.split)
  from same_matches_run [OF this, of ps] show ?thesis
    by (auto simp: watch_verb_op_def changed_def same_matches_def spawn_of_def split: option.splits)
qed

text \<open>A failed watch stays failed: ticks and matches do not clear it, only leaving the tab does.\<close>

definition recovering :: "tab_event \<Rightarrow> bool" where
  "recovering e \<longleftrightarrow> e = TeLeft \<or> (\<exists>n c. e = TeWatchLanding n c) \<or> (\<exists>err n. e = TePayload (WatchFailed err n))"

definition failed_with :: "string \<Rightarrow> nat \<Rightarrow> 'r events_state \<Rightarrow> bool" where
  "failed_with err n s \<longleftrightarrow> \<not> es_exit_watch_pending s \<and> (\<exists>w. watch s = Some w \<and> ws_status w = WsFailed err n)"

lemma payload_keeps_failure:
  assumes "failed_with err n s" and "\<And>err n. p \<noteq> WatchFailed err n"
  shows "failed_with err n (apply_payload p s)"
proof -
  from assms(1) obtain w where w: "\<not> es_exit_watch_pending s" "watch s = Some w" "ws_status w = WsFailed err n"
    by (auto simp: failed_with_def)
  then show ?thesis
    using assms(2)
    by (cases p; simp add: failed_with_def watch_frame; simp add: apply_payload_def handle_watch_payload_def watch_frame
        push_event_fields; simp add: watch_def)
qed

lemma step_keeps_failure:
  assumes "tab_step V e s = Some t" and "failed_with err n s" and "\<not> recovering e"
  shows "failed_with err n t"
proof (cases "\<exists>p. e = TePayload p")
  case True
  then obtain p where p: "e = TePayload p" by blast
  with assms(3) have "\<And>err n. p \<noteq> WatchFailed err n" by (auto simp: recovering_def)
  from payload_keeps_failure [OF assms(2) this] show ?thesis using assms(1) p by (simp add: tab_step_def)
next
  case payload: False
  show ?thesis
  proof (cases "e = TeEntered")
    case True
    then show ?thesis using assms by (auto simp: tab_step_def failed_with_def watch_frame)
  next
    case False
    have "\<not> es_exit_watch_pending s" using assms(2) by (simp add: failed_with_def)
    with key_step_kept [OF assms(1)] payload False assms(3) have "watch_kept s t"
      by (auto simp: recovering_def)
    with assms(2) show ?thesis by (auto simp: failed_with_def watch_kept_def session_kept_def)
  qed
qed

theorem failed_watch_stays_failed:
  assumes "failed_with err n s" and "tab_run V es s = Some t" and "list_all (\<lambda>e. \<not> recovering e) es"
  shows "failed_with err n t"
  using assms
proof (induction es arbitrary: s)
  case (Cons e es)
  then obtain u where u: "tab_step V e s = Some u" "tab_run V es u = Some t" by (auto simp: bind_eq_Some_conv)
  have "failed_with err n u" using step_keeps_failure [OF u(1) Cons.prems(1)] Cons.prems(3) by simp
  from Cons.IH [OF this u(2)] Cons.prems(3) show ?case by simp
qed simp

lemma failed_watch_stays_failed_witness:
  "\<exists>s t. failed_with ''io'' 5000 s \<and> tab_run sample_events_env
     [TePayload (WatchMatch (sample_event 1) []), TePayload (WatchTick 0), TeVerb (VEventsWatch WvPause)] s = Some t
     \<and> failed_with ''io'' 5000 t"
proof -
  let ?s = "apply_payload (WatchFailed ''io'' 5000) (watch_landing 100 ''c'' events_new)"
  let ?es = "[TePayload (WatchMatch (sample_event 1) []), TePayload (WatchTick 0), TeVerb (VEventsWatch WvPause)]"
  have s: "failed_with ''io'' 5000 ?s"
    by (simp add: failed_with_def apply_payload_def handle_watch_payload_def watch_frame)
  obtain t where t: "tab_run sample_events_env ?es ?s = Some t"
    by (simp add: tab_step_def events_verb_step_def watch_frame watch_verb_op_def changed_def)
  have "list_all (\<lambda>e. \<not> recovering e) ?es" by (simp add: recovering_def)
  from failed_watch_stays_failed [OF s t this] s t show ?thesis by blast
qed

section \<open>The filter form\<close>

text \<open>Esc takes back whatever was typed, erased or pasted into a filter.\<close>

fun edit_all :: "(string option) list \<Rightarrow> 'r events_state \<Rightarrow> 'r events_state" where
  "edit_all [] s = s"
| "edit_all (Some ch # es) s = edit_all es (push_filter_char ch s)"
| "edit_all (None # es) s = edit_all es (pop_filter_char s)"

lemma filter_set_set [simp]: "filter_set d v (filter_set d u f) = filter_set d v f"
  by (cases d) simp_all

lemma filter_set_get [simp]: "filter_set d (filter_get d f) f = f"
  by (cases d) simp_all

lemma edit_all_form:
  assumes "es_filter_edit s = Some (d, buf)"
  shows "\<exists>buf'. es_filter_edit (edit_all es s) = Some (d, buf') \<and> es_pre_edit_value (edit_all es s) = es_pre_edit_value s
    \<and> filter_set d v (es_filters (edit_all es s)) = filter_set d v (es_filters s)"
  using assms
proof (induction es arbitrary: s buf)
  case (Cons e es)
  obtain f where f: "edit_all (e # es) s = edit_all es (edit_filter f s)"
    by (cases e) (auto simp: push_filter_char_def pop_filter_char_def intro: that)
  have "es_filter_edit (edit_filter f s) = Some (d, f buf)" using Cons.prems by (simp add: edit_filter_def)
  from Cons.IH [OF this] f Cons.prems show ?case by (auto simp: edit_filter_def)
qed simp

text \<open>
  C21: esc takes back whatever was typed, erased or pasted into a filter: after any edits of a field
  that was not being edited before, cancelling leaves the filters as they were.
\<close>

theorem cancelled_filter_restored:
  assumes "es_filter_edit s = None"
  shows "es_filters (cancel_filter_edit (edit_all es (enter_filter_edit d s))) = es_filters s"
    (is "es_filters (cancel_filter_edit ?t) = _")
proof -
  have start: "es_filter_edit (enter_filter_edit d s) = Some (d, filter_get d (es_filters s))"
    "es_pre_edit_value (enter_filter_edit d s) = Some (filter_get d (es_filters s))"
    "es_filters (enter_filter_edit d s) = es_filters s"
    using assms by (simp_all add: enter_filter_edit_def Let_def)
  from edit_all_form [OF start(1), of es "filter_get d (es_filters s)"] start(2,3)
  show ?thesis by (auto simp: cancel_filter_edit_def unwrap_or_def)
qed

lemma cancelled_filter_restored_witness:
  "es_filters (cancel_filter_edit (edit_all [None, None, Some ''h''] (enter_filter_edit FfTime (events_new :: unit events_state))))
   = filters_default"
  using cancelled_filter_restored [of "events_new :: unit events_state" "[None, None, Some ''h'']" FfTime]
  by (simp add: events_new_def)

text \<open>The type and attribute filters of the form are not part of the query.\<close>

theorem type_and_attribute_filters_ignored:
  "build_query start_date (s\<lparr>es_filters := filter_set FfTypes types (filter_set FfAttr attr (es_filters s))\<rparr>)
   = build_query start_date s"
  by (simp add: build_query_def Let_def)

text \<open>
  The narrowing guard holds for the status line only: with an empty form the watch asks for a
  narrower query, and the next Enter starts the worker on all events.
\<close>

lemma worker_starts_without_narrowing:
  "\<exists>s. tab_run sample_events_env [TeVerb (VEventsWatch WvEditPredicate), TeKey (Inr []) (plain_key KEnter)]
       (events_new\<lparr>es_filters := filters_default\<lparr>ef_time := []\<rparr>\<rparr>) = Some s
     \<and> map_option ws_status (watch s) = Some WsNarrowRequired
     \<and> map_option (can_start \<circ> fst) (restart_events_watch True s) = Some False"
proof -
  have window: "parse_time_window [] = None" by code_simp
  have parsed: "predicate_parse (ee_compile sample_events_env) [] = Inr []"
    by (simp add: predicate_parse_def skip_ws_def scan_while.simps)
  show ?thesis
    by (simp add: tab_step_def events_verb_step_def watch_verb_op_def build_query_def window events_new_def filters_default_def
        watch_def from_query_def can_start_def session_new_def enter_watch_mode_def focus_predicate_def events_text_step_def
        predicate_edit_key_def plain_key_def commit_and_restart_def commit_predicate_def parsed on_watch_def
        unfocus_predicate_def restart_events_watch_def spawn_of_def or_none_def Let_def)
qed

text \<open>Where the date arithmetic panics on overflow, a long window takes the program down.\<close>

lemma long_window_panics:
  "events_focus_step sample_events_env FaDescend
     (events_new\<lparr>es_filters := filters_default\<lparr>ef_time := ''last 9223372036854775807d''\<rparr>\<rparr>) = None"
proof -
  have trimmed: "trim ''last 9223372036854775807d'' = ''last 9223372036854775807d''"
    "trim ''9223372036854775807'' = ''9223372036854775807''" by code_simp+
  have number: "parse_i64 ''9223372036854775807'' = Some 9223372036854775807"
    by (simp add: parse_i64_def is_ascii_digit_def byte_def)
  have window: "parse_time_window ''last 9223372036854775807d'' = Some (86400, 9223372036854775807)"
    by (simp add: parse_time_window_def trimmed number unit_seconds_def)
  show ?thesis
    by (simp add: events_focus_step_def events_new_def submit_query_def build_query_def window watch_def
        sample_events_env_def Let_def)
qed

end
