(* ===== verification/Watch_Worker.thy ===== *)
theory Watch_Worker
  imports Events_Keys
begin

text \<open>
  The workers of the Events tab (\<open>src/src/view/events/worker.rs\<close>): the task of a provenance
  query, and one iteration of the watch worker, as the payloads they send for the answers of the
  server.

  The answers are arguments, in the order they arrive: a poll with the milliseconds elapsed when
  it started, the details of a tail batch in the order they complete. A closed channel, the
  deletion of the query on the server, and the rates and latencies of a tick are left out. Times
  are milliseconds; the format and the parser of dates are arguments.
\<close>

section \<open>The task of a query\<close>

definition poll_interval_ms :: nat where
  "poll_interval_ms = 750"

definition poll_timeout_ms :: nat where
  "poll_timeout_ms = 60000"

definition timeout_text :: string where
  "timeout_text = ''poll timeout after 60s''"

datatype poll_result =
    PollRunning nat
  | PollFinished "provenance_event list" bool

type_synonym poll = "nat \<times> (string + poll_result)"

fun poll_loop :: "string \<Rightarrow> poll list \<Rightarrow> events_payload list" where
  "poll_loop q [] = []"
| "poll_loop q ((elapsed, reply) # polls) =
     (if elapsed > poll_timeout_ms then [QueryFailed (Some q) timeout_text]
      else case reply of
          Inr (PollRunning percent) \<Rightarrow> QueryProgress q percent # poll_loop q polls
        | Inr (PollFinished rows truncated) \<Rightarrow> [QueryDone q rows truncated]
        | Inl err \<Rightarrow> [QueryFailed (Some q) err])"

definition spawn_query :: "string + string \<Rightarrow> poll list \<Rightarrow> events_payload list" where
  "spawn_query submitted polls =
     (case submitted of
        Inl err \<Rightarrow> [QueryFailed None err]
      | Inr q \<Rightarrow> QueryStarted q # poll_loop q polls)"

section \<open>The watch worker\<close>

fun retry_backoff :: "nat \<Rightarrow> nat" where
  "retry_backoff attempt =
     (if attempt \<le> 1 then 5 else if attempt = 2 then 10 else if attempt = 3 then 30 else 60)"

record tail_state =
  ts_cursor :: "tail_cursor option"
  ts_detail_fetch_errors :: nat
  ts_consecutive_failures :: nat

record 'r tail_env =
  te_is_match :: "'r \<Rightarrow> string \<Rightarrow> bool"
  te_format :: "int \<Rightarrow> string option"
  te_parse :: "string \<Rightarrow> int option"
  te_now :: int

text \<open>The query of an iteration: from a millisecond after the newest event, as a date in seconds.\<close>

definition iter_query :: "(int \<Rightarrow> string option) \<Rightarrow> provenance_query \<Rightarrow> tail_cursor option \<Rightarrow> provenance_query" where
  "iter_query format narrow cursor =
     (let q = (case Option.bind cursor (\<lambda>c. format (tc_last_event_time c + 1)) of
            Some s \<Rightarrow> narrow\<lparr>pq_start_time_iso := Some s\<rparr> | None \<Rightarrow> narrow)
      in if pq_max_results q = 0 then q\<lparr>pq_max_results := 1000\<rparr> else q)"

type_synonym detail = "provenance_event \<times> attribute_triple list"

definition advance_cursor :: "'r tail_env \<Rightarrow> provenance_event \<Rightarrow> tail_cursor option \<Rightarrow> tail_cursor option" where
  "advance_cursor T e cursor =
     (if (case cursor of Some c \<Rightarrow> pe_id e > tc_last_event_id c | None \<Rightarrow> True)
      then Some \<lparr>tc_last_event_id = pe_id e, tc_last_event_time = unwrap_or (te_now T) (te_parse T (pe_time_iso e))\<rparr>
      else cursor)"

definition sat_add_u64 :: "nat \<Rightarrow> nat" where
  "sat_add_u64 n = min u64_max (n + 1)"

fun scan_details ::
  "'r tail_env \<Rightarrow> 'r predicate \<Rightarrow> (string + detail) list \<Rightarrow> tail_state \<Rightarrow> tail_state \<times> events_payload list" where
  "scan_details T p [] w = (w, [])"
| "scan_details T p (Inl err # ds) w =
     scan_details T p ds (w\<lparr>ts_detail_fetch_errors := sat_add_u64 (ts_detail_fetch_errors w)\<rparr>)"
| "scan_details T p (Inr (e, attrs) # ds) w =
     (let (w', ps) = scan_details T p ds (w\<lparr>ts_cursor := advance_cursor T e (ts_cursor w)\<rparr>)
      in (w', if predicate_matches (te_is_match T) p attrs then WatchMatch e attrs # ps else ps))"

text \<open>How the submission and the polls of an iteration end.\<close>

datatype iteration =
    SubmitFailed string
  | PollFailed string
  | Scanned "(string + detail) list"

definition fail_iteration :: "string \<Rightarrow> tail_state \<Rightarrow> tail_state \<times> events_payload list" where
  "fail_iteration err w =
     (let n = min u32_max (ts_consecutive_failures w + 1)
      in (w\<lparr>ts_consecutive_failures := n\<rparr>, [WatchFailed err (retry_backoff n * 1000)]))"

definition tail_iteration :: "'r tail_env \<Rightarrow> 'r predicate \<Rightarrow> iteration \<Rightarrow> tail_state \<Rightarrow> tail_state \<times> events_payload list" where
  "tail_iteration T p it w =
     (case it of
        SubmitFailed err \<Rightarrow> fail_iteration err w
      | PollFailed err \<Rightarrow> fail_iteration err (w\<lparr>ts_consecutive_failures := 0\<rparr>)
      | Scanned ds \<Rightarrow>
          let (w', ps) = scan_details T p ds (w\<lparr>ts_consecutive_failures := 0\<rparr>)
          in (w', ps @ [WatchTick (ts_detail_fetch_errors w')]))"

fun tail_run :: "'r tail_env \<Rightarrow> 'r predicate \<Rightarrow> iteration list \<Rightarrow> tail_state \<Rightarrow> tail_state \<times> events_payload list" where
  "tail_run T p [] w = (w, [])"
| "tail_run T p (it # its) w =
     (let (w1, ps) = tail_iteration T p it w; (w2, qs) = tail_run T p its w1 in (w2, ps @ qs))"

definition spawn_watch :: "tail_cursor option \<Rightarrow> tail_state" where
  "spawn_watch initial_cursor = \<lparr>ts_cursor = initial_cursor, ts_detail_fetch_errors = 0, ts_consecutive_failures = 0\<rparr>"

section \<open>A query ends\<close>

definition final_payload :: "events_payload \<Rightarrow> bool" where
  "final_payload p \<longleftrightarrow> (case p of QueryDone q rows b \<Rightarrow> True | QueryFailed q err \<Rightarrow> True | _ \<Rightarrow> False)"

lemma poll_loop_ends:
  assumes "\<exists>x\<in>set polls. fst x > poll_timeout_ms"
  shows "poll_loop q polls \<noteq> [] \<and> final_payload (List.last (poll_loop q polls))"
  using assms
proof (induction polls)
  case (Cons x polls)
  then show ?case by (cases x) (auto simp: final_payload_def split: sum.splits poll_result.splits)
qed simp

text \<open>
  C19: the polls are at least the interval apart, so after eighty-two of them the query has been
  answered, has failed, or has timed out.
\<close>

theorem query_task_ends:
  assumes "\<And>k. k < length polls \<Longrightarrow> poll_interval_ms * k \<le> fst (polls ! k)" and "length polls \<ge> 82"
  shows "final_payload (List.last (spawn_query submitted polls))"
proof (cases submitted)
  case (Inl err)
  then show ?thesis by (simp add: spawn_query_def final_payload_def)
next
  case (Inr q)
  have "poll_interval_ms * 81 \<le> fst (polls ! 81)" using assms by simp
  then have "fst (polls ! 81) > poll_timeout_ms" by (simp add: poll_interval_ms_def poll_timeout_ms_def)
  then have "\<exists>x\<in>set polls. fst x > poll_timeout_ms" using assms(2) by (intro bexI [of _ "polls ! 81"]) simp_all
  from poll_loop_ends [OF this] Inr show ?thesis by (simp add: spawn_query_def)
qed

lemma query_task_ends_witness:
  "final_payload (List.last (spawn_query (Inr ''q'') (map (\<lambda>k. (750 * k, Inr (PollRunning 1))) [0..<82])))"
  by (rule query_task_ends) (simp_all add: poll_interval_ms_def)

text \<open>Undisturbed, the task delivers the rows of the poll that finished to the tab that submitted it.\<close>

lemma progress_run:
  assumes "running_id (es_status s) = Some q" and "es_events s = []"
    and "list_all (\<lambda>x. fst x \<le> poll_timeout_ms \<and> (\<exists>n. snd x = Inr (PollRunning n))) waiting" and "elapsed \<le> poll_timeout_ms"
  shows "es_events (payloads (poll_loop q (waiting @ [(elapsed, Inr (PollFinished rows b))])) s) = rows
    \<and> es_status (payloads (poll_loop q (waiting @ [(elapsed, Inr (PollFinished rows b))])) s) = QsDone b"
  using assms
proof (induction waiting arbitrary: s)
  case Nil
  then show ?case by (simp add: payloads_def apply_payload_def)
next
  case (Cons x waiting)
  then obtain n where x: "snd x = Inr (PollRunning n)" "fst x \<le> poll_timeout_ms" by auto
  have "running_id (es_status (apply_payload (QueryProgress q n) s)) = Some q"
    "es_events (apply_payload (QueryProgress q n) s) = []"
    using Cons.prems(1,2) by (simp_all add: apply_payload_def)
  from Cons.IH [OF this] Cons.prems(3,4) x show ?case
    by (cases x) (simp add: payloads_def not_le [symmetric])
qed

text \<open>
  C17: undisturbed, a query whose polls run in time and whose last poll finishes delivers exactly the
  rows of that poll to the tab that submitted it, with its mark for truncated results.
\<close>

theorem finished_query_delivers:
  assumes "list_all (\<lambda>x. fst x \<le> poll_timeout_ms \<and> (\<exists>n. snd x = Inr (PollRunning n))) waiting"
    and "elapsed \<le> poll_timeout_ms"
  shows "es_events (payloads (spawn_query (Inr q) (waiting @ [(elapsed, Inr (PollFinished rows b))])) s) = rows
    \<and> es_status (payloads (spawn_query (Inr q) (waiting @ [(elapsed, Inr (PollFinished rows b))])) s) = QsDone b"
proof -
  let ?s = "apply_payload (QueryStarted q) s"
  have "running_id (es_status ?s) = Some q" "es_events ?s = []" by (simp_all add: apply_payload_def)
  from progress_run [OF this assms] show ?thesis by (simp add: spawn_query_def payloads_def)
qed

lemma finished_query_delivers_witness:
  "es_events (payloads (spawn_query (Inr ''q'') [(0, Inr (PollRunning 40)), (750, Inr (PollFinished [sample_event 1] False))])
     (events_new :: unit events_state)) = [sample_event 1]"
  using finished_query_delivers [of "[(0, Inr (PollRunning 40))]" 750 "''q''" "[sample_event 1]" False "events_new :: unit events_state"]
  by (simp add: poll_timeout_ms_def)

section \<open>What an iteration reports\<close>

definition fetched :: "(string + detail) list \<Rightarrow> detail list" where
  "fetched ds = List.map_filter (\<lambda>d. case d of Inr x \<Rightarrow> Some x | Inl e \<Rightarrow> None) ds"

lemma fetched_simps [simp]: "fetched [] = []" "fetched (Inl err # ds) = fetched ds" "fetched (Inr x # ds) = x # fetched ds"
  by (simp_all add: fetched_def)

lemma scan_reports:
  "snd (scan_details T p ds w)
   = map (\<lambda>(e, attrs). WatchMatch e attrs) (filter (\<lambda>(e, attrs). predicate_matches (te_is_match T) p attrs) (fetched ds))"
proof (induction ds arbitrary: w)
  case (Cons d ds)
  then show ?case by (cases d) (auto simp: case_prod_beta)
qed simp

definition cursor_id :: "tail_cursor option \<Rightarrow> int set" where
  "cursor_id c = (case c of None \<Rightarrow> {} | Some c \<Rightarrow> {tc_last_event_id c})"

lemma advance_id:
  "map_option tc_last_event_id (advance_cursor T e c) = Some (Max (insert (pe_id e) (cursor_id c)))"
  by (auto simp: advance_cursor_def cursor_id_def max_def split: option.split)

lemma max_of_max: "finite A \<Longrightarrow> A \<noteq> {} \<Longrightarrow> finite B \<Longrightarrow> Max (insert (Max A) B) = Max (A \<union> B)"
  for A B :: "int set"
  by (cases "B = {}") (simp_all add: Max_Un)

lemma scan_cursor:
  "cursor_id (ts_cursor (fst (scan_details T p ds w))) = (let ids = cursor_id (ts_cursor w) \<union> pe_id ` fst ` set (fetched ds)
     in if ids = {} then {} else {Max ids})"
proof (induction ds arbitrary: w)
  case Nil
  then show ?case by (simp add: cursor_id_def split: option.split)
next
  case (Cons d ds)
  show ?case
  proof (cases d)
    case (Inl err)
    then show ?thesis using Cons.IH by simp
  next
    case (Inr x)
    obtain e attrs where x: "x = (e, attrs)" by (cases x)
    let ?c = "advance_cursor T e (ts_cursor w)" and ?rest = "pe_id ` fst ` set (fetched ds)"
    have c: "cursor_id ?c = {Max (insert (pe_id e) (cursor_id (ts_cursor w)))}"
      using advance_id [of T e "ts_cursor w"] by (cases ?c) (simp_all add: cursor_id_def)
    have fin: "finite (cursor_id (ts_cursor w))" by (simp add: cursor_id_def split: option.split)
    have "Max (insert (Max (insert (pe_id e) (cursor_id (ts_cursor w)))) ?rest)
        = Max (insert (pe_id e) (cursor_id (ts_cursor w)) \<union> ?rest)"
      using fin by (intro max_of_max) simp_all
    then show ?thesis using Cons.IH [of "w\<lparr>ts_cursor := ?c\<rparr>"] Inr x c by (simp add: case_prod_beta Let_def)
  qed
qed

text \<open>
  C18: a tail batch reports exactly the events whose details were fetched and match, each once and in
  the order they came, and moves the cursor to the greatest id.
\<close>

theorem batch_reports_matches:
  "snd (tail_iteration T p (Scanned ds) w)
     = map (\<lambda>(e, attrs). WatchMatch e attrs) (filter (\<lambda>(e, attrs). predicate_matches (te_is_match T) p attrs) (fetched ds))
       @ [WatchTick (ts_detail_fetch_errors (fst (tail_iteration T p (Scanned ds) w)))]
   \<and> cursor_id (ts_cursor (fst (tail_iteration T p (Scanned ds) w)))
     = (let ids = cursor_id (ts_cursor w) \<union> pe_id ` fst ` set (fetched ds) in if ids = {} then {} else {Max ids})"
  using scan_reports [of T p ds "w\<lparr>ts_consecutive_failures := 0\<rparr>"]
    scan_cursor [of T p ds "w\<lparr>ts_consecutive_failures := 0\<rparr>"]
  by (simp add: tail_iteration_def case_prod_beta Let_def)

section \<open>The newest match repeats\<close>

lemma same_second:
  fixes t :: int
  assumes "t mod 1000 \<noteq> 999"
  shows "(t + 1) div 1000 = t div 1000"
proof -
  have r: "0 \<le> t mod 1000" "t mod 1000 < 1000" by simp_all
  have "(t + 1) div 1000 = (t mod 1000 + 1 + 1000 * (t div 1000)) div 1000" by (simp add: algebra_simps)
  also have "\<dots> = t div 1000 + (t mod 1000 + 1) div 1000" by (rule div_mult_self2) simp
  also have "(t mod 1000 + 1) div 1000 = 0" using r assms by (intro div_pos_pos_trivial) linarith+
  finally show ?thesis by simp
qed

text \<open>The filters of a query, on the event: its component, its flow file, its types.\<close>

definition asks_for :: "provenance_query \<Rightarrow> provenance_event \<Rightarrow> bool" where
  "asks_for q e \<longleftrightarrow>
     (case pq_component_id q of None \<Rightarrow> True | Some c \<Rightarrow> pe_component_id e = c)
   \<and> (case pq_flow_file_uuid q of None \<Rightarrow> True | Some u \<Rightarrow> pe_flow_file_uuid e = u)
   \<and> (pq_event_types q = [] \<or> pe_type e \<in> set (pq_event_types q))"

text \<open>
  What the server promises: while it stores no more events than the query may return, a query
  with a start date and no end date is answered with every stored event that fits its filters
  and is not older than the second of the start date.
\<close>

definition serves :: "(int \<Rightarrow> string) \<Rightarrow> (provenance_event \<Rightarrow> int) \<Rightarrow> detail list \<Rightarrow> (provenance_query \<Rightarrow> detail list) \<Rightarrow> bool" where
  "serves date time_of stored server \<longleftrightarrow>
     (\<forall>q sec e attrs. pq_start_time_iso q = Some (date sec) \<longrightarrow> pq_end_time_iso q = None \<longrightarrow> length stored \<le> pq_max_results q \<longrightarrow>
        (e, attrs) \<in> set stored \<longrightarrow> asks_for q e \<longrightarrow> sec * 1000 \<le> time_of e \<longrightarrow> (e, attrs) \<in> set (server q))"

text \<open>
  C40: the start date of the next iteration has no milliseconds and the server includes it. While the
  cursor stands on an event that fits the filters of the session and the predicate, and that did
  not fall into the last millisecond of its second, every further iteration reports it again.
\<close>

theorem newest_match_repeats:
  assumes "\<And>t. te_format T t = Some (date (t div 1000))" and "serves date time_of stored server"
    and "(e, attrs) \<in> set stored" and "asks_for narrow e" and "predicate_matches (te_is_match T) p attrs"
    and "pq_end_time_iso narrow = None"
    and "length stored \<le> (if pq_max_results narrow = 0 then 1000 else pq_max_results narrow)"
    and "ts_cursor w = Some c" and "tc_last_event_time c = time_of e" and "time_of e mod 1000 \<noteq> 999"
  shows "WatchMatch e attrs \<in> set (snd (tail_iteration T p (Scanned (map Inr (server (iter_query (te_format T) narrow (ts_cursor w))))) w))"
proof -
  let ?q = "iter_query (te_format T) narrow (ts_cursor w)" and ?t = "time_of e"
  have second: "(?t + 1) div 1000 = ?t div 1000" by (rule same_second [OF assms(10)])
  have q: "?q = narrow\<lparr>pq_start_time_iso := Some (date (?t div 1000)),
      pq_max_results := (if pq_max_results narrow = 0 then 1000 else pq_max_results narrow)\<rparr>"
    using assms(1,8,9) second by (simp add: iter_query_def Let_def)
  have early: "?t div 1000 * 1000 \<le> ?t" using div_mult_mod_eq [of ?t 1000] pos_mod_sign [of 1000 ?t] by linarith
  have again: "(e, attrs) \<in> set (server ?q)"
    using assms(2-4,6,7) early unfolding serves_def q by (simp add: asks_for_def)
  have all: "fetched (map Inr xs) = xs" for xs :: "detail list" by (induction xs) simp_all
  show ?thesis
    using again assms(5)
    by (auto simp: tail_iteration_def case_prod_beta Let_def scan_reports all image_iff intro!: bexI [of _ "(e, attrs)"])
qed

text \<open>Dates that count seconds in strokes.\<close>

definition tally :: "int \<Rightarrow> string" where
  "tally sec = replicate (nat sec) CHR ''I''"

definition sample_tail :: "unit tail_env" where
  "sample_tail = \<lparr>te_is_match = (\<lambda>_ _. True), te_format = (\<lambda>t. Some (tally (t div 1000))), te_parse = (\<lambda>_. Some 5400), te_now = 0\<rparr>"

text \<open>
  A server with an event of the component of the session and one of another component, both in
  the second the cursor stands in. It reads the filters and the start date of the query.
\<close>

definition other_event :: provenance_event where
  "other_event = (sample_event 0)\<lparr>pe_component_id := ''other''\<rparr>"

definition sample_stored :: "detail list" where
  "sample_stored = [(sample_event 1, []), (other_event, [])]"

definition sample_store :: "provenance_query \<Rightarrow> detail list" where
  "sample_store q = filter (\<lambda>(e, attrs). asks_for q e \<and>
     (case pq_start_time_iso q of None \<Rightarrow> True | Some s \<Rightarrow> int (length s) * 1000 \<le> 5400)) sample_stored"

definition sample_narrow :: provenance_query where
  "sample_narrow = query_default\<lparr>pq_component_id := Some (pe_component_id (sample_event 1))\<rparr>"

lemma sample_serves: "serves tally (\<lambda>_. 5400) sample_stored sample_store"
proof -
  have early: "int (length (tally sec)) * 1000 \<le> 5400" if "sec * 1000 \<le> 5400" for sec
    using that by (cases "0 \<le> sec") (simp_all add: tally_def)
  then show ?thesis by (simp add: serves_def sample_store_def)
qed

lemma newest_match_repeats_witness:
  "let first = tail_iteration sample_tail [] (Scanned (map Inr (sample_store sample_narrow))) (spawn_watch None);
       second = tail_iteration sample_tail [] (Scanned (map Inr (sample_store
         (iter_query (te_format sample_tail) sample_narrow (ts_cursor (fst first)))))) (fst first)
   in snd first = [WatchMatch (sample_event 1) [], WatchTick 0] \<and> WatchMatch (sample_event 1) [] \<in> set (snd second)"
proof -
  let ?first = "tail_iteration sample_tail [] (Scanned (map Inr (sample_store sample_narrow))) (spawn_watch None)"
  have asked: "sample_store sample_narrow = [(sample_event 1, [])]"
    by (simp add: sample_store_def sample_stored_def asks_for_def sample_narrow_def query_default_def other_event_def)
      (simp add: sample_event_def)
  have first: "snd ?first = [WatchMatch (sample_event 1) [], WatchTick 0]"
    by (simp add: tail_iteration_def asked spawn_watch_def predicate_matches_def)
  have cursor: "ts_cursor (fst ?first) = Some \<lparr>tc_last_event_id = 1, tc_last_event_time = 5400\<rparr>"
    by (simp add: tail_iteration_def asked spawn_watch_def advance_cursor_def sample_tail_def unwrap_or_def)
      (simp add: sample_event_def)
  have "WatchMatch (sample_event 1) [] \<in> set (snd (tail_iteration sample_tail [] (Scanned (map Inr (sample_store
      (iter_query (te_format sample_tail) sample_narrow (ts_cursor (fst ?first)))))) (fst ?first)))"
    by (rule newest_match_repeats [OF _ sample_serves _ _ _ _ _ cursor])
      (simp_all add: sample_tail_def sample_stored_def predicate_matches_def asks_for_def sample_narrow_def query_default_def)
  with first show ?thesis by (simp only: Let_def simp_thms)
qed

section \<open>The back-off\<close>

text \<open>
  A submission that succeeds resets the count of failures, so however often the polls fail the
  worker waits no longer than five seconds; failing submissions wait longer each time.
\<close>

theorem poll_failures_never_back_off:
  "snd (tail_run T p (map PollFailed errs) w) = map (\<lambda>err. WatchFailed err 5000) errs"
  by (induction errs arbitrary: w)
    (simp_all add: tail_iteration_def fail_iteration_def u32_max_def case_prod_beta Let_def)

lemma submit_failures_back_off:
  "snd (tail_run T p (map SubmitFailed [''a'', ''b'', ''c'', ''d'', ''e'']) (spawn_watch cursor))
   = [WatchFailed ''a'' 5000, WatchFailed ''b'' 10000, WatchFailed ''c'' 30000, WatchFailed ''d'' 60000, WatchFailed ''e'' 60000]"
  by (simp add: tail_iteration_def fail_iteration_def spawn_watch_def u32_max_def)

end
