(* ===== verification/Spec2Isabelle.thy ===== *)
theory Spec2Isabelle
  imports Tab_History List_Navigation Scroll Text_Utils Predicate_Printing Fetch_Tasks Bulletins_View Browser_Rebuild Browser_Input App_Keys Watch_Worker
begin

text \<open>
  A verification library for nifi-lens, a terminal interface to Apache NiFi written in Rust. The
  program polls a NiFi cluster through background tasks, folds the answers into one cluster store,
  mirrors that store into the tabs of the interface (Overview, Bulletins, Browser, Events, Tracer),
  and sends every key through one dispatcher to the application, its modals or the active tab. The
  tabs are pure state: workers send them payloads, their handlers answer with effects the event loop
  carries out. The theories below model that state, its operations and their composition; paths are
  relative to \<open>src/src\<close>.

  \<^bold>\<open>Shared layer.\<close> \<open>Prelude\<close>: saturating arithmetic, results as sums, checked indexing.
  \<open>Text_Utils\<close>: Rust strings as UTF-8 byte lists, and the substring search of the modals
  (\<open>widget/search.rs\<close>). \<open>Scroll\<close>: \<open>widget/scroll.rs\<close>. \<open>List_Navigation\<close>: the trait of
  \<open>app/navigation.rs\<close> as a record of its required methods, with its default methods as functions of
  the record. \<open>Modal_Search\<close>: the search box every modal repeats. \<open>App_Types\<close>, \<open>Tab_History\<close>: the
  tabs and the back/forward history (\<open>app/history.rs\<close>).

  \<^bold>\<open>Client and cluster.\<close> \<open>Client_Types\<close>, \<open>Flow_Status\<close>, \<open>Node_Health\<close>, \<open>Status_History\<close>,
  \<open>Access_Audit\<close>, \<open>Param_Context\<close>, \<open>Param_Refs\<close>: the pure half of \<open>client/*.rs\<close>, from the records of
  the API to the snapshots the program works on. \<open>Cluster_Snapshot\<close>, \<open>Cluster_Store\<close>,
  \<open>Fetch_Tasks\<close>: \<open>cluster/*.rs\<close>, the snapshot of twelve endpoints, the subscriber registry, the
  store loop, and the fetch tasks with their cadence, their parking and their bulletin cursor.

  \<^bold>\<open>Input.\<close> \<open>Verbs\<close>, \<open>Key_Map\<close>: \<open>input/*.rs\<close>, the verb tables of every view and the translation of a
  key under the modal gates.

  \<^bold>\<open>Bulletins.\<close> \<open>Bulletins_State\<close>, \<open>Bulletins_View\<close>: \<open>view/bulletins/state/mod.rs\<close>.

  \<^bold>\<open>Browser.\<close> \<open>Browser_Types\<close>, \<open>Browser_Arena\<close>, \<open>Browser_Detail\<close>, \<open>Browser_Tree\<close>, \<open>Browser_Rebuild\<close>,
  \<open>Browser_Focus\<close>, \<open>Queue_Listing\<close>, \<open>Modal_Bodies\<close>, \<open>Browser_Modals\<close>: the state under
  \<open>view/browser/state\<close>, an arena of nodes rebuilt from every cluster snapshot, with its selection,
  details, flow index, panes and five full-screen modals. \<open>Browser_Input\<close> is the keyboard of the tab
  (\<open>app/state/browser/mod.rs\<close>), \<open>Browser_Landing\<close> the cross-links that land on a component.
  \<open>Browser_View\<close>, \<open>Browser_Pane\<close>, \<open>Browser_Events\<close> hold what the tab promises over runs of events.

  \<^bold>\<open>Overview and Events.\<close> \<open>Overview_State\<close>, \<open>Overview_Keys\<close>: \<open>view/overview/state.rs\<close> and
  \<open>app/state/overview.rs\<close>. \<open>Watch_Predicate\<close>, \<open>Predicate_Printing\<close>: the predicate language of
  \<open>client/predicate.rs\<close> (the written form it is parsed back from is a reference of the library, not
  of the program). \<open>Events_State\<close>, \<open>Events_Keys\<close>, \<open>Watch_Worker\<close>:
  \<open>view/events/state.rs\<close>, \<open>app/state/events.rs\<close>, the watch part of \<open>app/worker.rs\<close> and the polling
  tasks of \<open>view/events/worker.rs\<close>.

  \<^bold>\<open>Application.\<close> \<open>Fuzzy_Find\<close>: \<open>widget/fuzzy_find.rs\<close>. \<open>App_State\<close>, \<open>App_Tabs\<close>, \<open>App_Keys\<close>: the state
  above the tabs and \<open>handle_key\<close> of \<open>app/state/mod.rs\<close> with every application modal. A tab is a
  record of handlers there; Bulletins and Browser are fixed, Overview and Events are plugged in by
  \<open>with_tabs\<close>, the Tracer stays an argument.

  \<^bold>\<open>Correspondence.\<close> A Rust struct is a record, an enum a datatype, an \<open>Option\<close> an \<open>option\<close>, an \<open>Err\<close>
  the left of a sum; a function that may panic answers \<open>None\<close>. A \<open>&mut self\<close> method returns the new
  state. Counters that cannot wrap are \<open>nat\<close>; saturation, casts and wrap-around that matter are
  written out, and an overflow wraps, as it does in the release profile. Third-party code is an argument: the regular expressions, the fuzzy matcher, Unicode
  case mapping, date arithmetic and formatting, the clipboard, and the answers of the server.

  \<^bold>\<open>Interfaces.\<close> \<open>list_navigation\<close> is what an implementor owes the navigation trait, interpreted on the
  bare cursor, the node table, the bulletins and the tree; \<open>modal_search\<close> on the seven searchable
  modals; \<open>chord_table\<close> (chords of a table are distinct, so a key finds its verb) on the fourteen verb
  tables; \<open>subscription_registry\<close> on the registry; \<open>modal_keeping\<close> (a tab handler opens only
  application modals that are well formed) on the handlers of every modelled tab.

  \<^bold>\<open>What is shown.\<close> State invariants over arbitrary runs of events (trees, selections, cursors, focus,
  bounded buffers, one Browser modal at a time until a
  parameter-context link lands); the contents of derived data (grouped bulletins, sparkline,
  leaderboard, access matrix, parameter chain, flow index, finder results) against reference
  definitions; refinements (the trait against an abstract cursor, the store against a fold of each
  endpoint's results, the rebuilt tab against the snapshot); round trips (written predicates through
  the parser, history, cancelled edits); no lost wake-up and termination of the polling tasks; keys
  that reach only the modal that owns them. Some theorems pin down behaviour the code does not
  intend, such as the garbage collector's delta that a redraw loses or the watch mode that no key
  leaves, and so do the lemmas \<open>paused_redraw_dangles\<close>, \<open>down_panics_when_section_vanishes\<close>,
  \<open>poll_failures_never_back_off\<close> and \<open>filter_loses_letters\<close>.

  \<^bold>\<open>Bounds.\<close> The bounds are those of the source: sixteen contexts in a parameter chain, twenty history
  entries, fifty finder results, fifteen sparkline buckets, five noisy sources, ten queues, and the
  configured capacities of the rings. \<open>trim\<close> recurses with the length of the text as fuel, and each
  step removes a byte. A provenance query is polled at most as often as its deadline allows
  (eighty-two times), and a query that stays unfinished ends with a time-out. The poll loops take the
  list of answers as argument.

  \<^bold>\<open>Not modelled.\<close> Painting with ratatui and the theme (pure output); the async runtime, HTTP client,
  authentication and TLS; the intent dispatcher and the event loop of \<open>app/mod.rs\<close>, which only carry
  effects to tasks; configuration files, logging and the command line; byte and time formatting for
  display; the Tracer tab, whose lineage view and content viewer rest on decoders and a differ of
  other crates; the integration-test seeder, a separate program.
\<close>

end
